(* ===== verification/Prelude.thy ===== *)
theory Prelude
  imports Main "HOL-Library.Word" "HOL-Library.AList" "HOL-Library.Multiset"
begin

text \<open>
  The vocabulary shared by every component: Go errors as values, Go maps, the functions of the
  packages \<^verbatim>\<open>strings\<close> and \<^verbatim>\<open>strconv\<close> that the sources call, and the
  generic lemmas on them.

  \<^item> An error is a text and the sentinels that \<^verbatim>\<open>errors.Is\<close> (or
    \<^verbatim>\<open>apierrors.IsNotFound\<close>) finds in its chain; \<^verbatim>\<open>fmt.Errorf\<close> with
    \<^verbatim>\<open>%w\<close> keeps the chain and extends the text. A Go panic is the separate value
    \<open>Panic\<close>, which no wrapping changes.
  \<^item> A Go function returning \<^verbatim>\<open>(T, error)\<close> is of type \<open>error + 't\<close>.
  \<^item> A Go map is an association list with distinct keys. Go iterates over a map in an
    unspecified order: a \<^verbatim>\<open>range\<close> loop follows the order of the list, and a
    statement about an arbitrary list covers every order. A map that may be nil is of type
    \<open>('k, 'v) gomap option\<close>.
\<close>

named_theorems err_simps \<open>simplification of errors and results\<close>
named_theorems gomap_simps \<open>simplification of map operations\<close>

section \<open>Errors\<close>

datatype sentinel =
    NotFound
  | AlreadyExists
  | Conflict
  | ErrNoMatchedIPPool
  | ErrNoAvailableIP
  | ErrNoRunningBackendServer
  | ErrAllBackendServersNotHealthy
  | ErrAllBackendServersNoIP
  | ErrWaitExternalIP
  | ErrInvalidFormat

datatype error =
    Error (err_text: string) (err_chain: "sentinel list")
  | Panic (err_text: string)
  where "err_chain (Panic s) = []"

type_synonym 'a res = "error + 'a"

definition errorf :: "string \<Rightarrow> error" where
  "errorf s = Error s []"

fun wrapf :: "string \<Rightarrow> error \<Rightarrow> error" where
  "wrapf pre (Error s c) = Error (pre @ s) c"
| "wrapf pre (Panic s) = Panic s"

definition errors_Is :: "error \<Rightarrow> sentinel \<Rightarrow> bool" where
  "errors_Is e s \<longleftrightarrow> s \<in> set (err_chain e)"

fun is_panic :: "error \<Rightarrow> bool" where
  "is_panic (Error s c) = False"
| "is_panic (Panic s) = True"

definition ok :: "'a res \<Rightarrow> bool" where
  "ok r \<longleftrightarrow> (case r of Inl _ \<Rightarrow> False | Inr _ \<Rightarrow> True)"

lemma ok_simps [simp]: "\<not> ok (Inl e)" "ok (Inr x)"
  by (simp_all add: ok_def)

lemma ok_iff: "ok r \<longleftrightarrow> (\<exists>x. r = Inr x)"
  by (cases r) auto

lemma errorf_simps [simp, err_simps]:
  "err_text (errorf s) = s" "err_chain (errorf s) = []" "\<not> is_panic (errorf s)"
  by (simp_all add: errorf_def)

lemma wrapf_chain [simp, err_simps]: "err_chain (wrapf pre e) = err_chain e"
  by (cases e) auto

lemma wrapf_panic [simp, err_simps]: "is_panic (wrapf pre e) = is_panic e"
  by (cases e) auto

lemma errors_Is_wrapf [simp, err_simps]: "errors_Is (wrapf pre e) s = errors_Is e s"
  by (simp add: errors_Is_def)

lemma errors_Is_errorf [simp, err_simps]: "\<not> errors_Is (errorf m) s"
  by (simp add: errors_Is_def)

text \<open>A loop that stops at the first error, as \<^verbatim>\<open>for ... { if err != nil { return err } }\<close>.\<close>

fun res_map :: "('a \<Rightarrow> 'b res) \<Rightarrow> 'a list \<Rightarrow> 'b list res" where
  "res_map f [] = Inr []"
| "res_map f (x # xs) =
     (case f x of
        Inl e \<Rightarrow> Inl e
      | Inr y \<Rightarrow> (case res_map f xs of Inl e \<Rightarrow> Inl e | Inr ys \<Rightarrow> Inr (y # ys)))"

lemma res_map_Inr_iff: "res_map f xs = Inr ys \<longleftrightarrow> list_all2 (\<lambda>x y. f x = Inr y) xs ys"
proof (induction xs arbitrary: ys)
  case Nil
  then show ?case by auto
next
  case (Cons x xs)
  have "(case res_map f xs of Inl e \<Rightarrow> Inl e | Inr zs \<Rightarrow> Inr (y # zs)) = Inr ys \<longleftrightarrow>
      (\<exists>zs. ys = y # zs \<and> res_map f xs = Inr zs)" for y
    by (cases "res_map f xs") auto
  then show ?case by (cases "f x") (auto simp: Cons.IH list_all2_Cons1)
qed

lemma list_all2_mem_left: "list_all2 P xs ys \<Longrightarrow> x \<in> set xs \<Longrightarrow> \<exists>y \<in> set ys. P x y"
  by (induction rule: list_all2_induct) auto

lemma list_all2_mem_right: "list_all2 P xs ys \<Longrightarrow> y \<in> set ys \<Longrightarrow> \<exists>x \<in> set xs. P x y"
  by (induction rule: list_all2_induct) auto

lemma res_map_mem: "res_map f xs = Inr ys \<Longrightarrow> y \<in> set ys \<Longrightarrow> \<exists>x \<in> set xs. f x = Inr y"
  by (auto simp: res_map_Inr_iff list_all2_conv_all_nth in_set_conv_nth Bex_def)

lemma res_map_length: "res_map f xs = Inr ys \<Longrightarrow> length ys = length xs"
  by (auto simp: res_map_Inr_iff dest: list_all2_lengthD)

lemma res_map_Inl: "res_map f xs = Inl e \<Longrightarrow> \<exists>x \<in> set xs. f x = Inl e"
  by (induction xs) (auto split: sum.splits)

section \<open>Maps\<close>

type_synonym ('k, 'v) gomap = "('k \<times> 'v) list"
type_synonym strmap = "(string, string) gomap"

abbreviation m_get :: "('k, 'v) gomap \<Rightarrow> 'k \<Rightarrow> 'v option" where
  "m_get m k \<equiv> map_of m k"

abbreviation m_set :: "'k \<Rightarrow> 'v \<Rightarrow> ('k, 'v) gomap \<Rightarrow> ('k, 'v) gomap" where
  "m_set k v m \<equiv> AList.update k v m"

abbreviation m_del :: "'k \<Rightarrow> ('k, 'v) gomap \<Rightarrow> ('k, 'v) gomap" where
  "m_del k m \<equiv> AList.delete k m"

definition m_wf :: "('k, 'v) gomap \<Rightarrow> bool" where
  "m_wf m \<longleftrightarrow> distinct (map fst m)"

definition entries :: "('k, 'v) gomap option \<Rightarrow> ('k, 'v) gomap" where
  "entries m = (case m of None \<Rightarrow> [] | Some xs \<Rightarrow> xs)"

definition str_get :: "strmap option \<Rightarrow> string \<Rightarrow> string" where
  "str_get m k = (case m_get (entries m) k of None \<Rightarrow> '''' | Some v \<Rightarrow> v)"

lemma entries_simps [simp, gomap_simps]: "entries None = []" "entries (Some m) = m"
  by (simp_all add: entries_def)

lemma m_wf_Nil [simp, gomap_simps]: "m_wf []"
  by (simp add: m_wf_def)

lemma m_wf_Cons [simp, gomap_simps]: "m_wf ((k, v) # m) \<longleftrightarrow> k \<notin> fst ` set m \<and> m_wf m"
  by (simp add: m_wf_def)

lemma m_wf_set [intro, gomap_simps]: "m_wf m \<Longrightarrow> m_wf (m_set k v m)"
  by (simp add: m_wf_def distinct_update)

lemma m_wf_del [intro, gomap_simps]: "m_wf m \<Longrightarrow> m_wf (m_del k m)"
  by (simp add: m_wf_def distinct_delete)

lemma m_get_set [gomap_simps]: "m_get (m_set k v m) k' = (if k' = k then Some v else m_get m k')"
  by (simp add: update_conv')

lemma m_get_del [gomap_simps]: "m_get (m_del k m) k' = (if k' = k then None else m_get m k')"
  by (simp add: delete_conv')

lemma m_get_None: "m_get m k = None \<longleftrightarrow> k \<notin> fst ` set m"
  by (simp add: map_of_eq_None_iff)

lemma m_get_mem: "m_wf m \<Longrightarrow> (k, v) \<in> set m \<longleftrightarrow> m_get m k = Some v"
  by (simp add: m_wf_def)

lemma length_set_new [gomap_simps]: "m_get m k = None \<Longrightarrow> length (m_set k v m) = Suc (length m)"
  by (induction m) (auto split: if_splits)

lemma length_set_old [gomap_simps]: "m_get m k = Some w \<Longrightarrow> length (m_set k v m) = length m"
  by (induction m) (auto split: if_splits)

lemma delete_absent: "k \<notin> fst ` set m \<Longrightarrow> m_del k m = m"
  by (induction m) (auto simp: AList.delete_eq)

lemma length_del_present [gomap_simps]:
  assumes "m_wf m" and "m_get m k = Some v"
  shows "Suc (length (m_del k m)) = length m"
  using assms
proof (induction m)
  case (Cons p m)
  obtain k' v' where p: "p = (k', v')" by (cases p)
  show ?case
  proof (cases "k' = k")
    case True
    with Cons.prems p have "k \<notin> fst ` set m" by simp
    then have "m_del k m = m" by (rule delete_absent)
    with True p show ?thesis by (simp add: AList.delete_eq)
  next
    case False
    with Cons p show ?thesis by (simp add: AList.delete_eq)
  qed
qed simp

lemma keys_set [gomap_simps]: "fst ` set (m_set k v m) = insert k (fst ` set m)"
  by (simp add: dom_map_of_conv_image_fst [symmetric] update_conv')

lemma keys_del [gomap_simps]: "fst ` set (m_del k m) = fst ` set m - {k}"
  by (auto simp: dom_map_of_conv_image_fst [symmetric] delete_conv' dom_def)

section \<open>Strings\<close>

text \<open>\<^verbatim>\<open>strings.Split\<close> and \<^verbatim>\<open>strings.SplitN(s, sep, 2)\<close> at a one-character separator.\<close>

fun Split :: "char \<Rightarrow> string \<Rightarrow> string list" where
  "Split c [] = [[]]"
| "Split c (x # xs) =
     (if x = c then [] # Split c xs
      else (case Split c xs of [] \<Rightarrow> [[x]] | y # ys \<Rightarrow> (x # y) # ys))"

fun SplitN2 :: "char \<Rightarrow> string \<Rightarrow> string list" where
  "SplitN2 c [] = [[]]"
| "SplitN2 c (x # xs) =
     (if x = c then [[], xs]
      else (case SplitN2 c xs of [] \<Rightarrow> [[x]] | y # ys \<Rightarrow> (x # y) # ys))"

lemma Split_neq_Nil [simp]: "Split c s \<noteq> []"
  by (induction s) (auto split: list.splits)

lemma SplitN2_neq_Nil [simp]: "SplitN2 c s \<noteq> []"
  by (induction s) (auto split: list.splits)

lemma Split_no_sep [simp]: "c \<notin> set s \<Longrightarrow> Split c s = [s]"
  by (induction s) auto

lemma Split_append_sep: "c \<notin> set s \<Longrightarrow> Split c (s @ c # t) = s # Split c t"
  by (induction s) auto

lemma SplitN2_no_sep [simp]: "c \<notin> set s \<Longrightarrow> SplitN2 c s = [s]"
  by (induction s) auto

lemma SplitN2_append_sep: "c \<notin> set s \<Longrightarrow> SplitN2 c (s @ c # t) = [s, t]"
  by (induction s) auto

lemma length_Split: "length (Split c s) = Suc (count (mset s) c)"
  by (induction s) (auto split: list.splits)

lemma Split_pieces_no_sep: "p \<in> set (Split c s) \<Longrightarrow> c \<notin> set p"
  by (induction s arbitrary: p) (auto split: list.splits if_splits)

text \<open>Splitting at a separator loses nothing: joining the pieces gives the string back.\<close>

fun join_with :: "char \<Rightarrow> string list \<Rightarrow> string" where
  "join_with c [] = []"
| "join_with c [s] = s"
| "join_with c (s # ss) = s @ c # join_with c ss"

lemma join_with_Cons: "ss \<noteq> [] \<Longrightarrow> join_with c (s # ss) = s @ c # join_with c ss"
  by (cases ss) auto

lemma join_Split: "join_with c (Split c s) = s"
proof (induction s)
  case (Cons x s)
  obtain y ys where split: "Split c s = y # ys" by (cases "Split c s") auto
  with Cons show ?case by (cases ys) auto
qed simp

lemma Split_two: "Split c s = [a, b] \<longleftrightarrow> s = a @ c # b \<and> c \<notin> set a \<and> c \<notin> set b"
proof
  assume eq: "Split c s = [a, b]"
  have s: "s = a @ c # b" using join_Split [of c s] unfolding eq by simp
  have "c \<notin> set a" "c \<notin> set b"
    by (rule Split_pieces_no_sep [of _ c s], simp only: eq, simp)+
  with s show "s = a @ c # b \<and> c \<notin> set a \<and> c \<notin> set b" by simp
next
  assume "s = a @ c # b \<and> c \<notin> set a \<and> c \<notin> set b"
  then show "Split c s = [a, b]" by (simp add: Split_append_sep)
qed

definition Trim_space :: "string \<Rightarrow> string" where
  "Trim_space s = rev (dropWhile (\<lambda>c. c = CHR '' '') (rev (dropWhile (\<lambda>c. c = CHR '' '') s)))"

fun HasPrefix :: "string \<Rightarrow> string \<Rightarrow> bool" where
  "HasPrefix s [] = True"
| "HasPrefix [] (p # ps) = False"
| "HasPrefix (x # xs) (p # ps) = (x = p \<and> HasPrefix xs ps)"

fun Contains :: "string \<Rightarrow> string \<Rightarrow> bool" where
  "Contains [] sub = (sub = [])"
| "Contains (x # xs) sub = (HasPrefix (x # xs) sub \<or> Contains xs sub)"

fun Replace1 :: "char \<Rightarrow> char \<Rightarrow> string \<Rightarrow> string" where
  "Replace1 a b [] = []"
| "Replace1 a b (x # xs) = (if x = a then b # xs else x # Replace1 a b xs)"

lemma HasPrefix_iff: "HasPrefix s p \<longleftrightarrow> (\<exists>t. s = p @ t)"
  by (induction s p rule: HasPrefix.induct) auto

lemma Contains_iff: "Contains s sub \<longleftrightarrow> (\<exists>a b. s = a @ sub @ b)"
proof (induction s)
  case (Cons x xs)
  have "(\<exists>a b. x # xs = a @ sub @ b) \<longleftrightarrow> (\<exists>b. x # xs = sub @ b) \<or> (\<exists>a b. xs = a @ sub @ b)"
    (is "?l \<longleftrightarrow> ?r")
  proof
    assume ?l
    then obtain a b where ab: "x # xs = a @ sub @ b" by blast
    then show ?r by (cases a) auto
  next
    assume ?r
    then show ?l
    proof
      assume "\<exists>b. x # xs = sub @ b"
      then obtain b where "x # xs = sub @ b" ..
      then show ?l by (intro exI [of _ "[]"] exI [of _ b]) simp
    next
      assume "\<exists>a b. xs = a @ sub @ b"
      then obtain a b where "xs = a @ sub @ b" by blast
      then show ?l by (intro exI [of _ "x # a"] exI [of _ b]) simp
    qed
  qed
  with Cons show ?case by (simp add: HasPrefix_iff)
qed auto

lemma Contains_append: "Contains t sub \<Longrightarrow> Contains (s @ t) sub"
  by (metis Contains_iff append_assoc)

section \<open>Numbers as text\<close>

definition digit :: "int \<Rightarrow> char" where
  "digit d = char_of (d + 48)"

definition is_digit :: "char \<Rightarrow> bool" where
  "is_digit c \<longleftrightarrow> 48 \<le> (of_char c :: int) \<and> (of_char c :: int) \<le> 57"

definition digit_val :: "char \<Rightarrow> int" where
  "digit_val c = of_char c - 48"

text \<open>The decimal text of a non-negative number.\<close>

function Uitoa :: "int \<Rightarrow> string" where
  "Uitoa n = (if n < 10 then [digit n] else Uitoa (n div 10) @ [digit (n mod 10)])"
  by pat_completeness auto
termination
  by (relation "measure nat") auto

declare Uitoa.simps [simp del]

definition Itoa :: "int \<Rightarrow> string" where
  "Itoa i = (if i < 0 then CHR ''-'' # Uitoa (- i) else Uitoa i)"

definition FormatBool :: "bool \<Rightarrow> string" where
  "FormatBool b = (if b then ''true'' else ''false'')"

definition dec_val :: "string \<Rightarrow> int" where
  "dec_val s = foldl (\<lambda>a c. a * 10 + digit_val c) 0 s"

text \<open>
  \<^verbatim>\<open>strconv.Atoi\<close> on a 64-bit platform: an optional sign, at least one digit, nothing
  else, and a value that fits an \<^verbatim>\<open>int\<close>.
\<close>

definition Atoi :: "string \<Rightarrow> int option" where
  "Atoi s =
     (let (neg, t) = (case s of
            [] \<Rightarrow> (False, [])
          | c # cs \<Rightarrow> if c = CHR ''-'' then (True, cs)
                      else if c = CHR ''+'' then (False, cs) else (False, s));
          v = dec_val t
      in if t = [] \<or> \<not> list_all is_digit t then None
         else if neg then (if v \<le> 2 ^ 63 then Some (- v) else None)
         else (if v < 2 ^ 63 then Some v else None))"

lemma of_char_of_int: "0 \<le> n \<Longrightarrow> n < 256 \<Longrightarrow> (of_char (char_of (n :: int)) :: int) = n"
  by simp

lemma digit_props:
  assumes "0 \<le> d" and "d < 10"
  shows "is_digit (digit d)" "digit_val (digit d) = d"
proof -
  have "(of_char (digit d) :: int) = d + 48"
    unfolding digit_def by (rule of_char_of_int) (use assms in auto)
  with assms show "is_digit (digit d)" "digit_val (digit d) = d"
    by (simp_all add: is_digit_def digit_val_def)
qed

lemma dec_val_snoc [simp]: "dec_val (s @ [c]) = dec_val s * 10 + digit_val c"
  by (simp add: dec_val_def)

lemma dec_val_Nil [simp]: "dec_val [] = 0"
  by (simp add: dec_val_def)

lemma dec_val_single [simp]: "dec_val [c] = digit_val c"
  by (simp add: dec_val_def)

lemma Uitoa_neq_Nil [simp]: "Uitoa n \<noteq> []"
  by (subst Uitoa.simps) simp

lemma Uitoa_digits: "0 \<le> n \<Longrightarrow> list_all is_digit (Uitoa n)"
proof (induction n rule: Uitoa.induct)
  case (1 n)
  then show ?case by (subst Uitoa.simps) (simp add: digit_props)
qed

lemma dec_val_Uitoa [simp]: "0 \<le> n \<Longrightarrow> dec_val (Uitoa n) = n"
proof (induction n rule: Uitoa.induct)
  case (1 n)
  then show ?case by (subst Uitoa.simps) (simp add: digit_props)
qed

lemma Uitoa_inj: "0 \<le> m \<Longrightarrow> 0 \<le> n \<Longrightarrow> Uitoa m = Uitoa n \<longleftrightarrow> m = n"
  by (metis dec_val_Uitoa)

lemma not_digit_Uitoa: "0 \<le> n \<Longrightarrow> \<not> is_digit c \<Longrightarrow> c \<notin> set (Uitoa n)"
  using Uitoa_digits [of n] by (auto simp: list_all_iff)

lemma Uitoa_hd: "0 < n \<Longrightarrow> hd (Uitoa n) \<noteq> CHR ''0''"
proof (induction n rule: Uitoa.induct)
  case (1 n)
  show ?case
  proof (cases "n < 10")
    case True
    with 1 have "digit_val (hd (Uitoa n)) = n"
      by (subst Uitoa.simps) (simp add: digit_props)
    with 1 show ?thesis by (auto simp: digit_val_def)
  next
    case False
    with 1 have "hd (Uitoa (n div 10)) \<noteq> CHR ''0''" by simp
    with False show ?thesis by (subst Uitoa.simps) (simp add: hd_append)
  qed
qed

lemma Uitoa_hd_digit: "0 \<le> n \<Longrightarrow> is_digit (hd (Uitoa n))"
  using Uitoa_digits [of n] Uitoa_neq_Nil [of n] by (auto simp: list_all_iff)

lemma Atoi_Itoa:
  assumes "- (2 ^ 63) \<le> i" and "i < 2 ^ 63"
  shows "Atoi (Itoa i) = Some i"
proof (cases "i < 0")
  case True
  with assms show ?thesis by (simp add: Itoa_def Atoi_def Uitoa_digits)
next
  case False
  obtain c cs where u: "Uitoa i = c # cs" by (cases "Uitoa i") auto
  have "is_digit c" using Uitoa_hd_digit [of i] False u by simp
  then have c: "c \<noteq> CHR ''-''" "c \<noteq> CHR ''+''" by (auto simp: is_digit_def)
  have "dec_val (c # cs) = i" "list_all is_digit (c # cs)"
    using Uitoa_digits [of i] dec_val_Uitoa [of i] False u by auto
  with False assms c u show ?thesis by (simp add: Itoa_def Atoi_def Let_def)
qed

end
