(* ===== verification/NetIPLemmas.thy ===== *)
theory NetIPLemmas
  imports NetIP
begin

text \<open>
  The lemmas on addresses that the components share: the big-endian reading is a bijection
  between addresses of one length and an interval of integers, the successor of an address is
  the address with the next value, the two forms of an IPv4 address, and the round trip
  \<open>ParseIP (ip_String a) = To16 a\<close> for every address of 4 or 16 bytes, IPv6 compression
  included. The last one makes the printed address a key: two addresses with one text are equal.
\<close>

section \<open>Big-endian values\<close>

lemma be_int_Nil [simp]: "be_int [] = 0"
  by (simp add: be_int_def)

lemma be_int_snoc [simp]: "be_int (bs @ [b]) = be_int bs * 256 + uint b"
  by (simp add: be_int_def)

lemma be_int_append: "be_int (as @ bs) = be_int as * 256 ^ length bs + be_int bs"
  by (induction bs rule: rev_induct) (simp_all add: be_int_snoc [of "as @ bs" for as bs, simplified] algebra_simps)

lemma be_int_bounds: "0 \<le> be_int bs" "be_int bs < 256 ^ length bs"
proof (induction bs rule: rev_induct)
  case (snoc b bs)
  have "uint b < 256" using uint_lt2p [of b] by simp
  moreover have "0 \<le> uint b" by simp
  moreover have "be_int bs + 1 \<le> 256 ^ length bs" using snoc(2) by simp
  ultimately show "0 \<le> be_int (bs @ [b])" "be_int (bs @ [b]) < 256 ^ length (bs @ [b])"
    using snoc(1) by auto
qed auto

lemma base_256:
  fixes x y u v :: int
  assumes "x * 256 + u = y * 256 + v" "0 \<le> u" "u < 256" "0 \<le> v" "v < 256"
  shows "x = y" "u = v"
proof -
  show "x = y" using assms by linarith
  with assms(1) show "u = v" by simp
qed

lemma div_256_less: "n div 256 < k \<longleftrightarrow> n < 256 * k" for n k :: int
  by linarith

lemma be_int_inj: "length as = length bs \<Longrightarrow> be_int as = be_int bs \<Longrightarrow> as = bs"
proof (induction as arbitrary: bs rule: rev_induct)
  case (snoc a as)
  obtain b bs' where bs: "bs = bs' @ [b]"
    using snoc.prems(1) by (cases bs rule: rev_cases) auto
  have r: "uint a < 256" "uint b < 256" "0 \<le> uint a" "0 \<le> uint b"
    using uint_lt2p [of a] uint_lt2p [of b] by simp_all
  have eq: "be_int as * 256 + uint a = be_int bs' * 256 + uint b"
    using snoc.prems(2) bs by simp
  have "be_int as = be_int bs'" "uint a = uint b"
    using base_256 [OF eq] r by simp_all
  with snoc bs show ?case by (auto simp: word_uint_eq_iff)
qed simp

lemma be_int_eq_iff: "length as = length bs \<Longrightarrow> be_int as = be_int bs \<longleftrightarrow> as = bs"
  using be_int_inj by blast

lemma be_int_zeros [simp]: "be_int (replicate n 0) = 0"
  by (induction n) (simp_all only: replicate_0 replicate_Suc replicate_append_same [symmetric] be_int_Nil be_int_snoc, simp)

lemma be_int_zeros_append [simp]: "be_int (replicate n 0 @ bs) = be_int bs"
  by (simp add: be_int_append)

lemma be_int_int_bytes [simp]: "0 \<le> n \<Longrightarrow> be_int (int_bytes n) = n"
proof (induction n rule: int_bytes.induct)
  case (1 n)
  show ?case
  proof (cases "n \<le> 0")
    case True
    with 1 show ?thesis by (subst int_bytes.simps) simp
  next
    case False
    have u: "uint (of_int (n mod 256) :: byte) = n mod 256"
      by (simp add: uint_word_of_int)
    from False 1 have "be_int (int_bytes (n div 256)) = n div 256" by simp
    with False u show ?thesis by (subst int_bytes.simps) simp
  qed
qed

lemma length_int_bytes: "0 \<le> n \<Longrightarrow> length (int_bytes n) \<le> k \<longleftrightarrow> n < 256 ^ k"
proof (induction n arbitrary: k rule: int_bytes.induct)
  case (1 n)
  show ?case
  proof (cases "n \<le> 0")
    case True
    with 1 show ?thesis by (subst int_bytes.simps) simp
  next
    case False
    show ?thesis
    proof (cases k)
      case 0
      with False show ?thesis by (subst int_bytes.simps) simp
    next
      case (Suc j)
      have "n < 256 * 256 ^ j \<longleftrightarrow> n div 256 < 256 ^ j" by (simp add: div_256_less) 
      moreover have "length (int_bytes (n div 256)) \<le> j \<longleftrightarrow> n div 256 < 256 ^ j"
        using 1(1) [OF False, of j] False by simp
      ultimately show ?thesis
        using False Suc by (subst int_bytes.simps) simp
    qed
  qed
qed

section \<open>Forms of an address\<close>

definition v4_form :: "ip \<Rightarrow> bool" where
  "v4_form a \<longleftrightarrow> length a = 4"

definition v6_form :: "ip \<Rightarrow> bool" where
  "v6_form a \<longleftrightarrow> length a = 16 \<and> take 12 a \<noteq> v4InV6Prefix"

lemma length_v4InV6Prefix [simp]: "length v4InV6Prefix = 12"
  by (simp add: v4InV6Prefix_def)

lemma To4_v4 [simp]: "length a = 4 \<Longrightarrow> To4 a = a"
  by (simp add: To4_def)

lemma To4_To16 [simp]: "length a = 4 \<Longrightarrow> To4 (To16 a) = a"
  by (simp add: To4_def To16_def)

lemma To4_v6 [simp]: "v6_form a \<Longrightarrow> To4 a = []"
  by (simp add: To4_def v6_form_def)

lemma To16_id [simp]: "length a = 16 \<Longrightarrow> To16 a = a"
  by (simp add: To16_def)

lemma To16_v6 [simp]: "v6_form a \<Longrightarrow> To16 a = a"
  by (simp add: To16_def v6_form_def)

lemma length_To16: "length a = 4 \<or> length a = 16 \<Longrightarrow> length (To16 a) = 16"
  by (auto simp: To16_def)

lemma To16_inj_v4: "length a = 4 \<Longrightarrow> length b = 4 \<Longrightarrow> To16 a = To16 b \<longleftrightarrow> a = b"
  by (simp add: To16_def)

lemma length_To4: "length (To4 a) = 4 \<or> To4 a = []"
  by (simp add: To4_def)

lemma To4_Nil_iff: "length a = 4 \<or> length a = 16 \<Longrightarrow> To4 a = [] \<longleftrightarrow> v6_form a"
  by (auto simp: To4_def v6_form_def)

lemma To16_To4: "length a = 16 \<Longrightarrow> To4 a \<noteq> [] \<Longrightarrow> To16 (To4 a) = a"
  by (auto simp: To4_def To16_def split: if_splits) (metis append_take_drop_id)

lemma normalizeIP_v4 [simp]: "length a = 4 \<Longrightarrow> normalizeIP a = a"
  by (auto simp: normalizeIP_def)

lemma normalizeIP_To16_v4 [simp]: "length a = 4 \<Longrightarrow> normalizeIP (To16 a) = a"
  by (auto simp: normalizeIP_def)

lemma normalizeIP_v6 [simp]: "v6_form a \<Longrightarrow> normalizeIP a = a"
  by (auto simp: normalizeIP_def)

lemma normalizeIP_cases:
  obtains "normalizeIP a = []" | "length (normalizeIP a) = 4" | "v6_form (normalizeIP a)"
proof -
  consider "length a = 4" | "length a = 16" "take 12 a = v4InV6Prefix" | "v6_form a"
    | "length a \<noteq> 4" "length a \<noteq> 16"
    by (auto simp: v6_form_def)
  then have "normalizeIP a = [] \<or> length (normalizeIP a) = 4 \<or> v6_form (normalizeIP a)"
    by cases (auto simp: normalizeIP_def To4_def To16_def)
  with that show thesis by blast
qed

lemma normalizeIP_idem [simp]: "normalizeIP (normalizeIP a) = normalizeIP a"
  by (cases rule: normalizeIP_cases [of a]) (auto simp: normalizeIP_def To4_def To16_def)

lemma To16_normalizeIP: "length a = 4 \<or> length a = 16 \<Longrightarrow> To16 (normalizeIP a) = To16 a"
  by (auto simp: normalizeIP_def To16_To4)

lemma To16_eq_normalizeIP:
  assumes "length a = 4 \<or> length a = 16" and "length b = 4 \<or> length b = 16"
  shows "To16 a = To16 b \<longleftrightarrow> normalizeIP a = normalizeIP b"
proof
  assume "To16 a = To16 b"
  moreover have "To4 x = To4 (To16 x)" if "length x = 4 \<or> length x = 16" for x
    using that by auto
  ultimately show "normalizeIP a = normalizeIP b"
    using assms unfolding normalizeIP_def by metis
next
  assume "normalizeIP a = normalizeIP b"
  then show "To16 a = To16 b" using assms To16_normalizeIP by metis
qed

lemma ip_Equal_iff:
  assumes "length a = 4 \<or> length a = 16" and "length b = 4 \<or> length b = 16"
  shows "ip_Equal a b \<longleftrightarrow> normalizeIP a = normalizeIP b"
proof -
  have "ip_Equal a b \<longleftrightarrow> To16 a = To16 b"
    using assms by (auto simp: ip_Equal_def To16_def) (metis append_take_drop_id)+
  then show ?thesis using To16_eq_normalizeIP assms by simp
qed

lemma ip_Equal_Nil [simp]:
  "ip_Equal [] b \<longleftrightarrow> b = []" "ip_Equal a [] \<longleftrightarrow> a = []"
  by (auto simp: ip_Equal_def)

lemma Cmp_same_family:
  assumes "length (normalizeIP a) = length (normalizeIP b)" and "normalizeIP a \<noteq> []"
  shows "Cmp a b < 0 \<longleftrightarrow> be_int (normalizeIP a) < be_int (normalizeIP b)"
    and "0 < Cmp a b \<longleftrightarrow> be_int (normalizeIP b) < be_int (normalizeIP a)"
  using assms by (auto simp: Cmp_def Let_def)

section \<open>The successor of an address\<close>

lemma intToIP_v4:
  assumes "0 \<le> i" and "i < 2 ^ 32"
  obtains b where "intToIP i False = Inr b" and "length b = 4" and "be_int b = i"
proof -
  have "length (int_bytes i) \<le> 4" using assms by (simp add: length_int_bytes)
  then have "intToIP i False = Inr (replicate (4 - length (int_bytes i)) 0 @ int_bytes i)"
    by (auto simp: intToIP_def Let_def)
  with that assms \<open>length (int_bytes i) \<le> 4\<close> show thesis by force
qed

lemma intToIP_v4_overflow:
  assumes "2 ^ 32 \<le> i" and "i < 2 ^ 120"
  shows "intToIP i False = Inl (Panic ''makeslice: len out of range'')"
proof -
  have "\<not> length (int_bytes i) \<le> 4" "length (int_bytes i) \<le> 15"
    using assms by (simp_all add: length_int_bytes)
  then show ?thesis by (simp add: intToIP_def Let_def)
qed

lemma intToIP_v6:
  assumes "0 \<le> i" and "i < 2 ^ 128" and "i < 2 ^ 24 \<or> 2 ^ 32 \<le> i"
  obtains b where "intToIP i True = Inr b" and "length b = 16" and "be_int b = i"
proof -
  have "length (int_bytes i) \<le> 16" using assms by (simp add: length_int_bytes)
  moreover have "length (int_bytes i) \<noteq> 4"
    using assms length_int_bytes [of i 3] length_int_bytes [of i 4] by auto
  ultimately have "intToIP i True = Inr (replicate (16 - length (int_bytes i)) 0 @ int_bytes i)"
    by (auto simp: intToIP_def Let_def)
  with that assms \<open>length (int_bytes i) \<le> 16\<close> show thesis by force
qed

lemma intToIP_v6_overflow:
  assumes "2 ^ 128 \<le> i"
  shows "intToIP i True = Inl (Panic ''makeslice: len out of range'')"
proof -
  have "\<not> length (int_bytes i) \<le> 16"
    using assms by (simp add: length_int_bytes)
  then show ?thesis by (simp add: intToIP_def Let_def)
qed

lemma NextIP_v4:
  assumes "length (normalizeIP a) = 4" and "be_int (normalizeIP a) + 1 < 2 ^ 32"
  obtains b where "NextIP a = Inr b" and "length b = 4" and "be_int b = be_int (normalizeIP a) + 1"
proof -
  have "0 \<le> be_int (normalizeIP a) + 1" using be_int_bounds(1) [of "normalizeIP a"] by simp
  from intToIP_v4 [OF this assms(2)] obtain b
    where "intToIP (be_int (normalizeIP a) + 1) False = Inr b"
      and "length b = 4" "be_int b = be_int (normalizeIP a) + 1" by blast
  moreover have "NextIP a = intToIP (be_int (normalizeIP a) + 1) False"
    using assms(1) by (auto simp: NextIP_def Let_def)
  ultimately show thesis using that by simp
qed

section \<open>Printing and parsing IPv4\<close>

lemma not_digit_dot [simp]: "\<not> is_digit (CHR ''.'')"
  by (simp add: is_digit_def)

lemma parse_octet_Uitoa [simp]: "parse_octet (Uitoa (uint (b :: byte))) = Some b"
proof -
  have r: "0 \<le> uint b" "uint b < 256" using uint_lt2p [of b] by simp_all
  have "\<not> (1 < length (Uitoa (uint b)) \<and> hd (Uitoa (uint b)) = CHR ''0'')"
  proof (cases "uint b = 0")
    case True
    then show ?thesis by (subst Uitoa.simps) simp
  next
    case False
    then show ?thesis using Uitoa_hd [of "uint b"] r by simp
  qed
  with r show ?thesis by (simp add: parse_octet_def Uitoa_digits)
qed

lemma parse_octets_map [simp]: "parse_octets (map (\<lambda>b. Uitoa (uint (b :: byte))) a) = Some a"
  by (induction a) simp_all

lemma Split_join:
  "ss \<noteq> [] \<Longrightarrow> (\<And>s. s \<in> set ss \<Longrightarrow> c \<notin> set s) \<Longrightarrow> Split c (join_with c ss) = ss"
  by (induction c ss rule: join_with.induct) (auto simp: Split_append_sep)

lemma parseIPv4Fields_string4 [simp]: "length a = 4 \<Longrightarrow> parseIPv4Fields (string4 a) = Some a"
proof -
  assume a: "length a = 4"
  then have "Split (CHR ''.'') (string4 a) = map (\<lambda>b. Uitoa (uint b)) a"
    unfolding string4_def by (intro Split_join) (auto simp: not_digit_Uitoa)
  with a show ?thesis by (simp add: parseIPv4Fields_def)
qed

lemma addr_kind_skip:
  "(\<And>c. c \<in> set s \<Longrightarrow> c \<noteq> CHR ''.'' \<and> c \<noteq> CHR '':'' \<and> c \<noteq> CHR ''%'') \<Longrightarrow>
     addr_kind (s @ t) = addr_kind t"
  by (induction s) auto

lemma digits_not_special:
  "list_all is_digit s \<Longrightarrow> c \<in> set s \<Longrightarrow> c \<noteq> CHR ''.'' \<and> c \<noteq> CHR '':'' \<and> c \<noteq> CHR ''%''"
  by (auto simp: list_all_iff is_digit_def)

lemma addr_kind_string4: "length a = 4 \<Longrightarrow> addr_kind (string4 a) = Some (CHR ''.'')"
proof -
  assume "length a = 4"
  then obtain b c bs where a: "a = b # c # bs"
    by (cases a; cases "tl a") auto
  have "string4 a = Uitoa (uint b) @ CHR ''.'' # join_with (CHR ''.'') (map (\<lambda>b. Uitoa (uint b)) (c # bs))"
    by (simp add: string4_def a)
  then show ?thesis
    using addr_kind_skip [OF digits_not_special [OF Uitoa_digits [of "uint b"]]] by simp
qed

lemma ParseAddr_string4 [simp]: "length a = 4 \<Longrightarrow> ParseAddr (string4 a) = Some a"
  by (simp add: ParseAddr_def addr_kind_string4)

section \<open>Printing and parsing IPv6\<close>

lemma group_bytes_length [simp]: "length (group_bytes g) = 2"
  by (simp add: group_bytes_def)

lemma hex_digit_props:
  assumes "0 \<le> d" and "d < 16"
  shows "is_hex (hex_digit d)" "hex_val (hex_digit d) = d"
proof -
  have "(of_char (hex_digit d) :: int) = (if d < 10 then d + 48 else d + 87)"
    unfolding hex_digit_def by (rule of_char_of_int) (use assms in auto)
  with assms show "is_hex (hex_digit d)" "hex_val (hex_digit d) = d"
    by (simp_all add: is_hex_def hex_val_def Let_def)
qed

lemma hex_int_snoc [simp]: "hex_int (s @ [c]) = hex_int s * 16 + hex_val c"
  by (simp add: hex_int_def)

lemma to_hex_neq_Nil [simp]: "to_hex n \<noteq> []"
  by (subst to_hex.simps) simp

lemma to_hex_hex: "0 \<le> n \<Longrightarrow> list_all is_hex (to_hex n)"
proof (induction n rule: to_hex.induct)
  case (1 n)
  then show ?case by (subst to_hex.simps) (simp add: hex_digit_props)
qed

lemma hex_int_to_hex [simp]: "0 \<le> n \<Longrightarrow> hex_int (to_hex n) = n"
proof (induction n rule: to_hex.induct)
  case (1 n)
  then show ?case
    by (subst to_hex.simps) (auto simp: hex_digit_props hex_int_def)
qed

lemma length_to_hex: "0 \<le> n \<Longrightarrow> n < 16 ^ Suc k \<Longrightarrow> length (to_hex n) \<le> Suc k"
proof (induction n arbitrary: k rule: to_hex.induct)
  case (1 n)
  show ?case
  proof (cases "n < 16")
    case True
    then show ?thesis by (subst to_hex.simps) simp
  next
    case False
    then obtain j where k: "k = Suc j" using 1(3) by (cases k) auto
    have "n div 16 < 16 ^ Suc j" using 1(3) k by (simp add: div_less_iff_less_mult)
    then have "length (to_hex (n div 16)) \<le> Suc j" using 1(1) [OF False] 1(2) by simp
    with False k show ?thesis by (subst to_hex.simps) simp
  qed
qed

lemma not_hex_special [simp]: "\<not> is_hex (CHR '':'')" "\<not> is_hex (CHR ''.'')" "\<not> is_hex (CHR ''%'')"
  by (simp_all add: is_hex_def Let_def)

lemma takeWhile_to_hex:
  assumes "0 \<le> g" and "t = [] \<or> \<not> is_hex (hd t)"
  shows "takeWhile is_hex (to_hex g @ t) = to_hex g" "dropWhile is_hex (to_hex g @ t) = t"
proof -
  have all: "\<forall>c \<in> set (to_hex g). is_hex c" using to_hex_hex [OF assms(1)] by (simp add: list_all_iff)
  then show "takeWhile is_hex (to_hex g @ t) = to_hex g" "dropWhile is_hex (to_hex g @ t) = t"
    using assms(2) by (auto simp: takeWhile_append dropWhile_append takeWhile_eq_Nil_iff; cases t; simp)+
qed

lemma takeWhile_to_hex_all:
  assumes "0 \<le> g"
  shows "takeWhile is_hex (to_hex g) = to_hex g" "dropWhile is_hex (to_hex g) = []"
  using takeWhile_to_hex [OF assms, of "[]"] by simp_all

definition group_ok :: "int \<Rightarrow> bool" where
  "group_ok g \<longleftrightarrow> 0 \<le> g \<and> g < 65536"

lemma group_ok_length: "group_ok g \<Longrightarrow> length (to_hex g) \<le> 4"
  using length_to_hex [of g 3] by (simp add: group_ok_def)

abbreviation hex_join :: "int list \<Rightarrow> string" where
  "hex_join gs \<equiv> join_with (CHR '':'') (map to_hex gs)"

lemma hex_join_hd: "gs \<noteq> [] \<Longrightarrow> \<forall>g \<in> set gs. group_ok g \<Longrightarrow> hex_join gs \<noteq> [] \<and> is_hex (hd (hex_join gs))"
proof (cases gs)
  case (Cons g hs)
  assume "\<forall>g \<in> set gs. group_ok g"
  with Cons have "is_hex (hd (to_hex g))"
    using to_hex_hex [of g] to_hex_neq_Nil [of g] by (auto simp: group_ok_def list_all_iff)
  with Cons show ?thesis by (cases hs) (auto simp: hd_append)
qed simp

lemma v6_loop_groups:
  assumes "gs \<noteq> []" and "\<forall>g \<in> set gs. group_ok g" and "length acc + 2 * length gs \<le> 16"
  shows "v6_loop acc ell (hex_join gs) = Some (acc @ concat (map group_bytes gs), ell, [])"
  using assms
proof (induction gs arbitrary: acc)
  case (Cons g gs)
  have g: "group_ok g" "0 \<le> g" using Cons.prems(2) by (auto simp: group_ok_def)
  show ?case
  proof (cases gs)
    case Nil
    then show ?thesis
      using Cons.prems(3) group_ok_length [OF g(1)]
      by (subst v6_loop.simps) (simp add: Let_def takeWhile_to_hex_all [OF g(2)] g(2))
  next
    case (Cons h hs)
    let ?t = "hex_join gs"
    have t: "?t \<noteq> []" "is_hex (hd ?t)" using hex_join_hd [of gs] Cons.prems(2) Cons by auto
    have s: "hex_join (g # gs) = to_hex g @ CHR '':'' # ?t" by (simp add: Cons)
    have hd: "hd ?t \<noteq> CHR '':''" using t(2) not_hex_special(1) by auto
    have step: "v6_loop acc ell (hex_join (g # gs)) = v6_loop (acc @ group_bytes g) ell ?t"
      unfolding s using Cons.prems(3) g t hd takeWhile_to_hex [of g "CHR '':'' # ?t"] group_ok_length [of g]
      by (subst v6_loop.simps) (simp add: Let_def)
    show ?thesis
      unfolding step using Cons.IH [of "acc @ group_bytes g"] Cons.prems Cons by simp
  qed
qed simp

lemma v6_loop_ellipsis:
  assumes "gs \<noteq> []" and "\<forall>g \<in> set gs. group_ok g" and "\<forall>h \<in> set hs. group_ok h"
    and "length acc + 2 * length gs + 2 * length hs < 16"
  shows "v6_loop acc None (hex_join gs @ ''::'' @ hex_join hs) =
    Some (acc @ concat (map group_bytes gs) @ concat (map group_bytes hs), Some (length acc + 2 * length gs), [])"
  using assms
proof (induction gs arbitrary: acc)
  case (Cons g gs)
  have g: "group_ok g" "0 \<le> g" using Cons.prems(2) by (auto simp: group_ok_def)
  show ?case
  proof (cases gs)
    case Nil
    let ?acc = "acc @ group_bytes g"
    have s: "hex_join (g # gs) @ ''::'' @ hex_join hs = to_hex g @ ''::'' @ hex_join hs"
      using Nil by simp
    have step: "v6_loop acc None (to_hex g @ ''::'' @ hex_join hs) =
      (if hex_join hs = [] then Some (?acc, Some (length ?acc), [])
       else v6_loop ?acc (Some (length ?acc)) (hex_join hs))"
      using Cons.prems(4) g takeWhile_to_hex [of g "''::'' @ hex_join hs"] group_ok_length [of g]
      by (subst v6_loop.simps) (simp add: Let_def)
    show ?thesis
    proof (cases "hs = []")
      case True
      then show ?thesis unfolding s step using Nil by simp
    next
      case False
      then have "hex_join hs \<noteq> []" using hex_join_hd [of hs] Cons.prems(3) by simp
      then show ?thesis
        unfolding s step using Nil False v6_loop_groups [of hs ?acc] Cons.prems by simp
    qed
  next
    case (Cons h hs')
    let ?t = "hex_join gs @ ''::'' @ hex_join hs"
    have "hex_join gs \<noteq> []" "is_hex (hd (hex_join gs))"
      using hex_join_hd [of gs] Cons.prems(2) Cons by auto
    then have t: "?t \<noteq> []" "hd ?t \<noteq> CHR '':''" using not_hex_special(1) by (auto simp: hd_append)
    have s: "hex_join (g # gs) @ ''::'' @ hex_join hs = to_hex g @ CHR '':'' # ?t" by (simp add: Cons)
    have step: "v6_loop acc None (hex_join (g # gs) @ ''::'' @ hex_join hs) =
        v6_loop (acc @ group_bytes g) None ?t"
      unfolding s using Cons.prems(4) g t takeWhile_to_hex [of g "CHR '':'' # ?t"] group_ok_length [of g]
      by (subst v6_loop.simps) (simp add: Let_def)
    show ?thesis
      unfolding step using Cons.IH [of "acc @ group_bytes g"] Cons.prems Cons by simp
  qed
qed simp

lemma groups6_props:
  assumes "even (length a)"
  shows "concat (map group_bytes (groups6 a)) = a \<and> length (groups6 a) = length a div 2 \<and>
    (\<forall>g \<in> set (groups6 a). group_ok g)"
  using assms
proof (induction a rule: groups6.induct)
  case (1 a b bs)
  have r: "uint a < 256" "uint b < 256" using uint_lt2p [of a] uint_lt2p [of b] by simp_all
  have "group_bytes (uint a * 256 + uint b) = [a, b]"
    using r by (simp add: group_bytes_def)
  moreover have "group_ok (uint a * 256 + uint b)"
    using r by (simp add: group_ok_def)
  ultimately show ?case using 1 by simp
qed auto

lemma zero_run_sound:
  assumes "zero_run gs is best = Some (s, e)"
    and "\<And>s e. best = Some (s, e) \<Longrightarrow> s + 2 \<le> e \<and> e \<le> length gs \<and> take (e - s) (drop s gs) = replicate (e - s) 0"
    and "\<forall>i \<in> set is. i < length gs"
  shows "s + 2 \<le> e \<and> e \<le> length gs \<and> take (e - s) (drop s gs) = replicate (e - s) 0"
  using assms
proof (induction gs "is" best rule: zero_run.induct)
  case (2 gs i "is" best)
  let ?l = "zero_len gs i"
  have "takeWhile (\<lambda>g. g = 0) (drop i gs) = replicate ?l 0"
    unfolding zero_len_def by (rule replicate_length_same [symmetric]) (auto dest: set_takeWhileD)
  moreover have "take ?l (drop i gs) = takeWhile (\<lambda>g. g = 0) (drop i gs)"
    unfolding zero_len_def by (rule takeWhile_eq_take [symmetric])
  moreover have "?l \<le> length gs - i"
    unfolding zero_len_def using length_takeWhile_le [of _ "drop i gs"] by simp
  ultimately have new: "2 \<le> ?l \<Longrightarrow> i + 2 \<le> i + ?l \<and> i + ?l \<le> length gs \<and>
      take (i + ?l - i) (drop i gs) = replicate (i + ?l - i) 0"
    using 2(4) by auto
  show ?case
    by (rule 2(1) [OF refl]) (use 2(2-4) new in \<open>auto simp: Let_def split: if_splits\<close>)
qed simp

lemma hex_join_chars: "\<forall>g \<in> set gs. group_ok g \<Longrightarrow> c \<in> set (hex_join gs) \<Longrightarrow> is_hex c \<or> c = CHR '':''"
proof (induction gs)
  case (Cons g gs)
  have "\<forall>c \<in> set (to_hex g). is_hex c"
    using Cons.prems(1) to_hex_hex [of g] by (auto simp: list_all_iff group_ok_def)
  with Cons show ?case by (cases gs) auto
qed simp

lemma hex_join_no_percent: "\<forall>g \<in> set gs. group_ok g \<Longrightarrow> CHR ''%'' \<notin> set (hex_join gs)"
proof
  assume "\<forall>g \<in> set gs. group_ok g" and "CHR ''%'' \<in> set (hex_join gs)"
  then have "is_hex (CHR ''%'') \<or> CHR ''%'' = CHR '':''" by (rule hex_join_chars)
  then show False by simp
qed

lemma addr_kind_v6:
  "(\<And>c. c \<in> set s \<Longrightarrow> is_hex c \<or> c = CHR '':'') \<Longrightarrow> CHR '':'' \<in> set s \<Longrightarrow> addr_kind s = Some (CHR '':'')"
proof (induction s)
  case (Cons c s)
  show ?case
  proof (cases "c = CHR '':''")
    case False
    with Cons.prems(1) [of c] have "is_hex c" by simp
    then have "c \<noteq> CHR ''.''" "c \<noteq> CHR ''%''" using not_hex_special by auto
    with False Cons show ?thesis by simp
  qed simp
qed simp

lemma concat_zero_groups: "concat (map group_bytes (replicate k 0)) = replicate (2 * k) 0"
  by (induction k) (simp_all add: group_bytes_def)

lemma length_concat_groups [simp]: "length (concat (map group_bytes gs)) = 2 * length gs"
  by (induction gs) simp_all

lemma parseIPv6_full:
  assumes "length gs = 8" and "\<forall>g \<in> set gs. group_ok g"
  shows "parseIPv6 (hex_join gs) = Some (concat (map group_bytes gs))"
proof -
  have h: "hex_join gs \<noteq> []" "is_hex (hd (hex_join gs))" using hex_join_hd [of gs] assms by force+
  have pc: "CHR ''%'' \<notin> set (hex_join gs)" by (rule hex_join_no_percent) (rule assms(2))
  have "take 2 (hex_join gs) \<noteq> ''::''" using h not_hex_special(1) by (cases "hex_join gs") auto
  moreover have "v6_loop [] None (hex_join gs) = Some (concat (map group_bytes gs), None, [])"
    using v6_loop_groups [of gs "[]" None] assms by force
  ultimately show ?thesis
    using pc assms(1) by (simp add: parseIPv6_def v6_finish_def)
qed

lemma parseIPv6_compressed:
  assumes "length gs + length hs < 8" and "\<forall>g \<in> set gs. group_ok g" and "\<forall>h \<in> set hs. group_ok h"
  shows "parseIPv6 (hex_join gs @ ''::'' @ hex_join hs) =
    Some (concat (map group_bytes gs) @ replicate (16 - 2 * (length gs + length hs)) 0 @ concat (map group_bytes hs))"
proof -
  let ?s = "hex_join gs @ ''::'' @ hex_join hs"
  have pc: "CHR ''%'' \<notin> set ?s"
    using hex_join_no_percent [OF assms(2)] hex_join_no_percent [OF assms(3)] by simp
  show ?thesis
  proof (cases "gs = []")
    case True
    show ?thesis
    proof (cases "hs = []")
      case False
      then have "hex_join hs \<noteq> []" using hex_join_hd [of hs] assms(3) by blast
      moreover have "v6_loop [] (Some 0) (hex_join hs) = Some (concat (map group_bytes hs), Some 0, [])"
        using v6_loop_groups [of hs "[]" "Some 0"] False assms by simp
      ultimately show ?thesis
        using True pc assms(1) by (simp add: parseIPv6_def v6_finish_def)
    qed (simp add: True parseIPv6_def)
  next
    case False
    then have h: "hex_join gs \<noteq> []" "is_hex (hd (hex_join gs))" using hex_join_hd [of gs] assms(2) by auto
    then have "take 2 ?s \<noteq> ''::''" using not_hex_special(1) by (cases "hex_join gs") auto
    moreover have "v6_loop [] None ?s =
        Some (concat (map group_bytes gs) @ concat (map group_bytes hs), Some (2 * length gs), [])"
      using v6_loop_ellipsis [of gs hs "[]"] False assms by simp
    ultimately show ?thesis
      using pc assms(1) by (simp add: parseIPv6_def v6_finish_def)
  qed
qed

lemma ParseAddr_string6:
  assumes "length a = 16"
  shows "ParseAddr (string6 a) = Some a"
proof -
  let ?gs = "groups6 a"
  have gs: "concat (map group_bytes ?gs) = a" "length ?gs = 8" "\<forall>g \<in> set ?gs. group_ok g"
    using groups6_props [of a] assms by auto
  show ?thesis
  proof (cases "zero_run ?gs [0..<8] None")
    case None
    then have s: "string6 a = hex_join ?gs" by (simp add: string6_def)
    obtain g h hs where "?gs = g # h # hs" using gs(2) by (cases ?gs; cases "tl ?gs") auto
    then have "CHR '':'' \<in> set (string6 a)" using s by simp
    then have "addr_kind (string6 a) = Some (CHR '':'')"
      using addr_kind_v6 hex_join_chars [OF gs(3)] s by simp
    then show ?thesis using parseIPv6_full [OF gs(2,3)] s gs(1) by (simp add: ParseAddr_def)
  next
    case (Some r)
    obtain i j where r: "r = (i, j)" by (cases r)
    have run: "i + 2 \<le> j \<and> j \<le> length ?gs \<and> take (j - i) (drop i ?gs) = replicate (j - i) 0"
      by (rule zero_run_sound [of ?gs "[0..<8]" None]) (use Some r gs(2) in auto)
    let ?p = "take i ?gs" and ?q = "drop j ?gs"
    have s: "string6 a = hex_join ?p @ ''::'' @ hex_join ?q" using Some r by (simp add: string6_def Let_def)
    have ok: "\<forall>g \<in> set ?p. group_ok g" "\<forall>g \<in> set ?q. group_ok g"
      using gs(3) by (auto dest: in_set_takeD in_set_dropD)
    have "addr_kind (string6 a) = Some (CHR '':'')"
      unfolding s by (rule addr_kind_v6) (use hex_join_chars [OF ok(1)] hex_join_chars [OF ok(2)] in auto)
    moreover have split: "?gs = ?p @ replicate (j - i) 0 @ ?q"
      using run append_take_drop_id [of i ?gs] append_take_drop_id [of "j - i" "drop i ?gs"] by simp
    have len: "length ?p + length ?q < 8" "16 - 2 * (length ?p + length ?q) = 2 * (j - i)"
      using run gs(2) by auto
    have "a = concat (map group_bytes ?p) @ replicate (2 * (j - i)) 0 @ concat (map group_bytes ?q)"
      using gs(1) arg_cong [OF split, of "\<lambda>xs. concat (map group_bytes xs)"]
      by (simp add: concat_zero_groups del: map_replicate)
    ultimately show ?thesis
      using parseIPv6_compressed [OF len(1) ok] len(2) s by (simp add: ParseAddr_def)
  qed
qed

lemma ParseIP_ip_String:
  assumes "length a = 4 \<or> length a = 16"
  shows "ParseIP (ip_String a) = To16 a"
proof (cases "To4 a = []")
  case True
  with assms have "length a = 16" by auto
  moreover have "ip_String a = string6 a"
    using True \<open>length a = 16\<close> by (auto simp: ip_String_def)
  ultimately show ?thesis using ParseAddr_string6 [of a] by (simp add: ParseIP_def)
next
  case False
  have "ip_String a = string4 (To4 a)" using False assms by (auto simp: ip_String_def)
  moreover have "length (To4 a) = 4" using length_To4 [of a] False by simp
  moreover have "To16 (To4 a) = To16 a" using assms False To16_To4 [of a] by auto
  ultimately show ?thesis by (simp add: ParseIP_def)
qed

lemma ip_String_inj:
  assumes "length a = 4 \<or> length a = 16" and "length b = 4 \<or> length b = 16"
  shows "ip_String a = ip_String b \<longleftrightarrow> normalizeIP a = normalizeIP b"
proof
  assume "ip_String a = ip_String b"
  then have "To16 a = To16 b" using assms ParseIP_ip_String by metis
  then show "normalizeIP a = normalizeIP b" using To16_eq_normalizeIP [OF assms] by simp
next
  assume n: "normalizeIP a = normalizeIP b"
  have "ip_String c = (if length (normalizeIP c) = 4 then string4 (normalizeIP c) else string6 (normalizeIP c))"
    if "length c = 4 \<or> length c = 16" for c
    using that length_To4 [of c] by (auto simp: ip_String_def normalizeIP_def)
  with n assms show "ip_String a = ip_String b" by simp
qed

section \<open>What the parser returns\<close>

lemma parse_octets_length: "parse_octets ss = Some bs \<Longrightarrow> length bs = length ss"
  by (induction ss arbitrary: bs) (auto split: option.splits)

lemma parseIPv4Fields_length: "parseIPv4Fields s = Some bs \<Longrightarrow> length bs = 4"
  by (auto simp: parseIPv4Fields_def Let_def dest: parse_octets_length split: if_splits)

lemma v6_loop_length:
  assumes "v6_loop acc ell s = Some (acc', ell', s')"
    and "length acc \<le> 16" and "even (length acc)"
  shows "length acc' \<le> 16"
  using assms
proof (induction acc ell s rule: v6_loop.induct)
  case (1 acc ell s)
  show ?case
  proof (cases "16 \<le> length acc")
    case True
    with 1 show ?thesis by (simp add: v6_loop.simps [of acc ell s])
  next
    case False
    then have le: "length acc + 2 \<le> 16" using 1(5) by presburger
    note eq = 1(3) [unfolded v6_loop.simps [of acc ell s] Let_def]
    from eq False 1(1,2) 1(5) le show ?thesis
      by (auto simp: Let_def dest: parseIPv4Fields_length split: if_splits list.splits option.splits)
  qed
qed

lemma v6_finish_length: "v6_finish (acc, ell, s) = Some bs \<Longrightarrow> length acc \<le> 16 \<Longrightarrow> length bs = 16"
  by (auto simp: v6_finish_def split: if_splits option.splits)

lemma parseIPv6_length: "parseIPv6 s = Some bs \<Longrightarrow> length bs = 16"
proof -
  assume p: "parseIPv6 s = Some bs"
  have "length bs = 16" if "Option.bind (v6_loop [] e t) v6_finish = Some bs" for e t
  proof -
    from that obtain acc ell s' where l: "v6_loop [] e t = Some (acc, ell, s')"
      and f: "v6_finish (acc, ell, s') = Some bs" by (auto simp: Option.bind_eq_Some_conv)
    from v6_loop_length [OF l] have "length acc \<le> 16" by simp
    with f show ?thesis by (rule v6_finish_length)
  qed
  with p show ?thesis by (auto simp: parseIPv6_def split: if_splits)
qed

lemma ParseAddr_length: "ParseAddr s = Some a \<Longrightarrow> length a = 4 \<or> length a = 16"
  by (auto simp: ParseAddr_def dest: parseIPv4Fields_length parseIPv6_length split: option.splits if_splits)

lemma ParseIP_length: "ParseIP s \<noteq> [] \<Longrightarrow> length (ParseIP s) = 16"
  by (auto simp: ParseIP_def length_To16 dest!: ParseAddr_length split: option.splits)


section \<open>Canonical texts\<close>

text \<open>Every text that \<^verbatim>\<open>IP.String\<close> returns parses to nothing or to an address with that text.\<close>

definition canonical :: "string \<Rightarrow> bool" where
  "canonical s \<longleftrightarrow> ParseIP s = [] \<or> ip_String (ParseIP s) = s"

lemma addr_kind_None: "(\<And>c. c \<in> set s \<Longrightarrow> c \<noteq> CHR ''.'' \<and> c \<noteq> CHR '':'' \<and> c \<noteq> CHR ''%'') \<Longrightarrow> addr_kind s = None"
  using addr_kind_skip [of s "[]"] by simp

lemma hexString_hex:
  assumes "c \<in> set (hexString bs)"
  shows "is_hex c"
proof -
  obtain b :: byte where "c = hex_digit (uint b div 16) \<or> c = hex_digit (uint b mod 16)"
    using assms by (auto simp: hexString_def byte_hex_def)
  moreover have "0 \<le> uint b" "uint b < 256" using uint_lt2p [of b] by simp_all
  then have "0 \<le> uint b div 16" "uint b div 16 < 16" by linarith+
  ultimately show ?thesis using hex_digit_props(1) [of "uint b div 16"] hex_digit_props(1) [of "uint b mod 16"] by auto
qed

lemma canonical_ip_String [simp]: "canonical (ip_String a)"
proof (cases "length a = 4 \<or> length a = 16")
  case True
  have l: "length (To16 a) = 16" using True by (rule length_To16)
  have "normalizeIP (To16 a) = normalizeIP a" using True by (auto simp: normalizeIP_def To4_def To16_def)
  then have "ip_String (To16 a) = ip_String a" using ip_String_inj [of "To16 a" a] l True by simp
  then show ?thesis using ParseIP_ip_String [OF True] by (simp add: canonical_def)
next
  case False
  have "addr_kind (ip_String a) = None"
  proof (rule addr_kind_None)
    fix c assume "c \<in> set (ip_String a)"
    then have "c \<in> set ''<nil>?'' \<or> is_hex c"
      using False hexString_hex by (auto simp: ip_String_def split: if_splits)
    then show "c \<noteq> CHR ''.'' \<and> c \<noteq> CHR '':'' \<and> c \<noteq> CHR ''%''" by auto
  qed
  then have "ParseIP (ip_String a) = []" by (simp add: ParseIP_def ParseAddr_def)
  then show ?thesis by (simp add: canonical_def)
qed

end
