(* ===== verification/Ranges.thy ===== *)
theory Ranges
  imports NetIPLemmas
begin

unbundle bit_operations_syntax

text \<open>
  Address ranges: \<^verbatim>\<open>MakeRange\<close> and its helpers (\<^verbatim>\<open>pkg/ipam/allocator.go\<close>),
  \<^verbatim>\<open>LBRangesToAllocatorRangeSet\<close> (\<^verbatim>\<open>pkg/ipam/rangeset.go\<close>) and the vendored
  \<^verbatim>\<open>Range\<close> and \<^verbatim>\<open>RangeSet\<close> of the host-local IPAM plugin
  (\<^verbatim>\<open>range.go\<close>, \<^verbatim>\<open>range_set.go\<close>).

  \<open>LBRange\<close> is the range of the API type (four strings), \<open>ARange\<close> the parsed range of the
  plugin. An \<open>int64\<close> is a 64-bit word, read by \<open>sint\<close>.
\<close>

type_synonym int64 = "64 word"

record LBRange =
  lb_RangeStart :: string
  lb_RangeEnd :: string
  lb_Subnet :: string
  lb_Gateway :: string

record ARange =
  RangeStart :: ip
  RangeEnd :: ip
  Subnet :: IPNet
  Gateway :: ip

section \<open>The vendored Range and RangeSet\<close>

definition canonicalizeIP :: "ip \<Rightarrow> ip res" where
  "canonicalizeIP a =
     (if To4 a \<noteq> [] then Inr (To4 a)
      else if To16 a \<noteq> [] then Inr (To16 a)
      else Inl (errorf (''IP '' @ ip_String a @ '' not v4 nor v6'')))"

definition range_Contains :: "ARange \<Rightarrow> ip \<Rightarrow> bool" where
  "range_Contains r a =
     (case canonicalizeIP a of
        Inl _ \<Rightarrow> False
      | Inr ad \<Rightarrow>
          if length ad \<noteq> length (net_IP (Subnet r)) then False
          else if \<not> net_Contains (Subnet r) ad then False
          else if RangeStart r \<noteq> [] \<and> Cmp ad (RangeStart r) < 0 then False
          else if RangeEnd r \<noteq> [] \<and> 0 < Cmp ad (RangeEnd r) then False
          else True)"

definition range_Overlaps :: "ARange \<Rightarrow> ARange \<Rightarrow> bool" where
  "range_Overlaps r r1 =
     (if length (RangeStart r) \<noteq> length (RangeStart r1) then False
      else range_Contains r (RangeStart r1) \<or> range_Contains r (RangeEnd r1) \<or>
           range_Contains r1 (RangeStart r) \<or> range_Contains r1 (RangeEnd r))"

definition range_String :: "ARange \<Rightarrow> string" where
  "range_String r = ip_String (RangeStart r) @ ''-'' @ ip_String (RangeEnd r)"

definition rangeset_String :: "ARange list \<Rightarrow> string" where
  "rangeset_String rs = join_with (CHR '','') (map range_String rs)"

definition RangeFor :: "ARange list \<Rightarrow> ip \<Rightarrow> ARange res" where
  "RangeFor rs a =
     (case canonicalizeIP a of
        Inl e \<Rightarrow> Inl e
      | Inr ad \<Rightarrow>
          (case find (\<lambda>r. range_Contains r ad) rs of
             Some r \<Rightarrow> Inr r
           | None \<Rightarrow> Inl (errorf (ip_String ad @ '' not in range set '' @ rangeset_String rs))))"

definition rangeset_Contains :: "ARange list \<Rightarrow> ip \<Rightarrow> bool" where
  "rangeset_Contains rs a = (case RangeFor rs a of Inl _ \<Rightarrow> False | Inr _ \<Rightarrow> True)"

definition rangeset_Overlaps :: "ARange list \<Rightarrow> ARange list \<Rightarrow> bool" where
  "rangeset_Overlaps s p1 = list_ex (\<lambda>r. list_ex (\<lambda>r1. range_Overlaps r r1) p1) s"

section \<open>MakeRange\<close>

definition p2pMaskStr :: string where
  "p2pMaskStr = ''ffffffff''"

text \<open>
  The loops over \<^verbatim>\<open>subnet.IP\<close> index \<^verbatim>\<open>subnet.Mask\<close>, which panics when the mask is
  shorter. The decrement of \<^verbatim>\<open>end[3]\<close> wraps as a byte.
\<close>

definition index_panic :: error where
  "index_panic = Panic ''runtime error: index out of range''"

definition lastIP :: "IPNet \<Rightarrow> ip res" where
  "lastIP subnet =
     (if length (net_Mask subnet) < length (net_IP subnet) then Inl index_panic
      else let ed = map2 (\<lambda>b m. b OR NOT m) (net_IP subnet) (net_Mask subnet)
           in if To4 (net_IP subnet) \<noteq> [] then Inr (ed[3 := ed ! 3 - 1]) else Inr ed)"

definition networkIP :: "IPNet \<Rightarrow> ip" where
  "networkIP n = ip_Mask (net_IP n) (net_Mask n)"

definition broadcastIP :: "IPNet \<Rightarrow> ip res" where
  "broadcastIP n =
     (if length (net_Mask n) < length (net_IP n) then Inl index_panic
      else Inr (map2 (\<lambda>b m. b OR NOT m) (net_IP n) (net_Mask n)))"

definition ipToInt :: "ip \<Rightarrow> int" where
  "ipToInt a = (if To4 a \<noteq> [] then be_int (To4 a) else be_int (To16 a))"

definition parseIP :: "string \<Rightarrow> IPNet \<Rightarrow> ip \<Rightarrow> ip res" where
  "parseIP ipStr ipNet defaultIP =
     (if ipStr = [] then Inr defaultIP
      else let a = ParseIP ipStr
           in if a = [] then Inl (errorf (''invalid IP '' @ ipStr))
              else if \<not> net_Contains ipNet a then
                Inl (errorf (''IP '' @ ipStr @ '' is out of subnet '' @ net_String ipNet))
              else if ip_Equal a (networkIP ipNet) then
                Inl (errorf (''IP '' @ ipStr @ '' is the network address''))
              else (case broadcastIP ipNet of
                      Inl e \<Rightarrow> Inl e
                    | Inr b \<Rightarrow>
                        if ip_Equal a b then
                          Inl (errorf (''IP '' @ ipStr @ '' is the broadcast address''))
                        else Inr a))"

text \<open>The default start, end and gateway of a subnet.\<close>

definition default_bounds :: "ip \<Rightarrow> IPNet \<Rightarrow> (ip \<times> ip \<times> ip) res" where
  "default_bounds a ipNet =
     (if mask_String (net_Mask ipNet) = p2pMaskStr then Inr (To16 a, To16 a, [])
      else (case NextIP (net_IP ipNet) of
              Inl e \<Rightarrow> Inl e
            | Inr n \<Rightarrow>
                (case lastIP ipNet of
                   Inl e \<Rightarrow> Inl e
                 | Inr l \<Rightarrow> Inr (To16 n, To16 l, To16 n))))"

definition MakeRange :: "LBRange \<Rightarrow> ARange res" where
  "MakeRange r =
     (case ParseCIDR (lb_Subnet r) of
        Inl e \<Rightarrow> Inl (Error (err_text e @ '', a valid example is 192.168.1.0/24'') (err_chain e))
      | Inr (a, ipNet) \<Rightarrow>
          (case default_bounds a ipNet of
             Inl e \<Rightarrow> Inl e
           | Inr (defaultStart, defaultEnd, defaultGateway) \<Rightarrow>
               (case parseIP (lb_RangeStart r) ipNet defaultStart of
                  Inl e \<Rightarrow> Inl (wrapf (''invalid range start '' @ lb_RangeStart r @ '': '') e)
                | Inr start \<Rightarrow>
                    (case parseIP (lb_RangeEnd r) ipNet defaultEnd of
                       Inl e \<Rightarrow> Inl (wrapf (''invalid range end '' @ lb_RangeEnd r @ '': '') e)
                     | Inr ed \<Rightarrow>
                         (case parseIP (lb_Gateway r) ipNet defaultGateway of
                            Inl e \<Rightarrow> Inl (wrapf (''invalid gateway '' @ lb_Gateway r @ '': '') e)
                          | Inr gateway \<Rightarrow>
                              let (s, t) = (if 0 < addr_Compare start ed then (ed, start) else (start, ed))
                              in Inr \<lparr>RangeStart = s, RangeEnd = t, Subnet = ipNet, Gateway = gateway\<rparr>)))))"

text \<open>
  \<^verbatim>\<open>big.Int.Int64\<close> of a number that does not fit takes its lowest 64 bits; its documentation leaves the
  result open.
\<close>

definition countIP :: "ARange \<Rightarrow> int64" where
  "countIP r =
     (let count = word_of_int (ipToInt (RangeEnd r) - ipToInt (RangeStart r) + 1)
      in if Gateway r \<noteq> [] \<and> range_Contains r (Gateway r) then count - 1 else count)"

definition LBRangesToAllocatorRangeSet :: "LBRange list \<Rightarrow> ARange list res" where
  "LBRangesToAllocatorRangeSet ranges = res_map MakeRange ranges"

end
