(* ===== verification/RangesLemmas.thy ===== *)
theory RangesLemmas
  imports Ranges
begin

unbundle bit_operations_syntax

text \<open>
  Ranges as intervals of integers. A subnet of prefix length \<open>p\<close> over \<open>k\<close> bytes is the block of
  \<open>2 ^ (8 * k - p)\<close> addresses that starts at the network address (\<open>net_Contains_iff\<close>);
  a range that \<open>MakeRange\<close> returns is a sub-interval of that block (\<open>MakeRange_range_ok\<close>),
  and membership in it is membership in the interval (\<open>range_Contains_iff\<close>). The overlap
  test of the plugin is then exact on such ranges.

  \<open>plain_net\<close> names the subnets for which this holds: every IPv4 subnet, and the IPv6 subnets
  from \<^verbatim>\<open>::1:0:0:0\<close> upwards that hold more than one address. The others are the subject
  of the findings.
\<close>

section \<open>Bytes under a mask\<close>

lemma be_int_Cons: "be_int (x # xs) = uint x * 256 ^ length xs + be_int xs"
  using be_int_append [of "[x]" xs] by (simp add: be_int_def)

lemma mask_byte:
  assumes "n < 8"
  shows "drop_bit n (255 :: byte) = mask (8 - n)"
proof -
  have "n = 0 \<or> n = 1 \<or> n = 2 \<or> n = 3 \<or> n = 4 \<or> n = 5 \<or> n = 6 \<or> n = 7"
    using assms by auto
  then show ?thesis by (elim disjE) (simp_all add: mask_eq_exp_minus_1 drop_bit_eq_div)
qed

lemma floor_mult:
  fixes u d :: int
  assumes "0 \<le> u" and "0 < d"
  shows "0 \<le> u div d * d" "u div d * d \<le> u" "u < u div d * d + d"
proof -
  have "u div d * d + u mod d = u" "0 \<le> u mod d" "u mod d < d" using assms by simp_all
  then show "u div d * d \<le> u" "u < u div d * d + d" by linarith+
  show "0 \<le> u div d * d" using assms by (simp add: pos_imp_zdiv_nonneg_iff)
qed

lemma div_less_of_less_mult:
  fixes u d q :: int
  assumes "0 \<le> u" and "0 < d" and "u < q * d"
  shows "u div d < q"
proof (rule ccontr)
  assume "\<not> u div d < q"
  then have "q * d \<le> u div d * d" using assms(2) by simp
  then show False using floor_mult(2) [OF assms(1,2)] assms(3) by linarith
qed

lemma uint_and_not_mask: "uint (x AND NOT (mask m) :: byte) = uint x div 2 ^ m * 2 ^ m"
proof -
  have "uint (x AND NOT (mask m)) = uint (push_bit m (drop_bit m x))"
    by (rule arg_cong [where f = uint], rule bit_word_eqI) (auto simp: bit_simps)
  also have "\<dots> = take_bit 8 (uint x div 2 ^ m * 2 ^ m)"
    by (simp only: unsigned_push_bit_eq unsigned_drop_bit_eq)
      (simp add: push_bit_eq_mult drop_bit_eq_div take_bit_int_eq_self uint_lt2p [of x, simplified])
  also have "\<dots> = uint x div 2 ^ m * 2 ^ m"
  proof (rule take_bit_int_eq_self)
    show "0 \<le> uint x div 2 ^ m * 2 ^ m" by (rule floor_mult(1)) simp_all
    have "uint x div 2 ^ m * 2 ^ m \<le> uint x" by (rule floor_mult(2)) simp_all
    also have "uint x < 2 ^ 8" using uint_lt2p [of x] by simp
    finally show "uint x div 2 ^ m * 2 ^ m < 2 ^ 8" .
  qed
  finally show ?thesis .
qed

lemma uint_or_mask:
  assumes "m \<le> 8"
  shows "uint (x OR mask m :: byte) = uint x div 2 ^ m * 2 ^ m + (2 ^ m - 1)"
proof -
  have "x OR mask m = (x AND NOT (mask m)) OR mask m"
    by (simp add: bit_eq_iff bit_simps) blast
  also have "\<dots> = (x AND NOT (mask m)) + mask m"
    by (rule disjunctive_add [symmetric]) (simp add: bit_simps)
  finally have eq: "x OR mask m = (x AND NOT (mask m)) + mask m" .
  have "(mask m :: byte) = word_of_int (mask m)"
    by (rule bit_word_eqI) (simp add: bit_simps)
  then have "uint (mask m :: byte) = mask m"
    using assms by (simp only: uint_word_of_int_eq) (simp add: min_def)
  then have m: "uint (mask m :: byte) = 2 ^ m - 1"
    by (simp only: mask_eq_exp_minus_1)
  have "uint x div 2 ^ m * 2 ^ m + (2 ^ m - 1) < 2 ^ 8"
  proof -
    have "uint x < 2 ^ 8" using uint_lt2p [of x] by simp
    then have "uint x < 2 ^ (8 - m) * 2 ^ m" using assms by (simp add: power_add [symmetric])
    then have "uint x div 2 ^ m < 2 ^ (8 - m)" by (rule div_less_of_less_mult [rotated 2]) simp_all
    then have "uint x div 2 ^ m + 1 \<le> 2 ^ (8 - m)" by simp
    then have "(uint x div 2 ^ m + 1) * 2 ^ m \<le> 2 ^ (8 - m) * 2 ^ m" by (rule mult_right_mono) simp
    also have "\<dots> = 2 ^ 8" using assms by (simp add: power_add [symmetric])
    finally show ?thesis by (simp add: algebra_simps)
  qed
  moreover have "0 \<le> uint x div 2 ^ m * 2 ^ m + (2 ^ m - 1)"
    using floor_mult(1) [of "uint x" "2 ^ m"] by simp
  ultimately have "(uint x div 2 ^ m * 2 ^ m + (2 ^ m - 1)) mod 2 ^ 8 =
      uint x div 2 ^ m * 2 ^ m + (2 ^ m - 1)"
    by (intro mod_pos_pos_trivial)
  then show ?thesis
    unfolding eq using m uint_and_not_mask [of x m] by (simp add: uint_word_ariths)
qed

lemma byte_full_mask [simp]: "x AND 255 = x" "x OR - 256 = x" for x :: byte
proof -
  have "(255 :: byte) = - 1" "(- 256 :: byte) = 0" by simp_all
  then show "x AND 255 = x" "x OR - 256 = x" by (simp_all only: or.right_neutral and.right_neutral)
qed

lemma length_mask_from [simp]: "length (mask_from n k) = k"
  by (induction n k rule: mask_from.induct) simp_all

lemma floor_split:
  fixes x y d q :: int
  assumes "0 < d" and "d dvd q"
  shows "(x * q + y) div d * d = x * q + y div d * d"
proof -
  from assms(2) obtain c where "q = d * c" by (rule dvdE)
  then have eq: "x * q + y = y + (x * c) * d" by (simp add: algebra_simps)
  have "(x * q + y) div d = x * c + y div d" unfolding eq using assms(1) by simp
  then show ?thesis using \<open>q = d * c\<close> by (simp add: algebra_simps)
qed

lemma floor_high:
  fixes x y d q :: int
  assumes "0 < d" and "0 < q" and "0 \<le> y" and "y < q"
  shows "(x * q + y) div (d * q) * (d * q) = x div d * d * q"
proof -
  have "(x * q + y) div (d * q) = (x * q + y) div q div d"
    unfolding mult.commute [of d q] using assms(1) by (intro zdiv_zmult2_eq) simp
  also have "(x * q + y) div q = x" using assms by simp
  finally show ?thesis by (simp add: mult.assoc)
qed

abbreviation block :: "nat \<Rightarrow> nat \<Rightarrow> int" where
  "block k n \<equiv> 2 ^ (8 * k - n)"

lemma mask_from_zero: "mask_from 0 k = replicate k 0"
proof (induction k)
  case (Suc k)
  have "NOT (drop_bit 0 (255 :: byte)) = 0" by simp
  with Suc show ?case by simp
qed simp

lemma mask_bytes_zero: "length a = k \<Longrightarrow> mask_bytes a (replicate k 0) = replicate k 0"
  by (induction a arbitrary: k) (auto simp: mask_bytes_def)

lemma or_not_zero: "length a = k \<Longrightarrow> map2 (\<lambda>b m. b OR NOT m) a (replicate k (0 :: byte)) = replicate k 255"
  by (induction a arbitrary: k) auto

lemma be_int_ones: "be_int (replicate k 255) = 256 ^ k - 1"
  by (induction k) (simp_all add: be_int_Cons)

lemma be_int_mask:
  assumes "length a = k" and "n \<le> 8 * k"
  shows "be_int (mask_bytes a (mask_from n k)) = be_int a div block k n * block k n"
  using assms
proof (induction n k arbitrary: a rule: mask_from.induct)
  case (1 n)
  then show ?case by (simp add: mask_bytes_def)
next
  case (2 n k)
  obtain x xs where a: "a = x # xs" "length xs = k" using 2(3) by (cases a) auto
  have q: "(256 :: int) ^ k = 2 ^ (8 * k)" by (simp add: power_mult)
  have b: "0 \<le> be_int xs" "be_int xs < 256 ^ k" using be_int_bounds [of xs] a by simp_all
  show ?case
  proof (cases "8 \<le> n")
    case True
    have d: "8 * Suc k - n = 8 * k - (n - 8)" using True by simp
    have ih: "be_int (mask_bytes xs (mask_from (n - 8) k)) = be_int xs div block k (n - 8) * block k (n - 8)"
      using 2(1) [OF True] 2(4) a True by simp
    have "(block k (n - 8) :: int) dvd 256 ^ k" unfolding q by (rule le_imp_power_dvd) simp
    then show ?thesis
      using ih floor_split [of "block k (n - 8)" "256 ^ k" "uint x" "be_int xs"] True a d
      by (simp add: be_int_Cons mask_bytes_def)
  next
    case False
    have d: "(block (Suc k) n :: int) = 2 ^ (8 - n) * 256 ^ k"
      unfolding q using False by (simp add: power_add [symmetric])
    have "mask_bytes a (mask_from n (Suc k)) = (x AND NOT (mask (8 - n))) # replicate k 0"
      using False a mask_bytes_zero [of xs k] by (simp add: mask_bytes_def mask_byte mask_from_zero)
    then have "be_int (mask_bytes a (mask_from n (Suc k))) = uint x div 2 ^ (8 - n) * 2 ^ (8 - n) * 256 ^ k"
      by (simp add: be_int_Cons uint_and_not_mask)
    also have "\<dots> = be_int a div block (Suc k) n * block (Suc k) n"
      unfolding d using floor_high [of "2 ^ (8 - n)" "256 ^ k" "be_int xs" "uint x"] b a
      by (simp add: be_int_Cons)
    finally show ?thesis .
  qed
qed

lemma be_int_or:
  assumes "length a = k" and "n \<le> 8 * k"
  shows "be_int (map2 (\<lambda>b m. b OR NOT m) a (mask_from n k)) =
    be_int a div block k n * block k n + (block k n - 1)"
  using assms
proof (induction n k arbitrary: a rule: mask_from.induct)
  case (1 n)
  then show ?case by simp
next
  case (2 n k)
  obtain x xs where a: "a = x # xs" "length xs = k" using 2(3) by (cases a) auto
  have q: "(256 :: int) ^ k = 2 ^ (8 * k)" by (simp add: power_mult)
  have b: "0 \<le> be_int xs" "be_int xs < 256 ^ k" using be_int_bounds [of xs] a by simp_all
  show ?case
  proof (cases "8 \<le> n")
    case True
    have d: "8 * Suc k - n = 8 * k - (n - 8)" using True by simp
    have ih: "be_int (map2 (\<lambda>b m. b OR NOT m) xs (mask_from (n - 8) k)) =
        be_int xs div block k (n - 8) * block k (n - 8) + (block k (n - 8) - 1)"
      using 2(1) [OF True] 2(4) a True by simp
    have "(block k (n - 8) :: int) dvd 256 ^ k" unfolding q by (rule le_imp_power_dvd) simp
    then show ?thesis
      using ih floor_split [of "block k (n - 8)" "256 ^ k" "uint x" "be_int xs"] True a d
      by (simp add: be_int_Cons)
  next
    case False
    have d: "(block (Suc k) n :: int) = 2 ^ (8 - n) * 256 ^ k"
      unfolding q using False by (simp add: power_add [symmetric])
    have "map2 (\<lambda>b m. b OR NOT m) a (mask_from n (Suc k)) = (x OR mask (8 - n)) # replicate k 255"
      using False a or_not_zero [of xs k] by (simp add: mask_byte mask_from_zero)
    then have "be_int (map2 (\<lambda>b m. b OR NOT m) a (mask_from n (Suc k))) =
        uint x div 2 ^ (8 - n) * 2 ^ (8 - n) * 256 ^ k + (2 ^ (8 - n) * 256 ^ k - 1)"
      by (simp add: be_int_Cons uint_or_mask be_int_ones algebra_simps)
    also have "\<dots> = be_int a div block (Suc k) n * block (Suc k) n + (block (Suc k) n - 1)"
      unfolding d using floor_high [of "2 ^ (8 - n)" "256 ^ k" "be_int xs" "uint x"] b a
      by (simp add: be_int_Cons)
    finally show ?thesis .
  qed
qed

section \<open>Subnets as blocks\<close>

definition cidr_net :: "IPNet \<Rightarrow> nat \<Rightarrow> nat \<Rightarrow> bool" where
  "cidr_net n k p \<longleftrightarrow>
     length (net_IP n) = k \<and> p \<le> 8 * k \<and> net_Mask n = mask_from p k \<and>
     block k p dvd be_int (net_IP n)"

definition plain_net :: "IPNet \<Rightarrow> nat \<Rightarrow> nat \<Rightarrow> bool" where
  "plain_net n k p \<longleftrightarrow>
     cidr_net n k p \<and>
     (k = 4 \<or> (k = 16 \<and> p < 128 \<and> 2 ^ 48 \<le> be_int (net_IP n)))"

lemma ipToInt_normalizeIP: "ipToInt a = be_int (normalizeIP a)"
  by (simp add: ipToInt_def normalizeIP_def)

lemma high_v6_form:
  assumes "length a = 16" and "2 ^ 48 \<le> be_int a"
  shows "v6_form a"
proof -
  have "take 12 a \<noteq> v4InV6Prefix"
  proof
    assume t: "take 12 a = v4InV6Prefix"
    have "be_int a = be_int (take 12 a @ drop 12 a)" by simp
    also have "\<dots> = be_int v4InV6Prefix * 256 ^ 4 + be_int (drop 12 a)"
      using assms(1) t by (simp add: be_int_append)
    also have "be_int v4InV6Prefix = 65535" by (simp add: v4InV6Prefix_def be_int_def)
    finally have "be_int a < 2 ^ 48" using be_int_bounds(2) [of "drop 12 a"] assms(1) by simp
    with assms(2) show False by simp
  qed
  with assms(1) show ?thesis by (simp add: v6_form_def)
qed

lemma dec_val_nonneg: "list_all is_digit s \<Longrightarrow> 0 \<le> dec_val s"
proof (induction s rule: rev_induct)
  case (snoc c s)
  then show ?case by (simp add: digit_val_def is_digit_def)
qed simp

lemma ParseCIDR_Inr:
  assumes "ParseCIDR s = Inr (a, n)"
  obtains b l where "length b = 4 \<or> length b = 16" and "0 \<le> l" and "l \<le> int (8 * length b)"
    and "a = To16 b"
    and "n = \<lparr>net_IP = ip_Mask (To16 b) (CIDRMask l (8 * length b)), net_Mask = CIDRMask l (8 * length b)\<rparr>"
proof -
  obtain ad mk b where sp: "SplitN2 (CHR ''/'') s = [ad, mk]" and pa: "ParseAddr ad = Some b"
    using assms by (auto simp: ParseCIDR_def Let_def split: list.splits option.splits)
  then obtain l where l: "parse_prefix_len mk (8 * length b) = Some l"
    using assms by (auto simp: ParseCIDR_def Let_def split: option.splits)
  have eq: "a = To16 b"
    "n = \<lparr>net_IP = ip_Mask (To16 b) (CIDRMask l (8 * length b)), net_Mask = CIDRMask l (8 * length b)\<rparr>"
    using assms by (auto simp: ParseCIDR_def Let_def sp pa l)
  have "0 \<le> l" "l \<le> int (8 * length b)"
    using l dec_val_nonneg [of mk] by (auto simp: parse_prefix_len_def split: if_splits)
  with that eq ParseAddr_length [OF pa] show thesis by blast
qed

lemma ParseCIDR_cidr_net:
  assumes "ParseCIDR s = Inr (a, n)"
  obtains k p where "cidr_net n k p" and "k = 4 \<or> k = 16" and "length a = 16"
    and "length (normalizeIP a) = k \<or> k = 16" and "p = 8 * k \<Longrightarrow> k = 4 \<Longrightarrow> normalizeIP a = net_IP n"
proof -
  from assms obtain b l where pa: "length b = 4 \<or> length b = 16"
    and l: "0 \<le> l" "l \<le> int (8 * length b)"
    and a: "a = To16 b"
    and n: "n = \<lparr>net_IP = ip_Mask (To16 b) (CIDRMask l (8 * length b)), net_Mask = CIDRMask l (8 * length b)\<rparr>"
    using ParseCIDR_Inr by metis
  let ?k = "length b" and ?p = "nat l"
  have m: "CIDRMask l (8 * ?k) = mask_from ?p ?k"
    using pa l by (auto simp: CIDRMask_def)
  have ipm: "ip_Mask (To16 b) (mask_from ?p ?k) = mask_bytes b (mask_from ?p ?k)"
    using pa by (auto simp: ip_Mask_def To16_def Let_def)
  have p: "?p \<le> 8 * ?k" using l by simp
  have net: "net_IP n = mask_bytes b (mask_from ?p ?k)" using n m ipm by simp
  have "block ?k ?p dvd be_int (net_IP n)"
    unfolding net be_int_mask [OF refl p] by simp
  moreover have "length (net_IP n) = ?k" unfolding net by (simp add: mask_bytes_def)
  ultimately have c: "cidr_net n ?k ?p" using n m p by (simp add: cidr_net_def)
  show thesis
  proof (rule that [OF c pa])
    show "length a = 16" using a pa length_To16 by simp
    show "length (normalizeIP a) = ?k \<or> ?k = 16" using a pa by auto
    show "normalizeIP a = net_IP n" if "?p = 8 * ?k" "?k = 4"
    proof -
      have "be_int (net_IP n) = be_int b" unfolding net be_int_mask [OF refl p] using that by simp
      then have "net_IP n = b" using \<open>length (net_IP n) = ?k\<close> be_int_inj by blast
      with a that show ?thesis by simp
    qed
  qed
qed

lemma block_pos [simp]: "(0 :: int) < block k p"
  by simp

lemma cidr_net_top: "cidr_net n k p \<Longrightarrow> be_int (net_IP n) + block k p \<le> 256 ^ k"
proof -
  assume c: "cidr_net n k p"
  then obtain c' where N: "be_int (net_IP n) = block k p * c'" by (auto simp: cidr_net_def)
  have le: "p \<le> 8 * k" using c by (simp add: cidr_net_def)
  have "(256 :: int) ^ k = 2 ^ (8 * k)" by (simp add: power_mult)
  also have "\<dots> = block k p * 2 ^ p" using le by (simp add: power_add [symmetric])
  finally have q: "(256 :: int) ^ k = block k p * 2 ^ p" .
  have "be_int (net_IP n) < 256 ^ k" using be_int_bounds(2) [of "net_IP n"] c by (simp add: cidr_net_def)
  then have "block k p * c' < block k p * 2 ^ p" using N q by simp
  then have "c' + 1 \<le> 2 ^ p" by simp
  then have "block k p * (c' + 1) \<le> block k p * 2 ^ p" by (intro mult_left_mono) simp_all
  then show ?thesis using N q by (simp add: algebra_simps)
qed

lemma floor_eq_iff:
  fixes x N d :: int
  assumes "0 < d" and "d dvd N"
  shows "x div d * d = N \<longleftrightarrow> N \<le> x \<and> x < N + d"
proof
  assume "x div d * d = N"
  then show "N \<le> x \<and> x < N + d"
    using pos_mod_sign [OF assms(1), of x] pos_mod_bound [OF assms(1), of x] div_mult_mod_eq [of x d] by linarith
next
  assume r: "N \<le> x \<and> x < N + d"
  obtain c where N: "N = d * c" using assms(2) by (rule dvdE)
  have "x = d * c + (x - N)" using N by simp
  then have "x div d = c" by (rule int_div_pos_eq) (use r in auto)
  then show "x div d * d = N" using N by (simp add: mult.commute)
qed

definition in_block :: "IPNet \<Rightarrow> nat \<Rightarrow> nat \<Rightarrow> ip \<Rightarrow> bool" where
  "in_block n k p x \<longleftrightarrow>
     length (normalizeIP x) = k \<and>
     be_int (net_IP n) \<le> ipToInt x \<and> ipToInt x < be_int (net_IP n) + block k p"

lemma plain_net_To4:
  assumes "plain_net n k p"
  shows "k = 4 \<and> To4 (net_IP n) = net_IP n \<or> k = 16 \<and> To4 (net_IP n) = []"
  using assms high_v6_form [of "net_IP n"] by (auto simp: plain_net_def cidr_net_def)

lemma plain_net_netmask:
  assumes "plain_net n k p"
  shows "networkNumberAndMask n = (net_IP n, net_Mask n)"
  using plain_net_To4 [OF assms] assms
  by (auto simp: networkNumberAndMask_def Let_def plain_net_def cidr_net_def)

lemma net_Contains_iff:
  assumes "plain_net n k p"
  shows "net_Contains n x \<longleftrightarrow> in_block n k p x"
proof -
  let ?x = "if To4 x \<noteq> [] then To4 x else x"
  have c: "cidr_net n k p" and k: "k = 4 \<or> k = 16" using assms by (auto simp: plain_net_def)
  have len: "length (net_IP n) = k" using c by (simp add: cidr_net_def)
  have lx: "length ?x = k \<longleftrightarrow> length (normalizeIP x) = k"
    using k by (auto simp: normalizeIP_def To4_def To16_def)
  have nx: "length ?x = k \<Longrightarrow> ?x = normalizeIP x"
    using k by (auto simp: normalizeIP_def To16_def)
  have mk: "mask_bytes (net_IP n) (net_Mask n) = mask_bytes y (net_Mask n) \<longleftrightarrow>
      be_int (net_IP n) \<le> be_int y \<and> be_int y < be_int (net_IP n) + block k p"
    if y: "length y = k" for y
  proof -
    have "mask_bytes (net_IP n) (net_Mask n) = mask_bytes y (net_Mask n) \<longleftrightarrow>
        be_int (mask_bytes (net_IP n) (net_Mask n)) = be_int (mask_bytes y (net_Mask n))"
      using len y by (intro be_int_eq_iff [symmetric]) (simp add: mask_bytes_def)
    also have "\<dots> \<longleftrightarrow> be_int (net_IP n) = be_int y div block k p * block k p"
      using c y len be_int_mask [of "net_IP n" k p] be_int_mask [of y k p] by (simp add: cidr_net_def)
    also have "\<dots> \<longleftrightarrow> be_int (net_IP n) \<le> be_int y \<and> be_int y < be_int (net_IP n) + block k p"
      using floor_eq_iff [of "block k p" "be_int (net_IP n)" "be_int y"] c by (auto simp: cidr_net_def)
    finally show ?thesis .
  qed
  have nc: "net_Contains n x \<longleftrightarrow> length ?x = k \<and> mask_bytes (net_IP n) (net_Mask n) = mask_bytes ?x (net_Mask n)"
    using len by (simp add: net_Contains_def plain_net_netmask [OF assms] Let_def)
  show ?thesis
  proof (cases "length ?x = k")
    case True
    show ?thesis
      unfolding nc in_block_def ipToInt_normalizeIP mk [OF True] using True lx nx [OF True] by auto
  next
    case False
    then show ?thesis unfolding nc in_block_def using lx by simp
  qed
qed

lemma network_broadcast:
  assumes "plain_net n k p"
  shows "networkIP n = net_IP n"
    and "\<exists>b. broadcastIP n = Inr b \<and> length b = k \<and> be_int b = be_int (net_IP n) + block k p - 1"
proof -
  have c: "length (net_IP n) = k" "net_Mask n = mask_from p k" "p \<le> 8 * k" "block k p dvd be_int (net_IP n)"
    and k: "k = 4 \<or> k = 16"
    using assms by (auto simp: plain_net_def cidr_net_def)
  have "be_int (mask_bytes (net_IP n) (net_Mask n)) = be_int (net_IP n)"
    using be_int_mask [OF c(1,3)] c(2,4) by simp
  then have "mask_bytes (net_IP n) (net_Mask n) = net_IP n"
    by (rule be_int_inj [rotated]) (simp add: mask_bytes_def c)
  moreover have "networkIP n = mask_bytes (net_IP n) (net_Mask n)"
    using c k by (auto simp: networkIP_def ip_Mask_def Let_def)
  ultimately show "networkIP n = net_IP n" by simp
  show "\<exists>b. broadcastIP n = Inr b \<and> length b = k \<and> be_int b = be_int (net_IP n) + block k p - 1"
    using be_int_or [OF c(1,3)] c by (auto simp: broadcastIP_def)
qed

lemma parseIP_in_block:
  assumes "plain_net n k p" and "parseIP s n d = Inr a" and "s \<noteq> []"
  shows "length a = 16 \<and> in_block n k p a \<and> ipToInt a \<noteq> be_int (net_IP n) \<and>
    ipToInt a \<noteq> be_int (net_IP n) + block k p - 1"
proof -
  obtain b where b: "broadcastIP n = Inr b" "length b = k" "be_int b = be_int (net_IP n) + block k p - 1"
    using network_broadcast(2) [OF assms(1)] by blast
  have k: "k = 4 \<or> k = 16" and len: "length (net_IP n) = k"
    using assms(1) by (auto simp: plain_net_def cidr_net_def)
  have a: "a = ParseIP s" "a \<noteq> []" "net_Contains n a" "\<not> ip_Equal a (net_IP n)" "\<not> ip_Equal a b"
    using assms(2,3) b network_broadcast(1) [OF assms(1)]
    by (auto simp: parseIP_def Let_def split: if_splits)
  have l: "length a = 16" using a(1,2) ParseIP_length by blast
  have ib: "in_block n k p a" using a(3) net_Contains_iff [OF assms(1)] by simp
  have "ipToInt a \<noteq> be_int y" if "\<not> ip_Equal a y" "length y = k" for y
  proof
    assume "ipToInt a = be_int y"
    then have "normalizeIP a = y"
      using ib that(2) by (intro be_int_inj) (simp_all add: in_block_def ipToInt_normalizeIP)
    then have "normalizeIP y = normalizeIP a" by (metis normalizeIP_idem)
    then show False using that ip_Equal_iff [of a y] l k by auto
  qed
  with a(4,5) b len l ib show ?thesis by metis
qed

section \<open>Default bounds\<close>

lemma p2p_mask_v4: "p \<le> 32 \<Longrightarrow> mask_String (mask_from p 4) = p2pMaskStr \<longleftrightarrow> p = 32"
proof -
  assume "p \<le> 32"
  have "list_all (\<lambda>p. (mask_String (mask_from p 4) = p2pMaskStr) = (p = 32)) [0..<33]"
    by code_simp
  then show ?thesis using \<open>p \<le> 32\<close> by (simp add: list_all_iff)
qed

lemma length_hexString: "length (hexString bs) = 2 * length bs"
  by (induction bs) (simp_all add: hexString_def byte_hex_def)

lemma p2p_mask_v6: "mask_String (mask_from p 16) \<noteq> p2pMaskStr"
proof
  assume "mask_String (mask_from p 16) = p2pMaskStr"
  moreover have "mask_from p 16 \<noteq> []" using length_mask_from [of p 16] by (metis list.size(3) zero_neq_numeral)
  ultimately have "hexString (mask_from p 16) = p2pMaskStr" by (simp add: mask_String_def)
  then have "length (hexString (mask_from p 16)) = 8" by (simp add: p2pMaskStr_def)
  then show False by (simp add: length_hexString)
qed

lemma plain_net_block_ge_2:
  assumes "plain_net n k p" and "k = 4 \<Longrightarrow> p \<noteq> 32"
  shows "(2 :: int) \<le> block k p" "even (be_int (net_IP n) + block k p)"
proof -
  have "0 < 8 * k - p" using assms by (auto simp: plain_net_def cidr_net_def)
  then obtain j where "8 * k - p = Suc j" by (cases "8 * k - p") auto
  then show "(2 :: int) \<le> block k p" by simp
  have "(2 :: int) dvd block k p" using \<open>8 * k - p = Suc j\<close> by simp
  then show "even (be_int (net_IP n) + block k p)"
    using assms(1) by (auto simp: plain_net_def cidr_net_def)
qed

lemma be_int_dec_last:
  assumes "length ed = 4" and "odd (be_int ed)"
  shows "be_int (ed[3 := ed ! 3 - 1]) = be_int ed - 1"
proof -
  obtain a b c d where ed: "ed = [a, b, c, d]"
    using assms(1) by (auto simp: length_Suc_conv numeral_eq_Suc)
  have "odd (uint d)" using assms(2) ed by (simp add: be_int_def)
  then have "uint d \<noteq> 0" by auto
  then have "0 < uint d" using uint_ge_0 [of d] by linarith
  then have "uint (d - 1) = uint d - 1" by (simp add: uint_sub_if')
  then show ?thesis by (simp add: ed be_int_def)
qed

lemma NextIP_net:
  assumes "plain_net n k p" and "k = 4 \<Longrightarrow> p \<noteq> 32"
  shows "\<exists>b. NextIP (net_IP n) = Inr b \<and> length b = k \<and> in_block n k p b \<and> ipToInt b = be_int (net_IP n) + 1"
proof -
  let ?N = "be_int (net_IP n)"
  have c: "cidr_net n k p" using assms(1) by (simp add: plain_net_def)
  have len: "length (net_IP n) = k" using c by (simp add: cidr_net_def)
  have top: "?N + 1 < 256 ^ k" using cidr_net_top [OF c] plain_net_block_ge_2(1) [OF assms] by linarith
  have pos: "0 \<le> ?N + 1" using be_int_bounds(1) [of "net_IP n"] by simp
  have norm: "normalizeIP (net_IP n) = net_IP n"
    using plain_net_To4 [OF assms(1)] len by (auto simp: normalizeIP_def)
  have "\<exists>b. NextIP (net_IP n) = Inr b \<and> length b = k \<and> be_int b = ?N + 1"
  proof (cases "k = 4")
    case True
    with len norm top show ?thesis by (auto intro: NextIP_v4 [of "net_IP n"])
  next
    case False
    then have k: "k = 16" "2 ^ 48 \<le> ?N" using assms(1) by (auto simp: plain_net_def)
    have "?N + 1 < 2 ^ 128" using top k by simp
    moreover have "2 ^ 32 \<le> ?N + 1" using k(2) by simp
    ultimately obtain b where "intToIP (?N + 1) True = Inr b" "length b = 16" "be_int b = ?N + 1"
      using intToIP_v6 [OF pos] by blast
    moreover have "NextIP (net_IP n) = intToIP (?N + 1) True"
      using len k norm by (auto simp: NextIP_def Let_def)
    ultimately show ?thesis using k by simp
  qed
  then obtain b where b: "NextIP (net_IP n) = Inr b" "length b = k" "be_int b = ?N + 1" by blast
  have nb: "normalizeIP b = b"
    using assms(1) b high_v6_form [of b] by (auto simp: plain_net_def)
  have "in_block n k p b"
    using b nb plain_net_block_ge_2(1) [OF assms] by (simp add: in_block_def ipToInt_normalizeIP)
  with b nb show ?thesis by (simp add: ipToInt_normalizeIP)
qed

lemma lastIP_net:
  assumes "plain_net n k p" and "k = 4 \<Longrightarrow> p \<noteq> 32"
  shows "\<exists>b. lastIP n = Inr b \<and> length b = k \<and> in_block n k p b \<and>
    ipToInt b = be_int (net_IP n) + block k p - (if k = 4 then 2 else 1)"
proof -
  let ?N = "be_int (net_IP n)" and ?ed = "map2 (\<lambda>b m. b OR NOT m) (net_IP n) (net_Mask n)"
  have c: "length (net_IP n) = k" "net_Mask n = mask_from p k" "p \<le> 8 * k" "block k p dvd ?N"
    using assms(1) by (auto simp: plain_net_def cidr_net_def)
  have ed: "length ?ed = k" "be_int ?ed = ?N + block k p - 1"
    using be_int_or [OF c(1,3)] c by simp_all
  have odd: "odd (be_int ?ed)" using ed plain_net_block_ge_2(2) [OF assms] by simp
  note b2 = plain_net_block_ge_2(1) [OF assms]
  show ?thesis
  proof (cases "k = 4")
    case True
    let ?b = "?ed[3 := ?ed ! 3 - 1]"
    have "be_int ?b = ?N + block k p - 2" using be_int_dec_last [of ?ed] ed odd True by simp
    moreover have "length ?b = 4" using ed True by simp
    moreover have "To4 (net_IP n) \<noteq> []" using c True by auto
    then have "lastIP n = Inr ?b" using c by (simp add: lastIP_def Let_def)
    ultimately show ?thesis
      using True b2 by (auto simp: in_block_def ipToInt_normalizeIP)
  next
    case False
    then have k: "k = 16" "2 ^ 48 \<le> ?N" using assms(1) by (auto simp: plain_net_def)
    have "To4 (net_IP n) = []" using plain_net_To4 [OF assms(1)] False by auto
    then have l: "lastIP n = Inr ?ed" using c by (simp add: lastIP_def Let_def)
    have "normalizeIP ?ed = ?ed" using high_v6_form [of ?ed] ed k b2 by simp
    then show ?thesis using l ed k b2 by (simp add: in_block_def ipToInt_normalizeIP)
  qed
qed

section \<open>What MakeRange returns\<close>

definition range_ok :: "ARange \<Rightarrow> nat \<Rightarrow> nat \<Rightarrow> bool" where
  "range_ok r k p \<longleftrightarrow>
     plain_net (Subnet r) k p \<and>
     length (RangeStart r) = 16 \<and> length (RangeEnd r) = 16 \<and>
     in_block (Subnet r) k p (RangeStart r) \<and> in_block (Subnet r) k p (RangeEnd r) \<and>
     ipToInt (RangeStart r) \<le> ipToInt (RangeEnd r) \<and>
     (Gateway r = [] \<or> length (Gateway r) = 16 \<and> in_block (Subnet r) k p (Gateway r))"

lemma in_block_To16:
  assumes "k = 4 \<or> k = 16" and "length a = k" and "in_block n k p a"
  shows "length (To16 a) = 16 \<and> in_block n k p (To16 a)"
  using assms by (auto simp: in_block_def ipToInt_normalizeIP length_To16)

lemma default_bounds_in_block:
  assumes "plain_net n k p" and "default_bounds a n = Inr (s, t, g)"
    and "k = 4 \<Longrightarrow> p = 32 \<Longrightarrow> length a = 16 \<and> normalizeIP a = net_IP n"
  shows "length s = 16 \<and> length t = 16 \<and> in_block n k p s \<and> in_block n k p t \<and>
    (g = [] \<or> length g = 16 \<and> in_block n k p g)"
proof (cases "k = 4 \<and> p = 32")
  case True
  then have "mask_String (net_Mask n) = p2pMaskStr"
    using assms(1) p2p_mask_v4 [of 32] by (simp add: plain_net_def cidr_net_def)
  then have "s = a" "t = a" "g = []" using assms(2,3) True by (auto simp: default_bounds_def)
  then show ?thesis using assms(1,3) True
    by (simp add: in_block_def ipToInt_normalizeIP plain_net_def cidr_net_def)
next
  case False
  have k: "k = 4 \<or> k = 16" using assms(1) by (auto simp: plain_net_def)
  have "mask_String (net_Mask n) \<noteq> p2pMaskStr"
    using assms(1) False p2p_mask_v4 [of p] p2p_mask_v6 by (auto simp: plain_net_def cidr_net_def)
  moreover obtain b where b: "NextIP (net_IP n) = Inr b" "length b = k" "in_block n k p b"
    using NextIP_net [OF assms(1)] False by blast
  moreover obtain l where l: "lastIP n = Inr l" "length l = k" "in_block n k p l"
    using lastIP_net [OF assms(1)] False by blast
  ultimately have "s = To16 b" "t = To16 l" "g = To16 b"
    using assms(2) by (auto simp: default_bounds_def)
  then show ?thesis using in_block_To16 [OF k] b l by auto
qed

lemma To16_order:
  assumes "length a = 16" and "length b = 16" and "length (normalizeIP a) = length (normalizeIP b)"
  shows "be_int a \<le> be_int b \<longleftrightarrow> ipToInt a \<le> ipToInt b"
proof -
  have split: "be_int a = be_int v4InV6Prefix * 256 ^ 4 + be_int (normalizeIP a)"
    if "length a = 16" "length (normalizeIP a) = 4" for a
  proof -
    have "a = v4InV6Prefix @ normalizeIP a"
      using that To16_normalizeIP [of a] by (simp add: To16_def)
    then show ?thesis using that be_int_append [of v4InV6Prefix "normalizeIP a"] by simp
  qed
  have norm: "normalizeIP c = c" if "length c = 16" "length (normalizeIP c) \<noteq> 4" for c
    using that length_To4 [of c] by (auto simp: normalizeIP_def)
  show ?thesis
    using assms split [of a] split [of b] norm [of a] norm [of b]
    by (cases "length (normalizeIP a) = 4") (simp_all add: ipToInt_normalizeIP)
qed

lemma addr_Compare_order:
  assumes "length a = 16" and "length b = 16" and "length (normalizeIP a) = length (normalizeIP b)"
  shows "0 < addr_Compare a b \<longleftrightarrow> ipToInt b < ipToInt a"
  using assms To16_order [OF assms] by (auto simp: addr_Compare_def Let_def addr_len_def)

lemma MakeRange_Inr:
  assumes "MakeRange r = Inr ar"
  obtains a ds de dg s t where "ParseCIDR (lb_Subnet r) = Inr (a, Subnet ar)"
    and "default_bounds a (Subnet ar) = Inr (ds, de, dg)"
    and "parseIP (lb_RangeStart r) (Subnet ar) ds = Inr s"
    and "parseIP (lb_RangeEnd r) (Subnet ar) de = Inr t"
    and "parseIP (lb_Gateway r) (Subnet ar) dg = Inr (Gateway ar)"
    and "(RangeStart ar, RangeEnd ar) = (if 0 < addr_Compare s t then (t, s) else (s, t))"
  using assms by (auto simp: MakeRange_def Let_def split: sum.splits prod.splits if_splits)

lemma MakeRange_range_ok:
  assumes "MakeRange r = Inr ar" and "plain_net (Subnet ar) k p"
  shows "range_ok ar k p"
proof -
  let ?n = "Subnet ar"
  obtain a ds de dg s t where cidr: "ParseCIDR (lb_Subnet r) = Inr (a, ?n)"
    and d: "default_bounds a ?n = Inr (ds, de, dg)"
    and s: "parseIP (lb_RangeStart r) ?n ds = Inr s"
    and t: "parseIP (lb_RangeEnd r) ?n de = Inr t"
    and g: "parseIP (lb_Gateway r) ?n dg = Inr (Gateway ar)"
    and se: "(RangeStart ar, RangeEnd ar) = (if 0 < addr_Compare s t then (t, s) else (s, t))"
    using assms(1) by (rule MakeRange_Inr)
  obtain k' p' where c: "cidr_net ?n k' p'" "length a = 16" "p' = 8 * k' \<Longrightarrow> k' = 4 \<Longrightarrow> normalizeIP a = net_IP ?n"
    using cidr by (rule ParseCIDR_cidr_net) blast
  have p2p: "length a = 16 \<and> normalizeIP a = net_IP ?n" if "k = 4" "p = 32"
  proof -
    have k': "k' = 4" and m: "mask_from p' 4 = mask_from 32 4" and le: "p' \<le> 32"
      using c(1) assms(2) that by (auto simp: plain_net_def cidr_net_def)
    then have "p' = 32" using p2p_mask_v4 [of p'] p2p_mask_v4 [of 32] by simp
    with c k' show ?thesis by simp
  qed
  note def = default_bounds_in_block [OF assms(2) d p2p]
  have start: "length s = 16 \<and> in_block ?n k p s"
    using s def parseIP_in_block [OF assms(2) s] by (cases "lb_RangeStart r = []") (auto simp: parseIP_def)
  have ed: "length t = 16 \<and> in_block ?n k p t"
    using t def parseIP_in_block [OF assms(2) t] by (cases "lb_RangeEnd r = []") (auto simp: parseIP_def)
  have gw: "Gateway ar = [] \<or> length (Gateway ar) = 16 \<and> in_block ?n k p (Gateway ar)"
    using g def parseIP_in_block [OF assms(2) g] by (cases "lb_Gateway r = []") (auto simp: parseIP_def)
  have "0 < addr_Compare s t \<longleftrightarrow> ipToInt t < ipToInt s"
    using addr_Compare_order [of s t] start ed by (simp add: in_block_def)
  then show ?thesis
    using se start ed gw assms(2) by (auto simp: range_ok_def split: if_splits)
qed

section \<open>Membership and overlap\<close>

lemma canonicalizeIP_normalizeIP:
  "canonicalizeIP a = (if normalizeIP a = [] then Inl (errorf (''IP '' @ ip_String a @ '' not v4 nor v6''))
     else Inr (normalizeIP a))"
  by (simp add: canonicalizeIP_def normalizeIP_def)

definition in_range :: "ARange \<Rightarrow> nat \<Rightarrow> ip \<Rightarrow> bool" where
  "in_range r k x \<longleftrightarrow>
     length (normalizeIP x) = k \<and>
     ipToInt (RangeStart r) \<le> ipToInt x \<and> ipToInt x \<le> ipToInt (RangeEnd r)"

lemma range_Contains_iff:
  assumes "range_ok r k p"
  shows "range_Contains r x \<longleftrightarrow> in_range r k x"
proof -
  have n: "plain_net (Subnet r) k p" and len: "length (net_IP (Subnet r)) = k" and k: "0 < k"
    and s: "RangeStart r \<noteq> []" "length (normalizeIP (RangeStart r)) = k"
    and e: "RangeEnd r \<noteq> []" "length (normalizeIP (RangeEnd r)) = k"
    using assms by (auto simp: range_ok_def plain_net_def cidr_net_def in_block_def)
  have nx: "normalizeIP (normalizeIP x) = normalizeIP x" by simp
  show ?thesis
  proof (cases "length (normalizeIP x) = k")
    case True
    then have ne: "normalizeIP x \<noteq> []" using k by auto
    have cmp: "Cmp (normalizeIP x) (RangeStart r) < 0 \<longleftrightarrow> ipToInt x < ipToInt (RangeStart r)"
      "0 < Cmp (normalizeIP x) (RangeEnd r) \<longleftrightarrow> ipToInt (RangeEnd r) < ipToInt x"
      using Cmp_same_family [of "normalizeIP x" "RangeStart r"] Cmp_same_family [of "normalizeIP x" "RangeEnd r"]
        ne True s e by (simp_all add: ipToInt_normalizeIP)
    have "in_block (Subnet r) k p (normalizeIP x)"
      if "ipToInt (RangeStart r) \<le> ipToInt x" "ipToInt x \<le> ipToInt (RangeEnd r)"
      using that assms True by (auto simp: range_ok_def in_block_def ipToInt_normalizeIP)
    then show ?thesis
      using True ne len cmp s e net_Contains_iff [OF n, of "normalizeIP x"]
      by (auto simp: range_Contains_def canonicalizeIP_normalizeIP in_range_def)
  next
    case False
    then show ?thesis
      using len by (auto simp: range_Contains_def canonicalizeIP_normalizeIP in_range_def)
  qed
qed

lemma range_Contains_bounds:
  assumes "range_ok r k p"
  shows "range_Contains r (RangeStart r)" "range_Contains r (RangeEnd r)"
  using assms range_Contains_iff [OF assms]
  by (auto simp: range_ok_def in_range_def in_block_def)

lemma range_Overlaps_iff:
  assumes r: "range_ok r k p" and r1: "range_ok r1 k1 p1"
  shows "range_Overlaps r r1 \<longleftrightarrow> (\<exists>x. range_Contains r x \<and> range_Contains r1 x)"
proof
  assume "range_Overlaps r r1"
  then show "\<exists>x. range_Contains r x \<and> range_Contains r1 x"
    using range_Contains_bounds [OF r] range_Contains_bounds [OF r1]
    by (auto simp: range_Overlaps_def split: if_splits)
next
  assume "\<exists>x. range_Contains r x \<and> range_Contains r1 x"
  then obtain x where x: "in_range r k x" "in_range r1 k1 x"
    using range_Contains_iff [OF r] range_Contains_iff [OF r1] by blast
  then have k: "k1 = k" by (simp add: in_range_def)
  have l: "length (RangeStart r) = length (RangeStart r1)" using r r1 by (simp add: range_ok_def)
  have b: "length (normalizeIP (RangeStart r)) = k" "length (normalizeIP (RangeStart r1)) = k"
    using r r1 k by (simp_all add: range_ok_def in_block_def)
  have "in_range r k (RangeStart r1) \<or> in_range r1 k (RangeStart r)"
    using x b k by (auto simp: in_range_def)
  then show "range_Overlaps r r1"
    using l k range_Contains_iff [OF r] range_Contains_iff [OF r1] by (auto simp: range_Overlaps_def)
qed

text \<open>The addresses a range hands out, as integers: its interval without the gateway.\<close>

definition alloc_values :: "ARange \<Rightarrow> int set" where
  "alloc_values r =
     {ipToInt (RangeStart r) .. ipToInt (RangeEnd r)} - (if Gateway r = [] then {} else {ipToInt (Gateway r)})"

lemma countIP_card:
  assumes "range_ok r k p" and "ipToInt (RangeEnd r) - ipToInt (RangeStart r) + 1 < 2 ^ 63"
  shows "sint (countIP r) = int (card (alloc_values r))"
proof -
  let ?s = "ipToInt (RangeStart r)" and ?e = "ipToInt (RangeEnd r)" and ?g = "ipToInt (Gateway r)"
  have le: "?s \<le> ?e" using assms(1) by (simp add: range_ok_def)
  have small: "sint (word_of_int i :: int64) = i" if "0 \<le> i" "i < 2 ^ 63" for i
    using that by (simp add: signed_of_int signed_take_bit_int_eq_self)
  have gw: "Gateway r \<noteq> [] \<and> range_Contains r (Gateway r) \<longleftrightarrow> Gateway r \<noteq> [] \<and> ?s \<le> ?g \<and> ?g \<le> ?e"
    using assms(1) range_Contains_iff [OF assms(1)] by (auto simp: range_ok_def in_range_def in_block_def)
  show ?thesis
  proof (cases "Gateway r \<noteq> [] \<and> ?s \<le> ?g \<and> ?g \<le> ?e")
    case True
    then have "countIP r = word_of_int (?e - ?s)"
      using gw by (simp add: countIP_def Let_def)
    moreover have "card (alloc_values r) = nat (?e - ?s)"
      using True by (simp add: alloc_values_def)
    ultimately show ?thesis using small [of "?e - ?s"] le assms(2) by simp
  next
    case False
    then have c: "countIP r = word_of_int (?e - ?s + 1)"
      using gw by (simp add: countIP_def Let_def)
    have "alloc_values r = {?s .. ?e}" using False by (auto simp: alloc_values_def)
    then have "card (alloc_values r) = nat (?e - ?s + 1)" by simp
    then show ?thesis unfolding c using small [of "?e - ?s + 1"] le assms(2) by simp
  qed
qed

section \<open>The subnets covered\<close>

definition served_net :: "IPNet \<Rightarrow> bool" where
  "served_net n \<longleftrightarrow>
     length (net_Mask n) = 4 \<or>
     (length (net_Mask n) = 16 \<and> net_Mask n \<noteq> replicate 16 255 \<and> 2 ^ 48 \<le> be_int (net_IP n))"

lemma mask_from_full: "mask_from (8 * k) k = replicate k 255"
  by (induction k) simp_all

lemma MakeRange_plain_net:
  assumes "MakeRange r = Inr ar" and "served_net (Subnet ar)"
  obtains k p where "plain_net (Subnet ar) k p" and "k = length (net_Mask (Subnet ar))"
proof -
  obtain a where "ParseCIDR (lb_Subnet r) = Inr (a, Subnet ar)"
    using assms(1) by (rule MakeRange_Inr)
  then obtain k p where c: "cidr_net (Subnet ar) k p" "k = 4 \<or> k = 16"
    by (rule ParseCIDR_cidr_net) blast
  then have len: "length (net_Mask (Subnet ar)) = k" by (simp add: cidr_net_def)
  have "plain_net (Subnet ar) k p"
  proof (cases "k = 4")
    case False
    then have "k = 16" using c by simp
    moreover have "p < 128"
    proof (rule ccontr)
      assume "\<not> p < 128"
      then have "p = 8 * 16" using c(1) \<open>k = 16\<close> by (simp add: cidr_net_def)
      then have "net_Mask (Subnet ar) = replicate 16 255"
        using c(1) \<open>k = 16\<close> mask_from_full [of 16] by (simp add: cidr_net_def)
      then show False using assms(2) len \<open>k = 16\<close> by (simp add: served_net_def)
    qed
    ultimately show ?thesis using c assms(2) len by (auto simp: plain_net_def served_net_def)
  qed (use c in \<open>simp add: plain_net_def\<close>)
  with that len show thesis by simp
qed

lemma MakeRange_ok:
  assumes "MakeRange r = Inr ar" and "served_net (Subnet ar)"
  obtains k p where "range_ok ar k p" and "k = length (net_Mask (Subnet ar))"
  using assms MakeRange_plain_net MakeRange_range_ok by metis

lemma mask_from_inj:
  assumes "p \<le> 8 * k" and "q \<le> 8 * k" and "mask_from p k = mask_from q k"
  shows "p = q"
proof -
  have "be_int (map2 (\<lambda>b m. b OR NOT m) (replicate k 0) (mask_from n k)) = block k n - 1" if "n \<le> 8 * k" for n
    using be_int_or [of "replicate k 0" k n] that by simp
  from this [OF assms(1)] this [OF assms(2)] have "(2 :: int) ^ (8 * k - p) = 2 ^ (8 * k - q)"
    using assms(3) by simp
  then have "8 * k - p = 8 * k - q" by simp
  then show ?thesis using assms(1,2) by linarith
qed

text \<open>The bounds of an IPv4 subnet with at least four addresses when the user gives none.\<close>

lemma MakeRange_default_values:
  assumes "MakeRange r = Inr ar" and "net_Mask (Subnet ar) = mask_from p 4" and "p \<le> 30"
    and "lb_RangeStart r = []" and "lb_RangeEnd r = []" and "lb_Gateway r = []"
  shows "ipToInt (RangeStart ar) = be_int (net_IP (Subnet ar)) + 1 \<and> Gateway ar = RangeStart ar \<and>
    ipToInt (RangeEnd ar) = be_int (net_IP (Subnet ar)) + 2 ^ (32 - p) - 2"
proof -
  let ?n = "Subnet ar"
  obtain a ds de dg s t where cidr: "ParseCIDR (lb_Subnet r) = Inr (a, ?n)"
    and d: "default_bounds a ?n = Inr (ds, de, dg)"
    and mk: "parseIP (lb_RangeStart r) ?n ds = Inr s" "parseIP (lb_RangeEnd r) ?n de = Inr t"
      "parseIP (lb_Gateway r) ?n dg = Inr (Gateway ar)"
    and o: "(RangeStart ar, RangeEnd ar) = (if 0 < addr_Compare s t then (t, s) else (s, t))"
    using MakeRange_Inr [OF assms(1)] .
  obtain k p' where c: "cidr_net ?n k p'" "k = 4 \<or> k = 16" using ParseCIDR_cidr_net [OF cidr] by blast
  have "length (mask_from p 4) = length (mask_from p' k)" using c(1) assms(2) by (simp add: cidr_net_def)
  then have k: "k = 4" by simp
  have p': "p' = p" using c(1) k assms(2,3) mask_from_inj [of p' 4 p] by (simp add: cidr_net_def)
  have n: "plain_net ?n 4 p" using c(1) k p' by (simp add: plain_net_def)
  have "(4 :: int) = 2 ^ 2" by simp
  also have "\<dots> \<le> 2 ^ (32 - p)" using assms(3) by (intro power_increasing) auto
  finally have big: "(4 :: int) \<le> 2 ^ (32 - p)" .
  obtain b where b: "NextIP (net_IP ?n) = Inr b" "length b = 4" "in_block ?n 4 p b"
    "ipToInt b = be_int (net_IP ?n) + 1"
    using NextIP_net [OF n] assms(3) by auto
  obtain l where l: "lastIP ?n = Inr l" "length l = 4" "in_block ?n 4 p l"
    "ipToInt l = be_int (net_IP ?n) + 2 ^ (32 - p) - 2"
    using lastIP_net [OF n] assms(3) by auto
  have "mask_String (net_Mask ?n) \<noteq> p2pMaskStr" using p2p_mask_v4 [of p] assms(2,3) by simp
  then have "ds = To16 b" "de = To16 l" "dg = To16 b" using d b(1) l(1) by (auto simp: default_bounds_def)
  then have st: "s = To16 b" "t = To16 l" "Gateway ar = To16 b"
    using mk assms(4-6) by (simp_all add: parseIP_def)
  have v: "ipToInt (To16 b) = ipToInt b" "ipToInt (To16 l) = ipToInt l"
    using b(2) l(2) by (simp_all add: ipToInt_normalizeIP)
  have "\<not> 0 < addr_Compare s t"
    unfolding st using v b l big addr_Compare_order [of "To16 b" "To16 l"] by (simp add: length_To16)
  then show ?thesis using o st v b(4) l(4) by simp
qed

end
