(* ===== verification/ApiTypes.thy ===== *)
theory ApiTypes
  imports Ranges
begin

text \<open>
  The API types of \<^verbatim>\<open>pkg/apis/loadbalancer.harvesterhci.io/v1beta1\<close>
  (\<^verbatim>\<open>ippool.go\<close>, \<^verbatim>\<open>loadbalancer.go\<close>), the fields of the Kubernetes metadata that
  the program reads, the label and annotation keys of \<^verbatim>\<open>pkg/utils/const.go\<close>, and the
  condition setters of the vendored \<^verbatim>\<open>wrangler/pkg/condition\<close>.

  Integers keep their width: \<open>int32\<close> and \<open>int64\<close> are words read by \<open>sint\<close>, \<open>uint32\<close> and
  \<open>uint\<close> are words read by \<open>uint\<close>. A pointer or a map that may be nil is an option.
\<close>

type_synonym int32 = "32 word"
type_synonym uint32 = "32 word"
type_synonym gouint = "64 word"

section \<open>Metadata\<close>

record OwnerReference =
  own_APIVersion :: string
  own_Kind :: string
  own_Name :: string
  own_UID :: string

record ObjectMeta =
  md_Name :: string
  md_Namespace :: string
  md_UID :: string
  md_ResourceVersion :: string
  md_DeletionTimestamp :: "string option"
  md_Labels :: "strmap option"
  md_Annotations :: "strmap option"
  md_OwnerReferences :: "OwnerReference list"

definition empty_meta :: ObjectMeta where
  "empty_meta = \<lparr>md_Name = '''', md_Namespace = '''', md_UID = '''', md_ResourceVersion = '''',
     md_DeletionTimestamp = None, md_Labels = None, md_Annotations = None, md_OwnerReferences = []\<rparr>"

section \<open>Conditions\<close>

record Condition =
  cond_Type :: string
  cond_Status :: string
  cond_LastUpdateTime :: string
  cond_LastTransitionTime :: string
  cond_Reason :: string
  cond_Message :: string

text \<open>
  \<^verbatim>\<open>findOrCreateCond\<close> finds the first condition of a type or appends one with status
  Unknown; \<^verbatim>\<open>setValue\<close> writes a field and stamps the time only when the value changes.
\<close>

definition new_cond :: "string \<Rightarrow> Condition" where
  "new_cond name = \<lparr>cond_Type = name, cond_Status = ''Unknown'', cond_LastUpdateTime = '''',
     cond_LastTransitionTime = '''', cond_Reason = '''', cond_Message = ''''\<rparr>"

fun update_cond :: "string \<Rightarrow> (Condition \<Rightarrow> Condition) \<Rightarrow> Condition list \<Rightarrow> Condition list" where
  "update_cond name f [] = [f (new_cond name)]"
| "update_cond name f (c # cs) =
     (if cond_Type c = name then f c # cs else c # update_cond name f cs)"

definition cond_setStatus :: "string \<Rightarrow> string \<Rightarrow> string \<Rightarrow> Condition list \<Rightarrow> Condition list" where
  "cond_setStatus now name v =
     update_cond name (\<lambda>c. if cond_Status c = v then c else c\<lparr>cond_Status := v, cond_LastUpdateTime := now\<rparr>)"

definition cond_setMessage :: "string \<Rightarrow> string \<Rightarrow> string \<Rightarrow> Condition list \<Rightarrow> Condition list" where
  "cond_setMessage now name v =
     update_cond name (\<lambda>c. if cond_Message c = v then c else c\<lparr>cond_Message := v, cond_LastUpdateTime := now\<rparr>)"

fun find_cond :: "string \<Rightarrow> Condition list \<Rightarrow> Condition option" where
  "find_cond name [] = None"
| "find_cond name (c # cs) = (if cond_Type c = name then Some c else find_cond name cs)"

definition cond_getStatus :: "string \<Rightarrow> Condition list \<Rightarrow> string" where
  "cond_getStatus name cs = (case find_cond name cs of None \<Rightarrow> '''' | Some c \<Rightarrow> cond_Status c)"

definition cond_getMessage :: "string \<Rightarrow> Condition list \<Rightarrow> string" where
  "cond_getMessage name cs = (case find_cond name cs of None \<Rightarrow> '''' | Some c \<Rightarrow> cond_Message c)"

section \<open>IP pools\<close>

record Tuple =
  t_Project :: string
  t_Namespace :: string
  t_GuestCluster :: string

record Selector =
  sel_Priority :: uint32
  sel_Network :: string
  sel_Scope :: "Tuple list"

record IPPoolSpec =
  ps_Description :: string
  ps_Ranges :: "LBRange list"
  ps_Selector :: Selector

record IPPoolStatus =
  st_Total :: int64
  st_Available :: int64
  st_LastAllocated :: string
  st_Allocated :: "strmap option"
  st_AllocatedHistory :: "strmap option"
  st_Conditions :: "Condition list"

record IPPool =
  pool_Meta :: ObjectMeta
  pool_Spec :: IPPoolSpec
  pool_Status :: IPPoolStatus

definition IPPoolReady :: string where
  "IPPoolReady = ''Ready''"

abbreviation pool_Name :: "IPPool \<Rightarrow> string" where
  "pool_Name p \<equiv> md_Name (pool_Meta p)"

abbreviation pool_Allocated :: "IPPool \<Rightarrow> strmap option" where
  "pool_Allocated p \<equiv> st_Allocated (pool_Status p)"

abbreviation pool_History :: "IPPool \<Rightarrow> strmap option" where
  "pool_History p \<equiv> st_AllocatedHistory (pool_Status p)"

section \<open>Load balancers\<close>

record Listener =
  l_Name :: string
  l_Port :: int32
  l_Protocol :: string
  l_BackendPort :: int32

record HealthCheck =
  hc_Port :: gouint
  hc_SuccessThreshold :: gouint
  hc_FailureThreshold :: gouint
  hc_PeriodSeconds :: gouint
  hc_TimeoutSeconds :: gouint

record AllocatedAddress =
  aa_IPPool :: string
  aa_IP :: string
  aa_Mask :: string
  aa_Gateway :: string

definition empty_address :: AllocatedAddress where
  "empty_address = \<lparr>aa_IPPool = '''', aa_IP = '''', aa_Mask = '''', aa_Gateway = ''''\<rparr>"

record LoadBalancerSpec =
  lbs_Description :: string
  lbs_WorkloadType :: string
  lbs_IPAM :: string
  lbs_IPPool :: string
  lbs_Listeners :: "Listener list"
  lbs_BackendServerSelector :: "(string, string list) gomap"
  lbs_HealthCheck :: "HealthCheck option"

record LoadBalancerStatus =
  lbst_BackendServers :: "string list option"
  lbst_AllocatedAddress :: AllocatedAddress
  lbst_Address :: string
  lbst_Conditions :: "Condition list"

record LoadBalancer =
  lb_APIVersion :: string
  lb_Kind :: string
  lb_Meta :: ObjectMeta
  lb_Spec :: LoadBalancerSpec
  lb_Status :: LoadBalancerStatus

definition VM :: string where "VM = ''vm''"
definition Cluster :: string where "Cluster = ''cluster''"
definition PoolIPAM :: string where "PoolIPAM = ''pool''"
definition DHCP :: string where "DHCP = ''dhcp''"
definition LoadBalancerReady :: string where "LoadBalancerReady = ''Ready''"

abbreviation lb_Name :: "LoadBalancer \<Rightarrow> string" where
  "lb_Name lb \<equiv> md_Name (lb_Meta lb)"

abbreviation lb_Namespace :: "LoadBalancer \<Rightarrow> string" where
  "lb_Namespace lb \<equiv> md_Namespace (lb_Meta lb)"

section \<open>Keys\<close>

definition GroupName :: string where "GroupName = ''loadbalancer.harvesterhci.io''"
definition SchemeGroupVersion :: string where "SchemeGroupVersion = GroupName @ ''/v1beta1''"
definition KeyGlobalIPPool :: string where "KeyGlobalIPPool = GroupName @ ''/global-ip-pool''"
definition ValueTrue :: string where "ValueTrue = ''true''"
definition Address4AskDHCP :: string where "Address4AskDHCP = ''0.0.0.0''"
definition AnnotationKeyNetwork :: string where "AnnotationKeyNetwork = GroupName @ ''/network''"
definition AnnotationKeyProject :: string where "AnnotationKeyProject = GroupName @ ''/project''"
definition AnnotationKeyNamespace :: string where "AnnotationKeyNamespace = GroupName @ ''/namespace''"
definition AnnotationKeyCluster :: string where "AnnotationKeyCluster = GroupName @ ''/cluster''"
definition AnnotationKeyManuallyReleaseIP :: string where
  "AnnotationKeyManuallyReleaseIP = GroupName @ ''/manuallyReleaseIP''"
definition DuplicateAllocationKeyWord :: string where
  "DuplicateAllocationKeyWord = ''duplicate allocation is not allowed''"
definition AnnotationKeyGuestClusterOnRemove :: string where
  "AnnotationKeyGuestClusterOnRemove = ''harvesterhci.io/removeAllPersistentVolumeClaims''"
definition LabelKeyHarvesterCreator :: string where "LabelKeyHarvesterCreator = ''harvesterhci.io/creator''"
definition GuestClusterHarvesterNodeDriver :: string where
  "GuestClusterHarvesterNodeDriver = ''docker-machine-driver-harvester''"
definition AnnotationKeyGuestClusterManagementNetworkOnLB :: string where
  "AnnotationKeyGuestClusterManagementNetworkOnLB = ''cloudprovider.harvesterhci.io/managementNetwork''"
definition LabelKeyGuestClusterNameOnVM :: string where
  "LabelKeyGuestClusterNameOnVM = ''guestcluster.harvesterhci.io/name''"
definition LabelKeyGuestClusterNameOnLB :: string where
  "LabelKeyGuestClusterNameOnLB = ''cloudprovider.harvesterhci.io/cluster''"
definition KeyVid :: string where "KeyVid = GroupName @ ''/vid''"
definition KeyVlanLabel :: string where "KeyVlanLabel = ''network.harvesterhci.io/vlan-id''"

section \<open>Lemmas on conditions\<close>

lemma find_update_cond [simp]:
  assumes "\<And>c. cond_Type (f c) = cond_Type c"
  shows "find_cond name (update_cond name f cs) =
    Some (f (case find_cond name cs of None \<Rightarrow> new_cond name | Some c \<Rightarrow> c))"
  using assms by (induction cs) (auto simp: new_cond_def)

lemma find_update_other:
  assumes "\<And>c. cond_Type (f c) = cond_Type c" and "other \<noteq> name"
  shows "find_cond other (update_cond name f cs) = find_cond other cs"
  using assms by (induction cs) (auto simp: new_cond_def)

lemma cond_status_set [simp]: "cond_getStatus name (cond_setStatus now name v cs) = v"
  by (simp add: cond_getStatus_def cond_setStatus_def)

lemma cond_message_set [simp]: "cond_getMessage name (cond_setMessage now name v cs) = v"
  by (simp add: cond_getMessage_def cond_setMessage_def)

lemma cond_status_message [simp]:
  "cond_getStatus name (cond_setMessage now name v cs) =
     (case find_cond name cs of None \<Rightarrow> ''Unknown'' | Some c \<Rightarrow> cond_Status c)"
  by (auto simp: cond_getStatus_def cond_setMessage_def new_cond_def split: option.splits)

text \<open>Setting a status and a message that are already there changes nothing, the time stamp included.\<close>

lemma update_cond_idem:
  assumes "find_cond name cs = Some c" and "f c = c"
  shows "update_cond name f cs = cs"
  using assms by (induction cs) (auto split: if_splits)

lemma cond_set_idem:
  assumes "cond_getStatus name cs = v" and "cond_getMessage name cs = m" and "find_cond name cs \<noteq> None"
  shows "cond_setMessage now name m (cond_setStatus now name v cs) = cs"
proof -
  obtain c where c: "find_cond name cs = Some c" using assms(3) by auto
  then have "cond_Status c = v" "cond_Message c = m"
    using assms(1,2) by (simp_all add: cond_getStatus_def cond_getMessage_def)
  then show ?thesis
    using c by (simp add: cond_setStatus_def cond_setMessage_def update_cond_idem)
qed

end
