(* ===== verification/KubeAPI.thy ===== *)
theory KubeAPI
  imports ApiTypes
begin

text \<open>
  The IP pool resource as the program reaches it: a lister (\<^verbatim>\<open>ctllbv1.IPPoolCache\<close>) that
  reads a snapshot kept by the informer, and a client (\<^verbatim>\<open>ctllbv1.IPPoolClient\<close>) that
  writes to the API server. Both are parameters of the model: records of functions over a type
  \<open>'w\<close> of worlds that the model never looks into.

  The locale \<open>pool_api\<close> states what the program relies on, optimistic concurrency: an update is
  accepted only when its resource version is the one stored, a refused update changes nothing,
  a snapshot with the stored resource version is the stored object, and an update leaves the
  snapshot behind or moves it to what is stored. \<open>PoolServer\<close> is a small
  server with a lagging cache on which the locale is interpreted.
\<close>

section \<open>Interface records\<close>

record 'w IPPoolCache =
  pc_Get :: "string \<Rightarrow> 'w \<Rightarrow> IPPool res"
  pc_List :: "strmap \<Rightarrow> 'w \<Rightarrow> IPPool list res"

record 'w IPPoolClient =
  pcl_Update :: "IPPool \<Rightarrow> 'w \<Rightarrow> IPPool res \<times> 'w"
  pcl_Create :: "IPPool \<Rightarrow> 'w \<Rightarrow> IPPool res \<times> 'w"

abbreviation pool_rv :: "IPPool \<Rightarrow> string" where
  "pool_rv p \<equiv> md_ResourceVersion (pool_Meta p)"

section \<open>Optimistic concurrency\<close>

locale pool_api =
  fixes ca :: "'w IPPoolCache"
    and cl :: "'w IPPoolClient"
    and server :: "'w \<Rightarrow> string \<Rightarrow> IPPool option"
    and good :: "'w \<Rightarrow> bool"
  assumes get_name: "good w \<Longrightarrow> pc_Get ca n w = Inr p \<Longrightarrow> pool_Name p = n"
    and get_current: "good w \<Longrightarrow> pc_Get ca n w = Inr p \<Longrightarrow> server w n = Some cur \<Longrightarrow>
      pool_rv p = pool_rv cur \<Longrightarrow> p = cur"
    and update_ok: "good w \<Longrightarrow> pcl_Update cl p w = (Inr q, w') \<Longrightarrow>
      \<exists>cur. server w (pool_Name p) = Some cur \<and> pool_rv p = pool_rv cur \<and>
        server w' = (server w)(pool_Name p \<mapsto> q) \<and> pool_Spec q = pool_Spec p \<and> pool_Status q = pool_Status p"
    and update_err: "good w \<Longrightarrow> pcl_Update cl p w = (Inl e, w') \<Longrightarrow> server w' = server w"
    and update_good: "good w \<Longrightarrow> pcl_Update cl p w = (r, w') \<Longrightarrow> good w'"
    and update_cache: "good w \<Longrightarrow> pcl_Update cl p w = (r, w') \<Longrightarrow>
      pc_Get ca n w' = pc_Get ca n w \<or> (\<exists>q. server w' n = Some q \<and> pc_Get ca n w' = Inr q)"
begin

text \<open>An accepted write that was computed from a snapshot was computed from the stored object.\<close>

lemma update_fresh:
  assumes "good w" and "pc_Get ca n w = Inr p" and "pcl_Update cl p' w = (Inr q, w')"
    and "pool_Meta p' = pool_Meta p"
  shows "server w n = Some p \<and> server w' = (server w)(n \<mapsto> q) \<and> pool_Status q = pool_Status p'"
proof -
  have n: "pool_Name p' = n" using get_name [OF assms(1,2)] assms(4) by simp
  obtain cur where "server w n = Some cur" "pool_rv p' = pool_rv cur"
    "server w' = (server w)(n \<mapsto> q)" "pool_Status q = pool_Status p'"
    using update_ok [OF assms(1,3)] n by auto
  then show ?thesis using get_current [OF assms(1,2)] assms(4) by auto
qed

end

section \<open>A server with a lagging cache\<close>

record PoolServer =
  srv_pools :: "(string, IPPool) gomap"
  srv_cache :: "(string, IPPool) gomap"
  srv_next :: nat

definition stamp :: "nat \<Rightarrow> IPPool \<Rightarrow> IPPool" where
  "stamp n p = p\<lparr>pool_Meta := (pool_Meta p)\<lparr>md_ResourceVersion := Uitoa (int n)\<rparr>\<rparr>"

definition not_found :: "string \<Rightarrow> error" where
  "not_found n = Error (n @ '' not found'') [NotFound]"

definition srv_Get :: "string \<Rightarrow> PoolServer \<Rightarrow> IPPool res" where
  "srv_Get n w = (case m_get (srv_cache w) n of None \<Rightarrow> Inl (not_found n) | Some p \<Rightarrow> Inr p)"

definition has_labels :: "strmap \<Rightarrow> ObjectMeta \<Rightarrow> bool" where
  "has_labels ls m = list_all (\<lambda>(k, v). m_get (entries (md_Labels m)) k = Some v) ls"

definition srv_List :: "strmap \<Rightarrow> PoolServer \<Rightarrow> IPPool list res" where
  "srv_List ls w = Inr (filter (\<lambda>p. has_labels ls (pool_Meta p)) (map snd (srv_cache w)))"

definition srv_Update :: "IPPool \<Rightarrow> PoolServer \<Rightarrow> IPPool res \<times> PoolServer" where
  "srv_Update p w =
     (case m_get (srv_pools w) (pool_Name p) of
        None \<Rightarrow> (Inl (not_found (pool_Name p)), w)
      | Some cur \<Rightarrow>
          if pool_rv cur \<noteq> pool_rv p then (Inl (Error ''the object has been modified'' [Conflict]), w)
          else let q = stamp (srv_next w) p
               in (Inr q, w\<lparr>srv_pools := m_set (pool_Name p) q (srv_pools w), srv_next := Suc (srv_next w)\<rparr>))"

definition srv_Create :: "IPPool \<Rightarrow> PoolServer \<Rightarrow> IPPool res \<times> PoolServer" where
  "srv_Create p w =
     (if m_get (srv_pools w) (pool_Name p) \<noteq> None
      then (Inl (Error (pool_Name p @ '' already exists'') [AlreadyExists]), w)
      else let q = stamp (srv_next w) p
           in (Inr q, w\<lparr>srv_pools := m_set (pool_Name p) q (srv_pools w), srv_next := Suc (srv_next w)\<rparr>))"

text \<open>The informer delivers the stored version of one pool; it may do so at any time or never.\<close>

definition srv_sync :: "string \<Rightarrow> PoolServer \<Rightarrow> PoolServer" where
  "srv_sync n w =
     (case m_get (srv_pools w) n of
        None \<Rightarrow> w\<lparr>srv_cache := m_del n (srv_cache w)\<rparr>
      | Some p \<Rightarrow> w\<lparr>srv_cache := m_set n p (srv_cache w)\<rparr>)"

definition server_cache :: "PoolServer IPPoolCache" where
  "server_cache = \<lparr>pc_Get = srv_Get, pc_List = srv_List\<rparr>"

definition server_client :: "PoolServer IPPoolClient" where
  "server_client = \<lparr>pcl_Update = srv_Update, pcl_Create = srv_Create\<rparr>"

definition server_pool :: "PoolServer \<Rightarrow> string \<Rightarrow> IPPool option" where
  "server_pool w n = m_get (srv_pools w) n"

definition issued :: "nat \<Rightarrow> IPPool \<Rightarrow> bool" where
  "issued n p \<longleftrightarrow> (\<exists>i < n. pool_rv p = Uitoa (int i))"

definition server_good :: "PoolServer \<Rightarrow> bool" where
  "server_good w \<longleftrightarrow>
     (\<forall>n p. m_get (srv_pools w) n = Some p \<longrightarrow> pool_Name p = n \<and> issued (srv_next w) p) \<and>
     (\<forall>n p. m_get (srv_cache w) n = Some p \<longrightarrow> pool_Name p = n \<and> issued (srv_next w) p) \<and>
     (\<forall>n p q. m_get (srv_cache w) n = Some p \<longrightarrow> m_get (srv_pools w) n = Some q \<longrightarrow>
        pool_rv p = pool_rv q \<longrightarrow> p = q)"

lemma stamp_simps [simp]:
  "pool_Name (stamp n p) = pool_Name p" "pool_Spec (stamp n p) = pool_Spec p"
  "pool_Status (stamp n p) = pool_Status p" "pool_rv (stamp n p) = Uitoa (int n)"
  by (simp_all add: stamp_def)

lemma issued_fresh: "issued n p \<Longrightarrow> pool_rv p \<noteq> Uitoa (int n)"
  by (auto simp: issued_def Uitoa_inj)

lemma issued_Suc: "issued n p \<Longrightarrow> issued (Suc n) p"
  by (auto simp: issued_def intro: less_SucI)

lemma issued_stamp: "issued (Suc n) (stamp n p)"
  by (auto simp: issued_def)

lemma srv_write_good:
  assumes "server_good w" and "pool_Name p = n"
  shows "server_good (w\<lparr>srv_pools := m_set n (stamp (srv_next w) p) (srv_pools w), srv_next := Suc (srv_next w)\<rparr>)"
  using assms unfolding server_good_def
  by (auto simp: m_get_set issued_Suc issued_stamp) (use issued_fresh in blast)

lemma srv_Update_good: "server_good w \<Longrightarrow> srv_Update p w = (r, w') \<Longrightarrow> server_good w'"
  by (auto simp: srv_Update_def Let_def srv_write_good split: option.splits if_splits)

lemma srv_Create_good: "server_good w \<Longrightarrow> srv_Create p w = (r, w') \<Longrightarrow> server_good w'"
  by (auto simp: srv_Create_def Let_def srv_write_good split: if_splits)

lemma srv_sync_good: "server_good w \<Longrightarrow> server_good (srv_sync n w)"
  unfolding server_good_def srv_sync_def
  by (auto simp: m_get_set m_get_del split: option.splits)

interpretation ps: pool_api server_cache server_client server_pool server_good
proof unfold_locales
  fix w n p
  assume "server_good w" "pc_Get server_cache n w = Inr p"
  then show "pool_Name p = n"
    by (auto simp: server_cache_def srv_Get_def server_good_def split: option.splits)
next
  fix w n p cur
  assume "server_good w" "pc_Get server_cache n w = Inr p" "server_pool w n = Some cur" "pool_rv p = pool_rv cur"
  then show "p = cur"
    by (auto simp: server_cache_def srv_Get_def server_pool_def server_good_def split: option.splits)
next
  fix w p q w'
  assume "server_good w" "pcl_Update server_client p w = (Inr q, w')"
  then show "\<exists>cur. server_pool w (pool_Name p) = Some cur \<and> pool_rv p = pool_rv cur \<and>
      server_pool w' = (server_pool w)(pool_Name p \<mapsto> q) \<and> pool_Spec q = pool_Spec p \<and> pool_Status q = pool_Status p"
    by (auto simp: server_client_def srv_Update_def server_pool_def Let_def m_get_set fun_eq_iff
        split: option.splits if_splits)
next
  fix w p e w'
  assume "server_good w" "pcl_Update server_client p w = (Inl e, w')"
  then show "server_pool w' = server_pool w"
    by (auto simp: server_client_def srv_Update_def Let_def split: option.splits if_splits)
next
  fix w p r w'
  assume "server_good w" "pcl_Update server_client p w = (r, w')"
  then show "server_good w'" by (simp add: server_client_def srv_Update_good)
next
  fix w p r w' n
  assume "server_good w" "pcl_Update server_client p w = (r, w')"
  then show "pc_Get server_cache n w' = pc_Get server_cache n w \<or>
      (\<exists>q. server_pool w' n = Some q \<and> pc_Get server_cache n w' = Inr q)"
    by (auto simp: server_client_def server_cache_def srv_Update_def srv_Get_def Let_def split: option.splits if_splits)
qed

end
