(* ===== verification/Store.thy ===== *)
theory Store
  imports KubeAPI
begin

text \<open>
  The record of the allocations of a pool: \<^verbatim>\<open>pkg/ipam/store/store.go\<close>, which keeps it in the
  status of the IPPool object, and \<^verbatim>\<open>fake_store.go\<close>, which keeps it in memory. Both implement
  the interface \<^verbatim>\<open>backend.Store\<close> of the host-local plugin, here the record \<open>BackendStore\<close>.

  The invariant \<open>pool_inv\<close> of a pool: an address is not both allocated and in the history, the
  addresses are in canonical text, and the number of available addresses is the total less the number of allocated ones (as 64-bit
  words). The locale \<open>backend_store\<close> is the contract the plugin's allocator relies on; it is
  interpreted on both stores.
\<close>

section \<open>The interface of the plugin\<close>

record 'w BackendStore =
  bs_Reserve :: "string \<Rightarrow> string \<Rightarrow> ip \<Rightarrow> string \<Rightarrow> 'w \<Rightarrow> bool res \<times> 'w"
  bs_LastReservedIP :: "string \<Rightarrow> 'w \<Rightarrow> ip res"
  bs_ReleaseByID :: "string \<Rightarrow> string \<Rightarrow> 'w \<Rightarrow> unit res \<times> 'w"
  bs_GetByID :: "string \<Rightarrow> string \<Rightarrow> 'w \<Rightarrow> ip list"

section \<open>Updates of the status\<close>

text \<open>The status after an address is recorded for an applicant, and after it is moved to the history.\<close>

definition status_reserve :: "string \<Rightarrow> string \<Rightarrow> IPPoolStatus \<Rightarrow> IPPoolStatus" where
  "status_reserve ipStr applicantID st = st\<lparr>
     st_AllocatedHistory := map_option (m_del ipStr) (st_AllocatedHistory st),
     st_Allocated := Some (m_set ipStr applicantID (entries (st_Allocated st))),
     st_LastAllocated := ipStr,
     st_Available := st_Available st - 1\<rparr>"

definition status_release :: "string \<Rightarrow> string \<Rightarrow> IPPoolStatus \<Rightarrow> IPPoolStatus" where
  "status_release ipStr applicant st = st\<lparr>
     st_AllocatedHistory := Some (m_set ipStr applicant (entries (st_AllocatedHistory st))),
     st_Allocated := map_option (m_del ipStr) (st_Allocated st),
     st_Available := st_Available st + 1\<rparr>"

definition find_applicant :: "string \<Rightarrow> strmap \<Rightarrow> (string \<times> string) option" where
  "find_applicant applicantID m = find (\<lambda>(ip, applicant). applicant = applicantID) m"

definition ips_of :: "string \<Rightarrow> strmap \<Rightarrow> ip list" where
  "ips_of applicantID m = map (\<lambda>(ip, applicant). ParseIP ip) (filter (\<lambda>(ip, applicant). applicantID = applicant) m)"

section \<open>The store in the IPPool object\<close>

record 'w Store =
  iPPoolName :: string
  iPPoolCache :: "'w IPPoolCache"
  iPPoolClient :: "'w IPPoolClient"

definition store_New :: "string \<Rightarrow> 'w IPPoolCache \<Rightarrow> 'w IPPoolClient \<Rightarrow> 'w Store" where
  "store_New n ca cl = \<lparr>iPPoolName = n, iPPoolCache = ca, iPPoolClient = cl\<rparr>"

definition Store_Reserve :: "'w Store \<Rightarrow> string \<Rightarrow> string \<Rightarrow> ip \<Rightarrow> string \<Rightarrow> 'w \<Rightarrow> bool res \<times> 'w" where
  "Store_Reserve s applicantID ifname a rangeID w =
     (case pc_Get (iPPoolCache s) (iPPoolName s) w of
        Inl e \<Rightarrow> (Inl e, w)
      | Inr ipPool \<Rightarrow>
          let ipStr = ip_String a in
          (case m_get (entries (pool_Allocated ipPool)) ipStr of
             Some i \<Rightarrow> if i \<noteq> applicantID then (Inr False, w) else (Inr True, w)
           | None \<Rightarrow>
               (case pcl_Update (iPPoolClient s)
                       (ipPool\<lparr>pool_Status := status_reserve ipStr applicantID (pool_Status ipPool)\<rparr>) w of
                  (Inl e, w') \<Rightarrow>
                    (Inl (errorf (''fail to reserve '' @ ipStr @ '' into '' @ iPPoolName s)), w')
                | (Inr _, w') \<Rightarrow> (Inr True, w'))))"

definition Store_LastReservedIP :: "'w Store \<Rightarrow> string \<Rightarrow> 'w \<Rightarrow> ip res" where
  "Store_LastReservedIP s rangeID w =
     (case pc_Get (iPPoolCache s) (iPPoolName s) w of
        Inl e \<Rightarrow> Inl e
      | Inr ipPool \<Rightarrow> Inr (ParseIP (st_LastAllocated (pool_Status ipPool))))"

text \<open>The write that ends \<^verbatim>\<open>Release\<close> and \<^verbatim>\<open>ReleaseByID\<close>.\<close>

definition update_released :: "'w Store \<Rightarrow> IPPool \<Rightarrow> string \<Rightarrow> string \<Rightarrow> 'w \<Rightarrow> unit res \<times> 'w" where
  "update_released s ipPool ipStr applicant w =
     (case pcl_Update (iPPoolClient s)
             (ipPool\<lparr>pool_Status := status_release ipStr applicant (pool_Status ipPool)\<rparr>) w of
        (Inl e, w') \<Rightarrow> (Inl e, w')
      | (Inr _, w') \<Rightarrow> (Inr (), w'))"

definition Store_Release :: "'w Store \<Rightarrow> ip \<Rightarrow> 'w \<Rightarrow> unit res \<times> 'w" where
  "Store_Release s a w =
     (case pc_Get (iPPoolCache s) (iPPoolName s) w of
        Inl e \<Rightarrow> (Inl e, w)
      | Inr ipPool \<Rightarrow>
          (case pool_Allocated ipPool of
             None \<Rightarrow> (Inr (), w)
           | Some m \<Rightarrow>
               (case m_get m (ip_String a) of
                  None \<Rightarrow> (Inr (), w)
                | Some applicant \<Rightarrow> update_released s ipPool (ip_String a) applicant w)))"

definition Store_ReleaseByID :: "'w Store \<Rightarrow> string \<Rightarrow> string \<Rightarrow> 'w \<Rightarrow> unit res \<times> 'w" where
  "Store_ReleaseByID s applicantID ifname w =
     (case pc_Get (iPPoolCache s) (iPPoolName s) w of
        Inl e \<Rightarrow> (Inl e, w)
      | Inr ipPool \<Rightarrow>
          (case pool_Allocated ipPool of
             None \<Rightarrow> (Inr (), w)
           | Some m \<Rightarrow>
               (case find_applicant applicantID m of
                  None \<Rightarrow> (Inr (), w)
                | Some (ipStr, applicant) \<Rightarrow> update_released s ipPool ipStr applicant w)))"

definition Store_GetByID :: "'w Store \<Rightarrow> string \<Rightarrow> string \<Rightarrow> 'w \<Rightarrow> ip list" where
  "Store_GetByID s applicantID ifname w =
     (case pc_Get (iPPoolCache s) (iPPoolName s) w of
        Inl e \<Rightarrow> []
      | Inr ipPool \<Rightarrow>
          (case pool_Allocated ipPool of None \<Rightarrow> [] | Some m \<Rightarrow> ips_of applicantID m))"

definition store_backend :: "'w Store \<Rightarrow> 'w BackendStore" where
  "store_backend s = \<lparr>bs_Reserve = Store_Reserve s, bs_LastReservedIP = Store_LastReservedIP s,
     bs_ReleaseByID = Store_ReleaseByID s, bs_GetByID = Store_GetByID s\<rparr>"

section \<open>The store in memory\<close>

definition NewFakeStore :: "string \<Rightarrow> LBRange list \<Rightarrow> IPPool" where
  "NewFakeStore n ranges = \<lparr>pool_Meta = empty_meta\<lparr>md_Name := n\<rparr>,
     pool_Spec = \<lparr>ps_Description = '''', ps_Ranges = ranges,
       ps_Selector = \<lparr>sel_Priority = 0, sel_Network = '''', sel_Scope = []\<rparr>\<rparr>,
     pool_Status = \<lparr>st_Total = 0, st_Available = 0, st_LastAllocated = '''', st_Allocated = None,
       st_AllocatedHistory = None, st_Conditions = []\<rparr>\<rparr>"

definition Fake_Reserve :: "string \<Rightarrow> string \<Rightarrow> ip \<Rightarrow> string \<Rightarrow> IPPool \<Rightarrow> bool res \<times> IPPool" where
  "Fake_Reserve applicantID ifname a rangeID f =
     (let ipStr = ip_String a in
      if m_get (entries (pool_Allocated f)) ipStr \<noteq> None then (Inr False, f)
      else (Inr True, f\<lparr>pool_Status := status_reserve ipStr applicantID (pool_Status f)\<rparr>))"

definition Fake_LastReservedIP :: "string \<Rightarrow> IPPool \<Rightarrow> ip res" where
  "Fake_LastReservedIP rangeID f = Inr (ParseIP (st_LastAllocated (pool_Status f)))"

definition Fake_Release :: "ip \<Rightarrow> IPPool \<Rightarrow> unit res \<times> IPPool" where
  "Fake_Release a f =
     (case pool_Allocated f of
        None \<Rightarrow> (Inr (), f)
      | Some m \<Rightarrow>
          (case m_get m (ip_String a) of
             None \<Rightarrow> (Inr (), f)
           | Some applicant \<Rightarrow>
               (Inr (), f\<lparr>pool_Status := status_release (ip_String a) applicant (pool_Status f)\<rparr>)))"

definition Fake_ReleaseByID :: "string \<Rightarrow> string \<Rightarrow> IPPool \<Rightarrow> unit res \<times> IPPool" where
  "Fake_ReleaseByID applicantID ifname f =
     (case pool_Allocated f of
        None \<Rightarrow> (Inr (), f)
      | Some m \<Rightarrow>
          (case find_applicant applicantID m of
             None \<Rightarrow> (Inr (), f)
           | Some (ipStr, applicant) \<Rightarrow>
               (Inr (), f\<lparr>pool_Status := status_release ipStr applicant (pool_Status f)\<rparr>)))"

definition Fake_GetByID :: "string \<Rightarrow> string \<Rightarrow> IPPool \<Rightarrow> ip list" where
  "Fake_GetByID applicantID ifname f =
     (case pool_Allocated f of None \<Rightarrow> [] | Some m \<Rightarrow> ips_of applicantID m)"

definition fake_backend :: "IPPool BackendStore" where
  "fake_backend = \<lparr>bs_Reserve = Fake_Reserve, bs_LastReservedIP = Fake_LastReservedIP,
     bs_ReleaseByID = Fake_ReleaseByID, bs_GetByID = Fake_GetByID\<rparr>"

section \<open>The invariant of a pool\<close>

definition status_inv :: "IPPoolStatus \<Rightarrow> bool" where
  "status_inv st \<longleftrightarrow>
     m_wf (entries (st_Allocated st)) \<and> m_wf (entries (st_AllocatedHistory st)) \<and>
     fst ` set (entries (st_Allocated st)) \<inter> fst ` set (entries (st_AllocatedHistory st)) = {} \<and>
     (\<forall>k \<in> fst ` set (entries (st_Allocated st)) \<union> fst ` set (entries (st_AllocatedHistory st)). canonical k) \<and>
     st_Available st = st_Total st - of_nat (length (entries (st_Allocated st)))"

abbreviation pool_inv :: "IPPool \<Rightarrow> bool" where
  "pool_inv p \<equiv> status_inv (pool_Status p)"

abbreviation allocation :: "IPPool \<Rightarrow> string \<rightharpoonup> string" where
  "allocation p \<equiv> m_get (entries (pool_Allocated p))"

abbreviation history :: "IPPool \<Rightarrow> string \<rightharpoonup> string" where
  "history p \<equiv> m_get (entries (pool_History p))"

lemma entries_map_option [simp, gomap_simps]: "entries (map_option (m_del k) m) = m_del k (entries m)"
  by (cases m) simp_all

lemma status_reserve_simps [simp]:
  "entries (st_Allocated (status_reserve ipStr i st)) = m_set ipStr i (entries (st_Allocated st))"
  "entries (st_AllocatedHistory (status_reserve ipStr i st)) = m_del ipStr (entries (st_AllocatedHistory st))"
  "st_LastAllocated (status_reserve ipStr i st) = ipStr"
  "st_Available (status_reserve ipStr i st) = st_Available st - 1"
  "st_Total (status_reserve ipStr i st) = st_Total st"
  by (simp_all add: status_reserve_def)

lemma status_release_simps [simp]:
  "entries (st_Allocated (status_release ipStr i st)) = m_del ipStr (entries (st_Allocated st))"
  "entries (st_AllocatedHistory (status_release ipStr i st)) = m_set ipStr i (entries (st_AllocatedHistory st))"
  "st_LastAllocated (status_release ipStr i st) = st_LastAllocated st"
  "st_Available (status_release ipStr i st) = st_Available st + 1"
  "st_Total (status_release ipStr i st) = st_Total st"
  by (simp_all add: status_release_def)

lemma status_reserve_inv:
  assumes "status_inv st" and "m_get (entries (st_Allocated st)) (ip_String a) = None"
  shows "status_inv (status_reserve (ip_String a) i st)"
  using assms by (auto simp: status_inv_def gomap_simps)

lemma status_release_inv:
  assumes "status_inv st" and "m_get (entries (st_Allocated st)) ipStr = Some i"
  shows "status_inv (status_release ipStr i st)"
proof -
  have "length (entries (st_Allocated st)) = Suc (length (m_del ipStr (entries (st_Allocated st))))"
    using length_del_present [of "entries (st_Allocated st)" ipStr i] assms by (simp add: status_inv_def)
  moreover have "canonical ipStr" using assms by (force simp: status_inv_def dest: map_of_SomeD)
  ultimately show ?thesis using assms by (auto simp: status_inv_def gomap_simps)
qed

lemma m_get_upd:
  "m_get (m_set k v m) = (m_get m)(k \<mapsto> v)" "m_get (m_del k m) = (m_get m)(k := None)"
  by (simp_all add: fun_eq_iff m_get_set m_get_del)

lemma find_applicant_Some:
  assumes "find_applicant i m = Some (k, v)"
  shows "v = i" "(k, i) \<in> set m"
  using assms by (auto simp: find_applicant_def find_Some_iff dest: nth_mem)

lemma find_applicant_None: "find_applicant i m = None \<longleftrightarrow> i \<notin> snd ` set m"
  by (force simp: find_applicant_def find_None_iff)

lemma find_applicant_get:
  assumes "m_wf m" and "find_applicant i m = Some (k, v)"
  shows "v = i" "m_get m k = Some i"
  using find_applicant_Some [OF assms(2)] m_get_mem [OF assms(1)] by auto

lemma ips_of_entries:
  "(case m of None \<Rightarrow> [] | Some m' \<Rightarrow> ips_of i m') = ips_of i (entries m)"
  by (cases m) (simp_all add: ips_of_def)

lemma set_ips_of: "m_wf m \<Longrightarrow> set (ips_of i m) = ParseIP ` {k. m_get m k = Some i}"
  by (force simp: ips_of_def m_get_mem [symmetric])

section \<open>The contract of a store\<close>

text \<open>
  \<open>view\<close> is the allocation the store reads, \<open>alloc\<close> the one that is recorded; they differ when
  the reads lag behind.
\<close>

locale backend_store =
  fixes bs :: "'w BackendStore"
    and view :: "'w \<Rightarrow> string \<rightharpoonup> string"
    and alloc :: "'w \<Rightarrow> string \<rightharpoonup> string"
    and inv :: "'w \<Rightarrow> bool"
  assumes reserve_free: "inv w \<Longrightarrow> view w (ip_String a) = None \<Longrightarrow> bs_Reserve bs i f a r w = (Inr b, w') \<Longrightarrow>
      b \<and> alloc w (ip_String a) = None \<and> alloc w' = (alloc w)(ip_String a \<mapsto> i)"
    and reserve_taken: "inv w \<Longrightarrow> view w (ip_String a) = Some j \<Longrightarrow>
      \<exists>b. bs_Reserve bs i f a r w = (Inr b, w) \<and> (b \<longrightarrow> j = i)"
    and reserve_err: "inv w \<Longrightarrow> bs_Reserve bs i f a r w = (Inl e, w') \<Longrightarrow> alloc w' = alloc w"
    and reserve_inv: "inv w \<Longrightarrow> bs_Reserve bs i f a r w = (x, w') \<Longrightarrow> inv w'"
    and get_by_id: "inv w \<Longrightarrow> set (bs_GetByID bs i f w) = ParseIP ` {k. view w k = Some i}"
    and release_ok: "inv w \<Longrightarrow> bs_ReleaseByID bs i f w = (Inr u, w') \<Longrightarrow>
      (\<forall>k. view w k \<noteq> Some i) \<and> w' = w \<or>
      (\<exists>k. view w k = Some i \<and> alloc w k = Some i \<and> alloc w' = (alloc w)(k := None))"
    and release_err: "inv w \<Longrightarrow> bs_ReleaseByID bs i f w = (Inl e, w') \<Longrightarrow> alloc w' = alloc w"
    and release_inv: "inv w \<Longrightarrow> bs_ReleaseByID bs i f w = (y, w') \<Longrightarrow> inv w'"
begin

text \<open>Whatever a reservation returns, no recorded allocation is lost or given to another applicant.\<close>

lemma reserve_mono:
  assumes "inv w" and "bs_Reserve bs i f a r w = (x, w')"
  shows "alloc w \<subseteq>\<^sub>m alloc w'"
proof (cases x)
  case (Inl e)
  then show ?thesis using reserve_err assms by simp
next
  case (Inr b)
  then show ?thesis
  proof (cases "view w (ip_String a)")
    case None
    then show ?thesis using reserve_free [OF assms(1)] assms(2) Inr by (auto simp: map_le_def)
  next
    case (Some j)
    then show ?thesis using reserve_taken [OF assms(1) Some] assms(2) by (metis Pair_inject map_le_refl)
  qed
qed

end

section \<open>Both stores keep the contract\<close>

lemma Fake_ReleaseByID_cases:
  assumes "pool_inv w" and "bs_ReleaseByID fake_backend i f w = (x, w')"
  obtains (absent) "\<forall>k. allocation w k \<noteq> Some i" "x = Inr ()" "w' = w"
  | (freed) k where "allocation w k = Some i" "x = Inr ()"
      "w' = w\<lparr>pool_Status := status_release k i (pool_Status w)\<rparr>"
proof (cases "find_applicant i (entries (pool_Allocated w))")
  case None
  then have "\<forall>k. allocation w k \<noteq> Some i" by (force simp: find_applicant_None dest: map_of_SomeD)
  then show thesis
    by (rule absent) (use assms(2) None in \<open>auto simp: fake_backend_def Fake_ReleaseByID_def split: option.splits\<close>)
next
  case (Some kv)
  have "m_wf (entries (pool_Allocated w))" using assms(1) by (simp add: status_inv_def)
  moreover obtain k v where kv: "kv = (k, v)" by (cases kv)
  ultimately have k: "kv = (k, i)" "allocation w k = Some i"
    using find_applicant_get [of _ i k v] Some by auto
  obtain m where "pool_Allocated w = Some m" using k(2) by (cases "pool_Allocated w") auto
  then show thesis
    by (intro freed [OF k(2)]) (use assms(2) Some k(1) in \<open>simp_all add: fake_backend_def Fake_ReleaseByID_def\<close>)
qed

interpretation fk: backend_store fake_backend allocation allocation pool_inv
proof unfold_locales
  fix w i f a r b w'
  assume "pool_inv w" "allocation w (ip_String a) = None" "bs_Reserve fake_backend i f a r w = (Inr b, w')"
  then show "b \<and> allocation w (ip_String a) = None \<and> allocation w' = (allocation w)(ip_String a \<mapsto> i)"
    by (auto simp: fake_backend_def Fake_Reserve_def Let_def m_get_upd)
next
  fix w i f a r j
  assume "pool_inv w" "allocation w (ip_String a) = Some j"
  then show "\<exists>b. bs_Reserve fake_backend i f a r w = (Inr b, w) \<and> (b \<longrightarrow> j = i)"
    by (auto simp: fake_backend_def Fake_Reserve_def Let_def)
next
  fix w i f a r e w'
  assume "pool_inv w" "bs_Reserve fake_backend i f a r w = (Inl e, w')"
  then show "allocation w' = allocation w"
    by (auto simp: fake_backend_def Fake_Reserve_def Let_def split: if_splits)
next
  fix w i f a r x w'
  assume "pool_inv w" "bs_Reserve fake_backend i f a r w = (x, w')"
  then show "pool_inv w'"
    by (auto simp: fake_backend_def Fake_Reserve_def Let_def status_reserve_inv split: if_splits)
next
  fix w i f
  assume "pool_inv w"
  then show "set (bs_GetByID fake_backend i f w) = ParseIP ` {k. allocation w k = Some i}"
    by (simp add: fake_backend_def Fake_GetByID_def ips_of_entries set_ips_of status_inv_def)
next
  fix w i f u w'
  assume inv: "pool_inv w" and "bs_ReleaseByID fake_backend i f w = (Inr u, w')"
  from this show "(\<forall>k. allocation w k \<noteq> Some i) \<and> w' = w \<or>
      (\<exists>k. allocation w k = Some i \<and> allocation w k = Some i \<and> allocation w' = (allocation w)(k := None))"
  proof (cases rule: Fake_ReleaseByID_cases)
    case (freed k)
    then have "allocation w' = (allocation w)(k := None)" by (simp add: fun_eq_iff m_get_del)
    with freed(1) show ?thesis by blast
  qed blast
next
  fix w i f e w'
  assume "pool_inv w" "bs_ReleaseByID fake_backend i f w = (Inl e, w')"
  then show "allocation w' = allocation w"
    by (auto simp: fake_backend_def Fake_ReleaseByID_def split: option.splits)
next
  fix w i f x w'
  assume inv: "pool_inv w" and "bs_ReleaseByID fake_backend i f w = (x, w')"
  then show "pool_inv w'"
    by (elim Fake_ReleaseByID_cases [OF inv]) (use inv in \<open>auto simp: status_release_inv\<close>)
qed


text \<open>The store of the pool \<open>n\<close> under optimistic concurrency.\<close>

definition store_view :: "'w IPPoolCache \<Rightarrow> string \<Rightarrow> 'w \<Rightarrow> string \<rightharpoonup> string" where
  "store_view ca n w = (case pc_Get ca n w of Inl e \<Rightarrow> Map.empty | Inr p \<Rightarrow> allocation p)"

definition store_alloc :: "('w \<Rightarrow> string \<Rightarrow> IPPool option) \<Rightarrow> string \<Rightarrow> 'w \<Rightarrow> string \<rightharpoonup> string" where
  "store_alloc server n w = (case server w n of None \<Rightarrow> Map.empty | Some p \<Rightarrow> allocation p)"

definition store_inv ::
  "'w IPPoolCache \<Rightarrow> ('w \<Rightarrow> string \<Rightarrow> IPPool option) \<Rightarrow> ('w \<Rightarrow> bool) \<Rightarrow> string \<Rightarrow> 'w \<Rightarrow> bool" where
  "store_inv ca server good n w \<longleftrightarrow>
     good w \<and> (\<forall>p. server w n = Some p \<longrightarrow> pool_inv p) \<and> (\<forall>p. pc_Get ca n w = Inr p \<longrightarrow> pool_inv p)"

lemma store_New_simps [simp]:
  "iPPoolName (store_New n ca cl) = n" "iPPoolCache (store_New n ca cl) = ca"
  "iPPoolClient (store_New n ca cl) = cl"
  by (simp_all add: store_New_def)

context pool_api
begin

lemma store_write:
  assumes "store_inv ca server good n w" and "pc_Get ca n w = Inr p"
    and "pcl_Update cl (p\<lparr>pool_Status := st\<rparr>) w = (x, w')" and "status_inv st"
  shows "store_inv ca server good n w'"
    and "x = Inr q \<Longrightarrow> server w n = Some p \<and> server w' = (server w)(n \<mapsto> q) \<and> pool_Status q = st"
    and "x = Inl e \<Longrightarrow> server w' = server w"
proof -
  have g: "good w" using assms(1) by (simp add: store_inv_def)
  show ok: "server w n = Some p \<and> server w' = (server w)(n \<mapsto> q) \<and> pool_Status q = st" if "x = Inr q" for q
    using update_fresh [OF g assms(2), of "p\<lparr>pool_Status := st\<rparr>"] assms(3) that by simp
  show err: "server w' = server w" if "x = Inl e" for e
    using update_err [OF g] assms(3) that by blast
  have inv: "pool_inv q" if "server w' n = Some q" for q
    using assms(1,4) ok err that by (cases x) (auto simp: store_inv_def)
  moreover have "pool_inv q" if "pc_Get ca n w' = Inr q" for q
    using update_cache [OF g assms(3), of n] that assms(1) inv by (auto simp: store_inv_def)
  ultimately show "store_inv ca server good n w'"
    using update_good [OF g assms(3)] by (simp add: store_inv_def)
qed

lemma Store_Reserve_cases:
  assumes "store_inv ca server good n w" and "Store_Reserve (store_New n ca cl) i f a r w = (x, w')"
  obtains (unread) e where "pc_Get ca n w = Inl e" "x = Inl e" "w' = w"
  | (taken) p j where "pc_Get ca n w = Inr p" "allocation p (ip_String a) = Some j" "x = Inr (j = i)" "w' = w"
  | (failed) p where "pc_Get ca n w = Inr p" "allocation p (ip_String a) = None"
      "x = Inl (errorf (''fail to reserve '' @ ip_String a @ '' into '' @ n))" "server w' = server w"
      "store_inv ca server good n w'"
  | (written) p q where "pc_Get ca n w = Inr p" "allocation p (ip_String a) = None" "x = Inr True"
      "server w n = Some p" "server w' = (server w)(n \<mapsto> q)"
      "pool_Status q = status_reserve (ip_String a) i (pool_Status p)" "store_inv ca server good n w'"
proof (cases "pc_Get ca n w")
  case (Inl e)
  show thesis by (rule unread [OF Inl]) (use assms(2) Inl in \<open>simp_all add: Store_Reserve_def\<close>)
next
  case (Inr p)
  note p = this
  show thesis
  proof (cases "allocation p (ip_String a)")
    case (Some j)
    show thesis by (rule taken [OF p Some]) (use assms(2) p Some in \<open>auto simp: Store_Reserve_def split: if_splits\<close>)
  next
    case None
    let ?st = "status_reserve (ip_String a) i (pool_Status p)"
    obtain y where up: "pcl_Update cl (p\<lparr>pool_Status := ?st\<rparr>) w = (y, w')"
      "x = (case y of Inl e \<Rightarrow> Inl (errorf (''fail to reserve '' @ ip_String a @ '' into '' @ n)) | Inr _ \<Rightarrow> Inr True)"
      using assms(2) p None by (auto simp: Store_Reserve_def Let_def split: prod.splits sum.splits)
    have "status_inv ?st" using assms(1) p None by (intro status_reserve_inv) (auto simp: store_inv_def)
    note wr = store_write [OF assms(1) p up(1) this]
    show thesis
    proof (cases y)
      case (Inl e)
      show thesis by (rule failed [OF p None]) (use wr(1) wr(3) [OF Inl] up(2) Inl in simp_all)
    next
      case (Inr q)
      show thesis by (rule written [where q = q, OF p None]) (use wr(1) wr(2) [OF Inr] up(2) Inr in simp_all)
    qed
  qed
qed

lemma Store_ReleaseByID_cases:
  assumes "store_inv ca server good n w" and "Store_ReleaseByID (store_New n ca cl) i f w = (x, w')"
  obtains (unread) e where "pc_Get ca n w = Inl e" "x = Inl e" "w' = w"
  | (absent) p where "pc_Get ca n w = Inr p" "\<forall>k. allocation p k \<noteq> Some i" "x = Inr ()" "w' = w"
  | (failed) p e where "pc_Get ca n w = Inr p" "x = Inl e" "server w' = server w"
      "store_inv ca server good n w'"
  | (written) p q k where "pc_Get ca n w = Inr p" "allocation p k = Some i" "x = Inr ()"
      "server w n = Some p" "server w' = (server w)(n \<mapsto> q)"
      "pool_Status q = status_release k i (pool_Status p)" "store_inv ca server good n w'"
proof (cases "pc_Get ca n w")
  case (Inl e)
  show thesis by (rule unread [OF Inl]) (use assms(2) Inl in \<open>simp_all add: Store_ReleaseByID_def\<close>)
next
  case (Inr p)
  note p = this
  then have wf: "m_wf (entries (pool_Allocated p))" using assms(1) by (simp add: store_inv_def status_inv_def)
  show thesis
  proof (cases "find_applicant i (entries (pool_Allocated p))")
    case None
    then have "\<forall>k. allocation p k \<noteq> Some i" by (force simp: find_applicant_None dest: map_of_SomeD)
    then show thesis
      by (rule absent [OF p]) (use assms(2) p None in \<open>auto simp: Store_ReleaseByID_def split: option.splits\<close>)
  next
    case (Some kv)
    obtain k v where kv: "kv = (k, v)" by (cases kv)
    then have k: "kv = (k, i)" "allocation p k = Some i"
      using find_applicant_get [OF wf, of i k v] Some by auto
    let ?st = "status_release k i (pool_Status p)"
    obtain m where m: "pool_Allocated p = Some m" using k(2) by (cases "pool_Allocated p") auto
    obtain y where up: "pcl_Update cl (p\<lparr>pool_Status := ?st\<rparr>) w = (y, w')"
      "x = (case y of Inl e \<Rightarrow> Inl e | Inr _ \<Rightarrow> Inr ())"
      using assms(2) p Some k(1) m
      by (auto simp: Store_ReleaseByID_def update_released_def split: prod.splits sum.splits)
    have "status_inv ?st" using assms(1) p k(2) by (intro status_release_inv) (auto simp: store_inv_def)
    note wr = store_write [OF assms(1) p up(1) this]
    show thesis
    proof (cases y)
      case (Inl e)
      show thesis by (rule failed [OF p]) (use wr(1) wr(3) [OF Inl] up(2) Inl in simp_all)
    next
      case (Inr q)
      show thesis by (rule written [where q = q, OF p k(2)]) (use wr(1) wr(2) [OF Inr] up(2) Inr in simp_all)
    qed
  qed
qed

end


sublocale pool_api \<subseteq>
  st: backend_store "store_backend (store_New n ca cl)" "store_view ca n" "store_alloc server n"
    "store_inv ca server good n" for n
proof unfold_locales
  let ?bs = "store_backend (store_New n ca cl)" and ?inv = "store_inv ca server good n"
  fix w i f a r b w'
  assume inv: "?inv w" and "store_view ca n w (ip_String a) = None" "bs_Reserve ?bs i f a r w = (Inr b, w')"
  then show "b \<and> store_alloc server n w (ip_String a) = None \<and>
      store_alloc server n w' = (store_alloc server n w)(ip_String a \<mapsto> i)"
    unfolding store_backend_def BackendStore.simps
    by (elim Store_Reserve_cases [OF inv]; simp add: store_view_def store_alloc_def m_get_upd)
next
  let ?bs = "store_backend (store_New n ca cl)" and ?inv = "store_inv ca server good n"
  fix w i f a r j
  assume "?inv w" "store_view ca n w (ip_String a) = Some j"
  then show "\<exists>b. bs_Reserve ?bs i f a r w = (Inr b, w) \<and> (b \<longrightarrow> j = i)"
    by (auto simp: store_backend_def Store_Reserve_def store_view_def Let_def split: sum.splits)
next
  let ?bs = "store_backend (store_New n ca cl)" and ?inv = "store_inv ca server good n"
  fix w i f a r e w'
  assume inv: "?inv w" and "bs_Reserve ?bs i f a r w = (Inl e, w')"
  then show "store_alloc server n w' = store_alloc server n w"
    unfolding store_backend_def BackendStore.simps
    by (elim Store_Reserve_cases [OF inv]) (auto simp: store_alloc_def)
next
  let ?bs = "store_backend (store_New n ca cl)" and ?inv = "store_inv ca server good n"
  fix w i f a r x w'
  assume inv: "?inv w" and "bs_Reserve ?bs i f a r w = (x, w')"
  then show "?inv w'"
    unfolding store_backend_def BackendStore.simps by (elim Store_Reserve_cases [OF inv]) (use inv in auto)
next
  let ?bs = "store_backend (store_New n ca cl)" and ?inv = "store_inv ca server good n"
  fix w i f
  assume "?inv w"
  then show "set (bs_GetByID ?bs i f w) = ParseIP ` {k. store_view ca n w k = Some i}"
    by (cases "pc_Get ca n w")
      (simp_all add: store_backend_def Store_GetByID_def ips_of_entries set_ips_of store_view_def store_inv_def status_inv_def)
next
  let ?bs = "store_backend (store_New n ca cl)" and ?inv = "store_inv ca server good n"
  fix w i f u w'
  assume inv: "?inv w" and "bs_ReleaseByID ?bs i f w = (Inr u, w')"
  then show "(\<forall>k. store_view ca n w k \<noteq> Some i) \<and> w' = w \<or>
      (\<exists>k. store_view ca n w k = Some i \<and> store_alloc server n w k = Some i \<and>
        store_alloc server n w' = (store_alloc server n w)(k := None))"
    unfolding store_backend_def BackendStore.simps
    by (elim Store_ReleaseByID_cases [OF inv]; force simp: store_view_def store_alloc_def m_get_upd)
next
  let ?bs = "store_backend (store_New n ca cl)" and ?inv = "store_inv ca server good n"
  fix w i f e w'
  assume inv: "?inv w" and "bs_ReleaseByID ?bs i f w = (Inl e, w')"
  then show "store_alloc server n w' = store_alloc server n w"
    unfolding store_backend_def BackendStore.simps
    by (elim Store_ReleaseByID_cases [OF inv]) (auto simp: store_alloc_def)
next
  let ?bs = "store_backend (store_New n ca cl)" and ?inv = "store_inv ca server good n"
  fix w i f x w'
  assume inv: "?inv w" and "bs_ReleaseByID ?bs i f w = (x, w')"
  then show "?inv w'"
    unfolding store_backend_def BackendStore.simps by (elim Store_ReleaseByID_cases [OF inv]) (use inv in auto)
qed

end
