(* ===== verification/IPAllocator.thy ===== *)
theory IPAllocator
  imports RangesLemmas Store
begin

text \<open>
  Handing out addresses: the vendored \<^verbatim>\<open>IPAllocator\<close> and \<^verbatim>\<open>RangeIter\<close> of the host-local
  plugin (\<^verbatim>\<open>allocator.go\<close>), and the \<^verbatim>\<open>Allocator\<close> of one pool and the map of allocators
  of \<^verbatim>\<open>pkg/ipam/allocator.go\<close>.

  \<^verbatim>\<open>RangeIter.Next\<close> calls itself to skip a gateway and \<^verbatim>\<open>IPAllocator.Get\<close> loops until an
  address is reserved: both are partial functions into \<open>option\<close>, where \<open>None\<close> would mean that
  the call does not return. That it always returns is proved with the other lemmas. A read of
  the world is a function of it; an operation that may write returns the new world.
\<close>

section \<open>The iterator\<close>

record RangeIter =
  ri_rangeset :: "ARange list"
  ri_rangeIdx :: nat
  ri_cur :: ip
  ri_startIP :: ip

datatype iter_out = Exhausted | AtGateway | Yielded IPNet ip

text \<open>
  The end of \<^verbatim>\<open>Next\<close>: skip the cursor if it is the gateway of the range, else return it.
\<close>

definition yield_cur :: "ARange \<Rightarrow> RangeIter \<Rightarrow> RangeIter \<times> iter_out" where
  "yield_cur r i =
     (if ip_Equal (ri_cur i) (Gateway r) then (i, AtGateway)
      else (i, Yielded \<lparr>net_IP = ri_cur i, net_Mask = net_Mask (Subnet r)\<rparr> (Gateway r)))"

text \<open>The cursor after the current position: the next range's start at the end of a range.\<close>

definition advance :: "RangeIter \<Rightarrow> (nat \<times> ip) res" where
  "advance i =
     (let r = ri_rangeset i ! ri_rangeIdx i in
      if ip_Equal (ri_cur i) (RangeEnd r) then
        (let idx = (ri_rangeIdx i + 1) mod length (ri_rangeset i)
         in Inr (idx, RangeStart (ri_rangeset i ! idx)))
      else (case NextIP (ri_cur i) of Inl e \<Rightarrow> Inl e | Inr a \<Rightarrow> Inr (ri_rangeIdx i, a)))"

definition next_step :: "RangeIter \<Rightarrow> (RangeIter \<times> iter_out) res" where
  "next_step i =
     (if length (ri_rangeset i) \<le> ri_rangeIdx i then Inl index_panic
      else let r = ri_rangeset i ! ri_rangeIdx i in
        if ri_cur i = [] then
          Inr (yield_cur r (i\<lparr>ri_cur := RangeStart r, ri_startIP := RangeStart r\<rparr>))
        else (case advance i of
            Inl e \<Rightarrow> Inl e
          | Inr (idx, c) \<Rightarrow>
              let r = ri_rangeset i ! idx; i' = i\<lparr>ri_rangeIdx := idx, ri_cur := c\<rparr> in
              if ri_startIP i = [] then Inr (yield_cur r (i'\<lparr>ri_startIP := c\<rparr>))
              else if ip_Equal c (ri_startIP i) then Inr (i', Exhausted)
              else Inr (yield_cur r i')))"

partial_function (option) iter_Next :: "RangeIter \<Rightarrow> (RangeIter \<times> (IPNet \<times> ip) option) res option" where
  "iter_Next i =
     (case next_step i of
        Inl e \<Rightarrow> Some (Inl e)
      | Inr (i', out) \<Rightarrow>
          (case out of
             Exhausted \<Rightarrow> Some (Inr (i', None))
           | AtGateway \<Rightarrow> iter_Next i'
           | Yielded n g \<Rightarrow> Some (Inr (i', Some (n, g)))))"

section \<open>The allocator of the plugin\<close>

record 'w IPAllocator =
  ia_rangeset :: "ARange list"
  ia_store :: "'w BackendStore"
  ia_rangeID :: string

record IPConfig =
  ipc_Address :: IPNet
  ipc_Gateway :: ip

definition NewIPAllocator :: "ARange list \<Rightarrow> 'w BackendStore \<Rightarrow> int \<Rightarrow> 'w IPAllocator" where
  "NewIPAllocator s st i = \<lparr>ia_rangeset = s, ia_store = st, ia_rangeID = Itoa i\<rparr>"

fun find_index :: "('a \<Rightarrow> bool) \<Rightarrow> 'a list \<Rightarrow> nat option" where
  "find_index P [] = None"
| "find_index P (x # xs) = (if P x then Some 0 else map_option Suc (find_index P xs))"

definition GetIter :: "'w IPAllocator \<Rightarrow> 'w \<Rightarrow> RangeIter res" where
  "GetIter a w =
     (let iter = \<lparr>ri_rangeset = ia_rangeset a, ri_rangeIdx = 0, ri_cur = [], ri_startIP = []\<rparr>;
          lastReservedIP = (case bs_LastReservedIP (ia_store a) (ia_rangeID a) w of Inl _ \<Rightarrow> [] | Inr x \<Rightarrow> x) in
      if lastReservedIP \<noteq> [] \<and> rangeset_Contains (ia_rangeset a) lastReservedIP then
        (case find_index (\<lambda>r. range_Contains r lastReservedIP) (ia_rangeset a) of
           Some idx \<Rightarrow> Inr (iter\<lparr>ri_rangeIdx := idx, ri_cur := lastReservedIP\<rparr>)
         | None \<Rightarrow> Inr iter)
      else if ia_rangeset a = [] then Inl index_panic
      else Inr (iter\<lparr>ri_startIP := RangeStart (ia_rangeset a ! 0)\<rparr>))"

partial_function (option) reserve_loop ::
  "'w BackendStore \<Rightarrow> string \<Rightarrow> string \<Rightarrow> string \<Rightarrow> RangeIter \<Rightarrow> 'w \<Rightarrow> ((IPNet \<times> ip) option res \<times> 'w) option" where
  "reserve_loop bs i ifname rangeID iter w =
     Option.bind (iter_Next iter) (\<lambda>nx.
       (case nx of
          Inl e \<Rightarrow> Some (Inl e, w)
        | Inr (iter', None) \<Rightarrow> Some (Inr None, w)
        | Inr (iter', Some (reservedIP, gw)) \<Rightarrow>
            (case bs_Reserve bs i ifname (net_IP reservedIP) rangeID w of
               (Inl e, w') \<Rightarrow> Some (Inl e, w')
             | (Inr reserved, w') \<Rightarrow>
                 if reserved then Some (Inr (Some (reservedIP, gw)), w')
                 else reserve_loop bs i ifname rangeID iter' w')))"

text \<open>\<^verbatim>\<open>Get\<close> with a requested address, and without one.\<close>

definition Get_requested ::
  "'w IPAllocator \<Rightarrow> string \<Rightarrow> string \<Rightarrow> ip \<Rightarrow> 'w \<Rightarrow> IPConfig res \<times> 'w" where
  "Get_requested a i ifname req w =
     (case canonicalizeIP req of
        Inl e \<Rightarrow> (Inl e, w)
      | Inr requestedIP \<Rightarrow>
          (case RangeFor (ia_rangeset a) requestedIP of
             Inl e \<Rightarrow> (Inl e, w)
           | Inr r \<Rightarrow>
               if ip_Equal requestedIP (Gateway r) then
                 (Inl (errorf (''requested ip '' @ ip_String requestedIP @ '' is subnet's gateway'')), w)
               else (case bs_Reserve (ia_store a) i ifname requestedIP (ia_rangeID a) w of
                   (Inl e, w') \<Rightarrow> (Inl e, w')
                 | (Inr reserved, w') \<Rightarrow>
                     if \<not> reserved then
                       (Inl (errorf (''requested IP address '' @ ip_String requestedIP @
                          '' is not available in range set '' @ rangeset_String (ia_rangeset a))), w')
                     else (Inr \<lparr>ipc_Address = \<lparr>net_IP = requestedIP, net_Mask = net_Mask (Subnet r)\<rparr>,
                                 ipc_Gateway = Gateway r\<rparr>, w'))))"

definition duplicate_error :: "ip \<Rightarrow> string \<Rightarrow> error" where
  "duplicate_error a i =
     errorf (ip_String a @ '' has been allocated to '' @ i @ '', duplicate allocation is not allowed'')"

definition no_address_error :: "ARange list \<Rightarrow> error" where
  "no_address_error rs = errorf (''no IP addresses available in range set: '' @ rangeset_String rs)"

definition Get_any :: "'w IPAllocator \<Rightarrow> string \<Rightarrow> string \<Rightarrow> 'w \<Rightarrow> (IPConfig res \<times> 'w) option" where
  "Get_any a i ifname w =
     (case find (\<lambda>x. rangeset_Contains (ia_rangeset a) x) (bs_GetByID (ia_store a) i ifname w) of
        Some x \<Rightarrow> Some (Inl (duplicate_error x i), w)
      | None \<Rightarrow>
          (case GetIter a w of
             Inl e \<Rightarrow> Some (Inl e, w)
           | Inr iter \<Rightarrow>
               map_option (\<lambda>(x, w').
                 (case x of
                    Inl e \<Rightarrow> Inl e
                  | Inr None \<Rightarrow> Inl (no_address_error (ia_rangeset a))
                  | Inr (Some (n, gw)) \<Rightarrow> Inr \<lparr>ipc_Address = n, ipc_Gateway = gw\<rparr>, w'))
               (reserve_loop (ia_store a) i ifname (ia_rangeID a) iter w)))"

definition IPAllocator_Get ::
  "'w IPAllocator \<Rightarrow> string \<Rightarrow> string \<Rightarrow> ip \<Rightarrow> 'w \<Rightarrow> (IPConfig res \<times> 'w) option" where
  "IPAllocator_Get a i ifname requestedIP w =
     (if requestedIP \<noteq> [] then Some (Get_requested a i ifname requestedIP w) else Get_any a i ifname w)"

definition IPAllocator_Release :: "'w IPAllocator \<Rightarrow> string \<Rightarrow> string \<Rightarrow> 'w \<Rightarrow> unit res \<times> 'w" where
  "IPAllocator_Release a i ifname w = bs_ReleaseByID (ia_store a) i ifname w"

section \<open>The allocator of a pool\<close>

record 'w Allocator =
  al_IPAllocator :: "'w IPAllocator"
  al_name :: string
  al_checkSum :: string
  al_total :: int64
  al_cache :: "'w IPPoolCache"

text \<open>
  The check sum is the hexadecimal SHA-256 of the \<^verbatim>\<open>%v\<close> rendering of the ranges; the hash
  is a parameter.
\<close>

definition format_range :: "LBRange \<Rightarrow> string" where
  "format_range r = ''{'' @ lb_RangeStart r @ '' '' @ lb_RangeEnd r @ '' '' @ lb_Subnet r @ '' '' @ lb_Gateway r @ ''}''"

definition CalculateCheckSum :: "(string \<Rightarrow> string) \<Rightarrow> LBRange list \<Rightarrow> string" where
  "CalculateCheckSum sha256 ranges = sha256 (''['' @ join_with (CHR '' '') (map format_range ranges) @ '']'')"

definition NewAllocator ::
  "(string \<Rightarrow> string) \<Rightarrow> string \<Rightarrow> LBRange list \<Rightarrow> 'w IPPoolCache \<Rightarrow> 'w IPPoolClient \<Rightarrow> 'w Allocator res" where
  "NewAllocator sha256 n ranges ca cl =
     (if ranges = [] then Inl (errorf ''range can't be empty'')
      else (case res_map MakeRange ranges of
          Inl e \<Rightarrow> Inl e
        | Inr rangeSet \<Rightarrow>
            Inr \<lparr>al_IPAllocator = NewIPAllocator rangeSet (store_backend (store_New n ca cl)) 0,
                 al_name = n, al_checkSum = CalculateCheckSum sha256 ranges,
                 al_total = sum_list (map countIP rangeSet), al_cache = ca\<rparr>))"

definition Allocator_Get :: "'w Allocator \<Rightarrow> string \<Rightarrow> 'w \<Rightarrow> (IPConfig res \<times> 'w) option" where
  "Allocator_Get a i w =
     (case pc_Get (al_cache a) (al_name a) w of
        Inl e \<Rightarrow> Some (Inl e, w)
      | Inr pool \<Rightarrow>
          (case find_applicant i (entries (pool_History pool)) of
             Some (k, v) \<Rightarrow> IPAllocator_Get (al_IPAllocator a) i '''' (ParseIP k) w
           | None \<Rightarrow> IPAllocator_Get (al_IPAllocator a) i '''' [] w))"

section \<open>The map of allocators\<close>

type_synonym 'w SafeAllocatorMap = "(string, 'w Allocator) gomap"

definition NewSafeAllocatorMap :: "'w SafeAllocatorMap" where
  "NewSafeAllocatorMap = []"

definition sam_AddOrUpdate :: "string \<Rightarrow> 'w Allocator \<Rightarrow> 'w SafeAllocatorMap \<Rightarrow> 'w SafeAllocatorMap" where
  "sam_AddOrUpdate n a s = m_set n a s"

definition sam_Delete :: "string \<Rightarrow> 'w SafeAllocatorMap \<Rightarrow> 'w SafeAllocatorMap" where
  "sam_Delete n s = m_del n s"

definition sam_Get :: "string \<Rightarrow> 'w SafeAllocatorMap \<Rightarrow> 'w Allocator option" where
  "sam_Get n s = m_get s n"

end
