(* ===== verification/IPAllocatorLemmas.thy ===== *)
theory IPAllocatorLemmas
  imports IPAllocator
begin

text \<open>
  The iterator walks once around the ring of the addresses of a range set. A position is a range
  index and the integer of an address of that range; \<open>positions\<close> lists them, \<open>succ_pos\<close> is the
  next one and comes back to the first. The main lemma, \<open>Get_candidates\<close>, says that the loop of
  \<^verbatim>\<open>Get\<close> always returns and tries, in the order of a rotation of the ring and each once,
  the addresses that are not the gateway of their range. The lemmas on \<open>try_cands\<close> say what that
  comes to for a store that keeps its contract.
\<close>

section \<open>Positions\<close>

definition rangeset_ok :: "ARange list \<Rightarrow> bool" where
  "rangeset_ok rs \<longleftrightarrow>
     rs \<noteq> [] \<and> (\<forall>r \<in> set rs. \<exists>k p. range_ok r k p) \<and>
     (\<forall>i < length rs. \<forall>j < length rs. i \<noteq> j \<longrightarrow> \<not> range_Overlaps (rs ! i) (rs ! j))"

definition at_pos :: "ARange list \<Rightarrow> nat \<times> int \<Rightarrow> ip \<Rightarrow> bool" where
  "at_pos rs p a \<longleftrightarrow> fst p < length rs \<and> range_Contains (rs ! fst p) a \<and> ipToInt a = snd p"

definition succ_pos :: "ARange list \<Rightarrow> nat \<times> int \<Rightarrow> nat \<times> int" where
  "succ_pos rs p =
     (if snd p = ipToInt (RangeEnd (rs ! fst p))
      then ((fst p + 1) mod length rs, ipToInt (RangeStart (rs ! ((fst p + 1) mod length rs))))
      else (fst p, snd p + 1))"

definition gw_pos :: "ARange list \<Rightarrow> nat \<times> int \<Rightarrow> bool" where
  "gw_pos rs p \<longleftrightarrow> Gateway (rs ! fst p) \<noteq> [] \<and> ipToInt (Gateway (rs ! fst p)) = snd p"

definition row :: "ARange list \<Rightarrow> nat \<Rightarrow> (nat \<times> int) list" where
  "row rs j = map (Pair j) [ipToInt (RangeStart (rs ! j)) .. ipToInt (RangeEnd (rs ! j))]"

definition positions :: "ARange list \<Rightarrow> (nat \<times> int) list" where
  "positions rs = concat (map (row rs) [0..<length rs])"

lemma rangeset_okD: "rangeset_ok rs \<Longrightarrow> j < length rs \<Longrightarrow> \<exists>k p. range_ok (rs ! j) k p"
  by (auto simp: rangeset_ok_def)

lemma rangeset_ok_disjoint:
  assumes "rangeset_ok rs" and "i < length rs" and "j < length rs"
    and "range_Contains (rs ! i) x" and "range_Contains (rs ! j) x"
  shows "i = j"
proof -
  obtain k p k' p' where "range_ok (rs ! i) k p" "range_ok (rs ! j) k' p'"
    using rangeset_okD [OF assms(1)] assms(2,3) by metis
  then have "range_Overlaps (rs ! i) (rs ! j)" using range_Overlaps_iff assms(4,5) by blast
  then show ?thesis using assms(1-3) by (auto simp: rangeset_ok_def)
qed

lemma range_Contains_length:
  assumes "range_Contains r a"
  shows "length a = 4 \<or> length a = 16"
proof -
  have "normalizeIP a \<noteq> []"
    using assms by (auto simp: range_Contains_def canonicalizeIP_normalizeIP split: if_splits)
  then show ?thesis by (auto simp: normalizeIP_def To4_def To16_def split: if_splits)
qed

lemma range_Contains_normalizeIP:
  assumes "normalizeIP a = normalizeIP b"
  shows "range_Contains r a = range_Contains r b"
  using assms by (simp add: range_Contains_def canonicalizeIP_normalizeIP)

lemma at_pos_length: "at_pos rs p a \<Longrightarrow> length a = 4 \<or> length a = 16"
  by (auto simp: at_pos_def dest: range_Contains_length)

lemma at_pos_neq_Nil [simp]: "\<not> at_pos rs p []"
  using at_pos_length [of rs p "[]"] by auto

lemma at_pos_range:
  assumes "rangeset_ok rs" and "at_pos rs p a"
  obtains k q where "range_ok (rs ! fst p) k q" and "in_range (rs ! fst p) k a"
proof -
  have "fst p < length rs" "range_Contains (rs ! fst p) a" using assms(2) by (simp_all add: at_pos_def)
  then show thesis using rangeset_okD [OF assms(1)] range_Contains_iff that by blast
qed

lemma range_bounds_at:
  assumes "rangeset_ok rs" and "at_pos rs p a"
  shows "ipToInt (RangeStart (rs ! fst p)) \<le> snd p" "snd p \<le> ipToInt (RangeEnd (rs ! fst p))"
proof -
  obtain k q where "in_range (rs ! fst p) k a" using at_pos_range [OF assms] .
  then show "ipToInt (RangeStart (rs ! fst p)) \<le> snd p" "snd p \<le> ipToInt (RangeEnd (rs ! fst p))"
    using assms(2) by (simp_all add: in_range_def at_pos_def)
qed

lemma at_pos_Equal:
  assumes "rangeset_ok rs" and a: "at_pos rs p a" and b: "at_pos rs q b"
  shows "ip_Equal a b \<longleftrightarrow> p = q"
proof -
  have eq: "ip_Equal a b \<longleftrightarrow> normalizeIP a = normalizeIP b"
    using at_pos_length a b by (intro ip_Equal_iff) auto
  show ?thesis
  proof
    assume "ip_Equal a b"
    then have n: "normalizeIP a = normalizeIP b" by (simp add: eq)
    then have "range_Contains (rs ! fst p) b"
      using a range_Contains_normalizeIP [OF n] by (simp add: at_pos_def)
    then have "fst p = fst q" using rangeset_ok_disjoint [OF assms(1)] a b by (auto simp: at_pos_def)
    moreover have "snd p = snd q" using n a b by (simp add: at_pos_def ipToInt_normalizeIP)
    ultimately show "p = q" by (simp add: prod_eq_iff)
  next
    assume "p = q"
    obtain k q' where ok: "range_ok (rs ! fst p) k q'" "in_range (rs ! fst p) k a"
      using at_pos_range [OF assms(1) a] .
    then have "in_range (rs ! fst p) k b"
      using range_Contains_iff [OF ok(1)] b \<open>p = q\<close> by (simp add: at_pos_def)
    with ok(2) show "ip_Equal a b"
      using eq be_int_inj a b \<open>p = q\<close> by (simp add: in_range_def at_pos_def ipToInt_normalizeIP)
  qed
qed

lemma at_start:
  assumes "rangeset_ok rs" and "j < length rs"
  shows "at_pos rs (j, ipToInt (RangeStart (rs ! j))) (RangeStart (rs ! j))"
  using rangeset_okD [OF assms] range_Contains_bounds(1) assms(2) by (auto simp: at_pos_def)

lemma gw_pos_iff:
  assumes "rangeset_ok rs" and "at_pos rs p a"
  shows "ip_Equal a (Gateway (rs ! fst p)) \<longleftrightarrow> gw_pos rs p"
proof (cases "Gateway (rs ! fst p) = []")
  case True
  then show ?thesis using assms(2) by (auto simp: gw_pos_def)
next
  case False
  let ?g = "Gateway (rs ! fst p)"
  obtain k q where ok: "range_ok (rs ! fst p) k q" "in_range (rs ! fst p) k a"
    using at_pos_range [OF assms] .
  then have g: "length ?g = 16" "length (normalizeIP ?g) = k"
    using False by (auto simp: range_ok_def in_block_def)
  have a: "length (normalizeIP a) = k" using ok(2) by (simp add: in_range_def)
  have "ip_Equal a ?g \<longleftrightarrow> normalizeIP a = normalizeIP ?g"
    using at_pos_length [OF assms(2)] g by (intro ip_Equal_iff) auto
  also have "\<dots> \<longleftrightarrow> ipToInt a = ipToInt ?g"
    using be_int_inj [of "normalizeIP a" "normalizeIP ?g"] a g by (auto simp: ipToInt_normalizeIP)
  finally show ?thesis using False assms(2) by (auto simp: gw_pos_def at_pos_def)
qed

section \<open>One step of the iterator\<close>

lemma NextIP_in_range:
  assumes r: "range_ok r k p" and a: "in_range r k a" and lt: "ipToInt a < ipToInt (RangeEnd r)"
  shows "\<exists>b. NextIP a = Inr b \<and> in_range r k b \<and> ipToInt b = ipToInt a + 1"
proof -
  let ?v = "be_int (normalizeIP a)"
  have n: "plain_net (Subnet r) k p" and e: "length (normalizeIP (RangeEnd r)) = k"
    and s: "be_int (net_IP (Subnet r)) \<le> ipToInt (RangeStart r)"
    using r by (auto simp: range_ok_def in_block_def)
  have len: "length (normalizeIP a) = k" and start: "ipToInt (RangeStart r) \<le> ?v"
    using a by (auto simp: in_range_def ipToInt_normalizeIP)
  have top: "?v + 1 < 256 ^ k"
    using lt be_int_bounds(2) [of "normalizeIP (RangeEnd r)"] e by (simp add: ipToInt_normalizeIP)
  have "\<exists>b. NextIP a = Inr b \<and> length b = k \<and> be_int b = ?v + 1 \<and> normalizeIP b = b"
  proof (cases "k = 4")
    case True
    then obtain b where "NextIP a = Inr b" "length b = 4" "be_int b = ?v + 1"
      using NextIP_v4 [of a] len top by auto
    then show ?thesis using True by auto
  next
    case False
    then have k: "k = 16" and low: "2 ^ 48 \<le> ?v"
      using n s start by (auto simp: plain_net_def)
    obtain b where b: "intToIP (?v + 1) True = Inr b" "length b = 16" "be_int b = ?v + 1"
      using intToIP_v6 [of "?v + 1"] low top k be_int_bounds(1) [of "normalizeIP a"] by auto
    moreover have "NextIP a = intToIP (?v + 1) True"
      using len k by (auto simp: NextIP_def Let_def)
    moreover have "normalizeIP b = b" using b low high_v6_form [of b] by simp
    ultimately show ?thesis using k by auto
  qed
  then obtain b where b: "NextIP a = Inr b" "length b = k" "be_int b = ?v + 1" "normalizeIP b = b" by blast
  then have "in_range r k b" using a lt by (simp add: in_range_def ipToInt_normalizeIP)
  then show ?thesis using b by (auto simp: ipToInt_normalizeIP)
qed

definition on_pos :: "ARange list \<Rightarrow> nat \<times> int \<Rightarrow> RangeIter \<Rightarrow> bool" where
  "on_pos rs p i \<longleftrightarrow> ri_rangeset i = rs \<and> ri_rangeIdx i = fst p \<and> at_pos rs p (ri_cur i)"

lemma advance_pos:
  assumes "rangeset_ok rs" and "on_pos rs p i"
  obtains c where "advance i = Inr (fst (succ_pos rs p), c)" and "at_pos rs (succ_pos rs p) c"
proof -
  let ?r = "rs ! fst p"
  have j: "fst p < length rs" and p: "at_pos rs p (ri_cur i)" using assms(2) by (auto simp: on_pos_def at_pos_def)
  obtain k q where ok: "range_ok ?r k q" using rangeset_okD [OF assms(1) j] by blast
  have "at_pos rs (fst p, ipToInt (RangeEnd ?r)) (RangeEnd ?r)"
    using range_Contains_bounds(2) [OF ok] j by (simp add: at_pos_def)
  from at_pos_Equal [OF assms(1) p this]
  have e: "ip_Equal (ri_cur i) (RangeEnd ?r) \<longleftrightarrow> snd p = ipToInt (RangeEnd ?r)"
    by (simp add: prod_eq_iff)
  show thesis
  proof (cases "snd p = ipToInt (RangeEnd ?r)")
    case True
    let ?j = "(fst p + 1) mod length rs"
    have "?j < length rs" using j by (intro mod_less_divisor) linarith
    then have "at_pos rs (succ_pos rs p) (RangeStart (rs ! ?j))"
      using at_start [OF assms(1)] True by (simp add: succ_pos_def)
    then show thesis
      using that True e assms(2) by (simp add: advance_def on_pos_def succ_pos_def Let_def)
  next
    case False
    have "in_range ?r k (ri_cur i)" using p range_Contains_iff [OF ok] by (simp add: at_pos_def)
    moreover have "ipToInt (ri_cur i) < ipToInt (RangeEnd ?r)"
      using False range_bounds_at(2) [OF assms(1) p] p by (simp add: at_pos_def)
    ultimately obtain b where b: "NextIP (ri_cur i) = Inr b" "in_range ?r k b" "ipToInt b = ipToInt (ri_cur i) + 1"
      using NextIP_in_range [OF ok] by blast
    then have "at_pos rs (succ_pos rs p) b"
      using False p j range_Contains_iff [OF ok] by (simp add: at_pos_def succ_pos_def)
    then show thesis
      using that b False e assms(2) by (simp add: advance_def on_pos_def succ_pos_def Let_def)
  qed
qed

text \<open>The three ways \<^verbatim>\<open>Next\<close> moves to a position.\<close>

lemma next_step_first:
  assumes "rangeset_ok rs" and "ri_rangeset i = rs" and "ri_rangeIdx i = 0" and "ri_cur i = []"
  obtains i' where "next_step i = Inr (yield_cur (rs ! 0) i')"
    and "on_pos rs (0, ipToInt (RangeStart (rs ! 0))) i'" and "ri_startIP i' = ri_cur i'"
proof -
  have l: "0 < length rs" using assms(1) by (simp add: rangeset_ok_def)
  show thesis
    using that [of "i\<lparr>ri_cur := RangeStart (rs ! 0), ri_startIP := RangeStart (rs ! 0)\<rparr>"] l assms(2-4)
      at_start [OF assms(1) l]
    by (simp add: next_step_def on_pos_def Let_def)
qed

lemma next_step_resume:
  assumes "rangeset_ok rs" and "on_pos rs p i" and "ri_startIP i = []"
  obtains i' where "next_step i = Inr (yield_cur (rs ! fst (succ_pos rs p)) i')"
    and "on_pos rs (succ_pos rs p) i'" and "ri_startIP i' = ri_cur i'"
proof -
  obtain c where c: "advance i = Inr (fst (succ_pos rs p), c)" "at_pos rs (succ_pos rs p) c"
    using advance_pos [OF assms(1,2)] .
  have "ri_cur i \<noteq> []" using assms(2) by (auto simp: on_pos_def)
  then show thesis
    using that [of "i\<lparr>ri_rangeIdx := fst (succ_pos rs p), ri_cur := c, ri_startIP := c\<rparr>"] c assms(2,3)
    by (simp add: next_step_def on_pos_def at_pos_def Let_def)
qed

lemma next_step_pos:
  assumes "rangeset_ok rs" and "on_pos rs p i" and "at_pos rs x0 (ri_startIP i)"
  obtains i' where "on_pos rs (succ_pos rs p) i'" and "ri_startIP i' = ri_startIP i"
    and "next_step i =
      Inr (if succ_pos rs p = x0 then (i', Exhausted) else yield_cur (rs ! fst (succ_pos rs p)) i')"
proof -
  obtain c where c: "advance i = Inr (fst (succ_pos rs p), c)" "at_pos rs (succ_pos rs p) c"
    using advance_pos [OF assms(1,2)] .
  have "ri_cur i \<noteq> []" "ri_startIP i \<noteq> []" using assms(2,3) by (auto simp: on_pos_def)
  moreover have "ip_Equal c (ri_startIP i) \<longleftrightarrow> succ_pos rs p = x0"
    using at_pos_Equal [OF assms(1) c(2) assms(3)] .
  ultimately show thesis
    using that [of "i\<lparr>ri_rangeIdx := fst (succ_pos rs p), ri_cur := c\<rparr>"] c assms(2)
    by (simp add: next_step_def on_pos_def at_pos_def Let_def)
qed


section \<open>The ring\<close>

lemma successively_upto: "successively (\<lambda>x y. y = x + 1 \<and> x < b) [a..b]" for a b :: int
proof (induction a b rule: upto.induct)
  case (1 a b)
  consider "a < b" | "a = b" | "b < a" by linarith
  then show ?case using 1 by cases (simp_all add: upto_rec1 successively_Cons)
qed

lemma successively_concat:
  assumes "\<forall>l \<in> set ls. l \<noteq> [] \<and> successively P l"
    and "successively (\<lambda>l m. P (last l) (hd m)) ls"
  shows "successively P (concat ls)"
  using assms
proof (induction ls)
  case (Cons l ls)
  then show ?case
    by (cases ls) (auto simp: successively_append_iff successively_Cons hd_append)
qed simp

lemma row_range:
  assumes "rangeset_ok rs" and "j < length rs"
  shows "row rs j \<noteq> []" "hd (row rs j) = (j, ipToInt (RangeStart (rs ! j)))"
    "last (row rs j) = (j, ipToInt (RangeEnd (rs ! j)))"
    "successively (\<lambda>x y. y = succ_pos rs x) (row rs j)"
proof -
  let ?s = "ipToInt (RangeStart (rs ! j))" and ?e = "ipToInt (RangeEnd (rs ! j))"
  have le: "?s \<le> ?e" using rangeset_okD [OF assms] by (auto simp: range_ok_def)
  then have ne: "[?s..?e] \<noteq> []" by simp
  show "row rs j \<noteq> []" using ne by (simp add: row_def)
  show "hd (row rs j) = (j, ?s)" using le by (simp add: row_def upto_rec1)
  show "last (row rs j) = (j, ?e)" using le ne by (simp add: row_def last_map upto_rec2)
  show "successively (\<lambda>x y. y = succ_pos rs x) (row rs j)"
    unfolding row_def successively_map
    by (rule successively_mono [OF successively_upto]) (auto simp: succ_pos_def)
qed


definition ring :: "('a \<Rightarrow> 'a) \<Rightarrow> 'a list \<Rightarrow> bool" where
  "ring f xs \<longleftrightarrow> xs \<noteq> [] \<and> distinct xs \<and> successively (\<lambda>x y. y = f x) xs \<and> f (last xs) = hd xs"

lemma ring_swap: "ring f (xs @ ys) \<Longrightarrow> ring f (ys @ xs)"
  by (cases "xs = []"; cases "ys = []") (auto simp: ring_def successively_append_iff)

lemma successively_upt: "successively (\<lambda>i j. j = Suc i \<and> j < n) [0..<n]"
proof -
  have "successively (\<lambda>i j. j = Suc i) [0..<m]" for m
  proof (induction m)
    case (Suc m)
    then show ?case by (cases "m = 0") (simp_all add: successively_append_iff)
  qed simp
  then show ?thesis by (rule successively_mono) auto
qed

lemma set_row: "set (row rs j) = {j} \<times> {ipToInt (RangeStart (rs ! j)) .. ipToInt (RangeEnd (rs ! j))}"
  by (auto simp: row_def)

lemma set_positions:
  "set (positions rs) =
     {p. fst p < length rs \<and> ipToInt (RangeStart (rs ! fst p)) \<le> snd p \<and> snd p \<le> ipToInt (RangeEnd (rs ! fst p))}"
  by (auto simp: positions_def set_row)

lemma positions_ring:
  assumes "rangeset_ok rs"
  shows "ring (succ_pos rs) (positions rs)" "hd (positions rs) = (0, ipToInt (RangeStart (rs ! 0)))"
proof -
  let ?n = "length rs" and ?rows = "map (row rs) [0..<length rs]"
  have n: "0 < ?n" using assms by (simp add: rangeset_ok_def)
  note rr = row_range [OF assms]
  have rows: "\<forall>l \<in> set ?rows. l \<noteq> [] \<and> successively (\<lambda>x y. y = succ_pos rs x) l" using rr by auto
  have "successively (\<lambda>l m. hd m = succ_pos rs (last l)) ?rows"
    unfolding successively_map
    by (rule successively_mono [OF successively_upt]) (auto simp: rr succ_pos_def)
  then have succ: "successively (\<lambda>x y. y = succ_pos rs x) (positions rs)"
    unfolding positions_def using rows by (intro successively_concat) auto
  have split: "[0..<?n] = 0 # [Suc 0..<?n]" "[0..<?n] = [0..<?n - 1] @ [?n - 1]"
    using n by (simp_all add: upt_conv_Cons upt_Suc_append [symmetric])
  have ne: "positions rs \<noteq> []" using rr(1) n by (auto simp: positions_def)
  show hd: "hd (positions rs) = (0, ipToInt (RangeStart (rs ! 0)))"
    unfolding positions_def using rr(1,2) n by (subst split(1)) (simp add: hd_append)
  have last: "last (positions rs) = (?n - 1, ipToInt (RangeEnd (rs ! (?n - 1))))"
    unfolding positions_def using rr(1,3) n by (subst split(2)) (simp add: last_append)
  have "succ_pos rs (last (positions rs)) = hd (positions rs)"
    using n by (simp add: last hd succ_pos_def)
  moreover have "distinct (positions rs)"
    unfolding positions_def
  proof (rule distinct_concat)
    show "distinct ?rows"
      unfolding distinct_map using rr(2) by (auto simp: inj_on_def) (metis fst_conv)
    fix ys assume "ys \<in> set ?rows"
    then show "distinct ys" by (auto simp: row_def distinct_map inj_on_def)
  next
    fix ys zs assume "ys \<in> set ?rows" "zs \<in> set ?rows" "ys \<noteq> zs"
    then show "set ys \<inter> set zs = {}" by (auto simp: set_row)
  qed
  ultimately show "ring (succ_pos rs) (positions rs)" using ne succ by (simp add: ring_def)
qed

section \<open>The loop tries the candidates in order\<close>

fun try_cands ::
  "'w BackendStore \<Rightarrow> string \<Rightarrow> string \<Rightarrow> string \<Rightarrow> (IPNet \<times> ip) list \<Rightarrow> 'w \<Rightarrow> (IPNet \<times> ip) option res \<times> 'w" where
  "try_cands bs i f r [] w = (Inr None, w)"
| "try_cands bs i f r ((n, g) # cs) w =
     (case bs_Reserve bs i f (net_IP n) r w of
        (Inl e, w') \<Rightarrow> (Inl e, w')
      | (Inr b, w') \<Rightarrow> if b then (Inr (Some (n, g)), w') else try_cands bs i f r cs w')"

definition cand :: "ARange list \<Rightarrow> nat \<times> int \<Rightarrow> IPNet \<times> ip \<Rightarrow> bool" where
  "cand rs p c \<longleftrightarrow>
     at_pos rs p (net_IP (fst c)) \<and> net_Mask (fst c) = net_Mask (Subnet (rs ! fst p)) \<and> snd c = Gateway (rs ! fst p)"

lemma reserve_loop_step:
  "reserve_loop bs i f r it w =
     (case next_step it of
        Inl e \<Rightarrow> Some (Inl e, w)
      | Inr (it', Exhausted) \<Rightarrow> Some (Inr None, w)
      | Inr (it', AtGateway) \<Rightarrow> reserve_loop bs i f r it' w
      | Inr (it', Yielded n g) \<Rightarrow>
          (case bs_Reserve bs i f (net_IP n) r w of
             (Inl e, w') \<Rightarrow> Some (Inl e, w')
           | (Inr b, w') \<Rightarrow> if b then Some (Inr (Some (n, g)), w') else reserve_loop bs i f r it' w'))"
proof (cases "next_step it")
  case (Inl e)
  then show ?thesis by (subst reserve_loop.simps, subst iter_Next.simps) simp
next
  case (Inr x)
  obtain it' out where x: "x = (it', out)" by (cases x)
  show ?thesis
  proof (cases out)
    case AtGateway
    then have "iter_Next it = iter_Next it'" using Inr x by (subst iter_Next.simps) simp
    then have "reserve_loop bs i f r it w = reserve_loop bs i f r it' w"
      by (subst (1 2) reserve_loop.simps) simp
    then show ?thesis using Inr x AtGateway by simp
  qed (use Inr x in \<open>(subst reserve_loop.simps, subst iter_Next.simps, simp)+\<close>)
qed

lemma yield_cur_loop:
  assumes "rangeset_ok rs" and "on_pos rs q it'" and "next_step it = Inr (yield_cur (rs ! fst q) it')"
    and "list_all2 (cand rs) (filter (\<lambda>p. \<not> gw_pos rs p) ps) cs"
    and "\<And>w. reserve_loop bs i f r it' w = Some (try_cands bs i f r cs w)"
  shows "\<exists>cs. list_all2 (cand rs) (filter (\<lambda>p. \<not> gw_pos rs p) (q # ps)) cs \<and>
    (\<forall>w. reserve_loop bs i f r it w = Some (try_cands bs i f r cs w))"
proof -
  have q: "at_pos rs q (ri_cur it')" using assms(2) by (simp add: on_pos_def)
  show ?thesis
  proof (cases "gw_pos rs q")
    case True
    then have "next_step it = Inr (it', AtGateway)"
      using assms(3) gw_pos_iff [OF assms(1) q] by (simp add: yield_cur_def)
    then have "\<forall>w. reserve_loop bs i f r it w = Some (try_cands bs i f r cs w)"
      using assms(5) by (simp add: reserve_loop_step [of bs i f r it])
    then show ?thesis using True assms(4) by auto
  next
    case False
    let ?n = "\<lparr>net_IP = ri_cur it', net_Mask = net_Mask (Subnet (rs ! fst q))\<rparr>" and ?g = "Gateway (rs ! fst q)"
    have "next_step it = Inr (it', Yielded ?n ?g)"
      using False assms(3) gw_pos_iff [OF assms(1) q] by (simp add: yield_cur_def)
    then have "reserve_loop bs i f r it w = Some (try_cands bs i f r ((?n, ?g) # cs) w)" for w
      using assms(5) by (simp add: reserve_loop_step [of bs i f r it] split: prod.splits sum.splits)
    moreover have "cand rs q (?n, ?g)" using q by (simp add: cand_def)
    ultimately show ?thesis using False assms(4) by (intro exI [of _ "(?n, ?g) # cs"]) simp
  qed
qed

lemma loop_candidates:
  assumes "rangeset_ok rs" and "on_pos rs p it" and "at_pos rs x0 (ri_startIP it)"
    and "successively (\<lambda>x y. y = succ_pos rs x) (p # ps)" and "succ_pos rs (last (p # ps)) = x0" and "x0 \<notin> set ps"
  shows "\<exists>cs. list_all2 (cand rs) (filter (\<lambda>p. \<not> gw_pos rs p) ps) cs \<and>
    (\<forall>w. reserve_loop bs i f r it w = Some (try_cands bs i f r cs w))"
  using assms(2-6)
proof (induction ps arbitrary: p it)
  case Nil
  obtain i' where "next_step it =
      Inr (if succ_pos rs p = x0 then (i', Exhausted) else yield_cur (rs ! fst (succ_pos rs p)) i')"
    using next_step_pos [OF assms(1) Nil(1,2)] .
  then have "next_step it = Inr (i', Exhausted)" using Nil(4) by simp
  then show ?case by (simp add: reserve_loop_step [of bs i f r it])
next
  case (Cons q ps)
  have q: "q = succ_pos rs p" "q \<noteq> x0" using Cons.prems(3,5) by auto
  obtain it' where it': "on_pos rs q it'" "ri_startIP it' = ri_startIP it"
    and nx: "next_step it = Inr (if q = x0 then (it', Exhausted) else yield_cur (rs ! fst q) it')"
    using next_step_pos [OF assms(1) Cons.prems(1,2), folded q(1)] .
  then have nx: "next_step it = Inr (yield_cur (rs ! fst q) it')" using q(2) by simp
  have "\<exists>cs. list_all2 (cand rs) (filter (\<lambda>p. \<not> gw_pos rs p) ps) cs \<and>
      (\<forall>w. reserve_loop bs i f r it' w = Some (try_cands bs i f r cs w))"
    by (rule Cons.IH [OF it'(1)]) (use Cons.prems it'(2) in \<open>auto simp: successively_Cons split: if_splits\<close>)
  then show ?case using yield_cur_loop [OF assms(1) it'(1) nx] by blast
qed


text \<open>From any start the iterator makes, the loop goes once around.\<close>

lemma ring_from_hd:
  assumes "rangeset_ok rs" and "ring (succ_pos rs) (q # ps)" and "on_pos rs q it'"
    and "ri_startIP it' = ri_cur it'" and "next_step it = Inr (yield_cur (rs ! fst q) it')"
  shows "\<exists>cs. list_all2 (cand rs) (filter (\<lambda>p. \<not> gw_pos rs p) (q # ps)) cs \<and>
    (\<forall>w. reserve_loop bs i f r it w = Some (try_cands bs i f r cs w))"
proof -
  have "at_pos rs q (ri_startIP it')" using assms(3,4) by (simp add: on_pos_def)
  then have "\<exists>cs. list_all2 (cand rs) (filter (\<lambda>p. \<not> gw_pos rs p) ps) cs \<and>
      (\<forall>w. reserve_loop bs i f r it' w = Some (try_cands bs i f r cs w))"
    using assms(2) by (intro loop_candidates [OF assms(1,3)]) (auto simp: ring_def)
  then show ?thesis using yield_cur_loop [OF assms(1,3,5)] by blast
qed

lemma find_index_Some:
  "find_index P xs = Some j \<Longrightarrow> j < length xs \<and> P (xs ! j)"
  by (induction xs arbitrary: j) (auto split: if_splits)

lemma find_index_None: "find_index P xs = None \<longleftrightarrow> (\<forall>x \<in> set xs. \<not> P x)"
  by (induction xs) auto

lemma rangeset_Contains_iff: "rangeset_Contains rs a \<longleftrightarrow> (\<exists>r \<in> set rs. range_Contains r a)"
proof -
  have "range_Contains r (normalizeIP a) = range_Contains r a" for r
    by (rule range_Contains_normalizeIP) simp
  moreover have "\<not> range_Contains r a" if "normalizeIP a = []" for r
    using that by (simp add: range_Contains_def canonicalizeIP_normalizeIP)
  ultimately show ?thesis
    by (auto simp: rangeset_Contains_def RangeFor_def canonicalizeIP_normalizeIP find_None_iff find_Some_iff
        split: option.splits dest: nth_mem)
qed

definition ring_order :: "ARange list \<Rightarrow> (nat \<times> int) list \<Rightarrow> bool" where
  "ring_order rs ps \<longleftrightarrow> ring (succ_pos rs) ps \<and> set ps = set (positions rs)"

lemma Get_candidates:
  assumes "rangeset_ok (ia_rangeset a)"
  obtains iter ps cs where "GetIter a w = Inr iter" and "ring_order (ia_rangeset a) ps"
    and "list_all2 (cand (ia_rangeset a)) (filter (\<lambda>p. \<not> gw_pos (ia_rangeset a) p) ps) cs"
    and "\<And>w'. reserve_loop bs i f r iter w' = Some (try_cands bs i f r cs w')"
proof -
  let ?rs = "ia_rangeset a"
  let ?l = "case bs_LastReservedIP (ia_store a) (ia_rangeID a) w of Inl _ \<Rightarrow> [] | Inr x \<Rightarrow> x"
  note ring = positions_ring [OF assms]
  have "\<exists>iter ps it'. GetIter a w = Inr iter \<and> ring_order ?rs ps \<and> on_pos ?rs (hd ps) it' \<and>
      ri_startIP it' = ri_cur it' \<and> next_step iter = Inr (yield_cur (?rs ! fst (hd ps)) it')"
  proof (cases "?l \<noteq> [] \<and> rangeset_Contains ?rs ?l")
    case True
    then obtain j where fi: "find_index (\<lambda>r. range_Contains r ?l) ?rs = Some j"
      by (cases "find_index (\<lambda>r. range_Contains r ?l) ?rs") (auto simp: find_index_None rangeset_Contains_iff)
    let ?iter = "\<lparr>ri_rangeset = ?rs, ri_rangeIdx = j, ri_cur = ?l, ri_startIP = []\<rparr>" and ?p = "(j, ipToInt ?l)"
    have it: "GetIter a w = Inr ?iter" using True fi by (simp add: GetIter_def Let_def)
    have p: "on_pos ?rs ?p ?iter" using find_index_Some [OF fi] by (simp add: on_pos_def at_pos_def)
    then have "?p \<in> set (positions ?rs)"
      using range_bounds_at [OF assms, of ?p ?l] by (auto simp: set_positions on_pos_def at_pos_def)
    then obtain A B where AB: "positions ?rs = (A @ [?p]) @ B" by (auto dest: split_list)
    then have r: "ring_order ?rs (B @ A @ [?p])"
      using ring(1) ring_swap [of _ "A @ [?p]" B] by (auto simp: ring_order_def)
    then have "hd (B @ A @ [?p]) = succ_pos ?rs ?p" by (simp add: ring_order_def ring_def)
    moreover obtain it' where "next_step ?iter = Inr (yield_cur (?rs ! fst (succ_pos ?rs ?p)) it')"
        "on_pos ?rs (succ_pos ?rs ?p) it'" "ri_startIP it' = ri_cur it'"
      using next_step_resume [OF assms p] by auto
    ultimately show ?thesis using it r by metis
  next
    case False
    let ?iter = "\<lparr>ri_rangeset = ?rs, ri_rangeIdx = 0, ri_cur = [], ri_startIP = RangeStart (?rs ! 0)\<rparr>"
    have "?rs \<noteq> []" using assms by (simp add: rangeset_ok_def)
    then have it: "GetIter a w = Inr ?iter"
      using False unfolding GetIter_def Let_def by (subst if_not_P [OF False]) simp
    obtain it' where "next_step ?iter = Inr (yield_cur (?rs ! 0) it')"
        "on_pos ?rs (0, ipToInt (RangeStart (?rs ! 0))) it'" "ri_startIP it' = ri_cur it'"
      using next_step_first [OF assms, of ?iter] by auto
    then show ?thesis
      using it ring by (intro exI [of _ ?iter] exI [of _ "positions ?rs"] exI [of _ it']) (auto simp: ring_order_def)
  qed
  then obtain iter ps it' where *: "GetIter a w = Inr iter" "ring_order ?rs ps" "on_pos ?rs (hd ps) it'"
      "ri_startIP it' = ri_cur it'" "next_step iter = Inr (yield_cur (?rs ! fst (hd ps)) it')" by blast
  obtain q qs where ps: "ps = q # qs" using *(2) by (cases ps) (auto simp: ring_order_def ring_def)
  have "\<exists>cs. list_all2 (cand ?rs) (filter (\<lambda>p. \<not> gw_pos ?rs p) ps) cs \<and>
      (\<forall>w. reserve_loop bs i f r iter w = Some (try_cands bs i f r cs w))"
    unfolding ps by (rule ring_from_hd [OF assms, of q qs it']) (use * ps in \<open>simp_all add: ring_order_def\<close>)
  then show thesis using that *(1,2) by blast
qed


section \<open>What Get does\<close>

text \<open>An address that the range set hands out: in one of its ranges and not that range's gateway.\<close>

definition served :: "ARange list \<Rightarrow> ip \<Rightarrow> bool" where
  "served rs a \<longleftrightarrow> list_ex (\<lambda>r. range_Contains r a \<and> \<not> ip_Equal a (Gateway r)) rs"

lemma served_pos:
  assumes "rangeset_ok rs" and "served rs a"
  obtains p where "at_pos rs p a" and "\<not> gw_pos rs p" and "p \<in> set (positions rs)"
proof -
  obtain j where j: "j < length rs" "range_Contains (rs ! j) a" "\<not> ip_Equal a (Gateway (rs ! j))"
    using assms(2) by (auto simp: served_def list_ex_iff in_set_conv_nth)
  let ?p = "(j, ipToInt a)"
  have p: "at_pos rs ?p a" using j by (simp add: at_pos_def)
  then have "\<not> gw_pos rs ?p" using gw_pos_iff [OF assms(1) p] j(3) by simp
  moreover have "?p \<in> set (positions rs)" using range_bounds_at [OF assms(1) p] j(1) by (simp add: set_positions)
  ultimately show thesis using that p by blast
qed

lemma pos_served:
  assumes "rangeset_ok rs" and "at_pos rs p a" and "\<not> gw_pos rs p"
  shows "served rs a"
proof -
  have "\<not> ip_Equal a (Gateway (rs ! fst p))" using gw_pos_iff [OF assms(1,2)] assms(3) by simp
  moreover have "rs ! fst p \<in> set rs" "range_Contains (rs ! fst p) a" using assms(2) by (simp_all add: at_pos_def)
  ultimately show ?thesis by (auto simp: served_def list_ex_iff)
qed

lemma at_pos_String:
  assumes "rangeset_ok rs" and "at_pos rs p a" and "at_pos rs p b"
  shows "ip_String a = ip_String b"
proof -
  have l: "length a = 4 \<or> length a = 16" "length b = 4 \<or> length b = 16" using assms(2,3) at_pos_length by auto
  have "ip_Equal a b" using at_pos_Equal [OF assms] by simp
  then show ?thesis using ip_Equal_iff [OF l] ip_String_inj [OF l] by simp
qed

lemma served_parse:
  assumes "served rs a"
  shows "rangeset_Contains rs (ParseIP (ip_String a))"
proof -
  obtain r where r: "r \<in> set rs" "range_Contains r a" using assms by (auto simp: served_def list_ex_iff)
  have l: "length a = 4 \<or> length a = 16" using range_Contains_length [OF r(2)] .
  then have "normalizeIP (ParseIP (ip_String a)) = normalizeIP a"
    using ParseIP_ip_String [OF l] by (auto simp: normalizeIP_def To4_def To16_def)
  then show ?thesis using r range_Contains_normalizeIP by (metis rangeset_Contains_iff)
qed

definition config_of :: "ARange list \<Rightarrow> IPConfig \<Rightarrow> bool" where
  "config_of rs c \<longleftrightarrow>
     list_ex (\<lambda>r. range_Contains r (net_IP (ipc_Address c)) \<and> \<not> ip_Equal (net_IP (ipc_Address c)) (Gateway r) \<and>
       net_Mask (ipc_Address c) = net_Mask (Subnet r) \<and> ipc_Gateway c = Gateway r) rs"

lemma config_of_served: "config_of rs c \<Longrightarrow> served rs (net_IP (ipc_Address c))"
  by (auto simp: config_of_def served_def list_ex_iff)

lemma cand_config:
  assumes "rangeset_ok rs" and "cand rs p (n, g)" and "\<not> gw_pos rs p"
  shows "config_of rs \<lparr>ipc_Address = n, ipc_Gateway = g\<rparr>"
proof -
  have p: "at_pos rs p (net_IP n)" and m: "net_Mask n = net_Mask (Subnet (rs ! fst p))" "g = Gateway (rs ! fst p)"
    using assms(2) by (simp_all add: cand_def)
  have "\<not> ip_Equal (net_IP n) (Gateway (rs ! fst p))" using gw_pos_iff [OF assms(1) p] assms(3) by simp
  moreover have "rs ! fst p \<in> set rs" "range_Contains (rs ! fst p) (net_IP n)" using p by (simp_all add: at_pos_def)
  ultimately show ?thesis using m by (auto simp: config_of_def list_ex_iff)
qed

text \<open>
  The outcomes of \<^verbatim>\<open>Get\<close> without a requested address, in terms of what the store reads
  (\<open>view\<close>) and records before (\<open>old\<close>) and after (\<open>new\<close>), and of the errors with which it may
  refuse to reserve an address (\<open>fails\<close>). Only the first is possible for an applicant that holds an address of the ranges,
  and only the others for one that holds none.
\<close>

definition holds_none :: "ARange list \<Rightarrow> string \<Rightarrow> (string \<rightharpoonup> string) \<Rightarrow> bool" where
  "holds_none rs i view \<longleftrightarrow> (\<forall>k. view k = Some i \<longrightarrow> \<not> rangeset_Contains rs (ParseIP k))"

inductive get_outcome ::
  "(ip \<Rightarrow> error \<Rightarrow> bool) \<Rightarrow> ARange list \<Rightarrow> string \<Rightarrow> (string \<rightharpoonup> string) \<Rightarrow> (string \<rightharpoonup> string) \<Rightarrow>
   (string \<rightharpoonup> string) \<Rightarrow> IPConfig res \<Rightarrow> bool"
  for fails rs i view old where
  duplicate: "view k = Some i \<Longrightarrow> rangeset_Contains rs (ParseIP k) \<Longrightarrow>
    get_outcome fails rs i view old old (Inl (duplicate_error (ParseIP k) i))"
| exhausted: "holds_none rs i view \<Longrightarrow> (\<And>a. served rs a \<Longrightarrow> view (ip_String a) \<noteq> None) \<Longrightarrow>
    get_outcome fails rs i view old old (Inl (no_address_error rs))"
| store_failed: "holds_none rs i view \<Longrightarrow> served rs a \<Longrightarrow> view (ip_String a) = None \<Longrightarrow> fails a e \<Longrightarrow>
    get_outcome fails rs i view old old (Inl e)"
| allocated: "holds_none rs i view \<Longrightarrow> config_of rs c \<Longrightarrow> t = ip_String (net_IP (ipc_Address c)) \<Longrightarrow> view t = None \<Longrightarrow>
    old t = None \<Longrightarrow> new = old(t \<mapsto> i) \<Longrightarrow> get_outcome fails rs i view old new (Inr c)"

inductive_cases get_outcome_InrE: "get_outcome fails rs i view old new (Inr c)"

lemma get_outcome_mono:
  "get_outcome fails rs i view old new x \<Longrightarrow> (\<And>a e. view (ip_String a) = None \<Longrightarrow> fails a e \<Longrightarrow> fails' a e) \<Longrightarrow>
   get_outcome fails' rs i view old new x"
  by (induction rule: get_outcome.induct) (auto intro: get_outcome.intros)

text \<open>What decides between the outcomes of an applicant that holds no address.\<close>

lemma get_outcome_decided:
  assumes "get_outcome fails rs i view old new x" and "holds_none rs i view"
    and "\<And>a e. fails a e \<Longrightarrow> e \<noteq> no_address_error rs"
  shows "x = Inl (no_address_error rs) \<longleftrightarrow> (\<forall>a. served rs a \<longrightarrow> view (ip_String a) \<noteq> None)"
    and "(\<exists>a. served rs a \<and> view (ip_String a) = None) \<Longrightarrow>
      (\<forall>a e. served rs a \<and> view (ip_String a) = None \<longrightarrow> \<not> fails a e) \<Longrightarrow> \<exists>c. x = Inr c"
  using assms by (auto simp: holds_none_def elim!: get_outcome.cases dest: config_of_served)

context backend_store
begin

lemma try_cands_spec:
  assumes "inv w" and "try_cands bs i f r cs w = (x, w')"
  shows "inv w' \<and>
    (case x of
       Inl e \<Rightarrow> alloc w' = alloc w \<and>
         (\<exists>c \<in> set cs. view w (ip_String (net_IP (fst c))) = None \<and> bs_Reserve bs i f (net_IP (fst c)) r w = (Inl e, w'))
     | Inr None \<Rightarrow> w' = w \<and> (\<forall>c \<in> set cs. view w (ip_String (net_IP (fst c))) \<noteq> None)
     | Inr (Some c) \<Rightarrow> c \<in> set cs \<and>
         (view w (ip_String (net_IP (fst c))) = Some i \<and> w' = w \<or>
          view w (ip_String (net_IP (fst c))) = None \<and> alloc w (ip_String (net_IP (fst c))) = None \<and>
          alloc w' = (alloc w)(ip_String (net_IP (fst c)) \<mapsto> i)))"
  using assms(2)
proof (induction cs)
  case Nil
  then show ?case using assms(1) by auto
next
  case (Cons c cs)
  obtain n g where c: "c = (n, g)" by (cases c)
  obtain y v where res: "bs_Reserve bs i f (net_IP n) r w = (y, v)" by (cases "bs_Reserve bs i f (net_IP n) r w")
  have v: "inv v" using reserve_inv [OF assms(1) res] .
  show ?case
  proof (cases "view w (ip_String (net_IP n))")
    case None
    show ?thesis
    proof (cases y)
      case (Inl e)
      then show ?thesis using Cons.prems c res v None reserve_err [OF assms(1)] by auto
    next
      case (Inr b)
      then have "b" "alloc w (ip_String (net_IP n)) = None" "alloc v = (alloc w)(ip_String (net_IP n) \<mapsto> i)"
        using reserve_free [OF assms(1) None] res by blast+
      then show ?thesis using Cons.prems c res v None Inr by auto
    qed
  next
    case (Some j)
    obtain b where b: "y = Inr b" "v = w" "b \<longrightarrow> j = i"
      using reserve_taken [OF assms(1) Some, of i f r] res by auto
    show ?thesis
    proof (cases b)
      case True
      then show ?thesis using Cons.prems c res b Some assms(1) by auto
    next
      case False
      then have "try_cands bs i f r cs w = (x, w')" using Cons.prems c res b by simp
      then show ?thesis using Cons.IH Some c by (auto split: sum.splits option.splits)
    qed
  qed
qed

lemma Get_any_outcome:
  assumes ok: "rangeset_ok (ia_rangeset a)" and bs: "ia_store a = bs" and inv: "inv w"
  obtains x w' where "IPAllocator_Get a i f [] w = Some (x, w')" and "inv w'"
    and "get_outcome (\<lambda>y e. fst (bs_Reserve bs i f y (ia_rangeID a) w) = Inl e) (ia_rangeset a) i (view w) (alloc w) (alloc w') x"
proof (cases "find (\<lambda>x. rangeset_Contains (ia_rangeset a) x) (bs_GetByID bs i f w)")
  case (Some y)
  then have "y \<in> set (bs_GetByID bs i f w)" "rangeset_Contains (ia_rangeset a) y"
    by (auto simp: find_Some_iff)
  then obtain k where k: "y = ParseIP k" "view w k = Some i" using get_by_id [OF inv] by auto
  have "IPAllocator_Get a i f [] w = Some (Inl (duplicate_error y i), w)"
    using Some bs by (simp add: IPAllocator_Get_def Get_any_def)
  then show thesis
    using that inv k \<open>rangeset_Contains (ia_rangeset a) y\<close> by (blast intro: duplicate)
next
  case None
  let ?rs = "ia_rangeset a"
  have nodup: "view w (ip_String b) \<noteq> Some i" if "served ?rs b" for b
    using None served_parse [OF that] get_by_id [OF inv] by (auto simp: find_None_iff)
  have none: "holds_none ?rs i (view w)" using None get_by_id [OF inv] by (auto simp: holds_none_def find_None_iff)
  obtain iter ps cs where it: "GetIter a w = Inr iter" "ring_order ?rs ps"
    "list_all2 (cand ?rs) (filter (\<lambda>p. \<not> gw_pos ?rs p) ps) cs"
    "\<And>v. reserve_loop bs i f (ia_rangeID a) iter v = Some (try_cands bs i f (ia_rangeID a) cs v)"
    using Get_candidates [OF ok] by blast
  have cs: "config_of ?rs \<lparr>ipc_Address = fst c, ipc_Gateway = snd c\<rparr>" if mem: "c \<in> set cs" for c
  proof -
    obtain p where "p \<in> set (filter (\<lambda>p. \<not> gw_pos ?rs p) ps)" "cand ?rs p c"
      using list_all2_mem_right [OF it(3) mem] by blast
    then show ?thesis using cand_config [OF ok, of p "fst c" "snd c"] by simp
  qed
  have all: "\<exists>c \<in> set cs. ip_String (net_IP (fst c)) = ip_String b" if sv: "served ?rs b" for b
  proof -
    obtain p where p: "at_pos ?rs p b" "\<not> gw_pos ?rs p" "p \<in> set (positions ?rs)" using served_pos [OF ok sv] .
    then have "p \<in> set (filter (\<lambda>p. \<not> gw_pos ?rs p) ps)" using it(2) by (simp add: ring_order_def)
    then obtain c where "c \<in> set cs" "cand ?rs p c"
      using list_all2_mem_left [OF it(3)] by blast
    then show ?thesis using at_pos_String [OF ok _ p(1)] by (auto simp: cand_def)
  qed
  obtain y w' where tried: "try_cands bs i f (ia_rangeID a) cs w = (y, w')" by fastforce
  note spec = try_cands_spec [OF inv tried]
  let ?x = "case y of Inl e \<Rightarrow> Inl e | Inr None \<Rightarrow> Inl (no_address_error ?rs)
    | Inr (Some (n, gw)) \<Rightarrow> Inr \<lparr>ipc_Address = n, ipc_Gateway = gw\<rparr>"
  have get: "IPAllocator_Get a i f [] w = Some (?x, w')"
    using None bs it(1,4) tried by (simp add: IPAllocator_Get_def Get_any_def)
  have "get_outcome (\<lambda>y e. fst (bs_Reserve bs i f y (ia_rangeID a) w) = Inl e) ?rs i (view w) (alloc w) (alloc w') ?x"
  proof (cases y)
    case (Inl e)
    then obtain c where c: "c \<in> set cs" "view w (ip_String (net_IP (fst c))) = None" "alloc w' = alloc w"
      "bs_Reserve bs i f (net_IP (fst c)) (ia_rangeID a) w = (Inl e, w')"
      using spec by auto
    then have "served ?rs (net_IP (fst c))" using config_of_served [OF cs [OF c(1)]] by simp
    then show ?thesis using Inl c(2-4) none by (auto intro!: store_failed)
  next
    case (Inr o')
    show ?thesis
    proof (cases o')
      case None
      then show ?thesis using Inr spec all none by (auto intro!: exhausted) metis
    next
      case (Some c)
      then have c: "c \<in> set cs" using Inr spec by simp
      have "view w (ip_String (net_IP (fst c))) \<noteq> Some i"
        using nodup config_of_served [OF cs [OF c]] by simp
      then show ?thesis using Inr Some spec cs [OF c] none by (cases c) (auto intro!: allocated)
    qed
  qed
  then show thesis using that get spec by blast
qed

lemma Get_requested_outcome:
  assumes ok: "rangeset_ok (ia_rangeset a)" and bs: "ia_store a = bs" and inv: "inv w"
    and get: "Get_requested a i f req w = (x, w')"
  shows "inv w'" and "x = Inl e \<Longrightarrow> alloc w' = alloc w"
    and "x = Inr c \<Longrightarrow> config_of (ia_rangeset a) c \<and> net_IP (ipc_Address c) = normalizeIP req"
    and "x = Inr c \<Longrightarrow> t = ip_String (normalizeIP req) \<Longrightarrow>
      view w t = Some i \<and> w' = w \<or> view w t = None \<and> alloc w t = None \<and> alloc w' = (alloc w)(t \<mapsto> i)"
proof -
  have "inv w' \<and> (\<forall>e. x = Inl e \<longrightarrow> alloc w' = alloc w) \<and>
    (\<forall>c. x = Inr c \<longrightarrow> config_of (ia_rangeset a) c \<and> net_IP (ipc_Address c) = normalizeIP req) \<and>
    (\<forall>c. x = Inr c \<longrightarrow> (let t = ip_String (normalizeIP req) in
       view w t = Some i \<and> w' = w \<or> view w t = None \<and> alloc w t = None \<and> alloc w' = (alloc w)(t \<mapsto> i)))"
  proof (cases "normalizeIP req = [] \<or> (\<exists>e. RangeFor (ia_rangeset a) (normalizeIP req) = Inl e)")
    case True
    then show ?thesis
      using get inv by (cases "normalizeIP req = []") (auto simp: Get_requested_def canonicalizeIP_normalizeIP)
  next
    case False
    then obtain r where n: "normalizeIP req \<noteq> []" and r: "RangeFor (ia_rangeset a) (normalizeIP req) = Inr r"
      by (cases "RangeFor (ia_rangeset a) (normalizeIP req)") auto
    then have mem: "r \<in> set (ia_rangeset a)" "range_Contains r (normalizeIP req)"
      by (auto simp: RangeFor_def canonicalizeIP_normalizeIP find_Some_iff split: if_splits option.splits)
    show ?thesis
    proof (cases "ip_Equal (normalizeIP req) (Gateway r)")
      case True
      then show ?thesis using get inv n r by (auto simp: Get_requested_def canonicalizeIP_normalizeIP)
    next
      case gw: False
      obtain y v where res: "bs_Reserve bs i f (normalizeIP req) (ia_rangeID a) w = (y, v)"
        by (cases "bs_Reserve bs i f (normalizeIP req) (ia_rangeID a) w")
      have x: "w' = v" "x = (case y of Inl e \<Rightarrow> Inl e | Inr b \<Rightarrow>
          if \<not> b then (Inl (errorf (''requested IP address '' @ ip_String (normalizeIP req) @
            '' is not available in range set '' @ rangeset_String (ia_rangeset a))))
          else Inr \<lparr>ipc_Address = \<lparr>net_IP = normalizeIP req, net_Mask = net_Mask (Subnet r)\<rparr>, ipc_Gateway = Gateway r\<rparr>)"
        using get n r gw bs res by (auto simp: Get_requested_def canonicalizeIP_normalizeIP split: sum.splits if_splits)
      have v: "inv v" using reserve_inv [OF inv res] .
      have conf: "config_of (ia_rangeset a)
          \<lparr>ipc_Address = \<lparr>net_IP = normalizeIP req, net_Mask = net_Mask (Subnet r)\<rparr>, ipc_Gateway = Gateway r\<rparr>"
        using mem gw by (auto simp: config_of_def list_ex_iff)
      show ?thesis
      proof (cases "view w (ip_String (normalizeIP req))")
        case None
        show ?thesis
        proof (cases y)
          case (Inl e)
          then show ?thesis using x v res reserve_err [OF inv] by simp
        next
          case (Inr b)
          then have "b" "alloc w (ip_String (normalizeIP req)) = None"
            "alloc v = (alloc w)(ip_String (normalizeIP req) \<mapsto> i)"
            using reserve_free [OF inv None] res by blast+
          then show ?thesis using x v conf None Inr by (simp add: Let_def)
        qed
      next
        case (Some j)
        obtain b where "y = Inr b" "v = w" "b \<longrightarrow> j = i"
          using reserve_taken [OF inv Some, of i f "ia_rangeID a"] res by auto
        then show ?thesis using x v conf Some by (auto simp: Let_def)
      qed
    qed
  qed
  then show "inv w'" and "x = Inl e \<Longrightarrow> alloc w' = alloc w"
    and "x = Inr c \<Longrightarrow> config_of (ia_rangeset a) c \<and> net_IP (ipc_Address c) = normalizeIP req"
    and "x = Inr c \<Longrightarrow> t = ip_String (normalizeIP req) \<Longrightarrow>
      view w t = Some i \<and> w' = w \<or> view w t = None \<and> alloc w t = None \<and> alloc w' = (alloc w)(t \<mapsto> i)"
    by (simp_all add: Let_def)
qed

end

end
