(* ===== verification/PoolSelector.thy ===== *)
theory PoolSelector
  imports KubeAPI
begin

text \<open>
  Choosing a pool for a load balancer: \<^verbatim>\<open>pkg/ipam/selector.go\<close>. A requirement matches the
  selector of a pool when the networks are equal and one tuple of the scope matches; in loose mode
  an empty project or guest cluster of the tuple matches anything.
\<close>

definition All :: string where "All = ''*''"
definition EmptySelector :: string where "EmptySelector = ''''"

record Requirement =
  rq_Network :: string
  rq_Project :: string
  rq_Namespace :: string
  rq_Cluster :: string

record Matcher =
  mt_selector :: Selector
  mt_looseMode :: bool

definition NewMatcher :: "Selector \<Rightarrow> Matcher" where
  "NewMatcher s = \<lparr>mt_selector = s, mt_looseMode = False\<rparr>"

definition NewMatcherWithMode :: "Selector \<Rightarrow> bool \<Rightarrow> Matcher" where
  "NewMatcherWithMode s looseMode = \<lparr>mt_selector = s, mt_looseMode = looseMode\<rparr>"

definition isMatch :: "Tuple \<Rightarrow> Requirement \<Rightarrow> bool \<Rightarrow> bool" where
  "isMatch t r looseMode =
     (if \<not> looseMode then
        (t_Project t = All \<or> rq_Project r = All \<or> t_Project t = rq_Project r) \<and>
        (t_Namespace t = All \<or> rq_Namespace r = All \<or> t_Namespace t = rq_Namespace r) \<and>
        (t_GuestCluster t = All \<or> rq_Cluster r = All \<or> t_GuestCluster t = rq_Cluster r)
      else
        (t_Project t = All \<or> rq_Project r = All \<or> t_Project t = rq_Project r \<or> t_Project t = EmptySelector) \<and>
        (t_Namespace t = All \<or> rq_Namespace r = All \<or> t_Namespace t = rq_Namespace r) \<and>
        (t_GuestCluster t = All \<or> rq_Cluster r = All \<or> t_GuestCluster t = rq_Cluster r \<or>
           t_GuestCluster t = EmptySelector))"

definition Matches :: "Matcher \<Rightarrow> Requirement \<Rightarrow> bool" where
  "Matches m r =
     (if sel_Network (mt_selector m) \<noteq> rq_Network r then False
      else list_ex (\<lambda>t. isMatch t r (mt_looseMode m)) (sel_Scope (mt_selector m)))"

definition labelled_global :: "IPPool \<Rightarrow> bool" where
  "labelled_global p \<longleftrightarrow> str_get (md_Labels (pool_Meta p)) KeyGlobalIPPool = ValueTrue"

text \<open>The loop of \<^verbatim>\<open>Select\<close>, with the selected pool, the global pool and the best priority so far.\<close>

fun select_loop ::
  "Requirement \<Rightarrow> bool \<Rightarrow> IPPool list \<Rightarrow> IPPool option \<Rightarrow> IPPool option \<Rightarrow> uint32 \<Rightarrow> IPPool option \<times> IPPool option" where
  "select_loop r looseMode [] selectedPool globalPool priority = (selectedPool, globalPool)"
| "select_loop r looseMode (pool # pools) selectedPool globalPool priority =
     (if labelled_global pool then select_loop r looseMode pools selectedPool (Some pool) priority
      else if Matches (NewMatcherWithMode (ps_Selector (pool_Spec pool)) looseMode) r \<and>
              priority \<le> sel_Priority (ps_Selector (pool_Spec pool)) then
        select_loop r looseMode pools (Some pool) globalPool (sel_Priority (ps_Selector (pool_Spec pool)))
      else select_loop r looseMode pools selectedPool globalPool priority)"

definition Select :: "'w IPPoolCache \<Rightarrow> Requirement option \<Rightarrow> bool \<Rightarrow> 'w \<Rightarrow> IPPool option res" where
  "Select ca req looseMode w =
     (case req of
        None \<Rightarrow> Inl (errorf ''the requirement to select a pool can't be empty'')
      | Some r \<Rightarrow>
          (case pc_List ca [] w of
             Inl e \<Rightarrow> Inl e
           | Inr pools \<Rightarrow>
               (case select_loop r looseMode pools None None 0 of
                  (Some p, g) \<Rightarrow> Inr (Some p)
                | (None, g) \<Rightarrow> Inr g)))"

section \<open>What Select returns\<close>

abbreviation prio :: "IPPool \<Rightarrow> uint32" where
  "prio p \<equiv> sel_Priority (ps_Selector (pool_Spec p))"

definition eligible :: "Requirement \<Rightarrow> bool \<Rightarrow> IPPool \<Rightarrow> bool" where
  "eligible r looseMode p \<longleftrightarrow>
     \<not> labelled_global p \<and> Matches (NewMatcherWithMode (ps_Selector (pool_Spec p)) looseMode) r"

lemma select_loop_selected:
  assumes "select_loop r l ps sel g b = (Some p, g')"
    and "\<And>q. sel = Some q \<Longrightarrow> b = prio q" and "sel = None \<Longrightarrow> b = 0"
  shows "(p \<in> set ps \<and> eligible r l p \<or> sel = Some p) \<and> b \<le> prio p \<and>
    (\<forall>q \<in> set ps. eligible r l q \<longrightarrow> prio q \<le> prio p)"
  using assms
proof (induction ps arbitrary: sel g b)
  case (Cons q ps)
  show ?case
  proof (cases "eligible r l q \<and> b \<le> prio q")
    case True
    then have "select_loop r l ps (Some q) g (prio q) = (Some p, g')"
      using Cons.prems(1) by (simp add: eligible_def)
    from Cons.IH [OF this] show ?thesis using True by auto
  next
    case False
    have "\<exists>h. select_loop r l ps sel h b = (Some p, g')"
      using Cons.prems(1) False by (cases "labelled_global q") (auto simp: eligible_def)
    then obtain h where "select_loop r l ps sel h b = (Some p, g')" ..
    from Cons.IH [OF this] have IH: "(p \<in> set ps \<and> eligible r l p \<or> sel = Some p) \<and> b \<le> prio p \<and>
        (\<forall>q \<in> set ps. eligible r l q \<longrightarrow> prio q \<le> prio p)"
      using Cons.prems(2,3) by blast
    then show ?thesis using False by (auto intro: order.trans)
  qed
qed auto

lemma select_loop_none:
  assumes "select_loop r l ps sel g b = (None, g')" and "b = 0"
  shows "sel = None \<and> (\<forall>q \<in> set ps. \<not> eligible r l q) \<and>
    (if \<exists>q \<in> set ps. labelled_global q then \<exists>q \<in> set ps. labelled_global q \<and> g' = Some q else g' = g)"
  using assms
proof (induction ps arbitrary: sel g b)
  case (Cons q ps)
  have nosel: "select_loop r l ps (Some x) h c \<noteq> (None, g')" for x h c
    by (induction ps arbitrary: x h c) auto
  show ?case
  proof (cases "labelled_global q")
    case True
    then have "select_loop r l ps sel (Some q) b = (None, g')" using Cons.prems by simp
    from Cons.IH [OF this Cons.prems(2)] show ?thesis using True by (auto simp: eligible_def split: if_splits)
  next
    case False
    then have "\<not> eligible r l q" "select_loop r l ps sel g b = (None, g')"
      using Cons.prems nosel by (auto simp: eligible_def split: if_splits)
    with Cons.IH [OF this(2) Cons.prems(2)] False show ?thesis by auto
  qed
qed auto

lemma isMatch_loose: "isMatch t r False \<Longrightarrow> isMatch t r True"
  by (auto simp: isMatch_def)

text \<open>A concrete requirement names a project, a namespace and a cluster, none of them the wildcard.\<close>

definition concrete :: "Requirement \<Rightarrow> bool" where
  "concrete r \<longleftrightarrow> rq_Project r \<noteq> All \<and> rq_Namespace r \<noteq> All \<and> rq_Cluster r \<noteq> All"

definition tuple_requirement :: "string \<Rightarrow> Tuple \<Rightarrow> Requirement" where
  "tuple_requirement n t =
     \<lparr>rq_Network = n, rq_Project = t_Project t, rq_Namespace = t_Namespace t, rq_Cluster = t_GuestCluster t\<rparr>"

lemma isMatch_common:
  assumes "concrete r" and "isMatch t r False" and "isMatch t' r False"
  shows "isMatch t' (tuple_requirement n t) False"
  using assms by (auto simp: isMatch_def concrete_def tuple_requirement_def)

end
