(* ===== verification/PoolWebhook.thy ===== *)
theory PoolWebhook
  imports PoolSelector RangesLemmas
begin

text \<open>
  Admission of IP pools: the validator and the mutator of \<^verbatim>\<open>pkg/webhook/ippool\<close>, and
  \<^verbatim>\<open>utils.GetVid\<close> (\<^verbatim>\<open>pkg/utils/vid.go\<close>), which the mutator calls. The lister of pools and the
  one of network attachment definitions are parameters, as is the JSON decoder that reads the
  \<^verbatim>\<open>vlan\<close> field of a network configuration. The \<^verbatim>\<open>%+v\<close> rendering of a range, a range
  set or a selector inside an error text is left out.
\<close>

section \<open>Network attachment definitions\<close>

record NetworkAttachmentDefinition =
  nad_Meta :: ObjectMeta
  nad_Config :: string

record 'w NadCache =
  nc_Get :: "string \<Rightarrow> string \<Rightarrow> 'w \<Rightarrow> NetworkAttachmentDefinition res"

definition GetVid :: "(string \<Rightarrow> int res) \<Rightarrow> 'w NadCache \<Rightarrow> string \<Rightarrow> 'w \<Rightarrow> int res" where
  "GetVid json_vlan nadCache network w =
     (if network = [] then Inr 0
      else (case Split (CHR ''/'') network of
          [ns, name] \<Rightarrow>
            (case nc_Get nadCache ns name w of
               Inl e \<Rightarrow> Inl e
             | Inr nad \<Rightarrow>
                 (case m_get (entries (md_Labels (nad_Meta nad))) KeyVlanLabel of
                    Some vlanStr \<Rightarrow>
                      (case Atoi vlanStr of
                         None \<Rightarrow> Inl (errorf (''invalid vlan '' @ vlanStr))
                       | Some vid \<Rightarrow> Inr vid)
                  | None \<Rightarrow> json_vlan (nad_Config nad)))
        | _ \<Rightarrow> Inl (errorf (''invalid network '' @ network))))"

section \<open>Checks of the validator\<close>

definition createErr :: "string \<Rightarrow> error \<Rightarrow> error" where
  "createErr name e = wrapf (''can't create IP pool '' @ name @ '' because '') e"

definition updateErr :: "string \<Rightarrow> error \<Rightarrow> error" where
  "updateErr name e = wrapf (''can't update IP pool '' @ name @ '' because '') e"

definition isGlobalIPPool :: "IPPool \<Rightarrow> bool" where
  "isGlobalIPPool pool =
     (case sel_Scope (ps_Selector (pool_Spec pool)) of
        [t] \<Rightarrow> t_Namespace t = All \<and> t_Project t = All \<and> t_GuestCluster t = All
      | _ \<Rightarrow> False)"

fun other_ranges :: "string \<Rightarrow> IPPool list \<Rightarrow> ARange list list res" where
  "other_ranges myName [] = Inr []"
| "other_ranges myName (p # ps) =
     (if pool_Name p \<noteq> myName then
        (case LBRangesToAllocatorRangeSet (ps_Ranges (pool_Spec p)) of
           Inl e \<Rightarrow> Inl e
         | Inr r \<Rightarrow> (case other_ranges myName ps of Inl e \<Rightarrow> Inl e | Inr rs \<Rightarrow> Inr (r # rs)))
      else other_ranges myName ps)"

definition getOtherPoolsRanges :: "'w IPPoolCache \<Rightarrow> string \<Rightarrow> 'w \<Rightarrow> ARange list list res" where
  "getOtherPoolsRanges ca myName w =
     (case pc_List ca [] w of Inl e \<Rightarrow> Inl e | Inr pools \<Rightarrow> other_ranges myName pools)"

fun overlap_inside :: "ARange list \<Rightarrow> bool" where
  "overlap_inside [] = False"
| "overlap_inside (r # rs) = (list_ex (range_Overlaps r) rs \<or> overlap_inside rs)"

definition checkRange :: "ARange list \<Rightarrow> ARange list list \<Rightarrow> unit res" where
  "checkRange r others =
     (if overlap_inside r then Inl (errorf ''there are overlaps between range'')
      else if list_ex (rangeset_Overlaps r) others then Inl (errorf ''the ranges overlap with other pools'')
      else Inr ())"

fun checkAllocated :: "ARange list \<Rightarrow> strmap \<Rightarrow> unit res" where
  "checkAllocated rs [] = Inr ()"
| "checkAllocated rs ((ipStr, applicant) # al) =
     (let a = ParseIP ipStr in
      if a = [] then Inl (errorf (''invalid ip string '' @ ipStr))
      else if \<not> rangeset_Contains rs a then Inl (errorf (''allocated IP '' @ ipStr @ '' is excluded''))
      else checkAllocated rs al)"

fun scope_overlap :: "Selector \<Rightarrow> Tuple list \<Rightarrow> bool" where
  "scope_overlap s [] = False"
| "scope_overlap s (t # ts) =
     (Matches (NewMatcher (s\<lparr>sel_Scope := ts\<rparr>)) (tuple_requirement (sel_Network s) t) \<or> scope_overlap s ts)"

definition checkSelectorItself :: "IPPool \<Rightarrow> unit res" where
  "checkSelectorItself pool =
     (let s = ps_Selector (pool_Spec pool) in
      if scope_overlap s (sel_Scope s) then Inl (errorf ''scope overlaps'') else Inr ())"

definition checkGlobalIPPool :: "'w IPPoolCache \<Rightarrow> IPPool \<Rightarrow> 'w \<Rightarrow> unit res" where
  "checkGlobalIPPool ca pool w =
     (case pc_List ca [(KeyGlobalIPPool, ValueTrue)] w of
        Inl e \<Rightarrow> Inl e
      | Inr pools \<Rightarrow>
          (case find (\<lambda>p. pool_Name p \<noteq> pool_Name pool) pools of
             None \<Rightarrow> Inr ()
           | Some p \<Rightarrow> Inl (errorf (''there is already a global IP pool: '' @ pool_Name p))))"

fun check_others :: "IPPool \<Rightarrow> IPPool list \<Rightarrow> unit res" where
  "check_others pool [] = Inr ()"
| "check_others pool (p # ps) =
     (if pool_Name p = pool_Name pool \<or> isGlobalIPPool p then check_others pool ps
      else if prio p \<noteq> 0 \<and> prio p = prio pool then
        Inl (errorf (''the priority can't be the same as the pool '' @ pool_Name p))
      else if prio p = 0 \<and> prio pool = 0 then
        (case find (\<lambda>t. Matches (NewMatcher (ps_Selector (pool_Spec p)))
                     (tuple_requirement (sel_Network (ps_Selector (pool_Spec pool))) t))
                   (sel_Scope (ps_Selector (pool_Spec pool))) of
           Some t \<Rightarrow> Inl (errorf (''scope selector is same as the pool '' @ pool_Name p @
              '' with priority 0 Project '' @ t_Project t @ '' Namespace '' @ t_Namespace t @
              '' GuestCluster '' @ t_GuestCluster t @ '', set a different priority or scope''))
         | None \<Rightarrow> check_others pool ps)
      else check_others pool ps)"

definition checkSelectorWithOthers :: "'w IPPoolCache \<Rightarrow> IPPool \<Rightarrow> 'w \<Rightarrow> unit res" where
  "checkSelectorWithOthers ca pool w =
     (case pc_List ca [] w of Inl e \<Rightarrow> Inl e | Inr pools \<Rightarrow> check_others pool pools)"

definition checkSelector :: "'w IPPoolCache \<Rightarrow> IPPool \<Rightarrow> 'w \<Rightarrow> unit res" where
  "checkSelector ca pool w =
     (if isGlobalIPPool pool then checkGlobalIPPool ca pool w
      else (case checkSelectorItself pool of
          Inl e \<Rightarrow> Inl (wrapf ''selector is invalid: '' e)
        | Inr _ \<Rightarrow> checkSelectorWithOthers ca pool w))"

section \<open>The validator\<close>

definition pool_validator_Create :: "'w IPPoolCache \<Rightarrow> IPPool \<Rightarrow> 'w \<Rightarrow> unit res" where
  "pool_validator_Create ca pool w =
     (let name = pool_Name pool in
      if ps_Ranges (pool_Spec pool) = [] then Inl (createErr name (errorf ''range can't be empty''))
      else (case LBRangesToAllocatorRangeSet (ps_Ranges (pool_Spec pool)) of
          Inl e \<Rightarrow> Inl (createErr name e)
        | Inr rs \<Rightarrow>
            (case getOtherPoolsRanges ca name w of
               Inl e \<Rightarrow> Inl (createErr name e)
             | Inr others \<Rightarrow>
                 (case checkRange rs others of
                    Inl e \<Rightarrow> Inl (createErr name e)
                  | Inr _ \<Rightarrow>
                      (case checkSelector ca pool w of
                         Inl e \<Rightarrow> Inl (createErr name e)
                       | Inr _ \<Rightarrow> Inr ())))))"

definition pool_validator_Update :: "'w IPPoolCache \<Rightarrow> IPPool \<Rightarrow> 'w \<Rightarrow> unit res" where
  "pool_validator_Update ca pool w =
     (let name = pool_Name pool in
      if md_DeletionTimestamp (pool_Meta pool) \<noteq> None then Inr ()
      else if ps_Ranges (pool_Spec pool) = [] then Inl (updateErr name (errorf ''range can't be empty''))
      else (case LBRangesToAllocatorRangeSet (ps_Ranges (pool_Spec pool)) of
          Inl e \<Rightarrow> Inl (updateErr name e)
        | Inr rs \<Rightarrow>
            (case getOtherPoolsRanges ca name w of
               Inl e \<Rightarrow> Inl (updateErr name e)
             | Inr others \<Rightarrow>
                 (case checkRange rs others of
                    Inl e \<Rightarrow> Inl (updateErr name e)
                  | Inr _ \<Rightarrow>
                      (case checkAllocated rs (entries (pool_Allocated pool)) of
                         Inl e \<Rightarrow> Inl (updateErr name e)
                       | Inr _ \<Rightarrow>
                           (case checkSelector ca pool w of
                              Inl e \<Rightarrow> Inl (updateErr name e)
                            | Inr _ \<Rightarrow> Inr ()))))))"

definition pool_validator_Delete :: "IPPool \<Rightarrow> unit res" where
  "pool_validator_Delete pool =
     (if entries (pool_Allocated pool) \<noteq> []
      then Inl (errorf ''can't delete pool before releasing all the allocated IP'')
      else Inr ())"

section \<open>The mutator\<close>

record PatchOp =
  po_Op :: string
  po_Path :: string
  po_Labels :: strmap

definition getLabelPatch :: "(string \<Rightarrow> int res) \<Rightarrow> 'w NadCache \<Rightarrow> IPPool \<Rightarrow> 'w \<Rightarrow> PatchOp list res" where
  "getLabelPatch json_vlan nadCache pool w =
     (case GetVid json_vlan nadCache (sel_Network (ps_Selector (pool_Spec pool))) w of
        Inl e \<Rightarrow> Inl e
      | Inr vid \<Rightarrow>
          let labels = entries (md_Labels (pool_Meta pool));
              vidStr = Itoa vid; isGlobalStr = FormatBool (isGlobalIPPool pool) in
          if str_get (Some labels) KeyVid = vidStr \<and> str_get (Some labels) KeyGlobalIPPool = isGlobalStr then Inr []
          else Inr [\<lparr>po_Op = ''replace'', po_Path = ''/metadata/labels'',
                     po_Labels = m_set KeyGlobalIPPool isGlobalStr (m_set KeyVid vidStr labels)\<rparr>])"

definition pool_mutator_Create :: "(string \<Rightarrow> int res) \<Rightarrow> 'w NadCache \<Rightarrow> IPPool \<Rightarrow> 'w \<Rightarrow> PatchOp list res" where
  "pool_mutator_Create json_vlan nadCache pool w =
     (case getLabelPatch json_vlan nadCache pool w of
        Inl e \<Rightarrow> Inl (createErr (pool_Name pool) e)
      | Inr patch \<Rightarrow> Inr patch)"

definition pool_mutator_Update :: "(string \<Rightarrow> int res) \<Rightarrow> 'w NadCache \<Rightarrow> IPPool \<Rightarrow> 'w \<Rightarrow> PatchOp list res" where
  "pool_mutator_Update json_vlan nadCache pool w =
     (if md_DeletionTimestamp (pool_Meta pool) \<noteq> None then Inr []
      else (case getLabelPatch json_vlan nadCache pool w of
          Inl e \<Rightarrow> Inl (updateErr (pool_Name pool) e)
        | Inr patch \<Rightarrow> Inr patch))"

text \<open>The labels after the API server has applied the patch.\<close>

definition patched_labels :: "PatchOp list \<Rightarrow> IPPool \<Rightarrow> strmap" where
  "patched_labels patch pool =
     (case patch of [] \<Rightarrow> entries (md_Labels (pool_Meta pool)) | op # _ \<Rightarrow> po_Labels op)"

section \<open>What the checks establish\<close>

lemma overlap_inside_nth:
  "overlap_inside rs \<longleftrightarrow> (\<exists>i j. i < j \<and> j < length rs \<and> range_Overlaps (rs ! i) (rs ! j))"
proof (induction rs)
  case (Cons r rs)
  show ?case
  proof
    assume "overlap_inside (r # rs)"
    then consider j where "j < length rs" "range_Overlaps r (rs ! j)" | "overlap_inside rs"
      by (auto simp: list_ex_iff in_set_conv_nth)
    then show "\<exists>i j. i < j \<and> j < length (r # rs) \<and> range_Overlaps ((r # rs) ! i) ((r # rs) ! j)"
    proof cases
      case 1
      then show ?thesis by (intro exI [of _ 0] exI [of _ "Suc j"]) simp
    next
      case 2
      then obtain i j where "i < j" "j < length rs" "range_Overlaps (rs ! i) (rs ! j)" using Cons.IH by blast
      then show ?thesis by (intro exI [of _ "Suc i"] exI [of _ "Suc j"]) simp
    qed
  next
    assume "\<exists>i j. i < j \<and> j < length (r # rs) \<and> range_Overlaps ((r # rs) ! i) ((r # rs) ! j)"
    then obtain i j where ij: "i < j" "j < Suc (length rs)" "range_Overlaps ((r # rs) ! i) ((r # rs) ! j)" by auto
    then obtain j' where j': "j = Suc j'" "j' < length rs" by (cases j) auto
    show "overlap_inside (r # rs)"
    proof (cases i)
      case 0
      then show ?thesis using ij j' by (auto simp: list_ex_iff)
    next
      case (Suc i')
      then have "\<exists>i j. i < j \<and> j < length rs \<and> range_Overlaps (rs ! i) (rs ! j)" using ij j' by auto
      then show ?thesis using Cons.IH by simp
    qed
  qed
qed simp

lemma other_ranges_mem:
  assumes "other_ranges n ps = Inr rss" and "p \<in> set ps" and "pool_Name p \<noteq> n"
  shows "\<exists>rs \<in> set rss. LBRangesToAllocatorRangeSet (ps_Ranges (pool_Spec p)) = Inr rs"
  using assms by (induction ps arbitrary: rss) (auto split: sum.splits if_splits)

lemma checkAllocated_Inr:
  "checkAllocated rs m = Inr () \<longleftrightarrow> (\<forall>(t, i) \<in> set m. ParseIP t \<noteq> [] \<and> rangeset_Contains rs (ParseIP t))"
  by (induction m) (auto simp: Let_def split: if_splits)

lemma check_others_Inr:
  assumes "check_others pool ps = Inr ()" and "p \<in> set ps" and "pool_Name p \<noteq> pool_Name pool" and "\<not> isGlobalIPPool p"
  shows "(prio p = prio pool \<longrightarrow> prio p = 0) \<and>
    (prio p = 0 \<longrightarrow> prio pool = 0 \<longrightarrow>
      (\<forall>t \<in> set (sel_Scope (ps_Selector (pool_Spec pool))).
         \<not> Matches (NewMatcher (ps_Selector (pool_Spec p))) (tuple_requirement (sel_Network (ps_Selector (pool_Spec pool))) t)))"
  using assms
  by (induction ps) (auto simp: find_None_iff split: if_splits option.splits)

end
