(* ===== verification/IpamProps.thy ===== *)
theory IpamProps
  imports IPAllocatorLemmas PoolWebhook
begin

text \<open>
  The properties of address management: ranges, the store, the allocator and the admission of
  pools. Witnesses use the pool \<open>demo_pool\<close>, with one IPv4 range of two addresses and the gateway
  .1, on the server with a lagging cache of \<open>KubeAPI\<close>.
\<close>

section \<open>Examples\<close>

definition demo_range :: LBRange where
  "demo_range = \<lparr>lb_RangeStart = ''10.0.0.1'', lb_RangeEnd = ''10.0.0.3'', lb_Subnet = ''10.0.0.0/24'',
     lb_Gateway = ''''\<rparr>"

definition plain_range :: LBRange where
  "plain_range = \<lparr>lb_RangeStart = '''', lb_RangeEnd = '''', lb_Subnet = ''192.168.0.0/24'', lb_Gateway = ''''\<rparr>"

definition ip4 :: "int \<Rightarrow> int \<Rightarrow> int \<Rightarrow> int \<Rightarrow> ip" where
  "ip4 a b c d = [word_of_int a, word_of_int b, word_of_int c, word_of_int d]"

definition demo_arange :: ARange where
  "demo_arange = \<lparr>RangeStart = To16 (ip4 10 0 0 1), RangeEnd = To16 (ip4 10 0 0 3),
     Subnet = \<lparr>net_IP = ip4 10 0 0 0, net_Mask = ip4 255 255 255 0\<rparr>, Gateway = To16 (ip4 10 0 0 1)\<rparr>"

definition plain_arange :: ARange where
  "plain_arange = \<lparr>RangeStart = To16 (ip4 192 168 0 1), RangeEnd = To16 (ip4 192 168 0 254),
     Subnet = \<lparr>net_IP = ip4 192 168 0 0, net_Mask = ip4 255 255 255 0\<rparr>, Gateway = To16 (ip4 192 168 0 1)\<rparr>"

lemma demo_MakeRange: "MakeRange demo_range = Inr demo_arange"
  by code_simp

lemma plain_MakeRange: "MakeRange plain_range = Inr plain_arange"
  by code_simp

lemma demo_served_net: "served_net (Subnet demo_arange)" "served_net (Subnet plain_arange)"
  by (simp_all add: served_net_def demo_arange_def plain_arange_def ip4_def)

section \<open>Ranges\<close>

definition not_reserved :: "IPNet \<Rightarrow> ip \<Rightarrow> bool" where
  "not_reserved n x \<longleftrightarrow> \<not> ip_Equal x (networkIP n) \<and> (\<forall>b. broadcastIP n = Inr b \<longrightarrow> \<not> ip_Equal x b)"

lemma parseIP_user:
  "parseIP str n d = Inr x \<Longrightarrow> str \<noteq> [] \<Longrightarrow> x = ParseIP str \<and> not_reserved n x"
  by (auto simp: parseIP_def not_reserved_def Let_def split: if_splits sum.splits)

text \<open>
  \<^bold>\<open>C19.\<close> A range that \<^verbatim>\<open>MakeRange\<close> accepts for a subnet that \<open>served_net\<close> describes is an
  ordered interval of its subnet: its start is not above its end, and start, end and gateway are addresses of
  the subnet. A bound that the user wrote, alone or together with the other one, is one of the two ends of the range, and
  a gateway that the user wrote is the gateway; none of them is the network or the broadcast address.
\<close>

theorem MakeRange_within_subnet:
  assumes "MakeRange r = Inr ar" and "served_net (Subnet ar)"
  shows "ipToInt (RangeStart ar) \<le> ipToInt (RangeEnd ar) \<and>
    net_Contains (Subnet ar) (RangeStart ar) \<and> net_Contains (Subnet ar) (RangeEnd ar) \<and>
    (Gateway ar \<noteq> [] \<longrightarrow> net_Contains (Subnet ar) (Gateway ar)) \<and>
    (lb_Gateway r \<noteq> [] \<longrightarrow> Gateway ar = ParseIP (lb_Gateway r) \<and> not_reserved (Subnet ar) (Gateway ar)) \<and>
    (\<forall>str \<in> {lb_RangeStart r, lb_RangeEnd r}. str \<noteq> [] \<longrightarrow>
       ParseIP str \<in> {RangeStart ar, RangeEnd ar} \<and> not_reserved (Subnet ar) (ParseIP str)) \<and>
    (lb_RangeStart r \<noteq> [] \<and> lb_RangeEnd r \<noteq> [] \<longrightarrow>
       {RangeStart ar, RangeEnd ar} = {ParseIP (lb_RangeStart r), ParseIP (lb_RangeEnd r)})"
proof -
  obtain k p where ok: "range_ok ar k p" using MakeRange_ok [OF assms] by blast
  then have n: "plain_net (Subnet ar) k p" by (simp add: range_ok_def)
  obtain a ds de dg s t where mk:
    "parseIP (lb_RangeStart r) (Subnet ar) ds = Inr s" "parseIP (lb_RangeEnd r) (Subnet ar) de = Inr t"
    "parseIP (lb_Gateway r) (Subnet ar) dg = Inr (Gateway ar)"
    "(RangeStart ar, RangeEnd ar) = (if 0 < addr_Compare s t then (t, s) else (s, t))"
    using MakeRange_Inr [OF assms(1)] by metis
  have ends: "{RangeStart ar, RangeEnd ar} = {s, t}" using mk(4) by (auto split: if_splits)
  note user = parseIP_user [OF mk(1)] parseIP_user [OF mk(2)] parseIP_user [OF mk(3)]
  have "net_Contains (Subnet ar) (RangeStart ar)" "net_Contains (Subnet ar) (RangeEnd ar)"
    "Gateway ar \<noteq> [] \<longrightarrow> net_Contains (Subnet ar) (Gateway ar)" "ipToInt (RangeStart ar) \<le> ipToInt (RangeEnd ar)"
    using ok net_Contains_iff [OF n] by (auto simp: range_ok_def)
  moreover have "ParseIP str \<in> {RangeStart ar, RangeEnd ar} \<and> not_reserved (Subnet ar) (ParseIP str)"
    if "str \<in> {lb_RangeStart r, lb_RangeEnd r}" "str \<noteq> []" for str
    using that user(1,2) unfolding ends by auto
  moreover have "{RangeStart ar, RangeEnd ar} = {ParseIP (lb_RangeStart r), ParseIP (lb_RangeEnd r)}"
    if "lb_RangeStart r \<noteq> []" "lb_RangeEnd r \<noteq> []"
    using user(1) [OF that(1)] user(2) [OF that(2)] unfolding ends by simp
  ultimately show ?thesis using user(3) by blast
qed

definition lone_range :: LBRange where
  "lone_range = \<lparr>lb_RangeStart = '''', lb_RangeEnd = ''192.168.0.99'', lb_Subnet = ''192.168.0.0/24'', lb_Gateway = ''''\<rparr>"

definition lone_arange :: ARange where
  "lone_arange = plain_arange\<lparr>RangeEnd := To16 (ip4 192 168 0 99)\<rparr>"

lemma lone_MakeRange: "MakeRange lone_range = Inr lone_arange"
  by code_simp

theorem MakeRange_within_subnet_witness:
  "MakeRange lone_range = Inr lone_arange \<and> net_Contains (Subnet lone_arange) (RangeEnd lone_arange) \<and>
   ParseIP ''192.168.0.99'' \<in> {RangeStart lone_arange, RangeEnd lone_arange} \<and> not_reserved (Subnet lone_arange) (ParseIP ''192.168.0.99'')"
proof -
  have "served_net (Subnet lone_arange)" using demo_served_net(2) by (simp add: lone_arange_def)
  from MakeRange_within_subnet [OF lone_MakeRange this] show ?thesis using lone_MakeRange by (simp add: lone_range_def)
qed

text \<open>
  The defaults of an IPv4 subnet that is not a single address, as the comment in
  \<^verbatim>\<open>MakeRange\<close> gives them: the range runs from the address after the network address (.1) to
  the one before the broadcast address (.254 for a /24), and the gateway is the first address.
\<close>

theorem MakeRange_defaults:
  assumes "MakeRange r = Inr ar" and "net_Mask (Subnet ar) = mask_from p 4" and "p \<le> 30"
    and "lb_RangeStart r = ''''" and "lb_RangeEnd r = ''''" and "lb_Gateway r = ''''"
  shows "ipToInt (RangeStart ar) = be_int (net_IP (Subnet ar)) + 1 \<and> Gateway ar = RangeStart ar \<and>
    ipToInt (RangeEnd ar) = be_int (net_IP (Subnet ar)) + 2 ^ (32 - p) - 2"
  using MakeRange_default_values assms by blast

theorem MakeRange_defaults_witness:
  "ipToInt (RangeEnd plain_arange) = be_int (net_IP (Subnet plain_arange)) + 254"
proof -
  have m: "net_Mask (Subnet plain_arange) = mask_from 24 4" by code_simp
  show ?thesis
    using MakeRange_defaults [OF plain_MakeRange m] by (simp add: plain_range_def)
qed

text \<open>
  \<^verbatim>\<open>Overlaps\<close> is exact on ranges that \<^verbatim>\<open>MakeRange\<close> accepts: it is true if and
  only if some address is in both ranges.
\<close>

theorem Overlaps_exact:
  assumes "MakeRange r1 = Inr a1" and "served_net (Subnet a1)"
    and "MakeRange r2 = Inr a2" and "served_net (Subnet a2)"
  shows "range_Overlaps a1 a2 \<longleftrightarrow> (\<exists>x. range_Contains a1 x \<and> range_Contains a2 x)"
proof -
  obtain k p k' p' where "range_ok a1 k p" "range_ok a2 k' p'"
    using MakeRange_ok [OF assms(1,2)] MakeRange_ok [OF assms(3,4)] by metis
  then show ?thesis by (rule range_Overlaps_iff)
qed

theorem Overlaps_exact_witness:
  "\<not> range_Overlaps demo_arange plain_arange \<and> (\<nexists>x. range_Contains demo_arange x \<and> range_Contains plain_arange x)"
proof -
  have "\<not> range_Overlaps demo_arange plain_arange" by code_simp
  then show ?thesis
    using Overlaps_exact [OF demo_MakeRange demo_served_net(1) plain_MakeRange demo_served_net(2)] by blast
qed

text \<open>
  \<^bold>\<open>C20.\<close> \<^verbatim>\<open>countIP\<close>, which makes the total of a pool, is the number of addresses the range
  hands out, the interval without the gateway, as long as the interval has fewer than \<open>2 ^ 63\<close>
  addresses.
\<close>

theorem countIP_exact:
  assumes "MakeRange r = Inr ar" and "served_net (Subnet ar)"
    and "ipToInt (RangeEnd ar) - ipToInt (RangeStart ar) + 1 < 2 ^ 63"
  shows "sint (countIP ar) = int (card {v. ipToInt (RangeStart ar) \<le> v \<and> v \<le> ipToInt (RangeEnd ar) \<and>
    (Gateway ar \<noteq> [] \<longrightarrow> v \<noteq> ipToInt (Gateway ar))})"
proof -
  obtain k p where ok: "range_ok ar k p" using MakeRange_ok [OF assms(1,2)] by blast
  have "{v. ipToInt (RangeStart ar) \<le> v \<and> v \<le> ipToInt (RangeEnd ar) \<and>
      (Gateway ar \<noteq> [] \<longrightarrow> v \<noteq> ipToInt (Gateway ar))} = alloc_values ar"
    by (auto simp: alloc_values_def)
  then show ?thesis using countIP_card [OF ok assms(3)] by simp
qed

theorem countIP_exact_witness:
  "sint (countIP demo_arange) = int (card {v. ipToInt (RangeStart demo_arange) \<le> v \<and>
     v \<le> ipToInt (RangeEnd demo_arange) \<and> (Gateway demo_arange \<noteq> [] \<longrightarrow> v \<noteq> ipToInt (Gateway demo_arange))}) \<and>
   sint (countIP demo_arange) = 2"
proof -
  have "ipToInt (RangeEnd demo_arange) - ipToInt (RangeStart demo_arange) + 1 < 2 ^ 63" by code_simp
  moreover have "sint (countIP demo_arange) = 2" by code_simp
  ultimately show ?thesis using countIP_exact [OF demo_MakeRange demo_served_net(1)] by simp
qed

text \<open>
  Above that the documentation of \<^verbatim>\<open>big.Int.Int64\<close> leaves the result open. Its implementation takes the
  lowest 64 bits, as the model does: the subnet \<^verbatim>\<open>2001:db8::/64\<close>, which holds \<open>2 ^ 64\<close> addresses, is accepted and
  counts as \<open>- 2\<close>.
\<close>

theorem countIP_overflow:
  "\<exists>ar. MakeRange \<lparr>lb_RangeStart = '''', lb_RangeEnd = '''', lb_Subnet = ''2001:db8::/64'', lb_Gateway = ''''\<rparr> = Inr ar \<and>
     ipToInt (RangeEnd ar) - ipToInt (RangeStart ar) + 1 = 2 ^ 64 - 1 \<and> sint (countIP ar) = - 2"
proof -
  let ?r = "\<lparr>lb_RangeStart = '''', lb_RangeEnd = '''', lb_Subnet = ''2001:db8::/64'', lb_Gateway = ''''\<rparr>"
  let ?P = "\<lambda>ar. ipToInt (RangeEnd ar) - ipToInt (RangeStart ar) + 1 = 2 ^ 64 - 1 \<and> sint (countIP ar) = - 2"
  have "(case MakeRange ?r of Inl _ \<Rightarrow> False | Inr ar \<Rightarrow> ?P ar)" by code_simp
  then show ?thesis by (cases "MakeRange ?r") auto
qed

section \<open>Admission of pools\<close>

definition served_ranges :: "ARange list \<Rightarrow> bool" where
  "served_ranges rs = list_all (\<lambda>r. served_net (Subnet r)) rs"

lemma served_ranges_ok:
  assumes "LBRangesToAllocatorRangeSet ranges = Inr rs" and "served_ranges rs" and "r \<in> set rs"
  obtains k p where "range_ok r k p"
proof -
  obtain l where "MakeRange l = Inr r"
    using res_map_mem [of MakeRange ranges rs r] assms(1,3) by (auto simp: LBRangesToAllocatorRangeSet_def)
  then show thesis using MakeRange_ok that assms(2,3) by (metis served_ranges_def list_all_iff)
qed

lemma range_Overlaps_sym: "range_Overlaps r s = range_Overlaps s r"
  by (auto simp: range_Overlaps_def)

lemma checked_rangeset_ok:
  assumes "ranges \<noteq> []" and "LBRangesToAllocatorRangeSet ranges = Inr rs" and "served_ranges rs"
    and "\<not> overlap_inside rs"
  shows "rangeset_ok rs"
proof -
  have "length rs = length ranges" using assms(2) res_map_length by (simp add: LBRangesToAllocatorRangeSet_def)
  then have "rs \<noteq> []" using assms(1) by auto
  moreover have "\<not> range_Overlaps (rs ! i) (rs ! j)" if "i < length rs" "j < length rs" "i \<noteq> j" for i j
    using assms(4) that range_Overlaps_sym overlap_inside_nth by (metis nat_neq_iff)
  ultimately show ?thesis using served_ranges_ok [OF assms(2,3)] unfolding rangeset_ok_def by metis
qed

definition pool_admitted :: "'w IPPoolCache \<Rightarrow> IPPool \<Rightarrow> 'w \<Rightarrow> bool" where
  "pool_admitted ca pool w \<longleftrightarrow>
     pool_validator_Create ca pool w = Inr () \<or>
     md_DeletionTimestamp (pool_Meta pool) = None \<and> pool_validator_Update ca pool w = Inr ()"

lemma pool_admitted_cases:
  assumes "pool_admitted ca pool w"
  obtains rs others where "ps_Ranges (pool_Spec pool) \<noteq> []"
    and "LBRangesToAllocatorRangeSet (ps_Ranges (pool_Spec pool)) = Inr rs"
    and "getOtherPoolsRanges ca (pool_Name pool) w = Inr others"
    and "\<not> overlap_inside rs" and "\<not> list_ex (rangeset_Overlaps rs) others"
    and "checkSelector ca pool w = Inr ()"
  using assms unfolding pool_admitted_def pool_validator_Create_def pool_validator_Update_def checkRange_def Let_def
  by (auto split: if_splits sum.splits)

text \<open>
  \<^bold>\<open>C13.\<close> When the validator accepts the creation or the update of a pool, no address is in two
  of its ranges, and none is also in a range of another pool that the lister returns: two
  accepted pools never hand out the same address.
\<close>

theorem admitted_pool_disjoint:
  assumes "pool_admitted ca pool w"
    and "LBRangesToAllocatorRangeSet (ps_Ranges (pool_Spec pool)) = Inr rs" and "served_ranges rs"
  shows "(\<forall>i < length rs. \<forall>j < length rs. i \<noteq> j \<longrightarrow> \<not> (range_Contains (rs ! i) x \<and> range_Contains (rs ! j) x)) \<and>
    (\<forall>pools q rs'. pc_List ca [] w = Inr pools \<longrightarrow> q \<in> set pools \<longrightarrow> pool_Name q \<noteq> pool_Name pool \<longrightarrow>
       LBRangesToAllocatorRangeSet (ps_Ranges (pool_Spec q)) = Inr rs' \<longrightarrow> served_ranges rs' \<longrightarrow>
       \<not> (rangeset_Contains rs x \<and> rangeset_Contains rs' x))"
proof -
  obtain others where adm: "ps_Ranges (pool_Spec pool) \<noteq> []"
      "getOtherPoolsRanges ca (pool_Name pool) w = Inr others"
      "\<not> overlap_inside rs" "\<not> list_ex (rangeset_Overlaps rs) others"
    using pool_admitted_cases [OF assms(1)] assms(2) by (metis sum.inject(2))
  have "rangeset_ok rs" using checked_rangeset_ok adm(1,3) assms(2,3) by blast
  then have own: "\<not> (range_Contains (rs ! i) x \<and> range_Contains (rs ! j) x)"
    if "i < length rs" "j < length rs" "i \<noteq> j" for i j
    using rangeset_ok_disjoint that by blast
  have other: "\<not> (rangeset_Contains rs x \<and> rangeset_Contains rs' x)"
    if l: "pc_List ca [] w = Inr pools" "q \<in> set pools" "pool_Name q \<noteq> pool_Name pool"
      and rs': "LBRangesToAllocatorRangeSet (ps_Ranges (pool_Spec q)) = Inr rs'" "served_ranges rs'" for pools q rs'
  proof
    assume "rangeset_Contains rs x \<and> rangeset_Contains rs' x"
    then obtain r r' where r: "r \<in> set rs" "range_Contains r x" "r' \<in> set rs'" "range_Contains r' x"
      by (auto simp: rangeset_Contains_iff)
    obtain k p k' p' where "range_ok r k p" "range_ok r' k' p'"
      using served_ranges_ok [OF assms(2,3) r(1)] served_ranges_ok [OF rs' r(3)] by metis
    then have "range_Overlaps r r'" using range_Overlaps_iff r(2,4) by blast
    then have "rangeset_Overlaps rs rs'" using r(1,3) by (auto simp: rangeset_Overlaps_def list_ex_iff)
    moreover have "rs' \<in> set others"
      using other_ranges_mem [of "pool_Name pool" pools others q] adm(2) l rs'(1) by (auto simp: getOtherPoolsRanges_def)
    ultimately show False using adm(4) by (auto simp: list_ex_iff)
  qed
  show ?thesis using own other by blast
qed

definition mk_pool :: "string \<Rightarrow> LBRange list \<Rightarrow> Selector \<Rightarrow> IPPool" where
  "mk_pool n ranges s = \<lparr>pool_Meta = empty_meta\<lparr>md_Name := n, md_ResourceVersion := ''0''\<rparr>,
     pool_Spec = \<lparr>ps_Description = '''', ps_Ranges = ranges, ps_Selector = s\<rparr>,
     pool_Status = \<lparr>st_Total = 2, st_Available = 2, st_LastAllocated = '''', st_Allocated = None,
       st_AllocatedHistory = None, st_Conditions = []\<rparr>\<rparr>"

definition ns_selector :: "string \<Rightarrow> string \<Rightarrow> string \<Rightarrow> Selector" where
  "ns_selector project ns cluster = \<lparr>sel_Priority = 0, sel_Network = '''',
     sel_Scope = [\<lparr>t_Project = project, t_Namespace = ns, t_GuestCluster = cluster\<rparr>]\<rparr>"

definition demo_pool :: IPPool where
  "demo_pool = mk_pool ''demo'' [demo_range] (ns_selector '''' ''default'' '''')"

definition plain_pool :: IPPool where
  "plain_pool = mk_pool ''plain'' [plain_range] (ns_selector '''' ''other'' '''')"

definition demo_world :: PoolServer where
  "demo_world = \<lparr>srv_pools = [(''demo'', demo_pool), (''plain'', plain_pool)],
     srv_cache = [(''demo'', demo_pool), (''plain'', plain_pool)], srv_next = 1\<rparr>"

lemma demo_ranges:
  "LBRangesToAllocatorRangeSet (ps_Ranges (pool_Spec demo_pool)) = Inr [demo_arange]"
  "LBRangesToAllocatorRangeSet (ps_Ranges (pool_Spec plain_pool)) = Inr [plain_arange]"
  by (simp_all add: LBRangesToAllocatorRangeSet_def demo_pool_def plain_pool_def mk_pool_def
      demo_MakeRange plain_MakeRange)

lemma demo_served_ranges: "served_ranges [demo_arange]" "served_ranges [plain_arange]"
  by (simp_all add: served_ranges_def demo_served_net)

lemma demo_admitted: "pool_admitted server_cache demo_pool demo_world"
  unfolding pool_admitted_def by (rule disjI1) code_simp

theorem admitted_pool_disjoint_witness:
  "pool_admitted server_cache demo_pool demo_world \<and>
   (\<nexists>x. rangeset_Contains [demo_arange] x \<and> rangeset_Contains [plain_arange] x)"
proof -
  have l: "pc_List server_cache [] demo_world = Inr [demo_pool, plain_pool]"
    by (simp add: server_cache_def srv_List_def demo_world_def has_labels_def)
  have n: "pool_Name plain_pool \<noteq> pool_Name demo_pool" by (simp add: demo_pool_def plain_pool_def mk_pool_def)
  show ?thesis
    using admitted_pool_disjoint [OF demo_admitted demo_ranges(1) demo_served_ranges(1)]
      demo_admitted l n demo_ranges(2) demo_served_ranges(2) by force
qed

text \<open>
  \<^bold>\<open>C21.\<close> An update that the validator accepts keeps every allocated address: each of them
  parses and is in one of the new ranges. A pool is deleted only when nothing is allocated.
\<close>

theorem admitted_update_keeps_allocated:
  assumes "pool_validator_Update ca pool w = Inr ()" and "md_DeletionTimestamp (pool_Meta pool) = None"
    and "(t, i) \<in> set (entries (pool_Allocated pool))"
  shows "(\<exists>rs. LBRangesToAllocatorRangeSet (ps_Ranges (pool_Spec pool)) = Inr rs \<and> rangeset_Contains rs (ParseIP t)) \<and>
    \<not> ok (pool_validator_Delete pool)"
proof -
  obtain rs where rs: "LBRangesToAllocatorRangeSet (ps_Ranges (pool_Spec pool)) = Inr rs"
    "checkAllocated rs (entries (pool_Allocated pool)) = Inr ()"
    using assms(1,2) by (auto simp: pool_validator_Update_def Let_def split: if_splits sum.splits)
  then have "rangeset_Contains rs (ParseIP t)" using assms(3) by (auto simp: checkAllocated_Inr)
  moreover have "\<not> ok (pool_validator_Delete pool)" using assms(3) by (auto simp: pool_validator_Delete_def)
  ultimately show ?thesis using rs(1) by blast
qed

definition demo_used :: IPPool where
  "demo_used = demo_pool\<lparr>pool_Status := status_reserve ''10.0.0.2'' ''default/lb1'' (pool_Status demo_pool)\<rparr>"

theorem admitted_update_keeps_allocated_witness:
  "pool_validator_Update server_cache demo_used demo_world = Inr () \<and> \<not> ok (pool_validator_Delete demo_used)"
proof -
  have u: "pool_validator_Update server_cache demo_used demo_world = Inr ()" by code_simp
  have d: "md_DeletionTimestamp (pool_Meta demo_used) = None" by code_simp
  have m: "(''10.0.0.2'', ''default/lb1'') \<in> set (entries (pool_Allocated demo_used))" by code_simp
  show ?thesis using admitted_update_keeps_allocated [OF u d m] u by blast
qed

section \<open>Allocation\<close>

lemma NewAllocator_Inr:
  assumes "NewAllocator sha n ranges ca cl = Inr a"
  obtains rs where "ranges \<noteq> []" and "LBRangesToAllocatorRangeSet ranges = Inr rs"
    and "ia_rangeset (al_IPAllocator a) = rs" and "ia_store (al_IPAllocator a) = store_backend (store_New n ca cl)"
    and "al_cache a = ca" and "al_name a = n" and "al_total a = sum_list (map countIP rs)"
    and "al_checkSum a = CalculateCheckSum sha ranges"
  using assms
  by (auto simp: NewAllocator_def NewIPAllocator_def LBRangesToAllocatorRangeSet_def split: if_splits sum.splits)

lemma canonical_normalizeIP:
  assumes "canonical k" and ip: "ParseIP k \<noteq> []"
  shows "ip_String (normalizeIP (ParseIP k)) = k"
proof -
  have len: "length (ParseIP k) = 16" using ip ParseIP_length [of k] by auto
  then have "normalizeIP (normalizeIP (ParseIP k)) = normalizeIP (ParseIP k)" by simp
  moreover have "length (normalizeIP (ParseIP k)) = 4 \<or> length (normalizeIP (ParseIP k)) = 16"
    using len by (auto simp: normalizeIP_def length_To4 To4_def)
  ultimately show ?thesis
    using ip_String_inj [of "normalizeIP (ParseIP k)" "ParseIP k"] len ip assms(1) by (auto simp: canonical_def)
qed

text \<open>The store refuses a free address only when the API server refuses the write.\<close>

definition write_refused :: "'w IPPoolClient \<Rightarrow> string \<Rightarrow> IPPool \<Rightarrow> string \<Rightarrow> 'w \<Rightarrow> ip \<Rightarrow> error \<Rightarrow> bool" where
  "write_refused cl n p i w a e \<longleftrightarrow> e = errorf (''fail to reserve '' @ ip_String a @ '' into '' @ n) \<and>
     (\<exists>e'. fst (pcl_Update cl (p\<lparr>pool_Status := status_reserve (ip_String a) i (pool_Status p)\<rparr>) w) = Inl e')"

lemma Store_Reserve_refused:
  assumes "pc_Get ca n w = Inr p" and "allocation p (ip_String a) = None"
    and "fst (Store_Reserve (store_New n ca cl) i f a r w) = Inl e"
  shows "write_refused cl n p i w a e"
  using assms by (auto simp: Store_Reserve_def store_New_def write_refused_def Let_def split: sum.splits prod.splits)

lemma write_refused_text: "write_refused cl n p i w a e \<Longrightarrow> e \<noteq> no_address_error rs"
  by (auto simp: write_refused_def no_address_error_def errorf_def)

context pool_api
begin

lemma store_view_pool: "pc_Get ca n w = Inr p \<Longrightarrow> store_view ca n w = allocation p"
  by (simp add: store_view_def)

lemma Allocator_Get_any:
  assumes al: "NewAllocator sha n ranges ca cl = Inr a" and ok: "rangeset_ok (ia_rangeset (al_IPAllocator a))"
    and inv: "store_inv ca server good n w"
    and p: "pc_Get ca n w = Inr p" and hist: "i \<notin> snd ` set (entries (pool_History p))"
  obtains x w' where "Allocator_Get a i w = Some (x, w')" and "store_inv ca server good n w'"
    and "get_outcome (write_refused cl n p i w) (ia_rangeset (al_IPAllocator a)) i (allocation p)
      (store_alloc server n w) (store_alloc server n w') x"
proof -
  have a: "ia_store (al_IPAllocator a) = store_backend (store_New n ca cl)" "al_cache a = ca" "al_name a = n"
    using NewAllocator_Inr [OF al] by metis+
  have "Allocator_Get a i w = IPAllocator_Get (al_IPAllocator a) i '''' [] w"
    using a p hist by (simp add: Allocator_Get_def find_applicant_None [symmetric])
  moreover obtain x w' where "IPAllocator_Get (al_IPAllocator a) i '''' [] w = Some (x, w')"
    "store_inv ca server good n w'" and
    o: "get_outcome (\<lambda>y e. fst (Store_Reserve (store_New n ca cl) i [] y (ia_rangeID (al_IPAllocator a)) w) = Inl e)
      (ia_rangeset (al_IPAllocator a)) i (store_view ca n w) (store_alloc server n w) (store_alloc server n w') x"
    using st.Get_any_outcome [OF ok a(1) inv, of i "[]"] by (auto simp: store_backend_def)
  moreover have "get_outcome (write_refused cl n p i w) (ia_rangeset (al_IPAllocator a)) i (allocation p)
      (store_alloc server n w) (store_alloc server n w') x"
    using o unfolding store_view_pool [OF p] by (rule get_outcome_mono) (rule Store_Reserve_refused [OF p])
  ultimately show thesis using that by metis
qed

lemma Allocator_Get_history:
  assumes al: "NewAllocator sha n ranges ca cl = Inr a" and ok: "rangeset_ok (ia_rangeset (al_IPAllocator a))"
    and inv: "store_inv ca server good n w"
    and p: "pc_Get ca n w = Inr p" and hist: "find_applicant i (entries (pool_History p)) = Some (k, v)"
    and ip: "ParseIP k \<noteq> []"
  obtains x w' where "Allocator_Get a i w = Some (x, w')" and "store_inv ca server good n w'"
    and "\<forall>e. x = Inl e \<longrightarrow> store_alloc server n w' = store_alloc server n w"
    and "\<forall>c. x = Inr c \<longrightarrow> config_of (ia_rangeset (al_IPAllocator a)) c \<and> ip_String (net_IP (ipc_Address c)) = k \<and>
      store_alloc server n w k = None \<and> store_alloc server n w' = (store_alloc server n w)(k \<mapsto> i)"
proof -
  have a: "ia_store (al_IPAllocator a) = store_backend (store_New n ca cl)" "al_cache a = ca" "al_name a = n"
    using NewAllocator_Inr [OF al] by metis+
  obtain x w' where get: "Get_requested (al_IPAllocator a) i '''' (ParseIP k) w = (x, w')" by fastforce
  have alloc: "Allocator_Get a i w = Some (x, w')"
    using a p hist ip get by (simp add: Allocator_Get_def IPAllocator_Get_def)
  have pinv: "pool_inv p" using inv p by (simp add: store_inv_def)
  have "(k, i) \<in> set (entries (pool_History p))" using find_applicant_Some [OF hist] by blast
  then have kh: "k \<in> fst ` set (entries (pool_History p))" by force
  then have "canonical k" and free: "allocation p k = None"
    using pinv by (auto simp: status_inv_def m_get_None)
  have t: "ip_String (normalizeIP (ParseIP k)) = k" using canonical_normalizeIP [OF \<open>canonical k\<close> ip] .
  note out = st.Get_requested_outcome [OF ok a(1) inv get]
  have "config_of (ia_rangeset (al_IPAllocator a)) c \<and> ip_String (net_IP (ipc_Address c)) = k \<and>
      store_alloc server n w k = None \<and> store_alloc server n w' = (store_alloc server n w)(k \<mapsto> i)" if x: "x = Inr c" for c
    using out(3) [OF x] out(4) [OF x refl] t free store_view_pool [OF p] by auto
  then show thesis using that alloc out(1,2) by blast
qed

text \<open>Whatever path is taken: it returns, and success is a fresh record.\<close>

lemma Allocator_Get_fresh:
  assumes al: "NewAllocator sha n ranges ca cl = Inr a" and ok: "rangeset_ok (ia_rangeset (al_IPAllocator a))"
    and inv: "store_inv ca server good n w"
  obtains x w' where "Allocator_Get a i w = Some (x, w')" and "store_inv ca server good n w'"
    and "\<forall>e. x = Inl e \<longrightarrow> store_alloc server n w' = store_alloc server n w"
    and "\<forall>c. x = Inr c \<longrightarrow> config_of (ia_rangeset (al_IPAllocator a)) c \<and>
      store_alloc server n w (ip_String (net_IP (ipc_Address c))) = None \<and>
      store_alloc server n w' = (store_alloc server n w)(ip_String (net_IP (ipc_Address c)) \<mapsto> i)"
proof (cases "pc_Get ca n w")
  case (Inl e)
  have "al_cache a = ca" "al_name a = n" using NewAllocator_Inr [OF al] by metis+
  then have "Allocator_Get a i w = Some (Inl e, w)" using Inl by (simp add: Allocator_Get_def)
  then show thesis using that inv by simp
next
  case (Inr p)
  note p = this
  show thesis
  proof (cases "find_applicant i (entries (pool_History p))")
    case None
    then have h: "i \<notin> snd ` set (entries (pool_History p))" by (simp add: find_applicant_None)
    obtain x w' where g: "Allocator_Get a i w = Some (x, w')" "store_inv ca server good n w'"
      "get_outcome (write_refused cl n p i w) (ia_rangeset (al_IPAllocator a)) i (allocation p) (store_alloc server n w) (store_alloc server n w') x"
      using Allocator_Get_any [OF al ok inv p h] .
    show thesis
      by (rule that [OF g(1,2)]) (use g(3) in \<open>auto elim: get_outcome.cases\<close>)
  next
    case (Some kv)
    obtain k v where kv: "kv = (k, v)" by (cases kv)
    show thesis
    proof (cases "ParseIP k = []")
      case False
      obtain x w' where g: "Allocator_Get a i w = Some (x, w')" "store_inv ca server good n w'"
        "\<forall>e. x = Inl e \<longrightarrow> store_alloc server n w' = store_alloc server n w"
        "\<forall>c. x = Inr c \<longrightarrow> config_of (ia_rangeset (al_IPAllocator a)) c \<and> ip_String (net_IP (ipc_Address c)) = k \<and>
          store_alloc server n w k = None \<and> store_alloc server n w' = (store_alloc server n w)(k \<mapsto> i)"
        using Allocator_Get_history [OF al ok inv p Some [unfolded kv] False] .
      show thesis by (rule that [OF g(1,2,3)]) (use g(4) in auto)
    next
      case True
      have a: "ia_store (al_IPAllocator a) = store_backend (store_New n ca cl)" "al_cache a = ca" "al_name a = n"
        using NewAllocator_Inr [OF al] by metis+
      have "Allocator_Get a i w = IPAllocator_Get (al_IPAllocator a) i '''' [] w"
        using a p Some kv True by (simp add: Allocator_Get_def)
      moreover obtain x w' where "IPAllocator_Get (al_IPAllocator a) i '''' [] w = Some (x, w')"
        and w': "store_inv ca server good n w'" and
        o: "get_outcome (\<lambda>y e. fst (bs_Reserve (store_backend (store_New n ca cl)) i [] y (ia_rangeID (al_IPAllocator a)) w) = Inl e)
          (ia_rangeset (al_IPAllocator a)) i (store_view ca n w) (store_alloc server n w) (store_alloc server n w') x"
        using st.Get_any_outcome [OF ok a(1) inv] .
      ultimately show thesis by (intro that [OF _ w']) (use o in \<open>auto elim: get_outcome.cases\<close>)
    qed
  qed
qed

end

section \<open>The total of a pool\<close>

lemma v4_bounds:
  assumes "range_ok r k p" and "length (net_Mask (Subnet r)) = 4"
  shows "range_ok r 4 p \<and> 0 \<le> ipToInt (RangeStart r) \<and> ipToInt (RangeStart r) \<le> ipToInt (RangeEnd r) \<and> ipToInt (RangeEnd r) < 2 ^ 32"
proof -
  have k: "k = 4" using assms by (auto simp: range_ok_def plain_net_def cidr_net_def)
  then have "length (normalizeIP (RangeEnd r)) = 4" "ipToInt (RangeStart r) \<le> ipToInt (RangeEnd r)"
    using assms(1) by (simp_all add: range_ok_def in_block_def)
  then show ?thesis
    using assms(1) k be_int_bounds(2) [of "normalizeIP (RangeEnd r)"] be_int_bounds(1) [of "normalizeIP (RangeStart r)"]
    by (simp add: ipToInt_normalizeIP)
qed

lemma disjoint_values:
  assumes "range_ok r k p" and "range_ok r' k p'" and "\<not> range_Overlaps r r'"
  shows "alloc_values r \<inter> alloc_values r' = {}"
proof (rule ccontr)
  assume "alloc_values r \<inter> alloc_values r' \<noteq> {}"
  then obtain v where "ipToInt (RangeStart r) \<le> v" "v \<le> ipToInt (RangeEnd r)" "ipToInt (RangeStart r') \<le> v" "v \<le> ipToInt (RangeEnd r')"
    by (auto simp: alloc_values_def)
  then have "in_range r k (RangeStart r') \<or> in_range r' k (RangeStart r)"
    using assms(1,2) by (auto simp: in_range_def range_ok_def in_block_def)
  moreover have "range_Contains r (RangeStart r)" "range_Contains r' (RangeStart r')"
    using range_Contains_bounds assms(1,2) by blast+
  ultimately have "\<exists>x. range_Contains r x \<and> range_Contains r' x"
    using range_Contains_iff [OF assms(1)] range_Contains_iff [OF assms(2)] by blast
  then show False using range_Overlaps_iff [OF assms(1,2)] assms(3) by blast
qed

lemma v4_total:
  assumes ok: "rangeset_ok rs" and v4: "\<forall>r \<in> set rs. length (net_Mask (Subnet r)) = 4"
  shows "sint (sum_list (map countIP rs)) = int (card (\<Union>r \<in> set rs. alloc_values r)) \<and> card (\<Union>r \<in> set rs. alloc_values r) \<le> 2 ^ 32"
proof -
  have each: "\<exists>p. range_ok r 4 p \<and> 0 \<le> ipToInt (RangeStart r) \<and> ipToInt (RangeEnd r) < 2 ^ 32" if "r \<in> set rs" for r
    using ok v4 that v4_bounds unfolding rangeset_ok_def by metis
  have fin: "finite (alloc_values r)" for r by (simp add: alloc_values_def)
  have cnt: "countIP r = word_of_int (int (card (alloc_values r)))" if r: "r \<in> set rs" for r
  proof -
    obtain p where "range_ok r 4 p" "0 \<le> ipToInt (RangeStart r)" "ipToInt (RangeEnd r) < 2 ^ 32" using each [OF r] by blast
    then have "sint (countIP r) = int (card (alloc_values r))" by (intro countIP_card) auto
    then show ?thesis by (metis of_int_sint scast_id)
  qed
  have dis: "alloc_values (rs ! i) \<inter> alloc_values (rs ! j) = {}" if ij: "i < length rs" "j < length rs" "i \<noteq> j" for i j
  proof -
    obtain p p' where "range_ok (rs ! i) 4 p" "range_ok (rs ! j) 4 p'" using each [OF nth_mem] ij(1,2) by blast
    then show ?thesis using ok ij disjoint_values unfolding rangeset_ok_def by blast
  qed
  have "(\<Union>r \<in> set rs. alloc_values r) = (\<Union>i \<in> {..< length rs}. alloc_values (rs ! i))"
    by (auto simp: set_conv_nth)
  then have "card (\<Union>r \<in> set rs. alloc_values r) = (\<Sum>i < length rs. card (alloc_values (rs ! i)))"
    using card_UN_disjoint [of "{..< length rs}" "\<lambda>i. alloc_values (rs ! i)"] fin dis by simp
  also have "\<dots> = sum_list (map (\<lambda>r. card (alloc_values r)) rs)" by (simp add: sum_list_sum_nth atLeast0LessThan)
  finally have c: "card (\<Union>r \<in> set rs. alloc_values r) = sum_list (map (\<lambda>r. card (alloc_values r)) rs)" .
  have "(\<Union>r \<in> set rs. alloc_values r) \<subseteq> {0 ..< 2 ^ 32}"
    using each unfolding alloc_values_def by fastforce
  then have le: "card (\<Union>r \<in> set rs. alloc_values r) \<le> 2 ^ 32" using card_mono [of "{0 ..< 2 ^ 32 :: int}"] by simp
  have small: "sint (word_of_int (int m) :: int64) = int m" if "m \<le> 2 ^ 32" for m
  proof -
    have "int m < 2 ^ 63" using that by simp
    then show ?thesis by (simp only: signed_of_int) (simp add: signed_take_bit_int_eq_self)
  qed
  have "sum_list (map countIP rs) = word_of_int (int (sum_list (map (\<lambda>r. card (alloc_values r)) rs)))"
    using cnt by (induction rs) simp_all
  then have "sint (sum_list (map countIP rs)) = int (card (\<Union>r \<in> set rs. alloc_values r))"
    using c le small [of "sum_list (map (\<lambda>r. card (alloc_values r)) rs)"] by simp
  then show ?thesis using le by blast
qed

text \<open>
  \<^bold>\<open>C40.\<close> The total of an IPv4 pool does not overflow: for a pool that the validator accepts, all of whose
  subnets are IPv4, the \<^verbatim>\<open>int64\<close> total of its allocator is the number of different addresses that its ranges
  hand out, gateways left out, and at most \<open>2 ^ 32\<close>.
\<close>

theorem v4_total_exact:
  assumes "pool_admitted ca pool w" and "NewAllocator sha n (ps_Ranges (pool_Spec pool)) ca cl = Inr a"
    and "\<forall>r \<in> set (ia_rangeset (al_IPAllocator a)). length (net_Mask (Subnet r)) = 4"
  shows "sint (al_total a) = int (card {v. \<exists>r \<in> set (ia_rangeset (al_IPAllocator a)).
      ipToInt (RangeStart r) \<le> v \<and> v \<le> ipToInt (RangeEnd r) \<and> (Gateway r \<noteq> [] \<longrightarrow> v \<noteq> ipToInt (Gateway r))}) \<and>
    0 \<le> sint (al_total a) \<and> sint (al_total a) \<le> 2 ^ 32"
proof -
  obtain rs where rs: "LBRangesToAllocatorRangeSet (ps_Ranges (pool_Spec pool)) = Inr rs"
    "ia_rangeset (al_IPAllocator a) = rs" "al_total a = sum_list (map countIP rs)" using NewAllocator_Inr [OF assms(2)] by metis
  have "ps_Ranges (pool_Spec pool) \<noteq> []" "\<not> overlap_inside rs"
    using pool_admitted_cases [OF assms(1)] rs(1) by (metis sum.inject(2))+
  moreover have "served_ranges rs" using assms(3) rs(2) by (simp add: served_ranges_def served_net_def list_all_iff)
  ultimately have "rangeset_ok rs" using checked_rangeset_ok rs(1) by blast
  from v4_total [OF this] assms(3) rs(2,3)
  have "sint (al_total a) = int (card (\<Union>r \<in> set rs. alloc_values r))" "card (\<Union>r \<in> set rs. alloc_values r) \<le> 2 ^ 32" by simp_all
  moreover have "(\<Union>r \<in> set rs. alloc_values r) = {v. \<exists>r \<in> set rs. ipToInt (RangeStart r) \<le> v \<and> v \<le> ipToInt (RangeEnd r) \<and>
      (Gateway r \<noteq> [] \<longrightarrow> v \<noteq> ipToInt (Gateway r))}"
    by (auto simp: alloc_values_def)
  ultimately show ?thesis using rs(2) by simp
qed

definition demo_allocator :: "PoolServer Allocator" where
  "demo_allocator = \<lparr>al_IPAllocator = NewIPAllocator [demo_arange] (store_backend (store_New ''demo'' server_cache server_client)) 0,
     al_name = ''demo'', al_checkSum = ''[{10.0.0.1 10.0.0.3 10.0.0.0/24 }]'', al_total = 2, al_cache = server_cache\<rparr>"

lemma demo_NewAllocator: "NewAllocator id ''demo'' [demo_range] server_cache server_client = Inr demo_allocator"
proof -
  have "countIP demo_arange = 2" by code_simp
  moreover have "CalculateCheckSum id [demo_range] = ''[{10.0.0.1 10.0.0.3 10.0.0.0/24 }]''" by code_simp
  ultimately show ?thesis
    by (simp add: NewAllocator_def demo_MakeRange demo_allocator_def)
qed

lemma demo_rangeset: "ia_rangeset (al_IPAllocator demo_allocator) = [demo_arange]"
  by (simp add: demo_allocator_def NewIPAllocator_def)

lemma demo_rangeset_ok: "rangeset_ok [demo_arange]"
  by (rule checked_rangeset_ok [OF _ demo_ranges(1) demo_served_ranges(1)]) (simp_all add: demo_pool_def mk_pool_def)

lemma demo_inv: "store_inv server_cache server_pool server_good ''demo'' demo_world"
proof -
  have "Uitoa (int 0) = ''0''" by code_simp
  then have "issued 1 demo_pool" "issued 1 plain_pool"
    by (auto simp: issued_def demo_pool_def plain_pool_def mk_pool_def)
  then have "server_good demo_world"
    by (auto simp: server_good_def demo_world_def demo_pool_def plain_pool_def mk_pool_def split: if_splits)
  moreover have "pool_inv demo_pool"
    by (simp add: status_inv_def demo_pool_def mk_pool_def)
  ultimately show ?thesis
    by (auto simp: store_inv_def server_pool_def server_cache_def srv_Get_def demo_world_def)
qed

theorem v4_total_exact_witness:
  "sint (al_total demo_allocator) = int (card {v. \<exists>r \<in> {demo_arange}.
      ipToInt (RangeStart r) \<le> v \<and> v \<le> ipToInt (RangeEnd r) \<and> (Gateway r \<noteq> [] \<longrightarrow> v \<noteq> ipToInt (Gateway r))}) \<and>
   sint (al_total demo_allocator) = 2"
proof -
  have "ps_Ranges (pool_Spec demo_pool) = [demo_range]" by (simp add: demo_pool_def mk_pool_def)
  moreover have "length (net_Mask (Subnet demo_arange)) = 4" by (simp add: demo_arange_def ip4_def)
  ultimately show ?thesis
    using v4_total_exact [OF demo_admitted, of id "''demo''" server_client demo_allocator] demo_NewAllocator demo_rangeset
    by (simp add: demo_allocator_def)
qed

text \<open>
  \<^bold>\<open>C3.\<close> Under optimistic concurrency and whatever the cache has seen, \<^verbatim>\<open>Allocator.Get\<close>
  always returns. When it succeeds, the address is in a range of the pool and is not that range's
  gateway, the mask and the gateway returned are those of the range, no applicant held the address
  on the server, and the server now records it for this applicant and changes nothing else. When
  it fails, the server's allocations are as before.
\<close>

theorem Allocator_Get_sound:
  assumes "pool_api ca cl server good" and "NewAllocator sha n ranges ca cl = Inr a"
    and "rangeset_ok (ia_rangeset (al_IPAllocator a))" and "store_inv ca server good n w"
  shows "\<exists>x w'. Allocator_Get a i w = Some (x, w') \<and> store_inv ca server good n w' \<and>
    (case x of
       Inl e \<Rightarrow> store_alloc server n w' = store_alloc server n w
     | Inr c \<Rightarrow> config_of (ia_rangeset (al_IPAllocator a)) c \<and>
         store_alloc server n w (ip_String (net_IP (ipc_Address c))) = None \<and>
         store_alloc server n w' = (store_alloc server n w)(ip_String (net_IP (ipc_Address c)) \<mapsto> i))"
proof -
  obtain x w' where "Allocator_Get a i w = Some (x, w')" "store_inv ca server good n w'"
    "\<forall>e. x = Inl e \<longrightarrow> store_alloc server n w' = store_alloc server n w"
    "\<forall>c. x = Inr c \<longrightarrow> config_of (ia_rangeset (al_IPAllocator a)) c \<and>
      store_alloc server n w (ip_String (net_IP (ipc_Address c))) = None \<and>
      store_alloc server n w' = (store_alloc server n w)(ip_String (net_IP (ipc_Address c)) \<mapsto> i)"
    using pool_api.Allocator_Get_fresh [OF assms] .
  then show ?thesis by (auto split: sum.splits)
qed

theorem Allocator_Get_sound_witness:
  "\<exists>x w'. Allocator_Get demo_allocator ''default/lb1'' demo_world = Some (x, w') \<and>
     store_inv server_cache server_pool server_good ''demo'' w'"
  using Allocator_Get_sound [OF ps.pool_api_axioms demo_NewAllocator _ demo_inv, of "''default/lb1''"]
  by (auto simp: demo_rangeset demo_rangeset_ok)

text \<open>
  \<^bold>\<open>C4.\<close> The outcomes of \<^verbatim>\<open>Allocator.Get\<close> for an applicant without a history entry, in terms of
  the pool the cache returns: a duplicate error exactly when the applicant already holds an address of the
  ranges; otherwise the no-address error exactly when every address of the ranges other than the gateways is
  allocated, the error of a write that the API server refused for an address that is free in the cached pool, or the record
  of a free address. In particular the search is complete: when an address is free and the server refuses no
  write, one is allocated.
\<close>

theorem Allocator_Get_complete:
  assumes "pool_api ca cl server good" and "NewAllocator sha n ranges ca cl = Inr a"
    and "rangeset_ok (ia_rangeset (al_IPAllocator a))" and "store_inv ca server good n w"
    and "pc_Get ca n w = Inr p" and "i \<notin> snd ` set (entries (pool_History p))"
  shows "\<exists>x w'. Allocator_Get a i w = Some (x, w') \<and>
    get_outcome (write_refused cl n p i w) (ia_rangeset (al_IPAllocator a)) i (allocation p)
      (store_alloc server n w) (store_alloc server n w') x \<and>
    (if holds_none (ia_rangeset (al_IPAllocator a)) i (allocation p) then
       (x = Inl (no_address_error (ia_rangeset (al_IPAllocator a))) \<longleftrightarrow>
         (\<forall>t. served (ia_rangeset (al_IPAllocator a)) t \<longrightarrow> allocation p (ip_String t) \<noteq> None)) \<and>
       ((\<exists>t. served (ia_rangeset (al_IPAllocator a)) t \<and> allocation p (ip_String t) = None) \<and>
         (\<forall>q e. fst (pcl_Update cl q w) \<noteq> Inl e) \<longrightarrow> (\<exists>c. x = Inr c))
     else \<exists>k. allocation p k = Some i \<and> x = Inl (duplicate_error (ParseIP k) i))"
proof -
  obtain x w' where g: "Allocator_Get a i w = Some (x, w')"
    and o: "get_outcome (write_refused cl n p i w) (ia_rangeset (al_IPAllocator a)) i (allocation p)
      (store_alloc server n w) (store_alloc server n w') x"
    using pool_api.Allocator_Get_any [OF assms] by metis
  show ?thesis
  proof (cases "holds_none (ia_rangeset (al_IPAllocator a)) i (allocation p)")
    case True
    have ne: "write_refused cl n p i w b e \<Longrightarrow> e \<noteq> no_address_error (ia_rangeset (al_IPAllocator a))" for b e
      by (rule write_refused_text)
    note d = get_outcome_decided [OF o True ne]
    have "\<exists>c. x = Inr c" if "\<exists>t. served (ia_rangeset (al_IPAllocator a)) t \<and> allocation p (ip_String t) = None"
      and "\<forall>q e. fst (pcl_Update cl q w) \<noteq> Inl e"
      using d(2) that unfolding write_refused_def by blast
    then show ?thesis using g o d(1) True by simp
  next
    case False
    then have "\<exists>k. allocation p k = Some i \<and> x = Inl (duplicate_error (ParseIP k) i)"
      using o by (auto elim: get_outcome.cases)
    then show ?thesis using g o False by simp
  qed
qed

theorem Allocator_Get_complete_witness:
  "\<exists>c w'. Allocator_Get demo_allocator ''default/lb1'' demo_world = Some (Inr c, w')"
proof -
  have g: "pc_Get server_cache ''demo'' demo_world = Inr demo_pool"
    by (simp add: server_cache_def srv_Get_def demo_world_def)
  have h: "''default/lb1'' \<notin> snd ` set (entries (pool_History demo_pool))" by (simp add: demo_pool_def mk_pool_def)
  have al: "allocation demo_pool = (\<lambda>_. None)" by (simp add: demo_pool_def mk_pool_def fun_eq_iff)
  then have none: "holds_none [demo_arange] ''default/lb1'' (allocation demo_pool)" by (simp add: holds_none_def)
  have sv: "served [demo_arange] (ip4 10 0 0 2)" by code_simp
  obtain x w' where o: "Allocator_Get demo_allocator ''default/lb1'' demo_world = Some (x, w')"
    "get_outcome (write_refused server_client ''demo'' demo_pool ''default/lb1'' demo_world) [demo_arange] ''default/lb1''
      (allocation demo_pool) (store_alloc server_pool ''demo'' demo_world) (store_alloc server_pool ''demo'' w') x"
    using Allocator_Get_complete [OF ps.pool_api_axioms demo_NewAllocator _ demo_inv g h]
    by (auto simp: demo_rangeset demo_rangeset_ok)
  have "\<not> write_refused server_client ''demo'' demo_pool ''default/lb1'' demo_world t e" for t e
    by (simp add: write_refused_def server_client_def srv_Update_def demo_world_def demo_pool_def mk_pool_def Let_def)
  then have "\<exists>c. x = Inr c" by (intro get_outcome_decided(2) [OF o(2) none]) (use sv al in auto)
  then show ?thesis using o(1) by blast
qed

text \<open>
  An applicant gets the address back that it released: when the history of the cached
  pool has an address for it, \<^verbatim>\<open>Allocator.Get\<close> allocates that address or fails without changing
  an allocation.
\<close>

theorem Allocator_Get_sticky:
  assumes "pool_api ca cl server good" and "NewAllocator sha n ranges ca cl = Inr a"
    and "rangeset_ok (ia_rangeset (al_IPAllocator a))" and "store_inv ca server good n w"
    and "pc_Get ca n w = Inr p" and "find_applicant i (entries (pool_History p)) = Some (t, j)"
    and "ParseIP t \<noteq> []"
  shows "\<exists>x w'. Allocator_Get a i w = Some (x, w') \<and>
    (case x of
       Inl e \<Rightarrow> store_alloc server n w' = store_alloc server n w
     | Inr c \<Rightarrow> ip_String (net_IP (ipc_Address c)) = t \<and>
         store_alloc server n w' = (store_alloc server n w)(t \<mapsto> i))"
proof -
  obtain x w' where "Allocator_Get a i w = Some (x, w')"
    "\<forall>e. x = Inl e \<longrightarrow> store_alloc server n w' = store_alloc server n w"
    "\<forall>c. x = Inr c \<longrightarrow> config_of (ia_rangeset (al_IPAllocator a)) c \<and> ip_String (net_IP (ipc_Address c)) = t \<and>
      store_alloc server n w t = None \<and> store_alloc server n w' = (store_alloc server n w)(t \<mapsto> i)"
    using pool_api.Allocator_Get_history [OF assms] .
  then show ?thesis by (auto split: sum.splits)
qed

definition demo_released :: IPPool where
  "demo_released = demo_pool\<lparr>pool_Status := status_release ''10.0.0.3'' ''default/lb1''
     (status_reserve ''10.0.0.3'' ''default/lb1'' (pool_Status demo_pool))\<rparr>"

definition released_world :: PoolServer where
  "released_world = demo_world\<lparr>srv_pools := [(''demo'', demo_released)], srv_cache := [(''demo'', demo_released)]\<rparr>"

lemma released_inv: "store_inv server_cache server_pool server_good ''demo'' released_world"
proof -
  have "Uitoa (int 0) = ''0''" by code_simp
  then have "issued 1 demo_released" by (auto simp: issued_def demo_released_def demo_pool_def mk_pool_def)
  then have "server_good released_world"
    by (auto simp: server_good_def released_world_def demo_world_def demo_released_def demo_pool_def mk_pool_def
        split: if_splits)
  moreover have "canonical ''10.0.0.3''" by code_simp
  then have "pool_inv demo_released"
    by (simp add: status_inv_def demo_released_def demo_pool_def mk_pool_def)
  ultimately show ?thesis
    by (auto simp: store_inv_def server_pool_def server_cache_def srv_Get_def released_world_def)
qed

theorem Allocator_Get_sticky_witness:
  "\<exists>x w'. Allocator_Get demo_allocator ''default/lb1'' released_world = Some (x, w') \<and>
    (case x of
       Inl e \<Rightarrow> store_alloc server_pool ''demo'' w' = store_alloc server_pool ''demo'' released_world
     | Inr c \<Rightarrow> ip_String (net_IP (ipc_Address c)) = ''10.0.0.3'' \<and>
         store_alloc server_pool ''demo'' w' = (store_alloc server_pool ''demo'' released_world)(''10.0.0.3'' \<mapsto> ''default/lb1''))"
proof -
  have g: "pc_Get server_cache ''demo'' released_world = Inr demo_released"
    by (simp add: server_cache_def srv_Get_def released_world_def)
  have h: "find_applicant ''default/lb1'' (entries (pool_History demo_released)) = Some (''10.0.0.3'', ''default/lb1'')"
    by code_simp
  have p: "ParseIP ''10.0.0.3'' \<noteq> []" by code_simp
  show ?thesis
    using Allocator_Get_sticky [OF ps.pool_api_axioms demo_NewAllocator _ released_inv g h p]
    by (simp add: demo_rangeset demo_rangeset_ok)
qed

end
