(* ===== verification/PoolProps.thy ===== *)
theory PoolProps
  imports IpamProps
begin

text \<open>
  Properties of the selection of pools and of their admission: which pool \<^verbatim>\<open>Select\<close> returns, that
  the checks of the validator make the choice independent of the order of the pools in strict
  mode, the labels that the mutator sets, and an example in which loose mode leaves the choice to
  the order.
\<close>

section \<open>Selection\<close>

lemma Select_cases:
  assumes "Select ca (Some r) l w = Inr res"
  obtains pools where "pc_List ca [] w = Inr pools"
    and "\<forall>p. res = Some p \<longrightarrow> p \<in> set pools \<and>
      (eligible r l p \<and> (\<forall>q \<in> set pools. eligible r l q \<longrightarrow> prio q \<le> prio p) \<or>
       labelled_global p \<and> (\<forall>q \<in> set pools. \<not> eligible r l q))"
    and "res = None \<longrightarrow> (\<forall>q \<in> set pools. \<not> eligible r l q \<and> \<not> labelled_global q)"
proof -
  obtain pools where l: "pc_List ca [] w = Inr pools" using assms by (auto simp: Select_def split: sum.splits)
  obtain s g where sg: "select_loop r l pools None None 0 = (s, g)" by fastforce
  have res: "res = (case s of Some p \<Rightarrow> Some p | None \<Rightarrow> g)"
    using assms l sg by (auto simp: Select_def split: option.splits)
  show thesis
  proof (cases s)
    case None
    then show thesis using select_loop_none [of r l pools None None 0 g] sg res
      by (intro that [OF l]) (auto split: if_splits)
  next
    case (Some p)
    then show thesis using select_loop_selected [of r l pools None None 0 p g] sg res
      by (intro that [OF l]) auto
  qed
qed

text \<open>
  \<^bold>\<open>C26.\<close> \<^verbatim>\<open>Select\<close> returns a listed pool that matches the requirement and has the highest
  priority among those that do, leaving aside pools labelled as global; if none matches it
  returns a pool labelled as global, and nothing only if there is neither.
\<close>

theorem Select_best:
  assumes "Select ca (Some r) l w = Inr res" and "pc_List ca [] w = Inr pools"
  shows "(case res of
            Some p \<Rightarrow> p \<in> set pools \<and>
              (eligible r l p \<and> (\<forall>q \<in> set pools. eligible r l q \<longrightarrow> prio q \<le> prio p) \<or>
               labelled_global p \<and> (\<forall>q \<in> set pools. \<not> eligible r l q))
          | None \<Rightarrow> \<forall>q \<in> set pools. \<not> eligible r l q \<and> \<not> labelled_global q)"
  using Select_cases [OF assms(1)] assms(2) by (auto split: option.split)

definition default_requirement :: Requirement where
  "default_requirement = \<lparr>rq_Network = '''', rq_Project = '''', rq_Namespace = ''default'', rq_Cluster = ''''\<rparr>"

lemma demo_List: "pc_List server_cache [] demo_world = Inr [demo_pool, plain_pool]"
  by (simp add: server_cache_def srv_List_def demo_world_def has_labels_def)

theorem Select_best_witness:
  "Select server_cache (Some default_requirement) False demo_world = Inr (Some demo_pool) \<and>
   eligible default_requirement False demo_pool"
proof -
  have s: "Select server_cache (Some default_requirement) False demo_world = Inr (Some demo_pool)" by code_simp
  have "\<not> labelled_global demo_pool" by code_simp
  with Select_best [OF s demo_List] s show ?thesis by simp
qed

section \<open>Priorities of accepted pools\<close>

lemma admitted_others:
  assumes "pool_admitted ca pool w" and "\<not> isGlobalIPPool pool" and "pc_List ca [] w = Inr pools"
  shows "check_others pool pools = Inr ()"
proof -
  have "checkSelector ca pool w = Inr ()" using pool_admitted_cases [OF assms(1)] by metis
  then show ?thesis using assms(2,3) by (simp add: checkSelector_def checkSelectorWithOthers_def split: sum.splits)
qed

text \<open>
  Once the validator has accepted a scoped pool, no other scoped pool that was listed then has its
  priority and matches a concrete requirement that it matches too.
\<close>

lemma admitted_priority_differs:
  assumes "pool_admitted ca p w" and "pc_List ca [] w = Inr pools"
    and "q \<in> set pools" and "pool_Name q \<noteq> pool_Name p" and "\<not> isGlobalIPPool p" and "\<not> isGlobalIPPool q"
    and "concrete r" and "Matches (NewMatcher (ps_Selector (pool_Spec p))) r"
    and "Matches (NewMatcher (ps_Selector (pool_Spec q))) r"
  shows "prio p \<noteq> prio q"
proof
  assume same: "prio p = prio q"
  have "check_others p pools = Inr ()" by (rule admitted_others [OF assms(1,5,2)])
  from check_others_Inr [OF this assms(3,4,6)]
  have zero: "\<forall>t \<in> set (sel_Scope (ps_Selector (pool_Spec p))).
      \<not> Matches (NewMatcher (ps_Selector (pool_Spec q))) (tuple_requirement (sel_Network (ps_Selector (pool_Spec p))) t)"
    using same by auto
  obtain t t' where t: "t \<in> set (sel_Scope (ps_Selector (pool_Spec p)))" "isMatch t r False"
      "t' \<in> set (sel_Scope (ps_Selector (pool_Spec q)))" "isMatch t' r False"
      and net: "sel_Network (ps_Selector (pool_Spec p)) = rq_Network r" "sel_Network (ps_Selector (pool_Spec q)) = rq_Network r"
    using assms(8,9) by (auto simp: Matches_def NewMatcher_def list_ex_iff split: if_splits)
  have "isMatch t' (tuple_requirement (sel_Network (ps_Selector (pool_Spec p))) t) False"
    using isMatch_common assms(7) t(2,4) by blast
  then have "Matches (NewMatcher (ps_Selector (pool_Spec q))) (tuple_requirement (sel_Network (ps_Selector (pool_Spec p))) t)"
    using t(3) net by (auto simp: Matches_def NewMatcher_def list_ex_iff tuple_requirement_def)
  then show False using zero t(1) by blast
qed

text \<open>
  In loose mode, which is tried for cluster load balancers, the same does not hold: two
  pools of priority zero, both accepted while the other is listed, match the same concrete
  requirement, and the one that is returned depends on the order of the list.
\<close>

definition amb_a :: IPPool where
  "amb_a = mk_pool ''a'' [demo_range] (ns_selector '''' ''ns1'' '''')"

definition amb_b :: IPPool where
  "amb_b = mk_pool ''b'' [plain_range] (ns_selector ''p1'' ''ns1'' '''')"

definition amb_world :: "IPPool list \<Rightarrow> PoolServer" where
  "amb_world ps = \<lparr>srv_pools = map (\<lambda>p. (pool_Name p, p)) ps, srv_cache = map (\<lambda>p. (pool_Name p, p)) ps, srv_next = 1\<rparr>"

definition amb_requirement :: Requirement where
  "amb_requirement = \<lparr>rq_Network = '''', rq_Project = ''p1'', rq_Namespace = ''ns1'', rq_Cluster = ''c1''\<rparr>"

theorem loose_selection_depends_on_order:
  "pool_validator_Create server_cache amb_a (amb_world [amb_a, amb_b]) = Inr () \<and>
   pool_validator_Create server_cache amb_b (amb_world [amb_a, amb_b]) = Inr () \<and>
   concrete amb_requirement \<and>
   Select server_cache (Some amb_requirement) True (amb_world [amb_a, amb_b]) = Inr (Some amb_b) \<and>
   Select server_cache (Some amb_requirement) True (amb_world [amb_b, amb_a]) = Inr (Some amb_a)"
  by (intro conjI) code_simp+

section \<open>Global pools and labels\<close>

lemma FormatBool_true: "FormatBool b = ValueTrue \<longleftrightarrow> b"
  by (auto simp: FormatBool_def ValueTrue_def)

lemma key_neq: "KeyVid \<noteq> KeyGlobalIPPool"
  by (simp add: KeyVid_def KeyGlobalIPPool_def)

lemma getLabelPatch_labels:
  assumes "getLabelPatch json nads pool w = Inr patch"
  obtains vid where "GetVid json nads (sel_Network (ps_Selector (pool_Spec pool))) w = Inr vid"
    and "str_get (Some (patched_labels patch pool)) KeyVid = Itoa vid"
    and "str_get (Some (patched_labels patch pool)) KeyGlobalIPPool = FormatBool (isGlobalIPPool pool)"
    and "\<forall>k. k \<notin> {KeyVid, KeyGlobalIPPool} \<longrightarrow>
      m_get (patched_labels patch pool) k = m_get (entries (md_Labels (pool_Meta pool))) k"
proof -
  obtain vid where v: "GetVid json nads (sel_Network (ps_Selector (pool_Spec pool))) w = Inr vid"
    using assms by (auto simp: getLabelPatch_def split: sum.splits)
  show thesis
    by (rule that [OF v]) (use assms v key_neq in
      \<open>auto simp: getLabelPatch_def Let_def patched_labels_def str_get_def gomap_simps split: if_splits\<close>)
qed

text \<open>
  A pool that the mutator has labelled carries the VLAN id of its network in the vid
  label, from which it can be read back, and the global label is \<^verbatim>\<open>true\<close> exactly when its scope
  is the single tuple of three wildcards, so that \<^verbatim>\<open>Select\<close> and the validator agree on which
  pools are global; the other labels are kept, and mutating the labelled pool again changes
  nothing.
\<close>

theorem mutator_labels:
  assumes "pool_mutator_Create json nads pool w = Inr patch"
    and "pool' = pool\<lparr>pool_Meta := (pool_Meta pool)\<lparr>md_Labels := Some (patched_labels patch pool)\<rparr>\<rparr>"
  shows "labelled_global pool' = isGlobalIPPool pool \<and>
    (\<exists>vid. GetVid json nads (sel_Network (ps_Selector (pool_Spec pool))) w = Inr vid \<and>
       (- (2 ^ 63) \<le> vid \<longrightarrow> vid < 2 ^ 63 \<longrightarrow> Atoi (str_get (md_Labels (pool_Meta pool')) KeyVid) = Some vid)) \<and>
    (\<forall>k. k \<notin> {KeyVid, KeyGlobalIPPool} \<longrightarrow>
       m_get (entries (md_Labels (pool_Meta pool'))) k = m_get (entries (md_Labels (pool_Meta pool))) k) \<and>
    pool_mutator_Create json nads pool' w = Inr []"
proof -
  have "getLabelPatch json nads pool w = Inr patch"
    using assms(1) by (simp add: pool_mutator_Create_def split: sum.splits)
  then obtain vid where p: "GetVid json nads (sel_Network (ps_Selector (pool_Spec pool))) w = Inr vid"
    "str_get (Some (patched_labels patch pool)) KeyVid = Itoa vid"
    "str_get (Some (patched_labels patch pool)) KeyGlobalIPPool = FormatBool (isGlobalIPPool pool)"
    "\<forall>k. k \<notin> {KeyVid, KeyGlobalIPPool} \<longrightarrow>
      m_get (patched_labels patch pool) k = m_get (entries (md_Labels (pool_Meta pool))) k"
    by (rule getLabelPatch_labels)
  have "isGlobalIPPool pool' = isGlobalIPPool pool" using assms(2) by (simp add: isGlobalIPPool_def)
  then have "pool_mutator_Create json nads pool' w = Inr []"
    using assms(2) p(1-3) by (simp add: pool_mutator_Create_def getLabelPatch_def Let_def)
  moreover have "labelled_global pool' = isGlobalIPPool pool"
    using assms(2) p(3) by (simp add: labelled_global_def FormatBool_true)
  ultimately show ?thesis using assms(2) p Atoi_Itoa [of vid] by simp
qed

definition bare_global :: IPPool where
  "bare_global = mk_pool ''global'' [demo_range] (ns_selector All All All)"

theorem mutator_labels_witness:
  "\<exists>patch. pool_mutator_Create (\<lambda>_. Inr 0) \<lparr>nc_Get = \<lambda>_ _ _. Inl (errorf '''')\<rparr> bare_global () = Inr patch \<and>
     \<not> labelled_global bare_global \<and>
     labelled_global (bare_global\<lparr>pool_Meta := (pool_Meta bare_global)
       \<lparr>md_Labels := Some (patched_labels patch bare_global)\<rparr>\<rparr>)"
proof -
  have "ok (pool_mutator_Create (\<lambda>_. Inr 0) \<lparr>nc_Get = \<lambda>_ _ (_ :: unit). Inl (errorf '''')\<rparr> bare_global ())" by code_simp
  then obtain patch where
    p: "pool_mutator_Create (\<lambda>_. Inr 0) \<lparr>nc_Get = \<lambda>_ _ _. Inl (errorf '''')\<rparr> bare_global () = Inr patch"
    unfolding ok_iff by blast
  have "isGlobalIPPool bare_global" "\<not> labelled_global bare_global" by code_simp+
  with p mutator_labels [OF p refl] show ?thesis by blast
qed

text \<open>
  At most one pool is global: when the validator accepts a pool whose scope is the three
  wildcards, every pool in the lister that carries the global label is that pool.
\<close>

theorem global_pool_unique:
  assumes "pool_admitted server_cache pool w" and "isGlobalIPPool pool"
    and "q \<in> snd ` set (srv_cache w)" and "labelled_global q"
  shows "pool_Name q = pool_Name pool"
proof -
  have "checkGlobalIPPool server_cache pool w = Inr ()"
    using pool_admitted_cases [OF assms(1)] assms(2) by (metis checkSelector_def)
  then have none: "find (\<lambda>p. pool_Name p \<noteq> pool_Name pool)
      (filter (\<lambda>p. has_labels [(KeyGlobalIPPool, ValueTrue)] (pool_Meta p)) (map snd (srv_cache w))) = None"
    by (simp add: checkGlobalIPPool_def server_cache_def srv_List_def split: option.splits)
  have "has_labels [(KeyGlobalIPPool, ValueTrue)] (pool_Meta q)"
    using assms(4) by (auto simp: labelled_global_def str_get_def has_labels_def ValueTrue_def split: option.splits)
  then show ?thesis using none assms(3) by (auto simp: find_None_iff)
qed

definition global_pool :: IPPool where
  "global_pool = (mk_pool ''global'' [demo_range] (ns_selector All All All))
     \<lparr>pool_Meta := empty_meta\<lparr>md_Name := ''global'', md_Labels := Some [(KeyGlobalIPPool, ValueTrue)]\<rparr>\<rparr>"

theorem global_pool_unique_witness:
  "pool_admitted server_cache global_pool (amb_world [global_pool]) \<and> pool_Name global_pool = ''global''"
proof -
  have a: "pool_admitted server_cache global_pool (amb_world [global_pool])"
    unfolding pool_admitted_def by (rule disjI1) code_simp
  have "isGlobalIPPool global_pool" "labelled_global global_pool" by code_simp+
  moreover have "global_pool \<in> snd ` set (srv_cache (amb_world [global_pool]))" by (simp add: amb_world_def)
  ultimately have "pool_Name global_pool = pool_Name global_pool" using global_pool_unique [OF a] by blast
  with a show ?thesis by (simp add: global_pool_def)
qed

section \<open>The choice in strict mode\<close>

text \<open>
  The validator compares a pool with the pools that are listed at that moment. What it compares
  are names, selectors and the global label, which a later change of the allocations keeps: a pool
  is checked against another when the validator once accepted a version of the first while a
  version of the second was listed, each with the name, the selector and the label it has now.
\<close>

definition same_selector :: "IPPool \<Rightarrow> IPPool \<Rightarrow> bool" where
  "same_selector p q \<longleftrightarrow> pool_Name p = pool_Name q \<and> ps_Selector (pool_Spec p) = ps_Selector (pool_Spec q) \<and>
     labelled_global p = labelled_global q"

definition checked_against :: "IPPool \<Rightarrow> IPPool \<Rightarrow> bool" where
  "checked_against p q \<longleftrightarrow> (\<exists>w p' q'. pool_admitted server_cache p' w \<and> q' \<in> snd ` set (srv_cache w) \<and>
     same_selector p p' \<and> same_selector q q')"

lemma same_selector_simps:
  assumes "same_selector p p'"
  shows "pool_Name p' = pool_Name p" and "prio p' = prio p" and "isGlobalIPPool p' = isGlobalIPPool p"
    and "labelled_global p' = labelled_global p" and "ps_Selector (pool_Spec p') = ps_Selector (pool_Spec p)"
  using assms by (simp_all add: same_selector_def isGlobalIPPool_def)

lemma checked_priority:
  assumes "checked_against p q" and "pool_Name q \<noteq> pool_Name p" and "\<not> isGlobalIPPool p" and "\<not> isGlobalIPPool q"
    and "concrete r" and "Matches (NewMatcher (ps_Selector (pool_Spec p))) r"
    and "Matches (NewMatcher (ps_Selector (pool_Spec q))) r"
  shows "prio p \<noteq> prio q"
proof -
  obtain w p' q' where w: "pool_admitted server_cache p' w" "q' \<in> snd ` set (srv_cache w)"
    and s: "same_selector p p'" "same_selector q q'"
    using assms(1) by (auto simp: checked_against_def)
  have "pc_List server_cache [] w = Inr (map snd (srv_cache w))"
    by (simp add: server_cache_def srv_List_def has_labels_def)
  from admitted_priority_differs [OF w(1) this, of q' r] show ?thesis
    using w(2) assms(2-7) by (simp add: same_selector_simps [OF s(1)] same_selector_simps [OF s(2)])
qed

lemma checked_global:
  assumes "checked_against p q" and "isGlobalIPPool p" and "labelled_global q"
  shows "pool_Name q = pool_Name p"
proof -
  obtain w p' q' where w: "pool_admitted server_cache p' w" "q' \<in> snd ` set (srv_cache w)"
    and s: "same_selector p p'" "same_selector q q'"
    using assms(1) by (auto simp: checked_against_def)
  then show ?thesis using global_pool_unique [OF w(1) _ w(2)] assms(2,3)
    by (simp add: same_selector_simps [OF s(1)] same_selector_simps [OF s(2)])
qed

lemma Select_Inr: "pc_List ca [] w = Inr pools \<Longrightarrow> \<exists>res. Select ca (Some r) l w = Inr res"
  by (auto simp: Select_def split: option.splits prod.splits)

definition chosen :: "Requirement \<Rightarrow> IPPool list \<Rightarrow> IPPool option \<Rightarrow> bool" where
  "chosen r pools res \<longleftrightarrow>
     (case res of
        Some p \<Rightarrow> p \<in> set pools \<and>
          (eligible r False p \<and> (\<forall>q \<in> set pools. eligible r False q \<longrightarrow> prio q \<le> prio p) \<or>
           labelled_global p \<and> (\<forall>q \<in> set pools. \<not> eligible r False q))
      | None \<Rightarrow> \<forall>q \<in> set pools. \<not> eligible r False q \<and> \<not> labelled_global q)"

lemma Select_chosen:
  assumes "Select ca (Some r) False w = Inr res" and "pc_List ca [] w = Inr pools"
  shows "chosen r pools res"
  using Select_cases [OF assms(1)] assms(2) by (auto simp: chosen_def split: option.split)

lemma chosen_unique:
  assumes "chosen r pools x" and "chosen r pools y"
    and one: "\<And>p q. \<lbrakk>p \<in> set pools; q \<in> set pools; eligible r False p; eligible r False q; prio p = prio q\<rbrakk> \<Longrightarrow> p = q"
    and glob: "\<And>p q. \<lbrakk>p \<in> set pools; q \<in> set pools; labelled_global p; labelled_global q\<rbrakk> \<Longrightarrow> p = q"
  shows "x = y"
proof (cases x)
  case None
  then show ?thesis using assms(1,2) by (auto simp: chosen_def split: option.splits)
next
  case (Some p)
  note p = assms(1) [unfolded chosen_def Some option.case]
  then obtain q where y: "y = Some q" using assms(2) by (cases y) (auto simp: chosen_def)
  note q = assms(2) [unfolded chosen_def y option.case]
  have "p = q"
  proof (cases "eligible r False p")
    case True
    then have "eligible r False q" "prio q \<le> prio p" "prio p \<le> prio q" using p q by (auto simp: eligible_def)
    then show ?thesis using one True p q by (meson order.antisym)
  next
    case False
    then have "labelled_global p" "labelled_global q" using p q by blast+
    then show ?thesis using glob p q by blast
  qed
  then show ?thesis using Some y by simp
qed

text \<open>
  \<^bold>\<open>C27.\<close> In strict mode the pool that a load balancer with a concrete requirement gets does not
  depend on the order of the list: if the listed pools have different names, carry the global label
  exactly when their scope is the three wildcards, as the mutator labels them, and of every two of them one
  was accepted by the validator while the other was listed, then \<^verbatim>\<open>Select\<close> gives the same result for
  every list of these pools. Between scoped pools that match, the priorities are different; a
  global pool is chosen only if none matches, and there is at most one.
\<close>

theorem Select_order_irrelevant:
  assumes "pc_List ca [] w = Inr pools" and "pc_List ca' [] w' = Inr pools'" and "set pools' = set pools"
    and "inj_on pool_Name (set pools)" and "\<forall>p \<in> set pools. labelled_global p = isGlobalIPPool p"
    and "\<forall>p \<in> set pools. \<forall>q \<in> set pools. p \<noteq> q \<longrightarrow> checked_against p q \<or> checked_against q p"
    and "concrete r"
  shows "Select ca (Some r) False w = Select ca' (Some r) False w'"
proof -
  obtain x y where x: "Select ca (Some r) False w = Inr x" and y: "Select ca' (Some r) False w' = Inr y"
    using Select_Inr assms(1,2) by metis
  have one: "p = q" if "p \<in> set pools" "q \<in> set pools" "eligible r False p" "eligible r False q" "prio p = prio q" for p q
  proof (rule ccontr)
    assume d: "p \<noteq> q"
    have n: "pool_Name p \<noteq> pool_Name q" using d assms(4) that(1,2) by (auto dest: inj_onD)
    have "\<not> isGlobalIPPool p" "\<not> isGlobalIPPool q" using assms(5) that by (auto simp: eligible_def)
    then show False using assms(6) that d checked_priority [of p q r] checked_priority [of q p r] n assms(7)
      by (auto simp: eligible_def NewMatcher_def NewMatcherWithMode_def)
  qed
  have glob: "p = q" if "p \<in> set pools" "q \<in> set pools" "labelled_global p" "labelled_global q" for p q
  proof (rule ccontr)
    assume d: "p \<noteq> q"
    have "pool_Name p \<noteq> pool_Name q" using d assms(4) that(1,2) by (auto dest: inj_onD)
    then show False using assms(5,6) that d checked_global [of p q] checked_global [of q p] by auto
  qed
  have bx: "chosen r pools x" using Select_chosen [OF x assms(1)] .
  have "chosen r pools' y" using Select_chosen [OF y assms(2)] .
  then have "chosen r pools y" by (simp only: chosen_def assms(3))
  then have "x = y" by (rule chosen_unique [OF bx]) (erule (4) one, erule (3) glob)
  then show ?thesis using x y by simp
qed

definition prio_pool :: IPPool where
  "prio_pool = mk_pool ''prio'' [plain_range] ((ns_selector '''' ''default'' '''')\<lparr>sel_Priority := 5\<rparr>)"

theorem Select_order_irrelevant_witness:
  "Select server_cache (Some default_requirement) False (amb_world [demo_pool, prio_pool]) = Inr (Some prio_pool) \<and>
   Select server_cache (Some default_requirement) False (amb_world [prio_pool, demo_pool]) = Inr (Some prio_pool)"
proof -
  have l: "pc_List server_cache [] (amb_world ps) = Inr ps" for ps
    by (induction ps) (simp_all add: server_cache_def srv_List_def amb_world_def has_labels_def)
  have a: "pool_admitted server_cache prio_pool (amb_world [demo_pool, prio_pool])"
    unfolding pool_admitted_def by (rule disjI1) code_simp
  have c: "checked_against prio_pool demo_pool"
    unfolding checked_against_def using a by (intro exI [of _ "amb_world [demo_pool, prio_pool]"]
      exI [of _ prio_pool] exI [of _ demo_pool]) (simp add: amb_world_def same_selector_def)
  have g: "labelled_global p = isGlobalIPPool p" if "p \<in> {demo_pool, prio_pool}" for p
    using that by (elim insertE emptyE; hypsubst) code_simp+
  have n: "pool_Name demo_pool \<noteq> pool_Name prio_pool" "concrete default_requirement" by code_simp+
  have "Select server_cache (Some default_requirement) False (amb_world [demo_pool, prio_pool]) = Inr (Some prio_pool)"
    by code_simp
  moreover have "Select server_cache (Some default_requirement) False (amb_world [demo_pool, prio_pool]) =
      Select server_cache (Some default_requirement) False (amb_world [prio_pool, demo_pool])"
    by (rule Select_order_irrelevant [OF l l]) (use c g n in \<open>auto simp: inj_on_def\<close>)
  ultimately show ?thesis by simp
qed

end
