(* ===== verification/KubeObjects.thy ===== *)
theory KubeObjects
  imports KubeAPI
begin

text \<open>
  The other Kubernetes and KubeVirt objects the program reads and writes, the interface records of
  their listers and clients, and the helpers of \<^verbatim>\<open>pkg/utils\<close> (\<^verbatim>\<open>selector.go\<close>,
  \<^verbatim>\<open>guestcluster.go\<close>, and \<^verbatim>\<open>SplitIPAllocatedString\<close> of \<^verbatim>\<open>vid.go\<close>).

  An object has the fields the program reads or writes; the program copies an object before it
  changes it, so a record update stands for the change of the copy. Listers and clients are
  parameters over a type \<open>'w\<close> of worlds, as in \<open>KubeAPI\<close>. A label selector is a list of
  requirements, each a key and the values it may have; the empty list selects everything. The
  validation of \<^verbatim>\<open>labels.NewRequirement\<close> is a parameter. The ports of a service are compared with
  \<^verbatim>\<open>reflect.DeepEqual\<close>, which tells a nil slice from an empty one and sees the node ports that the API
  server allocates, so both are kept.
\<close>

section \<open>Objects\<close>

record ObjectReference =
  ref_Namespace :: string
  ref_Name :: string
  ref_UID :: string

record ServicePort =
  sp_Name :: string
  sp_Protocol :: string
  sp_Port :: int32
  sp_TargetPort :: int32
  sp_NodePort :: int32

record Service =
  svc_Meta :: ObjectMeta
  svc_Type :: string
  svc_LoadBalancerIP :: string
  svc_Ports :: "ServicePort list option"
  svc_Ingress :: "string list"

record Endpoint =
  ep_Addresses :: "string list"
  ep_TargetRef :: "ObjectReference option"
  ep_Ready :: "bool option"

record EndpointPort =
  epp_Name :: string
  epp_Protocol :: string
  epp_Port :: int32

record EndpointSlice =
  eps_Meta :: ObjectMeta
  eps_AddressType :: string
  eps_Endpoints :: "Endpoint list"
  eps_Ports :: "EndpointPort list"

text \<open>A network of a VMI is the Multus network name, \<open>None\<close> for another kind of network.\<close>

record VirtualMachineInstance =
  vmi_Meta :: ObjectMeta
  vmi_Interfaces :: "string list"
  vmi_Networks :: "string option list"

record VirtualMachine =
  vm_Meta :: ObjectMeta

record ConfigMap =
  cm_Meta :: ObjectMeta
  cm_Data :: strmap

record Namespace =
  ns_Meta :: ObjectMeta

section \<open>Selectors\<close>

type_synonym LabelSelector = "(string \<times> string list) list"

definition selector_Matches :: "LabelSelector \<Rightarrow> strmap option \<Rightarrow> bool" where
  "selector_Matches sel labels =
     list_all (\<lambda>(k, vs). case m_get (entries labels) k of None \<Rightarrow> False | Some v \<Rightarrow> v \<in> set vs) sel"

definition set_selector :: "strmap \<Rightarrow> LabelSelector" where
  "set_selector m = map (\<lambda>(k, v). (k, [v])) m"

fun NewSelector :: "(string \<Rightarrow> string list \<Rightarrow> unit res) \<Rightarrow> (string, string list) gomap \<Rightarrow> LabelSelector res" where
  "NewSelector newRequirement [] = Inr []"
| "NewSelector newRequirement ((key, values) # m) =
     (case newRequirement key values of
        Inl e \<Rightarrow> Inl e
      | Inr _ \<Rightarrow>
          (case NewSelector newRequirement m of Inl e \<Rightarrow> Inl e | Inr rs \<Rightarrow> Inr ((key, values) # rs)))"

definition NewGuestClusterCreatorSelector :: LabelSelector where
  "NewGuestClusterCreatorSelector = set_selector [(LabelKeyHarvesterCreator, GuestClusterHarvesterNodeDriver)]"

definition NewGuestClusterNameSelector :: "string \<Rightarrow> LabelSelector" where
  "NewGuestClusterNameSelector gcName = set_selector [(LabelKeyGuestClusterNameOnVM, gcName)]"

definition NewGuestClusterNameAndCreatorNameSelector :: "string \<Rightarrow> LabelSelector" where
  "NewGuestClusterNameAndCreatorNameSelector gcName = set_selector
     [(LabelKeyHarvesterCreator, GuestClusterHarvesterNodeDriver), (LabelKeyGuestClusterNameOnVM, gcName)]"

section \<open>Interfaces\<close>

record 'w ServiceOps =
  svo_Get :: "string \<Rightarrow> string \<Rightarrow> 'w \<Rightarrow> Service res"
  svo_Update :: "Service \<Rightarrow> 'w \<Rightarrow> Service res \<times> 'w"
  svo_Create :: "Service \<Rightarrow> 'w \<Rightarrow> Service res \<times> 'w"

record 'w EndpointSliceOps =
  eso_Get :: "string \<Rightarrow> string \<Rightarrow> 'w \<Rightarrow> EndpointSlice res"
  eso_Update :: "EndpointSlice \<Rightarrow> 'w \<Rightarrow> EndpointSlice res \<times> 'w"
  eso_Create :: "EndpointSlice \<Rightarrow> 'w \<Rightarrow> EndpointSlice res \<times> 'w"

record 'w LBOps =
  lbo_Get :: "string \<Rightarrow> string \<Rightarrow> 'w \<Rightarrow> LoadBalancer res"
  lbo_List :: "string \<Rightarrow> LabelSelector \<Rightarrow> 'w \<Rightarrow> LoadBalancer list res"
  lbo_Update :: "LoadBalancer \<Rightarrow> 'w \<Rightarrow> LoadBalancer res \<times> 'w"
  lbo_Delete :: "string \<Rightarrow> string \<Rightarrow> 'w \<Rightarrow> error option \<times> 'w"
  lbo_Enqueue :: "string \<Rightarrow> string \<Rightarrow> 'w \<Rightarrow> 'w"
  lbo_EnqueueAfter :: "string \<Rightarrow> string \<Rightarrow> int \<Rightarrow> 'w \<Rightarrow> 'w"

record 'w ConfigMapOps =
  cmo_Get :: "string \<Rightarrow> string \<Rightarrow> 'w \<Rightarrow> ConfigMap res"
  cmo_List :: "'w \<Rightarrow> ConfigMap list res"
  cmo_Update :: "ConfigMap \<Rightarrow> 'w \<Rightarrow> ConfigMap res \<times> 'w"

type_synonym 'w VmiList = "string \<Rightarrow> LabelSelector \<Rightarrow> 'w \<Rightarrow> VirtualMachineInstance list res"
type_synonym 'w VmList = "string \<Rightarrow> LabelSelector \<Rightarrow> 'w \<Rightarrow> VirtualMachine list res"
type_synonym 'w NamespaceGet = "string \<Rightarrow> 'w \<Rightarrow> Namespace res"

section \<open>Guest clusters\<close>

definition IsGuestClusterVMI :: "VirtualMachineInstance option \<Rightarrow> bool" where
  "IsGuestClusterVMI vmi =
     (case vmi of None \<Rightarrow> False
      | Some v \<Rightarrow> str_get (md_Labels (vmi_Meta v)) LabelKeyHarvesterCreator = GuestClusterHarvesterNodeDriver)"

definition IsGuestClusterVM :: "VirtualMachine option \<Rightarrow> bool" where
  "IsGuestClusterVM vm =
     (case vm of None \<Rightarrow> False
      | Some v \<Rightarrow> str_get (md_Labels (vm_Meta v)) LabelKeyHarvesterCreator = GuestClusterHarvesterNodeDriver)"

definition IsVmiWithGuestClusterOnRemoveAnnotation :: "VirtualMachineInstance option \<Rightarrow> bool" where
  "IsVmiWithGuestClusterOnRemoveAnnotation vmi =
     (case vmi of None \<Rightarrow> False
      | Some v \<Rightarrow> str_get (md_Annotations (vmi_Meta v)) AnnotationKeyGuestClusterOnRemove = ''true'')"

definition IsVmWithGuestClusterOnRemoveAnnotation :: "VirtualMachine option \<Rightarrow> bool" where
  "IsVmWithGuestClusterOnRemoveAnnotation vm =
     (case vm of None \<Rightarrow> False
      | Some v \<Rightarrow> str_get (md_Annotations (vm_Meta v)) AnnotationKeyGuestClusterOnRemove = ''true'')"

definition GetGuestClusterNameFromVM :: "VirtualMachine option \<Rightarrow> string option" where
  "GetGuestClusterNameFromVM vm =
     (case vm of None \<Rightarrow> None | Some v \<Rightarrow> m_get (entries (md_Labels (vm_Meta v))) LabelKeyGuestClusterNameOnVM)"

definition GetGuestClusterNameFromLB :: "LoadBalancer option \<Rightarrow> string option" where
  "GetGuestClusterNameFromLB lb =
     (case lb of None \<Rightarrow> None | Some l \<Rightarrow> m_get (entries (md_Labels (lb_Meta l))) LabelKeyGuestClusterNameOnLB)"

section \<open>Allocation records\<close>

definition SplitIPAllocatedString :: "string \<Rightarrow> (string \<times> string \<times> string) res" where
  "SplitIPAllocatedString s =
     (let ipStr = Trim_space s; err = Inl (errorf (ipStr @ '' is not a valid allocation record'')) in
      case Split (CHR '':'') ipStr of
        [a, b] \<Rightarrow>
          (case Split (CHR ''/'') (Trim_space b) of
             [namespace, name] \<Rightarrow> Inr (a, namespace, name)
           | _ \<Rightarrow> err)
      | _ \<Rightarrow> err)"

section \<open>Lemmas\<close>

lemma NewSelector_Inr: "NewSelector nr m = Inr sel \<Longrightarrow> sel = m \<and> (\<forall>(k, vs) \<in> set m. nr k vs = Inr ())"
  by (induction nr m arbitrary: sel rule: NewSelector.induct) (auto split: sum.splits)

lemma set_selector_Matches:
  "selector_Matches (set_selector m) labels \<longleftrightarrow> (\<forall>(k, v) \<in> set m. m_get (entries labels) k = Some v)"
  by (auto simp: selector_Matches_def set_selector_def list_all_iff split: option.splits)

lemma Trim_space_count:
  assumes "c \<noteq> CHR '' ''"
  shows "count (mset (Trim_space s)) c = count (mset s) c"
proof -
  have d: "count (mset (dropWhile (\<lambda>x. x = CHR '' '') t)) c = count (mset t) c" for t
    using assms by (induction t) auto
  show ?thesis
    unfolding Trim_space_def by (simp add: d)
qed

end
