(* ===== verification/Prober.thy ===== *)
theory Prober
  imports ApiTypes
begin

text \<open>
  Health checking: \<^verbatim>\<open>pkg/prober\<close>. A worker probes one address on a ticker, counts successes
  and failures and sends a report when a threshold is reached; the manager keeps the workers of
  every load balancer by uid and address.

  The TCP probe is a parameter: a probe of the model is a boolean, true when the check returned
  no error. A message sent on the channel is an element of the list of reports that
  \<open>doProbe\<close> returns. A worker is a goroutine with an identity: the manager holds the identities
  that are running, \<^verbatim>\<open>go w.run()\<close> adds one and the handshake of \<^verbatim>\<open>w.stop()\<close> removes one.
  The manager's lock makes each of its operations one step.
\<close>

section \<open>Options and reports\<close>

record HealthOption =
  ho_Address :: string
  ho_SuccessThreshold :: gouint
  ho_FailureThreshold :: gouint
  ho_Timeout :: int64
  ho_Period :: int64
  ho_InitialCondition :: bool

record healthCondition =
  hr_uid :: string
  hr_address :: string
  hr_isHealthy :: bool

definition ho_Equal :: "HealthOption \<Rightarrow> HealthOption \<Rightarrow> bool" where
  "ho_Equal ho h \<longleftrightarrow>
     ho_Address ho = ho_Address h \<and> ho_SuccessThreshold ho = ho_SuccessThreshold h \<and>
     ho_FailureThreshold ho = ho_FailureThreshold h \<and> ho_Timeout ho = ho_Timeout h \<and> ho_Period ho = ho_Period h"

section \<open>Workers\<close>

record Worker =
  wk_id :: nat
  wk_option :: HealthOption
  wk_uid :: string
  wk_successCounter :: gouint
  wk_failureCounter :: gouint
  wk_condition :: bool
  wk_logFailure :: bool
  wk_logSuccess :: bool

definition newWorker :: "nat \<Rightarrow> string \<Rightarrow> HealthOption \<Rightarrow> Worker" where
  "newWorker n uid option = \<lparr>wk_id = n, wk_option = option, wk_uid = uid, wk_successCounter = 0,
     wk_failureCounter = 0, wk_condition = ho_InitialCondition option, wk_logFailure = True, wk_logSuccess = True\<rparr>"

definition report :: "Worker \<Rightarrow> healthCondition" where
  "report w = \<lparr>hr_uid = wk_uid w, hr_address = ho_Address (wk_option w), hr_isHealthy = wk_condition w\<rparr>"

text \<open>
  The TCP check of the third-party checker is a parameter; \<^verbatim>\<open>nil\<close> is None.
\<close>

definition Probe :: "(string \<Rightarrow> int64 \<Rightarrow> error option) \<Rightarrow> string \<Rightarrow> int64 \<Rightarrow> error option" where
  "Probe checkAddr address timeout = checkAddr address timeout"

definition probe :: "(string \<Rightarrow> int64 \<Rightarrow> error option) \<Rightarrow> Worker \<Rightarrow> error option" where
  "probe checkAddr w = Probe checkAddr (ho_Address (wk_option w)) (ho_Timeout (wk_option w))"

definition doProbe :: "bool \<Rightarrow> Worker \<Rightarrow> Worker \<times> healthCondition list" where
  "doProbe success w =
     (if \<not> success then
        (let w1 = w\<lparr>wk_successCounter := 0, wk_failureCounter := wk_failureCounter w + 1, wk_logSuccess := True\<rparr> in
         if ho_FailureThreshold (wk_option w1) \<le> wk_failureCounter w1 then
           (let w2 = w1\<lparr>wk_logFailure := False, wk_condition := False\<rparr>
            in (w2\<lparr>wk_failureCounter := 0\<rparr>, [report w2]))
         else (w1, []))
      else
        (let w1 = w\<lparr>wk_failureCounter := 0, wk_successCounter := wk_successCounter w + 1, wk_logFailure := True\<rparr> in
         if ho_SuccessThreshold (wk_option w1) \<le> wk_successCounter w1 then
           (let w2 = w1\<lparr>wk_logSuccess := False, wk_condition := True\<rparr>
            in (w2\<lparr>wk_successCounter := 0\<rparr>, [report w2]))
         else (w1, [])))"

text \<open>
  \<^verbatim>\<open>run\<close>: the ticker panics for a period that is not positive; otherwise each pass of the loop takes a
  stop request, which ends it, or a tick with the result of the probe.
\<close>

datatype wevent = StopReq | Tick bool

fun run_loop :: "wevent list \<Rightarrow> Worker \<Rightarrow> Worker \<times> healthCondition list" where
  "run_loop [] w = (w, [])"
| "run_loop (StopReq # evs) w = (w, [])"
| "run_loop (Tick r # evs) w =
     (let (w1, ms) = doProbe r w; (w2, ms') = run_loop evs w1 in (w2, ms @ ms'))"

definition run :: "wevent list \<Rightarrow> Worker \<Rightarrow> (Worker \<times> healthCondition list) res" where
  "run evs w =
     (if sint (ho_Period (wk_option w)) \<le> 0 then Inl (Panic ''non-positive interval for NewTicker'')
      else Inr (run_loop evs w))"

section \<open>The manager\<close>

type_synonym WorkerMap = "(string, Worker) gomap"

record ProbeManager =
  pm_workers :: "(string, WorkerMap) gomap"
  pm_running :: "nat list"
  pm_next :: nat

definition NewProbeManager :: ProbeManager where
  "NewProbeManager = \<lparr>pm_workers = [], pm_running = [], pm_next = 0\<rparr>"

text \<open>
  The loop of \<^verbatim>\<open>NewManager\<close> hands every report to the handler; an error of the handler is logged
  and dropped.
\<close>

fun deliver :: "(string \<Rightarrow> string \<Rightarrow> bool \<Rightarrow> 's \<Rightarrow> unit res \<times> 's) \<Rightarrow> healthCondition list \<Rightarrow> 's \<Rightarrow> 's" where
  "deliver handler [] s = s"
| "deliver handler (c # cs) s = deliver handler cs (snd (handler (hr_uid c) (hr_address c) (hr_isHealthy c) s))"

definition GetWorkerHealthOptionMap :: "string \<Rightarrow> ProbeManager \<Rightarrow> (string, HealthOption) gomap option" where
  "GetWorkerHealthOptionMap uid m =
     (case m_get (pm_workers m) uid of
        None \<Rightarrow> None
      | Some wm \<Rightarrow> Some (fold (\<lambda>(k, w) prob. m_set (ho_Address (wk_option w)) (wk_option w) prob) wm []))"

definition stop_worker :: "Worker \<Rightarrow> nat list \<Rightarrow> nat list" where
  "stop_worker w running = remove1 (wk_id w) running"

definition AddWorker :: "string \<Rightarrow> string \<Rightarrow> HealthOption \<Rightarrow> ProbeManager \<Rightarrow> ProbeManager" where
  "AddWorker uid address option m =
     (let wm = (case m_get (pm_workers m) uid of None \<Rightarrow> [] | Some wm \<Rightarrow> wm);
          running = (case m_get wm address of None \<Rightarrow> pm_running m | Some w \<Rightarrow> stop_worker w (pm_running m));
          w = newWorker (pm_next m) uid option
      in \<lparr>pm_workers = m_set uid (m_set address w wm) (pm_workers m),
          pm_running = wk_id w # running, pm_next = Suc (pm_next m)\<rparr>)"

definition RemoveWorker :: "string \<Rightarrow> string \<Rightarrow> ProbeManager \<Rightarrow> nat \<times> ProbeManager" where
  "RemoveWorker uid address m =
     (case m_get (pm_workers m) uid of
        None \<Rightarrow> (0, m)
      | Some wm \<Rightarrow>
          (case m_get wm address of
             None \<Rightarrow> (0, m)
           | Some w \<Rightarrow> (1, m\<lparr>pm_workers := m_set uid (m_del address wm) (pm_workers m),
                              pm_running := stop_worker w (pm_running m)\<rparr>)))"

definition RemoveWorkersByUid :: "string \<Rightarrow> ProbeManager \<Rightarrow> nat \<times> ProbeManager" where
  "RemoveWorkersByUid uid m =
     (case m_get (pm_workers m) uid of
        None \<Rightarrow> (0, m)
      | Some wm \<Rightarrow> (length wm, m\<lparr>pm_workers := m_del uid (pm_workers m),
                                   pm_running := fold (\<lambda>(k, w). stop_worker w) wm (pm_running m)\<rparr>))"

section \<open>The thresholds\<close>

fun run_probes :: "bool list \<Rightarrow> Worker \<Rightarrow> Worker \<times> healthCondition list" where
  "run_probes [] w = (w, [])"
| "run_probes (r # rs) w = (let (w1, ms) = doProbe r w; (w2, ms') = run_probes rs w1 in (w2, ms @ ms'))"

lemma run_loop_ticks: "run_loop (map Tick rs @ StopReq # evs) w = run_probes rs w"
  by (induction rs arbitrary: w) auto

lemma run_ticks:
  "0 < sint (ho_Period (wk_option w)) \<Longrightarrow> run (map Tick rs @ StopReq # evs) w = Inr (run_probes rs w)"
  by (simp add: run_def run_loop_ticks)

lemma run_probes_append:
  "run_probes (rs @ qs) w = (let (w1, ms) = run_probes rs w; (w2, ms') = run_probes qs w1 in (w2, ms @ ms'))"
  by (induction rs arbitrary: w) (auto split: prod.splits)

text \<open>The number of results equal to \<open>b\<close> at the end of a list.\<close>

definition streak :: "bool \<Rightarrow> bool list \<Rightarrow> nat" where
  "streak b rs = length (takeWhile (\<lambda>r. r = b) (rev rs))"

lemma streak_simps [simp]:
  "streak b [] = 0" "streak b (rs @ [b]) = Suc (streak b rs)" "streak (\<not> b) (rs @ [b]) = 0"
  "streak False (rs @ [True]) = 0" "streak True (rs @ [False]) = 0"
  by (simp_all add: streak_def)

definition thresholds_ok :: "HealthOption \<Rightarrow> bool" where
  "thresholds_ok o' \<longleftrightarrow> 0 < ho_SuccessThreshold o' \<and> 0 < ho_FailureThreshold o'"

lemma unat_Suc_bound: "unat (a :: gouint) < unat (b :: gouint) \<Longrightarrow> unat (a + 1) = Suc (unat a)"
proof -
  assume "unat a < unat b"
  moreover have "unat b < 2 ^ LENGTH(64)" by (rule unsigned_less)
  ultimately show ?thesis by (simp add: unat_word_ariths)
qed

lemma mod_Suc_step:
  assumes "0 < f" and "c = s mod f"
  shows "f \<le> Suc c \<longleftrightarrow> Suc s mod f = 0" "\<not> f \<le> Suc c \<Longrightarrow> Suc s mod f = Suc c"
proof -
  have "c < f" using assms by simp
  then show "f \<le> Suc c \<longleftrightarrow> Suc s mod f = 0" "\<not> f \<le> Suc c \<Longrightarrow> Suc s mod f = Suc c"
    using assms(2) by (auto simp: mod_Suc)
qed

text \<open>The state of a worker after a list of results.\<close>

definition probe_state :: "HealthOption \<Rightarrow> bool list \<Rightarrow> Worker \<Rightarrow> bool" where
  "probe_state o' rs w \<longleftrightarrow>
     wk_option w = o' \<and>
     unat (wk_failureCounter w) = streak False rs mod unat (ho_FailureThreshold o') \<and>
     unat (wk_successCounter w) = streak True rs mod unat (ho_SuccessThreshold o')"

definition reports_at :: "HealthOption \<Rightarrow> bool list \<Rightarrow> bool \<Rightarrow> bool" where
  "reports_at o' rs r \<longleftrightarrow>
     (if r then unat (ho_SuccessThreshold o') dvd streak True (rs @ [r])
      else unat (ho_FailureThreshold o') dvd streak False (rs @ [r]))"

lemma doProbe_step:
  assumes "thresholds_ok o'" and "probe_state o' rs w"
  shows "probe_state o' (rs @ [r]) (fst (doProbe r w))"
    and "snd (doProbe r w) =
      (if reports_at o' rs r
       then [\<lparr>hr_uid = wk_uid w, hr_address = ho_Address o', hr_isHealthy = r\<rparr>] else [])"
    and "wk_uid (fst (doProbe r w)) = wk_uid w"
    and "wk_condition (fst (doProbe r w)) = (if reports_at o' rs r then r else wk_condition w)"
proof -
  define F S where "F = unat (ho_FailureThreshold o')" and "S = unat (ho_SuccessThreshold o')"
  have FS: "0 < F" "0 < S" using assms(1) by (auto simp: thresholds_ok_def F_def S_def word_less_nat_alt)
  have o: "wk_option w = o'" and f: "unat (wk_failureCounter w) = streak False rs mod F"
    and s: "unat (wk_successCounter w) = streak True rs mod S"
    using assms(2) by (simp_all add: probe_state_def F_def S_def)
  have f1: "unat (wk_failureCounter w + 1) = Suc (streak False rs mod F)"
    using unat_Suc_bound [of "wk_failureCounter w" "ho_FailureThreshold o'"] f FS by (simp add: F_def)
  have s1: "unat (wk_successCounter w + 1) = Suc (streak True rs mod S)"
    using unat_Suc_bound [of "wk_successCounter w" "ho_SuccessThreshold o'"] s FS by (simp add: S_def)
  note fm = mod_Suc_step [OF FS(1) refl, of "streak False rs"] and sm = mod_Suc_step [OF FS(2) refl, of "streak True rs"]
  have fle: "ho_FailureThreshold o' \<le> wk_failureCounter w + 1 \<longleftrightarrow> F dvd Suc (streak False rs)"
    using fm(1) f1 by (simp add: word_le_nat_alt F_def dvd_eq_mod_eq_0)
  have sle: "ho_SuccessThreshold o' \<le> wk_successCounter w + 1 \<longleftrightarrow> S dvd Suc (streak True rs)"
    using sm(1) s1 by (simp add: word_le_nat_alt S_def dvd_eq_mod_eq_0)
  have fd: "\<not> F dvd Suc (streak False rs) \<Longrightarrow> Suc (streak False rs mod F) = Suc (streak False rs) mod F"
    using fm by (metis dvd_eq_mod_eq_0)
  have sd: "\<not> S dvd Suc (streak True rs) \<Longrightarrow> Suc (streak True rs mod S) = Suc (streak True rs) mod S"
    using sm by (metis dvd_eq_mod_eq_0)
  show "probe_state o' (rs @ [r]) (fst (doProbe r w))"
    using o f1 s1 fle sle fd sd FS
    by (cases r) (auto simp: probe_state_def doProbe_def Let_def F_def [symmetric] S_def [symmetric] dvd_eq_mod_eq_0)
  show "snd (doProbe r w) =
      (if reports_at o' rs r then [\<lparr>hr_uid = wk_uid w, hr_address = ho_Address o', hr_isHealthy = r\<rparr>] else [])"
    and "wk_uid (fst (doProbe r w)) = wk_uid w"
    and "wk_condition (fst (doProbe r w)) = (if reports_at o' rs r then r else wk_condition w)"
    using o fle sle
    by (cases r; simp add: doProbe_def Let_def report_def reports_at_def F_def [symmetric] S_def [symmetric])+
qed

text \<open>The reports that a list of results calls for.\<close>

definition due_reports :: "HealthOption \<Rightarrow> string \<Rightarrow> bool list \<Rightarrow> healthCondition list" where
  "due_reports o' uid rs =
     map (\<lambda>n. \<lparr>hr_uid = uid, hr_address = ho_Address o', hr_isHealthy = rs ! n\<rparr>)
       (filter (\<lambda>n. reports_at o' (take n rs) (rs ! n)) [0 ..< length rs])"

lemma due_reports_snoc:
  "due_reports o' uid (rs @ [r]) = due_reports o' uid rs @
     (if reports_at o' rs r then [\<lparr>hr_uid = uid, hr_address = ho_Address o', hr_isHealthy = r\<rparr>] else [])"
proof -
  have "filter (\<lambda>n. reports_at o' (take n (rs @ [r])) ((rs @ [r]) ! n)) [0 ..< length rs] =
      filter (\<lambda>n. reports_at o' (take n rs) (rs ! n)) [0 ..< length rs]"
    by (rule filter_cong) (simp_all add: nth_append)
  moreover have "map (\<lambda>n. \<lparr>hr_uid = uid, hr_address = ho_Address o', hr_isHealthy = (rs @ [r]) ! n\<rparr>) (filter P [0 ..< length rs]) =
      map (\<lambda>n. \<lparr>hr_uid = uid, hr_address = ho_Address o', hr_isHealthy = rs ! n\<rparr>) (filter P [0 ..< length rs])" for P
    by (rule map_cong) (auto simp: nth_append)
  ultimately show ?thesis by (simp add: due_reports_def)
qed

lemma newWorker_state: "probe_state o' [] (newWorker n uid o')"
  by (simp add: probe_state_def newWorker_def)

lemma run_probes_state:
  assumes "thresholds_ok o'"
  shows "probe_state o' rs (fst (run_probes rs (newWorker n uid o'))) \<and>
    wk_uid (fst (run_probes rs (newWorker n uid o'))) = uid"
proof (induction rs rule: rev_induct)
  case Nil
  then show ?case by (simp add: newWorker_state) (simp add: newWorker_def)
next
  case (snoc r rs)
  then show ?case
    using doProbe_step(1,3) [OF assms, of rs "fst (run_probes rs (newWorker n uid o'))" r]
    by (auto simp: run_probes_append split: prod.splits)
qed

lemma run_probes_due:
  assumes "thresholds_ok o'"
  shows "snd (run_probes rs (newWorker n uid o')) = due_reports o' uid rs"
proof (induction rs rule: rev_induct)
  case Nil
  then show ?case by (simp add: due_reports_def)
next
  case (snoc r rs)
  note st = run_probes_state [OF assms, of rs n uid]
  have "snd (doProbe r (fst (run_probes rs (newWorker n uid o')))) =
      (if reports_at o' rs r then [\<lparr>hr_uid = uid, hr_address = ho_Address o', hr_isHealthy = r\<rparr>] else [])"
    using doProbe_step(2) [OF assms conjunct1 [OF st], of r] st by simp
  then show ?case using snoc by (simp add: run_probes_append due_reports_snoc case_prod_beta Let_def)
qed

section \<open>One running goroutine per registered worker\<close>

definition all_workers :: "ProbeManager \<Rightarrow> Worker list" where
  "all_workers m = concat (map (\<lambda>(uid, wm). map snd wm) (pm_workers m))"

definition pm_inv :: "ProbeManager \<Rightarrow> bool" where
  "pm_inv m \<longleftrightarrow>
     m_wf (pm_workers m) \<and> (\<forall>(uid, wm) \<in> set (pm_workers m). m_wf wm) \<and>
     mset (map wk_id (all_workers m)) = mset (pm_running m) \<and> distinct (pm_running m) \<and>
     (\<forall>i \<in> set (pm_running m). i < pm_next m) \<and>
     (\<forall>(uid, wm) \<in> set (pm_workers m). \<forall>(a, w) \<in> set wm. wk_uid w = uid \<and> ho_Address (wk_option w) = a)"

definition wm_ids :: "WorkerMap \<Rightarrow> nat multiset" where
  "wm_ids wm = mset (map (\<lambda>(a, w). wk_id w) wm)"

definition ws_ids :: "(string, WorkerMap) gomap \<Rightarrow> nat multiset" where
  "ws_ids ws = sum_list (map (\<lambda>(uid, wm). wm_ids wm) ws)"

abbreviation wm_of :: "string \<Rightarrow> (string, WorkerMap) gomap \<Rightarrow> WorkerMap" where
  "wm_of uid ws \<equiv> entries (m_get ws uid)"

lemma all_workers_ids: "mset (map wk_id (all_workers m)) = ws_ids (pm_workers m)"
proof -
  have "mset (map wk_id (concat (map (\<lambda>(uid, wm). map snd wm) ws))) = ws_ids ws" for ws
    by (induction ws) (auto simp: ws_ids_def wm_ids_def comp_def case_prod_unfold)
  then show ?thesis by (simp add: all_workers_def)
qed

lemma wm_ids_set: "wm_ids (m_set a w wm) + (case m_get wm a of None \<Rightarrow> {#} | Some w0 \<Rightarrow> {#wk_id w0#}) =
    add_mset (wk_id w) (wm_ids wm)"
  by (induction wm) (auto simp: wm_ids_def)

lemma wm_ids_del: "m_wf wm \<Longrightarrow> wm_ids (m_del a wm) + (case m_get wm a of None \<Rightarrow> {#} | Some w0 \<Rightarrow> {#wk_id w0#}) = wm_ids wm"
proof (induction wm)
  case (Cons x wm)
  then show ?case by (cases x) (auto simp: wm_ids_def delete_absent m_get_None split: option.splits)
qed (simp add: wm_ids_def)

lemma ws_ids_set: "ws_ids (m_set uid wm ws) + wm_ids (wm_of uid ws) = ws_ids ws + wm_ids wm"
  by (induction ws) (auto simp: ws_ids_def wm_ids_def)

lemma ws_ids_del: "m_wf ws \<Longrightarrow> ws_ids (m_del uid ws) + wm_ids (wm_of uid ws) = ws_ids ws"
proof (induction ws)
  case (Cons x ws)
  then show ?case by (cases x) (auto simp: ws_ids_def wm_ids_def delete_absent m_get_None)
qed (simp add: ws_ids_def wm_ids_def)

lemma stop_all_mset:
  "wm_ids wm \<subseteq># mset running \<Longrightarrow> mset (fold (\<lambda>(k, w). stop_worker w) wm running) = mset running - wm_ids wm"
proof (induction wm arbitrary: running)
  case (Cons x wm)
  obtain a w where x: "x = (a, w)" by (cases x)
  have sub: "add_mset (wk_id w) (wm_ids wm) \<subseteq># mset running" using Cons.prems x by (simp add: wm_ids_def)
  then have "wm_ids wm \<subseteq># mset (remove1 (wk_id w) running)"
    by (simp add: insert_subset_eq_iff)
  from Cons.IH [OF this] show ?case using x by (simp add: stop_worker_def wm_ids_def)
qed (simp add: wm_ids_def)

lemma stop_all_distinct: "distinct running \<Longrightarrow> distinct (fold (\<lambda>(k, w). stop_worker w) wm running)"
  by (induction wm arbitrary: running) (auto simp: stop_worker_def)

text \<open>The maps alone: well-formed, and each worker is where its uid and address say.\<close>

definition wm_inv :: "string \<Rightarrow> WorkerMap \<Rightarrow> bool" where
  "wm_inv uid wm \<longleftrightarrow> m_wf wm \<and> (\<forall>(a, w) \<in> set wm. wk_uid w = uid \<and> ho_Address (wk_option w) = a)"

lemma pm_inv_iff:
  "pm_inv m \<longleftrightarrow> m_wf (pm_workers m) \<and> (\<forall>(uid, wm) \<in> set (pm_workers m). wm_inv uid wm) \<and>
     ws_ids (pm_workers m) = mset (pm_running m) \<and> distinct (pm_running m) \<and> (\<forall>i \<in> set (pm_running m). i < pm_next m)"
  unfolding pm_inv_def all_workers_ids wm_inv_def by auto

lemma set_AList_update: "set (m_set k v m) \<subseteq> insert (k, v) (set m)"
  by (induction m) auto

lemma set_AList_delete: "set (m_del k m) \<subseteq> set m"
  by (induction m) auto

lemma wm_inv_set: "wm_inv uid wm \<Longrightarrow> wk_uid w = uid \<Longrightarrow> ho_Address (wk_option w) = a \<Longrightarrow> wm_inv uid (m_set a w wm)"
  using set_AList_update [of a w wm] by (auto simp: wm_inv_def m_wf_set)

lemma wm_inv_del: "wm_inv uid wm \<Longrightarrow> wm_inv uid (m_del a wm)"
  using set_AList_delete [of a wm] by (auto simp: wm_inv_def m_wf_del)

lemma wm_inv_of: "\<forall>(uid, wm) \<in> set ws. wm_inv uid wm \<Longrightarrow> wm_inv uid (wm_of uid ws)"
  by (cases "m_get ws uid") (force simp: wm_inv_def dest: map_of_SomeD)+

lemma ws_inv_set:
  assumes "\<forall>(uid, wm) \<in> set ws. wm_inv uid wm" and "wm_inv uid wm"
  shows "\<forall>(uid, wm) \<in> set (m_set uid wm ws). wm_inv uid wm"
  using assms set_AList_update [of uid wm ws] by auto

lemma NewProbeManager_inv: "pm_inv NewProbeManager"
  by (simp add: pm_inv_iff NewProbeManager_def ws_ids_def)

lemma wm_ids_running:
  assumes "pm_inv m"
  shows "wm_ids (wm_of uid (pm_workers m)) \<subseteq># mset (pm_running m)"
proof -
  have "ws_ids (m_del uid (pm_workers m)) + wm_ids (wm_of uid (pm_workers m)) = mset (pm_running m)"
    using ws_ids_del [of "pm_workers m" uid] assms by (simp add: pm_inv_iff)
  then show ?thesis by (metis mset_subset_eq_add_right)
qed

lemma registered_running:
  assumes "pm_inv m" and "m_get (wm_of uid (pm_workers m)) a = Some w"
  shows "wk_id w \<in> set (pm_running m)"
proof -
  have "wk_id w \<in># wm_ids (wm_of uid (pm_workers m))" using map_of_SomeD [OF assms(2)] by (force simp: wm_ids_def)
  then show ?thesis using wm_ids_running [OF assms(1), of uid] by (metis mset_subset_eqD set_mset_mset)
qed

lemma AddWorker_inv:
  assumes "pm_inv m" and "ho_Address option = a"
  shows "pm_inv (AddWorker uid a option m)"
proof -
  let ?ws = "pm_workers m" and ?w = "newWorker (pm_next m) uid option"
  let ?wm = "wm_of uid ?ws"
  let ?old = "case m_get ?wm a of None \<Rightarrow> {#} | Some w \<Rightarrow> {#wk_id w#}"
  let ?run = "case m_get ?wm a of None \<Rightarrow> pm_running m | Some w \<Rightarrow> stop_worker w (pm_running m)"
  have inv: "m_wf ?ws" "\<forall>(uid, wm) \<in> set ?ws. wm_inv uid wm" "ws_ids ?ws = mset (pm_running m)"
    "distinct (pm_running m)" "\<forall>i \<in> set (pm_running m). i < pm_next m"
    using assms(1) by (simp_all add: pm_inv_iff)
  have add: "AddWorker uid a option m =
      \<lparr>pm_workers = m_set uid (m_set a ?w ?wm) ?ws, pm_running = pm_next m # ?run, pm_next = Suc (pm_next m)\<rparr>"
    by (simp add: AddWorker_def Let_def entries_def newWorker_def)
  have run: "mset ?run = mset (pm_running m) - ?old" "set ?run \<subseteq> set (pm_running m)" "distinct ?run"
    using inv(4) set_remove1_subset [of _ "pm_running m"]
    by (cases "m_get ?wm a"; simp add: stop_worker_def)+
  have "ws_ids (m_set uid (m_set a ?w ?wm) ?ws) + wm_ids ?wm + ?old = ws_ids ?ws + (wm_ids (m_set a ?w ?wm) + ?old)"
    by (simp add: ws_ids_set)
  also have "\<dots> = ws_ids ?ws + add_mset (pm_next m) (wm_ids ?wm)"
    by (simp add: wm_ids_set) (simp add: newWorker_def)
  finally have "(ws_ids (m_set uid (m_set a ?w ?wm) ?ws) + ?old) + wm_ids ?wm = add_mset (pm_next m) (ws_ids ?ws) + wm_ids ?wm"
    by (simp add: ac_simps)
  then have eq: "ws_ids (m_set uid (m_set a ?w ?wm) ?ws) + ?old = add_mset (pm_next m) (mset (pm_running m))"
    using inv(3) by simp
  have new: "pm_next m \<notin> set (pm_running m)" using inv(5) by blast
  have sub: "?old \<subseteq># mset (pm_running m)"
    using registered_running [OF assms(1)] by (auto split: option.splits)
  have "ws_ids (m_set uid (m_set a ?w ?wm) ?ws) = add_mset (pm_next m) (mset (pm_running m)) - ?old"
    using eq by (metis add_diff_cancel_right')
  also have "\<dots> = mset (pm_next m # ?run)"
    using multiset_diff_union_assoc [OF sub, of "{#pm_next m#}"] run(1) by simp
  finally have "ws_ids (m_set uid (m_set a ?w ?wm) ?ws) = mset (pm_next m # ?run)" .
  moreover have "\<forall>(uid, wm) \<in> set (m_set uid (m_set a ?w ?wm) ?ws). wm_inv uid wm"
    using inv(2) assms(2) by (intro ws_inv_set wm_inv_set wm_inv_of) (auto simp: newWorker_def)
  ultimately show ?thesis
    using inv run new unfolding add pm_inv_iff by (auto intro: m_wf_set less_SucI)
qed

lemma RemoveWorker_inv:
  assumes "pm_inv m"
  shows "pm_inv (snd (RemoveWorker uid a m))"
proof (cases "m_get (wm_of uid (pm_workers m)) a")
  case None
  then have "snd (RemoveWorker uid a m) = m"
    by (auto simp: RemoveWorker_def split: option.splits)
  then show ?thesis using assms by simp
next
  case (Some w)
  let ?ws = "pm_workers m"
  let ?wm = "wm_of uid ?ws"
  have inv: "m_wf ?ws" "\<forall>(uid, wm) \<in> set ?ws. wm_inv uid wm" "ws_ids ?ws = mset (pm_running m)"
    "distinct (pm_running m)" "\<forall>i \<in> set (pm_running m). i < pm_next m"
    using assms by (simp_all add: pm_inv_iff)
  obtain wm where "m_get ?ws uid = Some wm" using Some by (cases "m_get ?ws uid") auto
  then have rem: "snd (RemoveWorker uid a m) =
      m\<lparr>pm_workers := m_set uid (m_del a ?wm) ?ws, pm_running := stop_worker w (pm_running m)\<rparr>"
    using Some by (simp add: RemoveWorker_def)
  have "wm_inv uid ?wm" using inv(2) by (rule wm_inv_of)
  then have wf: "m_wf ?wm" by (simp add: wm_inv_def)
  have d: "wm_ids ?wm = wm_ids (m_del a ?wm) + {#wk_id w#}" using wm_ids_del [OF wf, of a] Some by simp
  have "(ws_ids (m_set uid (m_del a ?wm) ?ws) + {#wk_id w#}) + wm_ids (m_del a ?wm) = ws_ids ?ws + wm_ids (m_del a ?wm)"
    unfolding ws_ids_set [of uid "m_del a ?wm" ?ws, symmetric] d by (simp add: ac_simps)
  then have "ws_ids (m_set uid (m_del a ?wm) ?ws) + {#wk_id w#} = mset (pm_running m)" using inv(3) by simp
  then have "ws_ids (m_set uid (m_del a ?wm) ?ws) = mset (stop_worker w (pm_running m))"
    by (metis stop_worker_def mset_remove1 add_diff_cancel_right')
  moreover have "\<forall>(uid, wm) \<in> set (m_set uid (m_del a ?wm) ?ws). wm_inv uid wm"
    using inv(2) by (intro ws_inv_set wm_inv_del wm_inv_of) auto
  ultimately show ?thesis
    using inv unfolding rem pm_inv_iff by (auto simp: stop_worker_def intro: m_wf_set dest: set_remove1_subset [THEN subsetD])
qed

lemma RemoveWorkersByUid_inv:
  assumes "pm_inv m"
  shows "pm_inv (snd (RemoveWorkersByUid uid m))"
proof (cases "m_get (pm_workers m) uid")
  case None
  then show ?thesis using assms by (simp add: RemoveWorkersByUid_def)
next
  case (Some wm)
  let ?ws = "pm_workers m" and ?run = "fold (\<lambda>(k, w). stop_worker w) wm (pm_running m)"
  have inv: "m_wf ?ws" "\<forall>(uid, wm) \<in> set ?ws. wm_inv uid wm" "ws_ids ?ws = mset (pm_running m)"
    "distinct (pm_running m)" "\<forall>i \<in> set (pm_running m). i < pm_next m"
    using assms by (simp_all add: pm_inv_iff)
  have run: "mset ?run = mset (pm_running m) - wm_ids wm"
    using wm_ids_running [OF assms, of uid] Some by (intro stop_all_mset) simp
  then have sub: "mset ?run \<subseteq># mset (pm_running m)" by simp
  have "ws_ids (m_del uid ?ws) = mset ?run"
    using ws_ids_del [OF inv(1), of uid] Some inv(3) run by (metis entries_simps(2) add_diff_cancel_right')
  moreover have "distinct ?run" using inv(4) by (rule stop_all_distinct)
  moreover have "\<forall>i \<in> set ?run. i < pm_next m" using sub inv(5) by (metis mset_subset_eqD set_mset_mset)
  moreover have "\<forall>(uid, wm) \<in> set (m_del uid ?ws). wm_inv uid wm" using inv(2) set_AList_delete [of uid ?ws] by blast
  ultimately show ?thesis
    using inv(1) Some unfolding pm_inv_iff by (simp add: RemoveWorkersByUid_def m_wf_del)
qed

end
