(* ===== verification/ServiceLB.thy ===== *)
theory ServiceLB
  imports KubeObjects Prober
begin

text \<open>
  The load balancer of virtual machines, made of a Service and an EndpointSlice:
  \<^verbatim>\<open>pkg/lb/servicelb/manager.go\<close>, \<^verbatim>\<open>backendserver.go\<close>, and the list of backend servers of
  \<^verbatim>\<open>pkg/lb/helper.go\<close>.

  The manager's operations work on the state of the prober manager, which is embedded in it, and
  the world of the listers and clients: a pair \<open>(pm, w)\<close>. The prober manager never returns an
  error, so the errors of its callers come from the clients. Dereferencing the nil target
  reference of an endpoint is a panic. The \<^verbatim>\<open>%+v\<close> rendering of an endpoint inside an error
  text is left out.
\<close>

section \<open>Backend servers\<close>

definition GetAddress :: "VirtualMachineInstance \<Rightarrow> string option" where
  "GetAddress s = find (\<lambda>i. To4 (ParseIP i) \<noteq> []) (vmi_Interfaces s)"

record BackendServers =
  bks_servers :: "VirtualMachineInstance list"
  bks_matched :: int
  bks_withAddress :: int

definition NewBackendServers :: BackendServers where
  "NewBackendServers = \<lparr>bks_servers = [], bks_matched = 0, bks_withAddress = 0\<rparr>"

definition bks_Append :: "VirtualMachineInstance \<Rightarrow> BackendServers option \<Rightarrow> BackendServers option" where
  "bks_Append server = map_option (\<lambda>bs. bs\<lparr>bks_servers := bks_servers bs @ [server]\<rparr>)"

definition GetBackendServers :: "BackendServers option \<Rightarrow> VirtualMachineInstance list" where
  "GetBackendServers bs = (case bs of None \<Rightarrow> [] | Some b \<Rightarrow> bks_servers b)"

definition GetMatchedBackendServerCount :: "BackendServers option \<Rightarrow> int" where
  "GetMatchedBackendServerCount bs = (case bs of None \<Rightarrow> 0 | Some b \<Rightarrow> bks_matched b)"

definition SetMatchedBackendServerCount :: "int \<Rightarrow> BackendServers option \<Rightarrow> BackendServers option" where
  "SetMatchedBackendServerCount cnt bs = (if cnt < 0 then bs else map_option (\<lambda>b. b\<lparr>bks_matched := cnt\<rparr>) bs)"

definition GetWithIPAddressBackendServerCount :: "BackendServers option \<Rightarrow> int" where
  "GetWithIPAddressBackendServerCount bs = (case bs of None \<Rightarrow> 0 | Some b \<Rightarrow> bks_withAddress b)"

definition SetWithAddressBackendServerCount :: "int \<Rightarrow> BackendServers option \<Rightarrow> BackendServers option" where
  "SetWithAddressBackendServerCount cnt bs = (if cnt < 0 then bs else map_option (\<lambda>b. b\<lparr>bks_withAddress := cnt\<rparr>) bs)"

section \<open>The manager\<close>

record 'w SvcManager =
  sm_services :: "'w ServiceOps"
  sm_endpointSlices :: "'w EndpointSliceOps"
  sm_vmiList :: "'w VmiList"
  sm_newRequirement :: "string \<Rightarrow> string list \<Rightarrow> unit res"
  sm_healthHandler :: "(string \<Rightarrow> string \<Rightarrow> 'w \<Rightarrow> unit res \<times> 'w) option"

type_synonym 'w mstate = "ProbeManager \<times> 'w"

definition KeyLabel :: string where "KeyLabel = GroupName @ ''/servicelb''"
definition KeyServiceName :: string where "KeyServiceName = ''kubernetes.io/service-name''"
definition defaultSuccessThreshold :: gouint where "defaultSuccessThreshold = 1"
definition defaultFailureThreshold :: gouint where "defaultFailureThreshold = 3"
definition Second :: int64 where "Second = 1000000000"
definition defaultTimeout :: int64 where "defaultTimeout = 3 * Second"
definition defaultPeriod :: int64 where "defaultPeriod = 5 * Second"
definition dummyEndpointIPv4Address :: string where "dummyEndpointIPv4Address = ''10.52.0.255''"
definition dummyEndpointID :: string where "dummyEndpointID = ''dummy347-546a-4642-9da6-5608endpoint''"

definition RegisterHealthCheckHandler ::
  "(string \<Rightarrow> string \<Rightarrow> 'w \<Rightarrow> unit res \<times> 'w) \<Rightarrow> 'w SvcManager \<Rightarrow> 'w SvcManager res" where
  "RegisterHealthCheckHandler handler m =
     (if sm_healthHandler m \<noteq> None then Inl (errorf ''health check handler can only be registered once'')
      else Inr (m\<lparr>sm_healthHandler := Some handler\<rparr>))"

definition marshalUID :: "string \<Rightarrow> string \<Rightarrow> string" where
  "marshalUID ns name = ns @ ''/'' @ name"

definition unMarshalUID :: "string \<Rightarrow> (string \<times> string) res" where
  "unMarshalUID uid =
     (case Split (CHR ''/'') uid of [ns, name] \<Rightarrow> Inr (ns, name) | _ \<Rightarrow> Inl (errorf (''invalid uid '' @ uid)))"

definition unMarshalPorberAddress :: "string \<Rightarrow> (string \<times> string) res" where
  "unMarshalPorberAddress address =
     (case Split (CHR '':'') address of
        [ip, port] \<Rightarrow> Inr (ip, port) | _ \<Rightarrow> Inl (errorf (''invalid probe address '' @ address)))"

section \<open>Endpoint conditions\<close>

definition nil_panic :: error where
  "nil_panic = Panic ''invalid memory address or nil pointer dereference''"

definition isDummyEndpoint :: "Endpoint \<Rightarrow> bool res" where
  "isDummyEndpoint ep = (case ep_TargetRef ep of None \<Rightarrow> Inl nil_panic | Some r \<Rightarrow> Inr (ref_UID r = dummyEndpointID))"

definition isEndpointConditionsReady :: "Endpoint \<Rightarrow> bool" where
  "isEndpointConditionsReady ep = (ep_Ready ep = Some True)"

definition needUpdateEndpointConditions :: "Endpoint \<Rightarrow> bool \<Rightarrow> bool" where
  "needUpdateEndpointConditions ep ready = (case ep_Ready ep of None \<Rightarrow> True | Some r \<Rightarrow> r \<noteq> ready)"

definition updateEndpointConditions :: "bool \<Rightarrow> Endpoint \<Rightarrow> Endpoint" where
  "updateEndpointConditions ready ep =
     (case ep_Ready ep of
        None \<Rightarrow> ep\<lparr>ep_Ready := Some ready\<rparr>
      | Some r \<Rightarrow> if r \<noteq> ready then ep\<lparr>ep_Ready := Some ready\<rparr> else ep)"

text \<open>The search of \<^verbatim>\<open>updateHealthCondition\<close>: the index of the first endpoint with the address.\<close>

fun find_endpoint :: "string \<Rightarrow> string \<Rightarrow> Endpoint list \<Rightarrow> nat option res" where
  "find_endpoint uid ip [] = Inr None"
| "find_endpoint uid ip (ep # eps) =
     (if length (ep_Addresses ep) \<noteq> 1 then
        Inl (errorf (''the length of lb '' @ uid @ '' endpoint addresses is '' @ Itoa (int (length (ep_Addresses ep)))))
      else if ep_Addresses ep ! 0 = ip then Inr (Some 0)
      else (case find_endpoint uid ip eps of Inl e \<Rightarrow> Inl e | Inr i \<Rightarrow> Inr (map_option Suc i)))"

definition set_condition :: "'w SvcManager \<Rightarrow> string \<Rightarrow> string \<Rightarrow> string \<Rightarrow> string \<Rightarrow> bool \<Rightarrow> EndpointSlice \<Rightarrow> nat \<Rightarrow> 'w \<Rightarrow> unit res \<times> 'w" where
  "set_condition m uid ns name ip isHealthy eps i w =
     (if needUpdateEndpointConditions (eps_Endpoints eps ! i) isHealthy then
        (case (case sm_healthHandler m of None \<Rightarrow> (Inr (), w) | Some h \<Rightarrow> h ns name w) of
           (Inl e, w1) \<Rightarrow> (Inl (wrapf (''fail to notify lb '' @ uid @ '', error: '') e), w1)
         | (Inr _, w1) \<Rightarrow>
             (case eso_Update (sm_endpointSlices m)
                     (eps\<lparr>eps_Endpoints := (eps_Endpoints eps)[i := updateEndpointConditions isHealthy (eps_Endpoints eps ! i)]\<rparr>) w1 of
                (Inl e, w2) \<Rightarrow>
                  (Inl (wrapf (''fail to update condition of lb '' @ uid @ '' endpoint ip '' @ ip @ '' to '' @
                     FormatBool isHealthy @ '', error: '') e), w2)
              | (Inr _, w2) \<Rightarrow> (Inr (), w2)))
      else (Inr (), w))"

definition updateHealthCondition :: "'w SvcManager \<Rightarrow> string \<Rightarrow> string \<Rightarrow> bool \<Rightarrow> 'w \<Rightarrow> unit res \<times> 'w" where
  "updateHealthCondition m uid address isHealthy w =
     (case unMarshalUID uid of
        Inl e \<Rightarrow> (Inl e, w)
      | Inr (ns, name) \<Rightarrow>
          (case eso_Get (sm_endpointSlices m) ns name w of
             Inl e \<Rightarrow>
               if errors_Is e NotFound then (Inr (), w)
               else (Inl (wrapf (''fail to get endpointslice '' @ ns @ ''/'' @ name @ '', error: '') e), w)
           | Inr eps \<Rightarrow>
               (case unMarshalPorberAddress address of
                  Inl e \<Rightarrow> (Inl e, w)
                | Inr (ip, port) \<Rightarrow>
                    (case find_endpoint uid ip (eps_Endpoints eps) of
                       Inl e \<Rightarrow> (Inl e, w)
                     | Inr None \<Rightarrow> (Inr (), w)
                     | Inr (Some i) \<Rightarrow> set_condition m uid ns name ip isHealthy eps i w))))"

fun update_all :: "bool \<Rightarrow> Endpoint list \<Rightarrow> (Endpoint list \<times> bool) res" where
  "update_all isHealthy [] = Inr ([], False)"
| "update_all isHealthy (ep # eps) =
     (case isDummyEndpoint ep of
        Inl e \<Rightarrow> Inl e
      | Inr dummy \<Rightarrow>
          (case update_all isHealthy eps of
             Inl e \<Rightarrow> Inl e
           | Inr (eps', updated) \<Rightarrow>
               if \<not> dummy \<and> needUpdateEndpointConditions ep isHealthy
               then Inr (updateEndpointConditions isHealthy ep # eps', True)
               else Inr (ep # eps', updated)))"

definition updateAllConditions :: "'w SvcManager \<Rightarrow> LoadBalancer \<Rightarrow> EndpointSlice \<Rightarrow> bool \<Rightarrow> 'w \<Rightarrow> unit res \<times> 'w" where
  "updateAllConditions m lb eps isHealthy w =
     (case update_all isHealthy (eps_Endpoints eps) of
        Inl e \<Rightarrow> (Inl e, w)
      | Inr (endpoints, updated) \<Rightarrow>
          if updated then
            (case eso_Update (sm_endpointSlices m) (eps\<lparr>eps_Endpoints := endpoints\<rparr>) w of
               (Inl e, w') \<Rightarrow>
                 (Inl (wrapf (''fail to update all conditions of lb '' @ lb_Namespace lb @ ''/'' @ lb_Name lb @
                    '' endpoints to '' @ FormatBool isHealthy @ '' error: '') e), w')
             | (Inr _, w') \<Rightarrow> (Inr (), w'))
          else (Inr (), w))"

fun count_ready :: "Endpoint list \<Rightarrow> int res" where
  "count_ready [] = Inr 0"
| "count_ready (ep # eps) =
     (case isDummyEndpoint ep of
        Inl e \<Rightarrow> Inl e
      | Inr dummy \<Rightarrow>
          (case count_ready eps of
             Inl e \<Rightarrow> Inl e
           | Inr n \<Rightarrow> Inr (if \<not> dummy \<and> isEndpointConditionsReady ep then n + 1 else n)))"

definition GetProbeReadyBackendServerCount :: "'w SvcManager \<Rightarrow> LoadBalancer \<Rightarrow> 'w \<Rightarrow> int res" where
  "GetProbeReadyBackendServerCount m lb w =
     (case eso_Get (sm_endpointSlices m) (lb_Namespace lb) (lb_Name lb) w of
        Inl e \<Rightarrow> Inl e
      | Inr eps \<Rightarrow> count_ready (eps_Endpoints eps))"

section \<open>Services\<close>

definition getService :: "'w SvcManager \<Rightarrow> LoadBalancer \<Rightarrow> 'w \<Rightarrow> Service option res" where
  "getService m lb w =
     (case svo_Get (sm_services m) (lb_Namespace lb) (lb_Name lb) w of
        Inl e \<Rightarrow> if errors_Is e NotFound then Inr None else Inl (wrapf ''fail to get service, error: '' e)
      | Inr svc \<Rightarrow> Inr (Some svc))"

definition owner_of :: "LoadBalancer \<Rightarrow> OwnerReference" where
  "owner_of lb = \<lparr>own_APIVersion = lb_APIVersion lb, own_Kind = lb_Kind lb, own_Name = lb_Name lb,
     own_UID = md_UID (lb_Meta lb)\<rparr>"

definition constructService :: "Service option \<Rightarrow> LoadBalancer \<Rightarrow> Service" where
  "constructService cur lb =
     (let svc = (case cur of
                   Some c \<Rightarrow> c
                 | None \<Rightarrow> \<lparr>svc_Meta = empty_meta\<lparr>md_Name := lb_Name lb, md_Namespace := lb_Namespace lb,
                              md_OwnerReferences := [owner_of lb], md_Labels := Some [(KeyLabel, ValueTrue)]\<rparr>,
                            svc_Type = ''LoadBalancer'', svc_LoadBalancerIP = '''', svc_Ports = None, svc_Ingress = []\<rparr>)
      in svc\<lparr>svc_LoadBalancerIP := (if lbs_IPAM (lb_Spec lb) = DHCP then Address4AskDHCP
                                       else aa_IP (lbst_AllocatedAddress (lb_Status lb))),
             svc_Ports := Some (map (\<lambda>l. \<lparr>sp_Name = l_Name l, sp_Protocol = l_Protocol l, sp_Port = l_Port l,
                                    sp_TargetPort = l_BackendPort l, sp_NodePort = 0\<rparr>) (lbs_Listeners (lb_Spec lb)))\<rparr>)"

definition ensureService :: "'w SvcManager \<Rightarrow> LoadBalancer \<Rightarrow> 'w \<Rightarrow> unit res \<times> 'w" where
  "ensureService m lb w =
     (case getService m lb w of
        Inl e \<Rightarrow> (Inl e, w)
      | Inr (Some svc) \<Rightarrow>
          if svc \<noteq> constructService (Some svc) lb then
            (case svo_Update (sm_services m) (constructService (Some svc) lb) w of
               (Inl e, w') \<Rightarrow> (Inl (wrapf ''fail to update service, error: '' e), w')
             | (Inr _, w') \<Rightarrow> (Inr (), w'))
          else (Inr (), w)
      | Inr None \<Rightarrow>
          (case svo_Create (sm_services m) (constructService None lb) w of
             (Inl e, w') \<Rightarrow>
               if errors_Is e AlreadyExists then (Inr (), w')
               else (Inl (wrapf ''fail to create service, error: '' e), w')
           | (Inr _, w') \<Rightarrow> (Inr (), w')))"

definition EnsureLoadBalancer :: "'w SvcManager \<Rightarrow> LoadBalancer \<Rightarrow> 'w mstate \<Rightarrow> unit res \<times> 'w mstate" where
  "EnsureLoadBalancer m lb s = (let (r, w) = ensureService m lb (snd s) in (r, fst s, w))"

definition EnsureLoadBalancerServiceIP :: "'w SvcManager \<Rightarrow> LoadBalancer \<Rightarrow> 'w \<Rightarrow> string res" where
  "EnsureLoadBalancerServiceIP m lb w =
     (case getService m lb w of
        Inl e \<Rightarrow> Inl e
      | Inr None \<Rightarrow> Inl (errorf ''service is not existing, ensure it first'')
      | Inr (Some svc) \<Rightarrow>
          (case svc_Ingress svc of
             ip # _ \<Rightarrow> Inr ip
           | [] \<Rightarrow> Inl (Error ''service is waiting for external IP'' [ErrWaitExternalIP])))"

section \<open>Endpoint slices\<close>

definition getServiceBackendServers :: "'w SvcManager \<Rightarrow> LoadBalancer \<Rightarrow> 'w \<Rightarrow> BackendServers option res" where
  "getServiceBackendServers m lb w =
     (if lbs_BackendServerSelector (lb_Spec lb) = [] then Inr None
      else (case NewSelector (sm_newRequirement m) (lbs_BackendServerSelector (lb_Spec lb)) of
          Inl e \<Rightarrow> Inl (wrapf ''fail to new selector, error: '' e)
        | Inr selector \<Rightarrow>
            (case sm_vmiList m (lb_Namespace lb) selector w of
               Inl e \<Rightarrow> Inl (wrapf ''fail to list vmi per selector, error: '' e)
             | Inr vmis \<Rightarrow>
                 let live = filter (\<lambda>v. md_DeletionTimestamp (vmi_Meta v) = None) vmis;
                     qualified = filter (\<lambda>v. GetAddress v \<noteq> None) live;
                     servers = fold bks_Append qualified (Some NewBackendServers)
                 in Inr (SetWithAddressBackendServerCount (int (length qualified))
                          (SetMatchedBackendServerCount (int (length live)) servers)))))"

definition ListBackendServers :: "'w SvcManager \<Rightarrow> LoadBalancer \<Rightarrow> 'w \<Rightarrow> BackendServers option res" where
  "ListBackendServers m lb w = getServiceBackendServers m lb w"

definition dummy_endpoint :: "LoadBalancer \<Rightarrow> Endpoint" where
  "dummy_endpoint lb = \<lparr>ep_Addresses = [dummyEndpointIPv4Address],
     ep_TargetRef = Some \<lparr>ref_Namespace = lb_Namespace lb, ref_Name = lb_Name lb, ref_UID = dummyEndpointID\<rparr>,
     ep_Ready = Some True\<rparr>"

definition appendDummyEndpoint :: "Endpoint list \<Rightarrow> LoadBalancer \<Rightarrow> Endpoint list" where
  "appendDummyEndpoint eps lb = eps @ [dummy_endpoint lb]"

text \<open>The inner loop of the construction: the endpoint a server already has.\<close>

fun existing_endpoint :: "string \<Rightarrow> string \<Rightarrow> Endpoint list \<Rightarrow> Endpoint option res" where
  "existing_endpoint uid address [] = Inr None"
| "existing_endpoint uid address (ep # eps) =
     (if length (ep_Addresses ep) \<noteq> 1 then Inl (errorf ''the length of addresses is not 1'')
      else if (case ep_TargetRef ep of None \<Rightarrow> False | Some r \<Rightarrow> uid = ref_UID r) \<and> address = ep_Addresses ep ! 0
      then Inr (Some ep)
      else existing_endpoint uid address eps)"

definition new_endpoint :: "VirtualMachineInstance \<Rightarrow> string \<Rightarrow> Endpoint" where
  "new_endpoint server address = \<lparr>ep_Addresses = [address],
     ep_TargetRef = Some \<lparr>ref_Namespace = md_Namespace (vmi_Meta server), ref_Name = md_Name (vmi_Meta server),
       ref_UID = md_UID (vmi_Meta server)\<rparr>,
     ep_Ready = Some False\<rparr>"

fun server_endpoints :: "Endpoint list \<Rightarrow> VirtualMachineInstance list \<Rightarrow> Endpoint list res" where
  "server_endpoints old [] = Inr []"
| "server_endpoints old (server # servers) =
     (case GetAddress server of
        None \<Rightarrow> server_endpoints old servers
      | Some address \<Rightarrow>
          (case existing_endpoint (md_UID (vmi_Meta server)) address old of
             Inl e \<Rightarrow> Inl e
           | Inr ex \<Rightarrow>
               (case server_endpoints old servers of
                  Inl e \<Rightarrow> Inl e
                | Inr eps \<Rightarrow> Inr ((case ex of Some ep \<Rightarrow> ep | None \<Rightarrow> new_endpoint server address) # eps))))"

definition constructEndpointSliceFromBackendServers ::
  "EndpointSlice option \<Rightarrow> LoadBalancer \<Rightarrow> VirtualMachineInstance list \<Rightarrow> EndpointSlice res" where
  "constructEndpointSliceFromBackendServers cur lb servers =
     (let eps = (case cur of
                   Some c \<Rightarrow> c
                 | None \<Rightarrow> \<lparr>eps_Meta = empty_meta\<lparr>md_Name := lb_Name lb, md_Namespace := lb_Namespace lb,
                              md_OwnerReferences := [owner_of lb],
                              md_Labels := Some [(KeyLabel, ValueTrue), (KeyServiceName, lb_Name lb)]\<rparr>,
                            eps_AddressType = ''IPv4'', eps_Endpoints = [], eps_Ports = []\<rparr>);
          ports = map (\<lambda>l. \<lparr>epp_Name = l_Name l, epp_Protocol = l_Protocol l, epp_Port = l_BackendPort l\<rparr>)
                    (lbs_Listeners (lb_Spec lb)) in
      (case server_endpoints (eps_Endpoints eps) servers of
         Inl e \<Rightarrow> Inl e
       | Inr endpoints \<Rightarrow>
           Inr (eps\<lparr>eps_Ports := ports,
                    eps_Endpoints := (if endpoints = [] then appendDummyEndpoint endpoints lb else endpoints)\<rparr>)))"

section \<open>Probers of a load balancer\<close>

definition marshalPorberAddress :: "HealthCheck \<Rightarrow> Endpoint \<Rightarrow> string" where
  "marshalPorberAddress hc ep = ep_Addresses ep ! 0 @ '':'' @ Itoa (sint (hc_Port hc))"

definition generateOneProber :: "HealthCheck \<Rightarrow> Endpoint \<Rightarrow> HealthOption" where
  "generateOneProber hc ep = \<lparr>
     ho_Address = marshalPorberAddress hc ep,
     ho_SuccessThreshold = (if hc_SuccessThreshold hc = 0 then defaultSuccessThreshold else hc_SuccessThreshold hc),
     ho_FailureThreshold = (if hc_FailureThreshold hc = 0 then defaultFailureThreshold else hc_FailureThreshold hc),
     ho_Timeout = (if hc_TimeoutSeconds hc = 0 then defaultTimeout else hc_TimeoutSeconds hc * Second),
     ho_Period = (if hc_PeriodSeconds hc = 0 then defaultPeriod else hc_PeriodSeconds hc * Second),
     ho_InitialCondition = (case ep_Ready ep of None \<Rightarrow> True | Some r \<Rightarrow> r)\<rparr>"

definition removeLBProbers :: "LoadBalancer \<Rightarrow> ProbeManager \<Rightarrow> nat \<times> ProbeManager" where
  "removeLBProbers lb pm = RemoveWorkersByUid (marshalUID (lb_Namespace lb) (lb_Name lb)) pm"

text \<open>
  The first loop of \<^verbatim>\<open>updateAllProbers\<close>, over the active probers: it deletes from both maps the
  address it has dealt with. An entry that is deleted before it is reached is not visited.
\<close>

fun match_probers ::
  "string \<Rightarrow> string list \<Rightarrow> (string, HealthOption) gomap \<Rightarrow> (string, HealthOption) gomap \<Rightarrow> ProbeManager \<Rightarrow>
     (string, HealthOption) gomap \<times> (string, HealthOption) gomap \<times> ProbeManager" where
  "match_probers uid [] active target pm = (active, target, pm)"
| "match_probers uid (k # ks) active target pm =
     (case m_get active k of
        None \<Rightarrow> match_probers uid ks active target pm
      | Some ap \<Rightarrow>
          (case m_get target (ho_Address ap) of
             None \<Rightarrow> match_probers uid ks active target pm
           | Some tp \<Rightarrow>
               let pm' = (if \<not> ho_Equal ap tp
                          then AddWorker uid (ho_Address tp) tp (snd (RemoveWorker uid (ho_Address ap) pm))
                          else pm)
               in match_probers uid ks (m_del (ho_Address ap) active) (m_del (ho_Address tp) target) pm'))"

definition updateAllProbers ::
  "string \<Rightarrow> (string, HealthOption) gomap option \<Rightarrow> (string, HealthOption) gomap \<Rightarrow> ProbeManager \<Rightarrow> ProbeManager" where
  "updateAllProbers uid activeProbers targetProbers pm =
     (let (active, target, pm1) = match_probers uid (map fst (entries activeProbers)) (entries activeProbers) targetProbers pm;
          pm2 = fold (\<lambda>(k, ap) p. snd (RemoveWorker uid (ho_Address ap) p)) active pm1
      in fold (\<lambda>(k, tp) p. AddWorker uid (ho_Address tp) tp p) target pm2)"

fun target_probers :: "HealthCheck \<Rightarrow> Endpoint list \<Rightarrow> (string, HealthOption) gomap \<Rightarrow> (string, HealthOption) gomap res" where
  "target_probers hc [] m = Inr m"
| "target_probers hc (ep # eps) m =
     (if ep_Addresses ep = [] then target_probers hc eps m
      else (case isDummyEndpoint ep of
          Inl e \<Rightarrow> Inl e
        | Inr dummy \<Rightarrow>
            if dummy then target_probers hc eps m
            else target_probers hc eps (m_set (marshalPorberAddress hc ep) (generateOneProber hc ep) m)))"

definition ensureProbes :: "'w SvcManager \<Rightarrow> LoadBalancer \<Rightarrow> EndpointSlice \<Rightarrow> 'w mstate \<Rightarrow> unit res \<times> 'w mstate" where
  "ensureProbes m lb eps s =
     (case lbs_HealthCheck (lb_Spec lb) of
        Some hc \<Rightarrow>
          if hc_Port hc = 0 then
            (let pm = snd (removeLBProbers lb (fst s)); (r, w) = updateAllConditions m lb eps True (snd s)
             in (r, pm, w))
          else (case target_probers hc (eps_Endpoints eps) [] of
              Inl e \<Rightarrow> (Inl e, s)
            | Inr targets \<Rightarrow>
                let uid = marshalUID (lb_Namespace lb) (lb_Name lb)
                in (Inr (), updateAllProbers uid (GetWorkerHealthOptionMap uid (fst s)) targets (fst s), snd s))
      | None \<Rightarrow>
          (let pm = snd (removeLBProbers lb (fst s)); (r, w) = updateAllConditions m lb eps True (snd s)
           in (r, pm, w)))"

text \<open>The counts of \<^verbatim>\<open>ensureDummyEndpoint\<close>: dummy endpoints and ready ones.\<close>

fun count_endpoints :: "Endpoint list \<Rightarrow> (int \<times> int) res" where
  "count_endpoints [] = Inr (0, 0)"
| "count_endpoints (ep # eps) =
     (case isDummyEndpoint ep of
        Inl e \<Rightarrow> Inl e
      | Inr dummy \<Rightarrow>
          (case count_endpoints eps of
             Inl e \<Rightarrow> Inl e
           | Inr (d, a) \<Rightarrow>
               Inr (if dummy then (d + 1, a) else if isEndpointConditionsReady ep then (d, a + 1) else (d, a))))"

definition ensureDummyEndpoint :: "'w SvcManager \<Rightarrow> LoadBalancer \<Rightarrow> EndpointSlice \<Rightarrow> 'w \<Rightarrow> unit res \<times> 'w" where
  "ensureDummyEndpoint m lb eps w =
     (case count_endpoints (eps_Endpoints eps) of
        Inl e \<Rightarrow> (Inl e, w)
      | Inr (dummyCount, activeCount) \<Rightarrow>
          if activeCount = 0 \<and> dummyCount = 0 then
            (case eso_Update (sm_endpointSlices m) (eps\<lparr>eps_Endpoints := appendDummyEndpoint (eps_Endpoints eps) lb\<rparr>) w of
               (Inl e, w') \<Rightarrow> (Inl (wrapf (''fail to append dummy endpoint to lb '' @ lb_Name lb @ '' endpoint, error: '') e), w')
             | (Inr _, w') \<Rightarrow> (Inr (), w'))
          else if 0 < activeCount \<and> 0 < dummyCount then
            (case eso_Update (sm_endpointSlices m)
                    (eps\<lparr>eps_Endpoints := filter (\<lambda>ep. isDummyEndpoint ep \<noteq> Inr True) (eps_Endpoints eps)\<rparr>) w of
               (Inl e, w') \<Rightarrow> (Inl (wrapf (''fail to remove dummy endpoint from lb '' @ lb_Name lb @ '' endpoint, error: '') e), w')
             | (Inr _, w') \<Rightarrow> (Inr (), w'))
          else (Inr (), w))"

section \<open>Ensuring and deleting\<close>

text \<open>The create-or-update step of \<^verbatim>\<open>EnsureBackendServers\<close>, which yields the stored slice.\<close>

definition store_slice :: "'w SvcManager \<Rightarrow> EndpointSlice option \<Rightarrow> EndpointSlice \<Rightarrow> 'w \<Rightarrow> EndpointSlice res \<times> 'w" where
  "store_slice m cur epsNew w =
     (case cur of
        None \<Rightarrow>
          (case eso_Create (sm_endpointSlices m) epsNew w of
             (Inl e, w') \<Rightarrow> (Inl (wrapf ''fail to create endpointslice, error: '' e), w')
           | (Inr eps, w') \<Rightarrow> (Inr eps, w'))
      | Some eps \<Rightarrow>
          if eps \<noteq> epsNew then
            (case eso_Update (sm_endpointSlices m) epsNew w of
               (Inl e, w') \<Rightarrow> (Inl (wrapf ''fail to update endpointslice, error: '' e), w')
             | (Inr eps', w') \<Rightarrow> (Inr eps', w'))
          else (Inr eps, w))"

definition EnsureBackendServers ::
  "'w SvcManager \<Rightarrow> LoadBalancer \<Rightarrow> 'w mstate \<Rightarrow> BackendServers option res \<times> 'w mstate" where
  "EnsureBackendServers m lb s =
     (case getService m lb (snd s) of
        Inl e \<Rightarrow> (Inl e, s)
      | Inr None \<Rightarrow> (Inl (errorf ''service is not existing, ensure it first''), s)
      | Inr (Some svc) \<Rightarrow>
          (case (case eso_Get (sm_endpointSlices m) (lb_Namespace lb) (lb_Name lb) (snd s) of
                   Inl e \<Rightarrow> if errors_Is e NotFound then Inr None else Inl (wrapf ''fail to get endpointslice, error: '' e)
                 | Inr eps \<Rightarrow> Inr (Some eps)) of
             Inl e \<Rightarrow> (Inl e, s)
           | Inr cur \<Rightarrow>
               (case getServiceBackendServers m lb (snd s) of
                  Inl e \<Rightarrow> (Inl e, s)
                | Inr servers \<Rightarrow>
                    (case constructEndpointSliceFromBackendServers cur lb (GetBackendServers servers) of
                       Inl e \<Rightarrow> (Inl e, s)
                     | Inr epsNew \<Rightarrow>
                         (case store_slice m cur epsNew (snd s) of
                            (Inl e, w1) \<Rightarrow> (Inl e, fst s, w1)
                          | (Inr eps, w1) \<Rightarrow>
                              (case ensureProbes m lb eps (fst s, w1) of
                                 (Inl e, s2) \<Rightarrow> (Inl (wrapf ''fail to ensure probs, error: '' e), s2)
                               | (Inr _, s2) \<Rightarrow>
                                   (case ensureDummyEndpoint m lb eps (snd s2) of
                                      (Inl e, w3) \<Rightarrow>
                                        (Inl (wrapf ''fail to ensure dummy endpointslice, error: '' e), fst s2, w3)
                                    | (Inr _, w3) \<Rightarrow> (Inr servers, fst s2, w3))))))))"

definition DeleteLoadBalancer :: "'w SvcManager \<Rightarrow> LoadBalancer \<Rightarrow> 'w mstate \<Rightarrow> unit res \<times> 'w mstate" where
  "DeleteLoadBalancer m lb s =
     (case eso_Get (sm_endpointSlices m) (lb_Namespace lb) (lb_Name lb) (snd s) of
        Inl e \<Rightarrow>
          if errors_Is e NotFound then (Inr (), snd (removeLBProbers lb (fst s)), snd s) else (Inl e, s)
      | Inr eps \<Rightarrow> (Inr (), snd (removeLBProbers lb (fst s)), snd s))"

end
