(* ===== verification/ProberUse.thy ===== *)
theory ProberUse
  imports ServiceLB
begin

text \<open>
  Properties of health checking: the thresholds of a worker, the goroutines of the prober manager
  over every sequence of its operations, and the reconciliation of the workers of a load balancer
  with the endpoints that should be probed (\<^verbatim>\<open>updateAllProbers\<close>, \<^verbatim>\<open>ensureProbes\<close>).
\<close>

section \<open>What the operations do to one worker\<close>

text \<open>The worker registered for a uid and an address.\<close>

definition worker_of :: "ProbeManager \<Rightarrow> string \<Rightarrow> string \<Rightarrow> Worker option" where
  "worker_of m uid a = m_get (wm_of uid (pm_workers m)) a"

definition fresh_worker :: "string \<Rightarrow> HealthOption \<Rightarrow> Worker option \<Rightarrow> bool" where
  "fresh_worker uid opt w \<longleftrightarrow> (\<exists>n. w = Some (newWorker n uid opt))"

lemma fresh_newWorker [simp]: "fresh_worker uid opt (Some (newWorker n uid opt))"
  by (auto simp: fresh_worker_def)

lemma worker_of_Add:
  "worker_of (AddWorker uid a opt m) u b =
     (if u = uid \<and> b = a then Some (newWorker (pm_next m) uid opt) else worker_of m u b)"
  by (auto simp: worker_of_def AddWorker_def Let_def gomap_simps split: option.splits)

lemma worker_of_Remove:
  "worker_of (snd (RemoveWorker uid a m)) u b = (if u = uid \<and> b = a then None else worker_of m u b)"
  by (auto simp: worker_of_def RemoveWorker_def gomap_simps split: option.splits)

lemma worker_of_RemoveAll:
  "worker_of (snd (RemoveWorkersByUid uid m)) u b = (if u = uid then None else worker_of m u b)"
  by (auto simp: worker_of_def RemoveWorkersByUid_def gomap_simps split: option.splits)

lemmas worker_of_ops = worker_of_Add worker_of_Remove worker_of_RemoveAll

lemma option_map_get:
  assumes "\<forall>(a, w) \<in> set wm. ho_Address (wk_option w) = a"
  shows "m_get (fold (\<lambda>(k, w) prob. m_set (ho_Address (wk_option w)) (wk_option w) prob) wm acc) a =
    (case m_get (rev wm) a of Some w \<Rightarrow> Some (wk_option w) | None \<Rightarrow> m_get acc a)"
  using assms
  by (induction wm arbitrary: acc) (auto simp: gomap_simps map_add_def split: option.splits)

lemma m_get_rev: "m_wf m \<Longrightarrow> m_get (rev m) k = m_get m k"
proof -
  assume wf: "m_wf m"
  then have "m_wf (rev m)" by (simp add: m_wf_def rev_map [symmetric])
  then have "m_get (rev m) k = Some v \<longleftrightarrow> m_get m k = Some v" for v
    using wf m_get_mem [of "rev m" k v] m_get_mem [of m k v] by simp
  then show ?thesis by (cases "m_get m k") auto
qed

lemma fold_set_wf: "m_wf acc \<Longrightarrow> m_wf (fold (\<lambda>(k, w) prob. m_set (f w) (g w) prob) wm acc)"
  by (induction wm arbitrary: acc) (auto intro: m_wf_set)

lemma fold_set_keys:
  "(k, v) \<in> set (fold (\<lambda>(k, w) prob. m_set (ho_Address (wk_option w)) (wk_option w) prob) wm acc) \<Longrightarrow>
     \<forall>(k, v) \<in> set acc. ho_Address v = k \<Longrightarrow> ho_Address v = k"
proof (induction wm arbitrary: acc)
  case (Cons x wm)
  obtain k' w where x: "x = (k', w)" by fastforce
  have "\<forall>(k, v) \<in> set (m_set (ho_Address (wk_option w)) (wk_option w) acc). ho_Address v = k"
    using Cons.prems(2) set_AList_update [of "ho_Address (wk_option w)" "wk_option w" acc] by auto
  then show ?case using Cons.IH Cons.prems(1) x by simp
qed auto

definition keyed :: "(string, HealthOption) gomap \<Rightarrow> bool" where
  "keyed m \<longleftrightarrow> m_wf m \<and> (\<forall>(k, v) \<in> set m. ho_Address v = k)"

lemma keyed_get: "keyed m \<Longrightarrow> m_get m k = Some v \<Longrightarrow> ho_Address v = k"
  by (auto simp: keyed_def dest: map_of_SomeD)

lemma keyed_del: "keyed m \<Longrightarrow> keyed (m_del k m)"
  using set_AList_delete [of k m] by (auto simp: keyed_def m_wf_del)

text \<open>The map of active options shows exactly the registered workers.\<close>

lemma option_map_view:
  assumes "pm_inv m"
  shows "keyed (entries (GetWorkerHealthOptionMap uid m))"
    and "m_get (entries (GetWorkerHealthOptionMap uid m)) a = map_option wk_option (worker_of m uid a)"
proof -
  have wm: "wm_inv uid (wm_of uid (pm_workers m))"
    using assms wm_inv_of by (simp add: pm_inv_iff)
  show "keyed (entries (GetWorkerHealthOptionMap uid m))"
    using fold_set_keys [of _ _ _ "[]"] fold_set_wf [of "[]"]
    by (auto simp: GetWorkerHealthOptionMap_def keyed_def split: option.splits)
  have "\<forall>(a, w) \<in> set (wm_of uid (pm_workers m)). ho_Address (wk_option w) = a"
    using wm by (auto simp: wm_inv_def)
  note get = option_map_get [OF this, of "[]" a]
  show "m_get (entries (GetWorkerHealthOptionMap uid m)) a = map_option wk_option (worker_of m uid a)"
    using wm get m_get_rev [of "wm_of uid (pm_workers m)" a]
    by (cases "m_get (pm_workers m) uid")
      (auto simp: GetWorkerHealthOptionMap_def worker_of_def wm_inv_def map_option_case split: option.split)
qed

section \<open>Reconciling the workers\<close>

text \<open>
  What a load balancer relies on from the registry of workers: what each operation keeps, and which
  worker it registers or removes. The folds at the end of \<^verbatim>\<open>updateAllProbers\<close> follow from it.
\<close>

locale prober_registry =
  fixes inv :: "'m \<Rightarrow> bool"
    and look :: "'m \<Rightarrow> string \<Rightarrow> string \<Rightarrow> Worker option"
    and add :: "string \<Rightarrow> string \<Rightarrow> HealthOption \<Rightarrow> 'm \<Rightarrow> 'm"
    and remove :: "string \<Rightarrow> string \<Rightarrow> 'm \<Rightarrow> nat \<times> 'm"
    and remove_all :: "string \<Rightarrow> 'm \<Rightarrow> nat \<times> 'm"
  assumes inv_add: "inv m \<Longrightarrow> ho_Address opt = a \<Longrightarrow> inv (add uid a opt m)"
    and inv_remove: "inv m \<Longrightarrow> inv (snd (remove uid a m))"
    and inv_remove_all: "inv m \<Longrightarrow> inv (snd (remove_all uid m))"
    and look_add: "fresh_worker uid opt (look (add uid a opt m) uid a)"
    and look_add_other: "u \<noteq> uid \<or> b \<noteq> a \<Longrightarrow> look (add uid a opt m) u b = look m u b"
    and look_remove: "look (snd (remove uid a m)) u b = (if u = uid \<and> b = a then None else look m u b)"
    and look_remove_all: "look (snd (remove_all uid m)) u b = (if u = uid then None else look m u b)"
begin

lemma remove_fold:
  assumes "\<forall>(k, ap) \<in> set xs. ho_Address ap = k" and "inv m"
  shows "inv (fold (\<lambda>(k, ap) p. snd (remove uid (ho_Address ap) p)) xs m) \<and>
    look (fold (\<lambda>(k, ap) p. snd (remove uid (ho_Address ap) p)) xs m) u a =
      (if u = uid \<and> a \<in> fst ` set xs then None else look m u a)"
  using assms
proof (induction xs arbitrary: m)
  case (Cons x xs)
  obtain k ap where x: "x = (k, ap)" by fastforce
  have "inv (snd (remove uid (ho_Address ap) m))" using Cons.prems(2) by (rule inv_remove)
  from Cons.IH [OF _ this] Cons.prems(1) show ?case by (auto simp: x look_remove)
qed simp

lemma add_fold:
  assumes "keyed xs" and "inv m"
  shows "inv (fold (\<lambda>(k, tp) p. add uid (ho_Address tp) tp p) xs m) \<and>
    (\<forall>u. u = uid \<and> m_get xs a \<noteq> None \<or>
       look (fold (\<lambda>(k, tp) p. add uid (ho_Address tp) tp p) xs m) u a = look m u a) \<and>
    (\<forall>tp. m_get xs a = Some tp \<longrightarrow>
       fresh_worker uid tp (look (fold (\<lambda>(k, tp) p. add uid (ho_Address tp) tp p) xs m) uid a))"
  using assms
proof (induction xs arbitrary: m)
  case (Cons x xs)
  obtain k tp where x: "x = (k, tp)" by fastforce
  have k: "ho_Address tp = k" "keyed xs" "m_get xs k = None"
    using Cons.prems(1) by (auto simp: x keyed_def m_get_None)
  let ?m = "add uid k tp m"
  have i: "inv ?m" using Cons.prems(2) k(1) by (rule inv_add)
  note IH = Cons.IH [OF k(2) i]
  have f: "fold (\<lambda>(k, tp) p. add uid (ho_Address tp) tp p) (x # xs) m =
      fold (\<lambda>(k, tp) p. add uid (ho_Address tp) tp p) xs ?m"
    by (simp add: x k)
  show ?case
  proof (cases "a = k")
    case True
    then have "look (fold (\<lambda>(k, tp) p. add uid (ho_Address tp) tp p) xs ?m) u a = look ?m u a" for u
      using IH k(3) by blast
    then show ?thesis using IH True k look_add [of uid tp k m] look_add_other [of _ uid a k tp m]
      unfolding f by (auto simp: x)
  next
    case False
    then show ?thesis using IH k look_add_other [of _ uid a k tp m] unfolding f by (auto simp: x)
  qed
qed simp

end

interpretation pmr: prober_registry pm_inv worker_of AddWorker RemoveWorker RemoveWorkersByUid
  by unfold_locales
    (auto simp: worker_of_ops intro: AddWorker_inv RemoveWorker_inv RemoveWorkersByUid_inv)

text \<open>The first loop: a worker is replaced exactly when both maps have its address with different options.\<close>

lemma match_probers_spec:
  assumes "match_probers uid ks active target m = (active', target', m')"
    and "keyed active" and "keyed target" and "pm_inv m"
  shows "keyed active' \<and> keyed target' \<and> pm_inv m' \<and>
    (\<forall>a. m_get active' a = (if a \<in> set ks \<and> m_get target a \<noteq> None then None else m_get active a)) \<and>
    (\<forall>a. m_get target' a = (if a \<in> set ks \<and> m_get active a \<noteq> None then None else m_get target a)) \<and>
    (\<forall>u a. u = uid \<and> a \<in> set ks \<and> (\<exists>ap tp. m_get active a = Some ap \<and> m_get target a = Some tp \<and> \<not> ho_Equal ap tp) \<or>
       worker_of m' u a = worker_of m u a) \<and>
    (\<forall>a ap tp. a \<in> set ks \<longrightarrow> m_get active a = Some ap \<longrightarrow> m_get target a = Some tp \<longrightarrow> \<not> ho_Equal ap tp \<longrightarrow>
       fresh_worker uid tp (worker_of m' uid a))"
  using assms
proof (induction ks arbitrary: active target m)
  case (Cons k ks)
  show ?case
  proof (cases "m_get active k = None \<or> m_get target k = None")
    case True
    then have "match_probers uid ks active target m = (active', target', m')"
      using Cons.prems keyed_get [OF Cons.prems(2)] by (auto split: option.splits)
    note IH = Cons.IH [OF this Cons.prems(2-4)]
    show ?thesis using IH True by (elim conjE, intro conjI allI) auto
  next
    case False
    then obtain ap tp where at: "m_get active k = Some ap" "m_get target k = Some tp" by auto
    have ad: "ho_Address ap = k" "ho_Address tp = k" using at keyed_get Cons.prems(2,3) by blast+
    define m1 where "m1 = (if \<not> ho_Equal ap tp then AddWorker uid k tp (snd (RemoveWorker uid k m)) else m)"
    have rest: "match_probers uid ks (m_del k active) (m_del k target) m1 = (active', target', m')"
      using Cons.prems(1) at ad by (simp add: m1_def Let_def split: if_splits)
    have "pm_inv m1" using Cons.prems(4) ad by (auto simp: m1_def intro: AddWorker_inv RemoveWorker_inv)
    note IH = Cons.IH [OF rest keyed_del [OF Cons.prems(2)] keyed_del [OF Cons.prems(3)] this]
    have w1: "worker_of m1 u a = (if u = uid \<and> a = k \<and> \<not> ho_Equal ap tp
        then Some (newWorker (pm_next (snd (RemoveWorker uid k m))) uid tp) else worker_of m u a)" for u a
      by (auto simp: m1_def worker_of_ops)
    have at_k: "worker_of m' u k = worker_of m1 u k" for u
    proof -
      have "worker_of m' u k = worker_of m1 u k \<or> (\<exists>ap. m_get (m_del k active) k = Some ap)" using IH by blast
      then show ?thesis by (simp add: gomap_simps)
    qed
    have off_k: "m_get (m_del k active) a = m_get active a" "m_get (m_del k target) a = m_get target a"
      "worker_of m1 u a = worker_of m u a" if "a \<noteq> k" for u a
      using that by (simp_all add: gomap_simps w1)
    have rest_maps:
      "m_get active' a = (if a \<in> set ks \<and> m_get (m_del k target) a \<noteq> None then None else m_get (m_del k active) a)"
      "m_get target' a = (if a \<in> set ks \<and> m_get (m_del k active) a \<noteq> None then None else m_get (m_del k target) a)" for a
      using IH by blast+
    have maps: "m_get active' a = (if a \<in> set (k # ks) \<and> m_get target a \<noteq> None then None else m_get active a)"
      "m_get target' a = (if a \<in> set (k # ks) \<and> m_get active a \<noteq> None then None else m_get target a)" for a
      unfolding rest_maps using at by (auto simp: gomap_simps)
    have "u = uid \<and> a \<in> set (k # ks) \<and> (\<exists>ap tp. m_get active a = Some ap \<and> m_get target a = Some tp \<and> \<not> ho_Equal ap tp) \<or>
        worker_of m' u a = worker_of m u a" for u a
    proof (cases "a = k")
      case True
      then show ?thesis using at at_k [of u] by (cases "u = uid \<and> \<not> ho_Equal ap tp") (auto simp: w1)
    next
      case False
      then show ?thesis using IH off_k [of a] by (metis list.set_intros(2))
    qed
    moreover have "fresh_worker uid tp' (worker_of m' uid a)"
      if "a \<in> set (k # ks)" "m_get active a = Some ap'" "m_get target a = Some tp'" "\<not> ho_Equal ap' tp'" for a ap' tp'
    proof (cases "a = k")
      case True
      then show ?thesis using that at at_k [of uid] by (simp add: w1)
    next
      case False
      then show ?thesis using IH off_k [of a] that by (metis set_ConsD)
    qed
    ultimately show ?thesis using IH maps by blast
  qed
qed auto

lemma updateAllProbers_spec:
  assumes "pm_inv m" and "keyed targets"
    and "m' = updateAllProbers uid (GetWorkerHealthOptionMap uid m) targets m"
  shows "pm_inv m'"
    and "u \<noteq> uid \<Longrightarrow> worker_of m' u a = worker_of m u a"
    and "m_get targets a = None \<Longrightarrow> worker_of m' uid a = None"
    and "m_get targets a = Some tp \<Longrightarrow> worker_of m uid a = Some w \<Longrightarrow> ho_Equal (wk_option w) tp \<Longrightarrow>
      worker_of m' uid a = Some w"
    and "m_get targets a = Some tp \<Longrightarrow> \<forall>w. worker_of m uid a = Some w \<longrightarrow> \<not> ho_Equal (wk_option w) tp \<Longrightarrow>
      fresh_worker uid tp (worker_of m' uid a)"
proof -
  define act where "act = entries (GetWorkerHealthOptionMap uid m)"
  have act: "keyed act" "m_get act b = map_option wk_option (worker_of m uid b)" for b
    using option_map_view [OF assms(1)] by (simp_all add: act_def)
  obtain act' tgt' m1 where mp: "match_probers uid (map fst act) act targets m = (act', tgt', m1)"
    by (metis prod_cases3)
  define m2 where "m2 = fold (\<lambda>(k, ap) p. snd (RemoveWorker uid (ho_Address ap) p)) act' m1"
  have m': "m' = fold (\<lambda>(k, tp) p. AddWorker uid (ho_Address tp) tp p) tgt' m2"
    using assms(3) mp by (simp add: updateAllProbers_def act_def m2_def)
  note S = match_probers_spec [OF mp act(1) assms(2,1)]
  have keys: "b \<in> set (map fst act) \<longleftrightarrow> worker_of m uid b \<noteq> None" for b
    using act(2) [of b] m_get_None [of act b] by auto
  have k: "keyed act'" "keyed tgt'" "pm_inv m1" using S by blast+
  then have "\<forall>(k, ap) \<in> set act'. ho_Address ap = k" by (simp add: keyed_def)
  note R = pmr.remove_fold [OF this k(3), of uid, folded m2_def]
  note A = pmr.add_fold [OF k(2) conjunct1 [OF R], of uid, folded m']
  have a': "b \<in> fst ` set act' \<longleftrightarrow> worker_of m uid b \<noteq> None \<and> m_get targets b = None" for b
  proof -
    have "m_get act' b = (if b \<in> set (map fst act) \<and> m_get targets b \<noteq> None then None else m_get act b)"
      using S by blast
    then show ?thesis using keys [of b] act(2) [of b] m_get_None [of act' b] by (auto split: if_splits)
  qed
  have t': "m_get tgt' b = (if worker_of m uid b \<noteq> None then None else m_get targets b)" for b
    using S keys [of b] act(2) [of b] by auto
  show "pm_inv m'" using A by blast
  show "worker_of m' u a = worker_of m u a" if "u \<noteq> uid"
    using that A [of a] R [of u a] S by metis
  show "worker_of m' uid a = None" if n: "m_get targets a = None"
  proof -
    have "worker_of m' uid a = worker_of m2 uid a" using A [of a] t' [of a] n by (auto split: if_splits)
    moreover have "worker_of m1 uid a = worker_of m uid a" using S n by (metis option.distinct(1))
    ultimately show ?thesis using R [of uid a] a' [of a] n by auto
  qed
  show "worker_of m' uid a = Some w"
    if t: "m_get targets a = Some tp" "worker_of m uid a = Some w" "ho_Equal (wk_option w) tp"
  proof -
    have "worker_of m' uid a = worker_of m2 uid a" using A [of a] t' [of a] t by auto
    also have "\<dots> = worker_of m1 uid a" using R [of uid a] a' [of a] t by auto
    also have "\<dots> = worker_of m uid a" using S act(2) [of a] t by (metis option.inject option.simps(9))
    finally show ?thesis using t(2) by simp
  qed
  show "fresh_worker uid tp (worker_of m' uid a)"
    if t: "m_get targets a = Some tp" "\<forall>w. worker_of m uid a = Some w \<longrightarrow> \<not> ho_Equal (wk_option w) tp"
  proof (cases "worker_of m uid a")
    case None
    then show ?thesis using A [of a] t' [of a] t(1) by auto
  next
    case (Some w)
    have "worker_of m' uid a = worker_of m2 uid a" using A [of a] t' [of a] Some by auto
    also have "\<dots> = worker_of m1 uid a" using R [of uid a] a' [of a] t by auto
    finally show ?thesis
      using S t Some act(2) [of a] keys [of a] by (metis option.distinct(1) option.simps(9))
  qed
qed

section \<open>Thresholds\<close>

text \<open>
  A worker with positive thresholds reports a result exactly when the number of equal
  results at the end of its history is a multiple of the threshold for that result: the first
  report comes after as many consecutive results as the threshold says, a different result in
  between starts the count again, and an unchanged condition is reported again at every further
  multiple. Stopping the worker sends nothing. The period must be positive, or the worker panics when it starts.
\<close>

theorem probe_reports:
  assumes "thresholds_ok opt" and "0 < sint (ho_Period opt)"
  shows "\<exists>w. run (map Tick rs @ StopReq # evs) (newWorker n uid opt) = Inr (w, due_reports opt uid rs)"
proof -
  have "wk_option (newWorker n uid opt) = opt" by (simp add: newWorker_def)
  then have "run (map Tick rs @ StopReq # evs) (newWorker n uid opt) = Inr (run_probes rs (newWorker n uid opt))"
    using run_ticks [of "newWorker n uid opt"] assms(2) by simp
  then show ?thesis using run_probes_due [OF assms(1), of rs n uid] by (metis prod.collapse)
qed

definition demo_option :: HealthOption where
  "demo_option = \<lparr>ho_Address = ''10.0.0.5:80'', ho_SuccessThreshold = 1, ho_FailureThreshold = 3,
     ho_Timeout = 1, ho_Period = 1, ho_InitialCondition = False\<rparr>"

theorem probe_reports_witness:
  "\<exists>w. run (map Tick [True, False, False, False, True] @ [StopReq]) (newWorker 0 ''default/lb1'' demo_option) =
     Inr (w, map (\<lambda>b. \<lparr>hr_uid = ''default/lb1'', hr_address = ''10.0.0.5:80'', hr_isHealthy = b\<rparr>) [True, False, True])"
proof -
  have "thresholds_ok demo_option" "0 < sint (ho_Period demo_option)" by code_simp+
  moreover have "due_reports demo_option ''default/lb1'' [True, False, False, False, True] =
      map (\<lambda>b. \<lparr>hr_uid = ''default/lb1'', hr_address = ''10.0.0.5:80'', hr_isHealthy = b\<rparr>) [True, False, True]" by code_simp
  ultimately show ?thesis using probe_reports [of demo_option "[True, False, False, False, True]" "[]" 0 "''default/lb1''"] by simp
qed

section \<open>Goroutines\<close>

text \<open>The steps of the prober manager, as the service load balancer takes them.\<close>

inductive pm_step :: "ProbeManager \<Rightarrow> ProbeManager \<Rightarrow> bool" where
  step_add: "pm_step m (AddWorker uid (ho_Address opt) opt m)"
| step_remove: "pm_step m (snd (RemoveWorker uid a m))"
| step_remove_all: "pm_step m (snd (RemoveWorkersByUid uid m))"
| step_update: "keyed targets \<Longrightarrow> pm_step m (updateAllProbers uid (GetWorkerHealthOptionMap uid m) targets m)"

inductive pm_reachable :: "ProbeManager \<Rightarrow> bool" where
  pm_init: "pm_reachable NewProbeManager"
| pm_next: "pm_reachable m \<Longrightarrow> pm_step m m' \<Longrightarrow> pm_reachable m'"

lemma pm_step_inv: "pm_step m m' \<Longrightarrow> pm_inv m \<Longrightarrow> pm_inv m'"
  by (induction rule: pm_step.induct)
    (auto intro: AddWorker_inv RemoveWorker_inv RemoveWorkersByUid_inv updateAllProbers_spec(1))

text \<open>
  \<^bold>\<open>C22.\<close> In every state the prober manager can reach, the running goroutines are exactly the
  registered workers, one each: a worker that is replaced or removed has been stopped, none is
  stopped twice, and a worker is registered under its own uid and address.
\<close>

theorem one_goroutine_per_worker:
  assumes "pm_reachable m"
  shows "mset (map wk_id (all_workers m)) = mset (pm_running m) \<and> distinct (pm_running m) \<and>
    (\<forall>uid a w. worker_of m uid a = Some w \<longrightarrow> wk_uid w = uid \<and> ho_Address (wk_option w) = a)"
proof -
  have inv: "pm_inv m"
    using assms by induction (auto intro: NewProbeManager_inv pm_step_inv)
  then have ids: "mset (map wk_id (all_workers m)) = mset (pm_running m) \<and> distinct (pm_running m)"
    by (simp add: pm_inv_def)
  have own: "wk_uid w = uid \<and> ho_Address (wk_option w) = a" if "worker_of m uid a = Some w" for uid a w
    using wm_inv_of [of "pm_workers m" uid] that inv map_of_SomeD [of "wm_of uid (pm_workers m)" a w]
    by (auto simp: pm_inv_iff wm_inv_def worker_of_def)
  from ids own show ?thesis by blast
qed

definition demo_pm :: ProbeManager where
  "demo_pm = AddWorker ''default/lb1'' ''10.0.0.5:80'' demo_option
     (AddWorker ''default/lb1'' ''10.0.0.5:80'' demo_option NewProbeManager)"

lemma demo_pm_reachable: "pm_reachable demo_pm"
proof -
  have "demo_pm = AddWorker ''default/lb1'' (ho_Address demo_option) demo_option
      (AddWorker ''default/lb1'' (ho_Address demo_option) demo_option NewProbeManager)"
    by (simp add: demo_pm_def demo_option_def)
  then show ?thesis by (metis pm_init pm_next step_add)
qed

theorem one_goroutine_per_worker_witness:
  "pm_running demo_pm = [1] \<and> mset (map wk_id (all_workers demo_pm)) = {#1#}"
proof -
  have "pm_running demo_pm = [1]" by code_simp
  then show ?thesis using one_goroutine_per_worker [OF demo_pm_reachable] by simp
qed

text \<open>
  \<^verbatim>\<open>updateAllProbers\<close> makes the workers of a load balancer those of the target map: a
  worker with the wanted parameters is left running with its counters, one with other parameters
  is replaced by a fresh one, missing ones are started and the rest are stopped; the workers of
  other load balancers are not touched.
\<close>

theorem updateAllProbers_reconciles:
  assumes "pm_inv m" and "keyed targets"
    and "m' = updateAllProbers uid (GetWorkerHealthOptionMap uid m) targets m"
  shows "pm_inv m' \<and> (\<forall>u a. u \<noteq> uid \<longrightarrow> worker_of m' u a = worker_of m u a) \<and>
    (\<forall>a. case m_get targets a of
       None \<Rightarrow> worker_of m' uid a = None
     | Some tp \<Rightarrow>
         (case worker_of m uid a of
            Some w \<Rightarrow> if ho_Equal (wk_option w) tp then worker_of m' uid a = Some w
                      else fresh_worker uid tp (worker_of m' uid a)
          | None \<Rightarrow> fresh_worker uid tp (worker_of m' uid a)))"
  using updateAllProbers_spec [OF assms] by (auto split: option.split)

theorem updateAllProbers_reconciles_witness:
  "fresh_worker ''default/lb1'' (demo_option\<lparr>ho_Period := 9\<rparr>)
     (worker_of (updateAllProbers ''default/lb1'' (GetWorkerHealthOptionMap ''default/lb1'' demo_pm)
        [(''10.0.0.5:80'', demo_option\<lparr>ho_Period := 9\<rparr>)] demo_pm) ''default/lb1'' ''10.0.0.5:80'')"
proof -
  have i: "pm_inv demo_pm"
    unfolding demo_pm_def by (intro AddWorker_inv NewProbeManager_inv) (simp_all add: demo_option_def)
  have k: "keyed [(''10.0.0.5:80'', demo_option\<lparr>ho_Period := 9\<rparr>)]" by (simp add: keyed_def demo_option_def)
  have w: "worker_of demo_pm ''default/lb1'' ''10.0.0.5:80'' = Some (newWorker 1 ''default/lb1'' demo_option)"
    by code_simp
  have "\<not> ho_Equal (wk_option (newWorker 1 ''default/lb1'' demo_option)) (demo_option\<lparr>ho_Period := 9\<rparr>)" by code_simp
  with w show ?thesis
    using updateAllProbers_reconciles [OF i k refl, where uid = "''default/lb1''",
      THEN conjunct2, THEN conjunct2, THEN spec, of "''10.0.0.5:80''"]
    by simp
qed

end
