(* ===== verification/LBWebhook.thy ===== *)
theory LBWebhook
  imports KubeObjects
begin

text \<open>
  Admission of load balancers: the validator and the mutator of
  \<^verbatim>\<open>pkg/webhook/loadbalancer\<close>. The listers of VMs, VMIs and namespaces are parameters.
  The validator keeps what it has seen of the listeners in three maps, as the code does; the lemmas
  at the end say what its checks decide.
\<close>

section \<open>Checks of the validator\<close>

definition maxPort :: int where "maxPort = 65535"
definition defaultGuestClusterName :: string where "defaultGuestClusterName = ''kubernetes''"

definition port_key :: "string \<Rightarrow> int32 \<Rightarrow> string" where
  "port_key protocol port = protocol @ '':'' @ Itoa (sint port)"

fun check_duplicates ::
  "Listener list \<Rightarrow> nat \<Rightarrow> Listener list \<Rightarrow> (string, bool) gomap \<Rightarrow> (string, nat) gomap \<Rightarrow> (string, nat) gomap \<Rightarrow> unit res" where
  "check_duplicates all i [] nameMap portMap backendMap = Inr ()"
| "check_duplicates all i (listener # ls) nameMap portMap backendMap =
     (if m_get nameMap (l_Name listener) \<noteq> None
      then Inl (errorf (''listener has duplicate name '' @ l_Name listener))
      else
        let portKey = port_key (l_Protocol listener) (l_Port listener) in
        case m_get portMap portKey of
          Some index \<Rightarrow>
            Inl (errorf (''listener '' @ l_Name listener @ '' has duplicate port '' @ portKey @ '' with listener '' @
                   l_Name (all ! index)))
        | None \<Rightarrow>
            let backendKey = port_key (l_Protocol listener) (l_BackendPort listener) in
            (case m_get backendMap backendKey of
               Some index \<Rightarrow>
                 Inl (errorf (''listener '' @ l_Name listener @ '' has duplicate backend port '' @ backendKey @
                        '' with listener '' @ l_Name (all ! index)))
             | None \<Rightarrow>
                 check_duplicates all (Suc i) ls (m_set (l_Name listener) True nameMap) (m_set portKey i portMap)
                   (m_set backendKey i backendMap)))"

fun check_ports :: "Listener list \<Rightarrow> unit res" where
  "check_ports [] = Inr ()"
| "check_ports (listener # ls) =
     (if sint (l_Port listener) > maxPort then
        Inl (errorf (''listener port '' @ Itoa (sint (l_Port listener)) @ '' must <= '' @ Itoa maxPort))
      else if sint (l_Port listener) < 1 then
        Inl (errorf (''listener port '' @ Itoa (sint (l_Port listener)) @ '' must >= 1''))
      else if sint (l_BackendPort listener) > maxPort then
        Inl (errorf (''listener backend port '' @ Itoa (sint (l_BackendPort listener)) @ '' must <= '' @ Itoa maxPort))
      else if sint (l_BackendPort listener) < 1 then
        Inl (errorf (''listener backend port '' @ Itoa (sint (l_BackendPort listener)) @ '' must >= 1''))
      else check_ports ls)"

definition checkListeners :: "LoadBalancer \<Rightarrow> unit res" where
  "checkListeners lb =
     (let ls = lbs_Listeners (lb_Spec lb) in
      if lbs_WorkloadType (lb_Spec lb) = Cluster then Inr ()
      else if ls = [] then Inl (errorf ''the loadbalancer needs to have at least one listener'')
      else (case check_duplicates ls 0 ls [] [] [] of
          Inl e \<Rightarrow> Inl e
        | Inr _ \<Rightarrow> check_ports ls))"

text \<open>The conversion \<^verbatim>\<open>uint(int32)\<close> extends the sign.\<close>

definition to_uint :: "int32 \<Rightarrow> gouint" where
  "to_uint p = word_of_int (sint p)"

fun check_health_loop :: "HealthCheck \<Rightarrow> Listener list \<Rightarrow> bool \<Rightarrow> unit res" where
  "check_health_loop hc [] wrongProtocol =
     (if wrongProtocol then
        Inl (errorf (''healthcheck port '' @ Itoa (uint (hc_Port hc)) @ '' can only be a TCP backend port''))
      else Inl (errorf (''healthcheck port '' @ Itoa (uint (hc_Port hc)) @ '' is not in listener backend port list'')))"
| "check_health_loop hc (listener # ls) wrongProtocol =
     (if to_uint (l_BackendPort listener) = hc_Port hc then
        (if l_Protocol listener = ''TCP'' then
           (if hc_SuccessThreshold hc = 0 then Inl (errorf ''healthcheck SuccessThreshold should > 0'')
            else if hc_FailureThreshold hc = 0 then Inl (errorf ''healthcheck FailureThreshold should > 0'')
            else if hc_PeriodSeconds hc = 0 then Inl (errorf ''healthcheck PeriodSeconds should > 0'')
            else if hc_TimeoutSeconds hc = 0 then Inl (errorf ''healthcheck TimeoutSeconds should > 0'')
            else Inr ())
         else check_health_loop hc ls True)
      else check_health_loop hc ls wrongProtocol)"

definition checkHealthyCheck :: "LoadBalancer \<Rightarrow> unit res" where
  "checkHealthyCheck lb =
     (if lbs_WorkloadType (lb_Spec lb) = Cluster then Inr ()
      else (case lbs_HealthCheck (lb_Spec lb) of
          None \<Rightarrow> Inr ()
        | Some hc \<Rightarrow> if hc_Port hc = 0 then Inr () else check_health_loop hc (lbs_Listeners (lb_Spec lb)) False))"

definition checkIPAM :: "LoadBalancer \<Rightarrow> LoadBalancer \<Rightarrow> unit res" where
  "checkIPAM oldLb newLb =
     (let old = lbs_IPAM (lb_Spec oldLb); new = lbs_IPAM (lb_Spec newLb) in
      if (old \<noteq> DHCP \<and> new = DHCP) \<or> (old = DHCP \<and> new \<noteq> DHCP)
      then Inl (errorf (''can't change the IPAM from '' @ old @ '' to '' @ new))
      else Inr ())"

definition checkWorkloadType :: "LoadBalancer \<Rightarrow> LoadBalancer \<Rightarrow> unit res" where
  "checkWorkloadType oldLb newLb =
     (let old = lbs_WorkloadType (lb_Spec oldLb); new = lbs_WorkloadType (lb_Spec newLb) in
      if (old \<noteq> Cluster \<and> new = Cluster) \<or> (old = Cluster \<and> new \<noteq> Cluster)
      then Inl (errorf (''can't change the WorkloadType from '' @ old @ '' to '' @ new))
      else Inr ())"

definition checkGuestClusterIsOnRemove :: "'w VmList \<Rightarrow> LoadBalancer \<Rightarrow> 'w \<Rightarrow> unit res" where
  "checkGuestClusterIsOnRemove vmList lb w =
     (if lbs_WorkloadType (lb_Spec lb) \<noteq> Cluster then Inr ()
      else (case GetGuestClusterNameFromLB (Some lb) of
          None \<Rightarrow> Inr ()
        | Some gcName \<Rightarrow>
            if gcName = '''' \<or> gcName = defaultGuestClusterName then Inr ()
            else (case vmList (lb_Namespace lb) (NewGuestClusterNameAndCreatorNameSelector gcName) w of
                Inl e \<Rightarrow> Inl (wrapf (''list vm from '' @ lb_Namespace lb @ '' failed, error: '') e)
              | Inr vms \<Rightarrow>
                  (case find (\<lambda>vm. IsVmWithGuestClusterOnRemoveAnnotation (Some vm)) vms of
                     None \<Rightarrow> Inr ()
                   | Some vm \<Rightarrow>
                       Inl (errorf (''the vm '' @ md_Namespace (vm_Meta vm) @ ''/'' @ md_Name (vm_Meta vm) @
                              '' shows guest cluster '' @ gcName @ '' is being removed''))))))"

section \<open>The validator\<close>

definition lb_err :: "string \<Rightarrow> LoadBalancer \<Rightarrow> string \<Rightarrow> error \<Rightarrow> error" where
  "lb_err verb lb what = wrapf (verb @ '' loadbalancer '' @ lb_Namespace lb @ ''/'' @ lb_Name lb @ what)"

definition lb_validator_Create :: "'w VmList \<Rightarrow> LoadBalancer \<Rightarrow> 'w \<Rightarrow> unit res" where
  "lb_validator_Create vmList lb w =
     (case checkListeners lb of
        Inl e \<Rightarrow> Inl (lb_err ''create'' lb '' failed: '' e)
      | Inr _ \<Rightarrow>
          (case checkHealthyCheck lb of
             Inl e \<Rightarrow> Inl (lb_err ''create'' lb '' failed with healthyCheck: '' e)
           | Inr _ \<Rightarrow>
               (case checkGuestClusterIsOnRemove vmList lb w of
                  Inl e \<Rightarrow> Inl (lb_err ''create'' lb '' failed with guest cluster check: '' e)
                | Inr _ \<Rightarrow> Inr ())))"

definition lb_validator_Update :: "LoadBalancer \<Rightarrow> LoadBalancer \<Rightarrow> unit res" where
  "lb_validator_Update oldLb lb =
     (if md_DeletionTimestamp (lb_Meta lb) \<noteq> None then Inr ()
      else (case checkListeners lb of
          Inl e \<Rightarrow> Inl (lb_err ''update'' lb '' failed: '' e)
        | Inr _ \<Rightarrow>
            (case checkHealthyCheck lb of
               Inl e \<Rightarrow> Inl (lb_err ''update'' lb '' failed with healthyCheck: '' e)
             | Inr _ \<Rightarrow>
                 (case checkIPAM oldLb lb of
                    Inl e \<Rightarrow> Inl (lb_err ''update'' lb '' failed: '' e)
                  | Inr _ \<Rightarrow>
                      (case checkWorkloadType oldLb lb of
                         Inl e \<Rightarrow> Inl (lb_err ''update'' lb '' failed: '' e)
                       | Inr _ \<Rightarrow> Inr ())))))"

section \<open>The mutator\<close>

datatype lb_patch =
    ReplaceHealthCheck HealthCheck
  | ReplaceAnnotations strmap

definition at_least :: "gouint \<Rightarrow> gouint \<Rightarrow> gouint" where
  "at_least d v = (if v = 0 then d else v)"

definition getHealthyCheckPatch :: "LoadBalancer \<Rightarrow> lb_patch list" where
  "getHealthyCheckPatch lb =
     (case lbs_HealthCheck (lb_Spec lb) of
        None \<Rightarrow> []
      | Some hc0 \<Rightarrow>
          if hc_Port hc0 = 0 then []
          else
            let hc = hc0\<lparr>hc_SuccessThreshold := at_least 2 (hc_SuccessThreshold hc0),
                         hc_FailureThreshold := at_least 2 (hc_FailureThreshold hc0),
                         hc_PeriodSeconds := at_least 1 (hc_PeriodSeconds hc0),
                         hc_TimeoutSeconds := at_least 1 (hc_TimeoutSeconds hc0)\<rparr>;
                patched = (hc_SuccessThreshold hc0 = 0 \<or> hc_FailureThreshold hc0 = 0 \<or>
                           hc_PeriodSeconds hc0 = 0 \<or> hc_TimeoutSeconds hc0 = 0) in
            if patched then [ReplaceHealthCheck hc] else [])"

definition getAnnotationsPatchVM :: "LoadBalancer \<Rightarrow> lb_patch list" where
  "getAnnotationsPatchVM lb =
     (if str_get (md_Annotations (lb_Meta lb)) AnnotationKeyNamespace = lb_Namespace lb then []
      else [ReplaceAnnotations (m_set AnnotationKeyNamespace (lb_Namespace lb) (entries (md_Annotations (lb_Meta lb))))])"

definition ProjectIDAnn :: string where "ProjectIDAnn = ''field.cattle.io/projectId''"

definition findProject :: "'w NamespaceGet \<Rightarrow> string \<Rightarrow> 'w \<Rightarrow> string res" where
  "findProject nsGet namespace w =
     (case nsGet namespace w of
        Inl e \<Rightarrow> Inl (wrapf (''get namespace '' @ namespace @ '' failed, error: '') e)
      | Inr ns \<Rightarrow> Inr (Replace1 (CHR '':'') (CHR ''/'') (str_get (md_Annotations (ns_Meta ns)) ProjectIDAnn)))"

fun first_multus :: "string option list \<Rightarrow> string option" where
  "first_multus [] = None"
| "first_multus (network # ns) =
     (case network of
        Some name \<Rightarrow> if name \<noteq> '''' then Some name else first_multus ns
      | None \<Rightarrow> first_multus ns)"

definition getFirstMultusNetworkNameFromVMI :: "VirtualMachineInstance option \<Rightarrow> string option" where
  "getFirstMultusNetworkNameFromVMI vo =
     (case vo of None \<Rightarrow> None | Some vmi \<Rightarrow> first_multus (vmi_Networks vmi))"

fun getFirstMultusNetworkName :: "VirtualMachineInstance list \<Rightarrow> string option" where
  "getFirstMultusNetworkName [] = None"
| "getFirstMultusNetworkName (vmi # vmis) =
     (case getFirstMultusNetworkNameFromVMI (Some vmi) of
        Some name \<Rightarrow> Some name
      | None \<Rightarrow> getFirstMultusNetworkName vmis)"

fun findNetworkByLegacyNameMatch :: "VirtualMachineInstance list \<Rightarrow> string \<Rightarrow> string option" where
  "findNetworkByLegacyNameMatch [] clusterName = None"
| "findNetworkByLegacyNameMatch (vmi # vmis) clusterName =
     (if HasPrefix (md_Name (vmi_Meta vmi)) clusterName then
        (case getFirstMultusNetworkNameFromVMI (Some vmi) of
           Some name \<Rightarrow> Some name
         | None \<Rightarrow> findNetworkByLegacyNameMatch vmis clusterName)
      else findNetworkByLegacyNameMatch vmis clusterName)"

definition findNetwork :: "'w VmiList \<Rightarrow> LoadBalancer \<Rightarrow> 'w \<Rightarrow> string res" where
  "findNetwork vmiList lb w =
     (let ann = str_get (md_Annotations (lb_Meta lb)); clusterName = ann AnnotationKeyCluster in
      if ann AnnotationKeyNetwork \<noteq> '''' then Inr (ann AnnotationKeyNetwork)
      else if ann AnnotationKeyGuestClusterManagementNetworkOnLB \<noteq> ''''
      then Inr (ann AnnotationKeyGuestClusterManagementNetworkOnLB)
      else if clusterName = '''' then Inr ''''
      else (case vmiList (lb_Namespace lb) (NewGuestClusterNameSelector clusterName) w of
          Inl e \<Rightarrow> Inl (wrapf (''list vmis with guest cluster name '' @ clusterName @ '' selector failed: '') e)
        | Inr cnVMIs \<Rightarrow>
            (case getFirstMultusNetworkName cnVMIs of
               Some name \<Rightarrow> Inr name
             | None \<Rightarrow>
                 (case vmiList (lb_Namespace lb) NewGuestClusterCreatorSelector w of
                    Inl e \<Rightarrow> Inl (wrapf ''list vmis with creator selector failed: '' e)
                  | Inr creatorVMIs \<Rightarrow>
                      (case findNetworkByLegacyNameMatch creatorVMIs clusterName of
                         Some name \<Rightarrow> Inr name
                       | None \<Rightarrow> Inr '''')))))"

definition getAnnotationsPatchCluster ::
  "'w NamespaceGet \<Rightarrow> 'w VmiList \<Rightarrow> LoadBalancer \<Rightarrow> 'w \<Rightarrow> lb_patch list res" where
  "getAnnotationsPatchCluster nsGet vmiList lb w =
     (if lbs_WorkloadType (lb_Spec lb) \<noteq> Cluster then Inr []
      else (case findProject nsGet (lb_Namespace lb) w of
          Inl e \<Rightarrow> Inl e
        | Inr project \<Rightarrow>
            (case findNetwork vmiList lb w of
               Inl e \<Rightarrow> Inl e
             | Inr network \<Rightarrow>
                 Inr [ReplaceAnnotations
                   (m_set AnnotationKeyNetwork network (m_set AnnotationKeyProject project
                     (m_set AnnotationKeyNamespace (lb_Namespace lb) (entries (md_Annotations (lb_Meta lb))))))])))"

definition getAnnotationsPatch ::
  "'w NamespaceGet \<Rightarrow> 'w VmiList \<Rightarrow> LoadBalancer \<Rightarrow> 'w \<Rightarrow> lb_patch list res" where
  "getAnnotationsPatch nsGet vmiList lb w =
     (if lbs_WorkloadType (lb_Spec lb) = VM \<or> lbs_WorkloadType (lb_Spec lb) = ''''
      then Inr (getAnnotationsPatchVM lb)
      else getAnnotationsPatchCluster nsGet vmiList lb w)"

definition lb_mutator_Create :: "'w NamespaceGet \<Rightarrow> 'w VmiList \<Rightarrow> LoadBalancer \<Rightarrow> 'w \<Rightarrow> lb_patch list res" where
  "lb_mutator_Create nsGet vmiList lb w =
     (case getAnnotationsPatch nsGet vmiList lb w of
        Inl e \<Rightarrow> Inl e
      | Inr ap \<Rightarrow> let hcp = getHealthyCheckPatch lb in if ap = [] then Inr hcp else Inr (ap @ hcp))"

definition lb_mutator_Update :: "'w NamespaceGet \<Rightarrow> 'w VmiList \<Rightarrow> LoadBalancer \<Rightarrow> 'w \<Rightarrow> lb_patch list res" where
  "lb_mutator_Update nsGet vmiList lb w =
     (if md_DeletionTimestamp (lb_Meta lb) \<noteq> None then Inr []
      else (case getAnnotationsPatch nsGet vmiList lb w of
          Inl e \<Rightarrow> Inl e
        | Inr ap \<Rightarrow> let hcp = getHealthyCheckPatch lb in if ap = [] then Inr hcp else Inr (ap @ hcp)))"

text \<open>
  The load balancer after the API server has applied a patch. The patches are JSON patches with the operation
  \<^verbatim>\<open>replace\<close>. For the annotations the target may be absent, which RFC 6902 does not allow; the library that the API server
  uses, \<^verbatim>\<open>evanphx/json-patch\<close> of version 4, looks up an absent key of an object without an error and sets it, so the
  patch succeeds.
\<close>

fun apply_lb_patch :: "lb_patch \<Rightarrow> LoadBalancer \<Rightarrow> LoadBalancer" where
  "apply_lb_patch (ReplaceHealthCheck hc) lb = lb\<lparr>lb_Spec := (lb_Spec lb)\<lparr>lbs_HealthCheck := Some hc\<rparr>\<rparr>"
| "apply_lb_patch (ReplaceAnnotations m) lb = lb\<lparr>lb_Meta := (lb_Meta lb)\<lparr>md_Annotations := Some m\<rparr>\<rparr>"

definition apply_lb_patches :: "lb_patch list \<Rightarrow> LoadBalancer \<Rightarrow> LoadBalancer" where
  "apply_lb_patches = fold apply_lb_patch"

section \<open>What the checks decide\<close>

lemma Itoa_no_colon: "CHR '':'' \<notin> set (Itoa n)"
  using not_digit_Uitoa [of n "CHR '':''"] not_digit_Uitoa [of "- n" "CHR '':''"]
  by (auto simp: Itoa_def is_digit_def)

lemma Itoa_inj: "Itoa m = Itoa n \<longleftrightarrow> m = n"
proof -
  have d: "CHR ''-'' \<notin> set (Uitoa k)" if "0 \<le> k" for k
    using that by (rule not_digit_Uitoa) (simp add: is_digit_def)
  show ?thesis
    using d [of m] d [of n] Uitoa_inj [of m n] Uitoa_inj [of "- m" "- n"]
    by (auto simp: Itoa_def) (metis list.set_intros(1))+
qed

lemma first_sep_inj:
  "c \<notin> set s \<Longrightarrow> c \<notin> set t \<Longrightarrow> s @ c # p = t @ c # q \<longleftrightarrow> s = t \<and> p = q"
proof (induction s arbitrary: t)
  case Nil
  then show ?case by (cases t) auto
next
  case (Cons x s)
  then show ?case by (cases t) auto
qed

lemma last_sep_inj:
  assumes "c \<notin> set s" and "c \<notin> set t"
  shows "p @ c # s = q @ c # t \<longleftrightarrow> p = q \<and> s = t"
proof
  assume "p @ c # s = q @ c # t"
  then have "rev (p @ c # s) = rev (q @ c # t)" by (rule arg_cong)
  then have "rev s @ c # rev p = rev t @ c # rev q"
    unfolding rev_append rev.simps append_assoc append_Cons append_Nil .
  then show "p = q \<and> s = t"
    using assms by (simp add: first_sep_inj)
qed simp

lemma port_key_inj: "port_key p a = port_key q b \<longleftrightarrow> p = q \<and> a = b"
proof -
  have "sint a = sint b \<longleftrightarrow> a = b" by (metis signed_word_eqI)
  then show ?thesis
    by (simp add: port_key_def last_sep_inj Itoa_no_colon Itoa_inj)
qed

abbreviation listen_key :: "Listener \<Rightarrow> string \<times> int32" where
  "listen_key l \<equiv> (l_Protocol l, l_Port l)"

abbreviation backend_key :: "Listener \<Rightarrow> string \<times> int32" where
  "backend_key l \<equiv> (l_Protocol l, l_BackendPort l)"

lemma check_duplicates_iff:
  "check_duplicates all i ls nm pm bm = Inr () \<longleftrightarrow>
     distinct (map l_Name ls) \<and> distinct (map listen_key ls) \<and> distinct (map backend_key ls) \<and>
     (\<forall>l \<in> set ls. m_get nm (l_Name l) = None \<and> m_get pm (port_key (l_Protocol l) (l_Port l)) = None \<and>
        m_get bm (port_key (l_Protocol l) (l_BackendPort l)) = None)"
proof (induction all i ls nm pm bm rule: check_duplicates.induct)
  case (2 all i l ls nm pm bm)
  show ?case
  proof (cases "m_get nm (l_Name l) = None \<and> m_get pm (port_key (l_Protocol l) (l_Port l)) = None \<and>
        m_get bm (port_key (l_Protocol l) (l_BackendPort l)) = None")
    case True
    with 2 show ?thesis
      by (auto simp: gomap_simps port_key_inj image_iff split: if_splits)
  qed (auto simp: Let_def split: option.splits if_splits)
qed simp

definition port_ok :: "int32 \<Rightarrow> bool" where
  "port_ok p \<longleftrightarrow> 1 \<le> sint p \<and> sint p \<le> 65535"

lemma check_ports_iff: "check_ports ls = Inr () \<longleftrightarrow> (\<forall>l \<in> set ls. port_ok (l_Port l) \<and> port_ok (l_BackendPort l))"
  by (induction ls) (auto simp: port_ok_def maxPort_def)

lemma check_health_loop_iff:
  "check_health_loop hc ls wp = Inr () \<longleftrightarrow>
     (\<exists>l \<in> set ls. to_uint (l_BackendPort l) = hc_Port hc \<and> l_Protocol l = ''TCP'') \<and>
     hc_SuccessThreshold hc \<noteq> 0 \<and> hc_FailureThreshold hc \<noteq> 0 \<and> hc_PeriodSeconds hc \<noteq> 0 \<and> hc_TimeoutSeconds hc \<noteq> 0"
  by (induction ls arbitrary: wp) auto

lemma to_uint_port: "port_ok p \<Longrightarrow> uint (to_uint p) = sint p"
  unfolding to_uint_def uint_word_of_int port_ok_def by simp

section \<open>Specifications\<close>

definition listeners_spec :: "LoadBalancer \<Rightarrow> bool" where
  "listeners_spec lb \<longleftrightarrow>
     (let ls = lbs_Listeners (lb_Spec lb) in
      ls \<noteq> [] \<and> distinct (map l_Name ls) \<and> distinct (map listen_key ls) \<and> distinct (map backend_key ls) \<and>
      (\<forall>l \<in> set ls. port_ok (l_Port l) \<and> port_ok (l_BackendPort l)))"

definition probes :: "LoadBalancer \<Rightarrow> HealthCheck \<Rightarrow> bool" where
  "probes lb hc \<longleftrightarrow> lbs_HealthCheck (lb_Spec lb) = Some hc \<and> hc_Port hc \<noteq> 0"

definition tcp_backend :: "LoadBalancer \<Rightarrow> HealthCheck \<Rightarrow> bool" where
  "tcp_backend lb hc \<longleftrightarrow>
     (\<exists>l \<in> set (lbs_Listeners (lb_Spec lb)). sint (l_BackendPort l) = uint (hc_Port hc) \<and> l_Protocol l = ''TCP'')"

definition hc_positive :: "HealthCheck \<Rightarrow> bool" where
  "hc_positive hc \<longleftrightarrow> 0 < hc_SuccessThreshold hc \<and> 0 < hc_FailureThreshold hc \<and> 0 < hc_PeriodSeconds hc \<and>
     0 < hc_TimeoutSeconds hc"

definition health_spec :: "LoadBalancer \<Rightarrow> bool" where
  "health_spec lb \<longleftrightarrow> (\<forall>hc. probes lb hc \<longrightarrow> tcp_backend lb hc \<and> hc_positive hc)"

text \<open>The guest cluster of a load balancer has a name of its own and a VM of it is marked for removal, or the VMs cannot be listed.\<close>

definition cluster_blocked :: "'w VmList \<Rightarrow> LoadBalancer \<Rightarrow> 'w \<Rightarrow> bool" where
  "cluster_blocked vmList lb w \<longleftrightarrow>
     (\<exists>gc. GetGuestClusterNameFromLB (Some lb) = Some gc \<and> gc \<notin> {'''', defaultGuestClusterName} \<and>
        (case vmList (lb_Namespace lb) (NewGuestClusterNameAndCreatorNameSelector gc) w of
           Inl e \<Rightarrow> True
         | Inr vms \<Rightarrow> \<exists>vm \<in> set vms. IsVmWithGuestClusterOnRemoveAnnotation (Some vm)))"

lemma checkListeners_iff:
  "checkListeners lb = Inr () \<longleftrightarrow> lbs_WorkloadType (lb_Spec lb) = Cluster \<or> listeners_spec lb"
proof -
  have "(case r of Inl e \<Rightarrow> Inl e | Inr u \<Rightarrow> q) = Inr () \<longleftrightarrow> r = Inr () \<and> q = Inr ()" for r q :: "unit res"
    by (cases r) auto
  then show ?thesis
    by (auto simp: checkListeners_def listeners_spec_def Let_def check_duplicates_iff check_ports_iff)
qed

lemma to_uint_eq: "port_ok p \<Longrightarrow> to_uint p = u \<longleftrightarrow> sint p = uint u"
  using to_uint_port [of p] by (metis word_uint_eqI)

lemma checkHealthyCheck_iff:
  assumes "listeners_spec lb"
  shows "checkHealthyCheck lb = Inr () \<longleftrightarrow> lbs_WorkloadType (lb_Spec lb) = Cluster \<or> health_spec lb"
proof (cases "lbs_HealthCheck (lb_Spec lb)")
  case None
  then show ?thesis by (simp add: checkHealthyCheck_def health_spec_def probes_def)
next
  case (Some hc)
  have "(\<exists>l \<in> set (lbs_Listeners (lb_Spec lb)). to_uint (l_BackendPort l) = hc_Port hc \<and> l_Protocol l = ''TCP'') \<longleftrightarrow>
      tcp_backend lb hc"
    using assms unfolding tcp_backend_def listeners_spec_def Let_def by (auto simp: to_uint_eq)
  then show ?thesis
    using Some by (auto simp: checkHealthyCheck_def health_spec_def probes_def check_health_loop_iff hc_positive_def word_neq_0_conv)
qed

lemma checkGuestClusterIsOnRemove_iff:
  "checkGuestClusterIsOnRemove vmList lb w = Inr () \<longleftrightarrow>
     lbs_WorkloadType (lb_Spec lb) \<noteq> Cluster \<or> \<not> cluster_blocked vmList lb w"
  by (auto simp: checkGuestClusterIsOnRemove_def cluster_blocked_def find_None_iff find_Some_iff
      split: option.splits sum.splits if_splits)

lemma checkHealthyCheck_cluster: "lbs_WorkloadType (lb_Spec lb) = Cluster \<Longrightarrow> checkHealthyCheck lb = Inr ()"
  by (simp add: checkHealthyCheck_def)

lemma lb_create_checks:
  "lb_validator_Create vmList lb w = Inr () \<longleftrightarrow>
     checkListeners lb = Inr () \<and> checkHealthyCheck lb = Inr () \<and> checkGuestClusterIsOnRemove vmList lb w = Inr ()"
  by (auto simp: lb_validator_Create_def split: sum.splits)

lemma lb_create_vm:
  assumes "lbs_WorkloadType (lb_Spec lb) \<noteq> Cluster"
  shows "lb_validator_Create vmList lb w = Inr () \<longleftrightarrow> listeners_spec lb \<and> health_spec lb"
  unfolding lb_create_checks checkListeners_iff
  using assms checkHealthyCheck_iff [of lb] by (auto simp: checkGuestClusterIsOnRemove_def)

section \<open>Properties\<close>

text \<open>
  \<^bold>\<open>C25.\<close> The validator accepts a new VM load balancer exactly when it has a listener, its
  listeners have distinct names, distinct protocol and port pairs, distinct protocol and backend
  port pairs and ports between 1 and 65535, and an enabled health check has positive parameters and
  the backend port of a TCP listener. It accepts a cluster load balancer unless its guest cluster,
  named and not the default, has a VM marked for removal or the VMs cannot be listed.
\<close>

theorem lb_create_accepts_iff:
  "lb_validator_Create vmList lb w = Inr () \<longleftrightarrow>
     (if lbs_WorkloadType (lb_Spec lb) = Cluster then \<not> cluster_blocked vmList lb w
      else listeners_spec lb \<and> health_spec lb)"
  unfolding lb_create_checks
  by (auto simp: checkListeners_iff checkHealthyCheck_iff checkHealthyCheck_cluster checkGuestClusterIsOnRemove_iff)

text \<open>
  \<^bold>\<open>C32.\<close> An update of a load balancer that is not being deleted is accepted exactly when the new
  object passes the checks of a creation, apart from the guest cluster check, and neither the use
  of DHCP nor the cluster workload type changes.
\<close>

theorem lb_update_accepts_iff:
  "lb_validator_Update old lb = Inr () \<longleftrightarrow>
     (case md_DeletionTimestamp (lb_Meta lb) of
        Some t \<Rightarrow> True
      | None \<Rightarrow> (lbs_WorkloadType (lb_Spec lb) = Cluster \<or> listeners_spec lb \<and> health_spec lb) \<and>
      (lbs_IPAM (lb_Spec lb) = DHCP \<longleftrightarrow> lbs_IPAM (lb_Spec old) = DHCP) \<and>
      (lbs_WorkloadType (lb_Spec lb) = Cluster \<longleftrightarrow> lbs_WorkloadType (lb_Spec old) = Cluster))"
proof -
  have split: "lb_validator_Update old lb = Inr () \<longleftrightarrow>
      md_DeletionTimestamp (lb_Meta lb) \<noteq> None \<or>
      (checkListeners lb = Inr () \<and> checkHealthyCheck lb = Inr () \<and> checkIPAM old lb = Inr () \<and>
       checkWorkloadType old lb = Inr ())"
    by (auto simp: lb_validator_Update_def split: sum.splits)
  have i: "checkIPAM old lb = Inr () \<longleftrightarrow> (lbs_IPAM (lb_Spec lb) = DHCP \<longleftrightarrow> lbs_IPAM (lb_Spec old) = DHCP)"
    by (auto simp: checkIPAM_def Let_def)
  have k: "checkWorkloadType old lb = Inr () \<longleftrightarrow>
      (lbs_WorkloadType (lb_Spec lb) = Cluster \<longleftrightarrow> lbs_WorkloadType (lb_Spec old) = Cluster)"
    by (auto simp: checkWorkloadType_def Let_def)
  show ?thesis
    unfolding split i k using checkHealthyCheck_iff [of lb]
    by (auto simp: checkListeners_iff checkHealthyCheck_cluster split: option.split)
qed

text \<open>The health check a patched load balancer has: zero parameters get their defaults.\<close>

definition filled :: "HealthCheck \<Rightarrow> HealthCheck" where
  "filled hc = hc\<lparr>hc_SuccessThreshold := at_least 2 (hc_SuccessThreshold hc),
     hc_FailureThreshold := at_least 2 (hc_FailureThreshold hc), hc_PeriodSeconds := at_least 1 (hc_PeriodSeconds hc),
     hc_TimeoutSeconds := at_least 1 (hc_TimeoutSeconds hc)\<rparr>"

lemma filled_positive [simp]: "hc_positive (filled hc)" "hc_Port (filled hc) = hc_Port hc"
  by (simp_all add: hc_positive_def filled_def at_least_def word_neq_0_conv)

lemma filled_id: "hc_positive hc \<Longrightarrow> filled hc = hc"
  by (simp add: hc_positive_def filled_def at_least_def word_neq_0_conv [symmetric])

lemma healthy_patch:
  "lbs_HealthCheck (lb_Spec (apply_lb_patches (getHealthyCheckPatch lb) lb)) =
     map_option (\<lambda>hc. if hc_Port hc = 0 then hc else filled hc) (lbs_HealthCheck (lb_Spec lb))"
proof (cases "lbs_HealthCheck (lb_Spec lb)")
  case (Some hc)
  have "filled hc = hc" if "\<not> (hc_SuccessThreshold hc = 0 \<or> hc_FailureThreshold hc = 0 \<or>
                           hc_PeriodSeconds hc = 0 \<or> hc_TimeoutSeconds hc = 0)"
    by (rule filled_id) (use that in \<open>auto simp: hc_positive_def word_neq_0_conv\<close>)
  with Some show ?thesis
    by (auto simp: getHealthyCheckPatch_def apply_lb_patches_def Let_def filled_def)
qed (simp add: getHealthyCheckPatch_def apply_lb_patches_def)

lemma health_patch_keeps [simp]:
  "lb_Meta (apply_lb_patches (getHealthyCheckPatch lb') lb) = lb_Meta lb"
  "lbs_Listeners (lb_Spec (apply_lb_patches (getHealthyCheckPatch lb') lb)) = lbs_Listeners (lb_Spec lb)"
  "lbs_WorkloadType (lb_Spec (apply_lb_patches (getHealthyCheckPatch lb') lb)) = lbs_WorkloadType (lb_Spec lb)"
  by (simp_all add: getHealthyCheckPatch_def apply_lb_patches_def Let_def split: option.split)

lemma health_patch_filled:
  "lbs_HealthCheck (lb_Spec lb) = Some hc \<Longrightarrow> hc_Port hc = 0 \<or> hc_positive hc \<Longrightarrow> getHealthyCheckPatch lb = []"
  by (auto simp: getHealthyCheckPatch_def hc_positive_def)

lemma health_patch_once:
  assumes "lbs_HealthCheck (lb_Spec l) = map_option (\<lambda>hc. if hc_Port hc = 0 then hc else filled hc) ho"
  shows "getHealthyCheckPatch l = []"
proof (cases ho)
  case None
  with assms show ?thesis by (simp add: getHealthyCheckPatch_def)
next
  case (Some hc)
  with assms show ?thesis by (intro health_patch_filled) (auto split: if_splits)
qed

lemma annotate_id [simp]: "apply_lb_patches [] lb = lb"
  by (simp add: apply_lb_patches_def)

lemma apply_append: "apply_lb_patches (p @ q) lb = apply_lb_patches q (apply_lb_patches p lb)"
  by (simp add: apply_lb_patches_def)

lemma vm_patch:
  assumes "lbs_WorkloadType (lb_Spec lb) = VM \<or> lbs_WorkloadType (lb_Spec lb) = ''''"
  shows "lb_mutator_Create nsGet vmiList lb w = Inr (getAnnotationsPatchVM lb @ getHealthyCheckPatch lb)"
  using assms by (auto simp: lb_mutator_Create_def getAnnotationsPatch_def Let_def)

lemma vm_annotations:
  "lb_Spec (apply_lb_patches (getAnnotationsPatchVM lb) lb) = lb_Spec lb"
  "lb_Namespace (apply_lb_patches (getAnnotationsPatchVM lb) lb) = lb_Namespace lb"
  "str_get (md_Annotations (lb_Meta (apply_lb_patches (getAnnotationsPatchVM lb) lb))) AnnotationKeyNamespace =
     lb_Namespace lb"
  by (simp_all add: getAnnotationsPatchVM_def apply_lb_patches_def str_get_def gomap_simps)

lemma healthy_patch_spec: "lb_Spec lb' = lb_Spec lb \<Longrightarrow> getHealthyCheckPatch lb' = getHealthyCheckPatch lb"
  by (simp add: getHealthyCheckPatch_def)

text \<open>
  \<^bold>\<open>C31.\<close> The mutator and the validator agree on VM load balancers. The mutated object has its
  namespace as the namespace annotation and the same listeners, and an enabled health check with
  zero parameters filled in and the others kept; mutating it again changes nothing; and the
  validator then rejects it only for its listeners or for a health check port that is no TCP
  backend port.
\<close>

theorem lb_mutated_accepted:
  assumes vm: "lbs_WorkloadType (lb_Spec lb) = VM \<or> lbs_WorkloadType (lb_Spec lb) = ''''"
    and patch: "lb_mutator_Create nsGet vmiList lb w = Inr patch"
  shows "str_get (md_Annotations (lb_Meta (apply_lb_patches patch lb))) AnnotationKeyNamespace = lb_Namespace lb \<and>
    lbs_HealthCheck (lb_Spec (apply_lb_patches patch lb)) =
      map_option (\<lambda>hc. if hc_Port hc = 0 then hc else filled hc) (lbs_HealthCheck (lb_Spec lb)) \<and>
    lb_mutator_Create nsGet vmiList (apply_lb_patches patch lb) w' = Inr [] \<and>
    (lb_validator_Create vmList (apply_lb_patches patch lb) w'' = Inr () \<longleftrightarrow>
      listeners_spec lb \<and> (\<forall>hc. probes lb hc \<longrightarrow> tcp_backend lb hc))"
proof -
  let ?a = "apply_lb_patches (getAnnotationsPatchVM lb) lb"
  let ?lb = "apply_lb_patches (getHealthyCheckPatch ?a) ?a"
  have hp: "getHealthyCheckPatch ?a = getHealthyCheckPatch lb"
    by (rule healthy_patch_spec) (simp add: vm_annotations)
  have eq: "apply_lb_patches patch lb = ?lb"
    using patch vm_patch [OF vm, of nsGet vmiList w] by (auto simp: apply_append [symmetric] hp)
  have 1: "str_get (md_Annotations (lb_Meta (apply_lb_patches patch lb))) AnnotationKeyNamespace = lb_Namespace lb"
    by (simp add: eq vm_annotations)
  have 2: "lbs_HealthCheck (lb_Spec (apply_lb_patches patch lb)) =
      map_option (\<lambda>hc. if hc_Port hc = 0 then hc else filled hc) (lbs_HealthCheck (lb_Spec lb))"
    by (simp add: eq healthy_patch vm_annotations)
  have ns: "lb_Namespace ?lb = lb_Namespace lb"
    by (simp add: vm_annotations)
  have "getAnnotationsPatchVM ?lb = []"
    using 1 ns by (simp add: getAnnotationsPatchVM_def eq)
  moreover have "getHealthyCheckPatch ?lb = []"
    using 2 unfolding eq by (rule health_patch_once)
  ultimately have 3: "lb_mutator_Create nsGet vmiList (apply_lb_patches patch lb) w' = Inr []"
    using vm vm_patch [of ?lb nsGet vmiList w'] by (simp add: eq vm_annotations)
  have "probes ?lb hc' \<longleftrightarrow> (\<exists>hc. probes lb hc \<and> hc' = filled hc)" for hc'
    using 2 by (auto simp: eq probes_def split: if_splits)
  moreover have "tcp_backend ?lb (filled hc) \<longleftrightarrow> tcp_backend lb hc" for hc
    by (simp add: tcp_backend_def vm_annotations)
  moreover have "listeners_spec ?lb \<longleftrightarrow> listeners_spec lb"
    by (simp add: listeners_spec_def vm_annotations)
  moreover have "lbs_WorkloadType (lb_Spec lb) \<noteq> Cluster"
    using vm by (auto simp: VM_def Cluster_def)
  ultimately have 4: "lb_validator_Create vmList (apply_lb_patches patch lb) w'' = Inr () \<longleftrightarrow>
      listeners_spec lb \<and> (\<forall>hc. probes lb hc \<longrightarrow> tcp_backend lb hc)"
    unfolding eq by (subst lb_create_vm) (auto simp: vm_annotations health_spec_def)
  from 1 2 3 4 show ?thesis by (intro conjI)
qed

definition demo_lb :: LoadBalancer where
  "demo_lb = \<lparr>lb_APIVersion = SchemeGroupVersion, lb_Kind = ''LoadBalancer'',
     lb_Meta = empty_meta\<lparr>md_Name := ''lb1'', md_Namespace := ''default''\<rparr>,
     lb_Spec = \<lparr>lbs_Description = '''', lbs_WorkloadType = VM, lbs_IPAM = PoolIPAM, lbs_IPPool = '''',
       lbs_Listeners = [\<lparr>l_Name = ''web'', l_Port = 80, l_Protocol = ''TCP'', l_BackendPort = 8080\<rparr>,
                         \<lparr>l_Name = ''dns'', l_Port = 53, l_Protocol = ''UDP'', l_BackendPort = 5353\<rparr>],
       lbs_BackendServerSelector = [(''app'', [''web''])],
       lbs_HealthCheck = Some \<lparr>hc_Port = 8080, hc_SuccessThreshold = 0, hc_FailureThreshold = 3,
         hc_PeriodSeconds = 5, hc_TimeoutSeconds = 0\<rparr>\<rparr>,
     lb_Status = \<lparr>lbst_BackendServers = None, lbst_AllocatedAddress = empty_address, lbst_Address = '''',
       lbst_Conditions = []\<rparr>\<rparr>"

lemma demo_lb_simps [simp]:
  "lbs_WorkloadType (lb_Spec demo_lb) = VM" "md_Annotations (lb_Meta demo_lb) = None"
  "lb_Namespace demo_lb = ''default''" "lb_Name demo_lb = ''lb1''"
  "lbs_Listeners (lb_Spec demo_lb) = [\<lparr>l_Name = ''web'', l_Port = 80, l_Protocol = ''TCP'', l_BackendPort = 8080\<rparr>,
     \<lparr>l_Name = ''dns'', l_Port = 53, l_Protocol = ''UDP'', l_BackendPort = 5353\<rparr>]"
  "lbs_HealthCheck (lb_Spec demo_lb) = Some \<lparr>hc_Port = 8080, hc_SuccessThreshold = 0, hc_FailureThreshold = 3,
     hc_PeriodSeconds = 5, hc_TimeoutSeconds = 0\<rparr>"
  by (simp_all add: demo_lb_def empty_meta_def)

lemma demo_lb_listeners: "listeners_spec demo_lb"
  by (simp add: listeners_spec_def port_ok_def)

lemma demo_lb_backend: "probes demo_lb hc \<longrightarrow> tcp_backend demo_lb hc"
  by (auto simp: probes_def tcp_backend_def)

text \<open>A load balancer with two listeners and a health check that lacks two parameters is mutated and then accepted.\<close>

theorem lb_mutated_accepted_witness:
  "\<exists>patch. lb_mutator_Create (\<lambda>_ _. Inl (errorf '''')) (\<lambda>_ _ _. Inr []) demo_lb () = Inr patch \<and> patch \<noteq> [] \<and>
     lb_validator_Create (\<lambda>_ _ _. Inr []) (apply_lb_patches patch demo_lb) () = Inr ()"
proof -
  have vm: "lbs_WorkloadType (lb_Spec demo_lb) = VM \<or> lbs_WorkloadType (lb_Spec demo_lb) = ''''" by simp
  obtain patch where p: "lb_mutator_Create (\<lambda>_ _. Inl (errorf '''')) (\<lambda>_ _ _. Inr []) demo_lb () = Inr patch"
    and ne: "patch \<noteq> []"
    using vm_patch [OF vm, of "\<lambda>_ _. Inl (errorf '''')" "\<lambda>_ _ _. Inr []" "()"]
    by (auto simp: getAnnotationsPatchVM_def str_get_def)
  have "lb_validator_Create (\<lambda>_ _ _. Inr []) (apply_lb_patches patch demo_lb) () = Inr ()"
    using lb_mutated_accepted [OF vm p, of "()" "\<lambda>_ _ _. Inr []" "()"] demo_lb_listeners demo_lb_backend by simp
  with p ne show ?thesis by blast
qed

end
