(* ===== verification/ServiceLBProps.thy ===== *)
theory ServiceLBProps
  imports ProberUse LBWebhook
begin

text \<open>
  Properties of the service load balancer: the probers follow the endpoints, a report of a prober
  reaches the endpoint it is about, endpoints keep their condition when the slice is rebuilt, the
  dummy endpoint is there exactly when no backend server is ready, and no endpoint without a
  target reference is ever stored.
\<close>

section \<open>Names and addresses\<close>

lemma Split2_pair: "Split c (a @ c # b) = [a, b] \<longleftrightarrow> c \<notin> set a \<and> c \<notin> set b"
  unfolding Split_two using first_sep_inj [of c a _ b] by blast

text \<open>
  \<^bold>\<open>C33.\<close> The uid of a load balancer in the prober manager and the address of a probe can be
  taken apart again: \<^verbatim>\<open>unMarshalUID\<close> inverts \<^verbatim>\<open>marshalUID\<close> exactly on names without a slash,
  and \<^verbatim>\<open>unMarshalPorberAddress\<close> inverts \<^verbatim>\<open>marshalPorberAddress\<close> exactly on addresses without a
  colon, hence on every IPv4 address and on no IPv6 address.
\<close>

theorem marshal_roundtrip:
  "(unMarshalUID (marshalUID ns name) = Inr (ns, name)) = (CHR ''/'' \<notin> set ns \<and> CHR ''/'' \<notin> set name) \<and>
   (unMarshalPorberAddress (marshalPorberAddress hc ep) = Inr (ep_Addresses ep ! 0, Itoa (sint (hc_Port hc)))) =
     (CHR '':'' \<notin> set (ep_Addresses ep ! 0))"
proof
  have u: "(unMarshalUID s = Inr (a, b)) = (Split (CHR ''/'') s = [a, b])" for s a b
    by (auto simp: unMarshalUID_def split: list.splits)
  show "(unMarshalUID (marshalUID ns name) = Inr (ns, name)) = (CHR ''/'' \<notin> set ns \<and> CHR ''/'' \<notin> set name)"
    unfolding u marshalUID_def by (simp add: Split2_pair)
  have p: "(unMarshalPorberAddress s = Inr (a, b)) = (Split (CHR '':'') s = [a, b])" for s a b
    by (auto simp: unMarshalPorberAddress_def split: list.splits)
  show "(unMarshalPorberAddress (marshalPorberAddress hc ep) = Inr (ep_Addresses ep ! 0, Itoa (sint (hc_Port hc)))) =
     (CHR '':'' \<notin> set (ep_Addresses ep ! 0))"
    unfolding p marshalPorberAddress_def by (simp add: Split2_pair Itoa_no_colon)
qed

section \<open>Endpoints and target references\<close>

definition is_dummy :: "Endpoint \<Rightarrow> bool" where
  "is_dummy ep \<longleftrightarrow> isDummyEndpoint ep = Inr True"

definition has_ref :: "Endpoint \<Rightarrow> bool" where
  "has_ref ep \<longleftrightarrow> ep_TargetRef ep \<noteq> None"

lemma isDummyEndpoint_ref: "has_ref ep \<Longrightarrow> isDummyEndpoint ep = Inr (is_dummy ep)"
  by (auto simp: has_ref_def is_dummy_def isDummyEndpoint_def)

lemma isDummyEndpoint_noref: "\<not> has_ref ep \<Longrightarrow> isDummyEndpoint ep = Inl nil_panic"
  by (auto simp: has_ref_def isDummyEndpoint_def)

lemma new_endpoint_ref [simp]: "has_ref (new_endpoint v a)" "has_ref (dummy_endpoint lb)" "is_dummy (dummy_endpoint lb)"
  by (simp_all add: has_ref_def new_endpoint_def dummy_endpoint_def is_dummy_def isDummyEndpoint_def)

lemma count_endpoints_refs:
  "list_all has_ref eps \<Longrightarrow> count_endpoints eps =
     Inr (int (length (filter is_dummy eps)),
          int (length (filter (\<lambda>ep. \<not> is_dummy ep \<and> isEndpointConditionsReady ep) eps)))"
  by (induction eps) (auto simp: isDummyEndpoint_ref)

lemma count_ready_refs:
  "list_all has_ref eps \<Longrightarrow>
     count_ready eps = Inr (int (length (filter (\<lambda>ep. \<not> is_dummy ep \<and> isEndpointConditionsReady ep) eps)))"
  by (induction eps) (auto simp: isDummyEndpoint_ref)

definition with_ready :: "bool \<Rightarrow> Endpoint \<Rightarrow> Endpoint" where
  "with_ready b ep = (if is_dummy ep then ep else ep\<lparr>ep_Ready := Some b\<rparr>)"

lemma updateEndpointConditions_eq: "updateEndpointConditions b ep = ep\<lparr>ep_Ready := Some b\<rparr>"
  by (auto simp: updateEndpointConditions_def split: option.split)

lemma update_all_refs:
  "list_all has_ref eps \<Longrightarrow>
     update_all b eps = Inr (map (with_ready b) eps, map (with_ready b) eps \<noteq> eps)"
proof (induction eps)
  case (Cons ep eps)
  have "needUpdateEndpointConditions ep b \<longleftrightarrow> ep\<lparr>ep_Ready := Some b\<rparr> \<noteq> ep"
    by (cases ep) (auto simp: needUpdateEndpointConditions_def split: option.split)
  with Cons show ?case
    by (auto simp: isDummyEndpoint_ref with_ready_def updateEndpointConditions_eq)
qed simp

section \<open>Building the endpoint slice\<close>

definition singles :: "Endpoint list \<Rightarrow> bool" where
  "singles eps = list_all (\<lambda>ep. length (ep_Addresses ep) = 1) eps"

definition is_endpoint_of :: "VirtualMachineInstance \<Rightarrow> string \<Rightarrow> Endpoint \<Rightarrow> bool" where
  "is_endpoint_of v a ep \<longleftrightarrow> ep_Addresses ep = [a] \<and> (\<exists>r. ep_TargetRef ep = Some r \<and> ref_UID r = md_UID (vmi_Meta v))"

text \<open>The endpoint a server has in the new slice: its first endpoint in the old one, or a fresh one.\<close>

definition endpoint_for :: "Endpoint list \<Rightarrow> VirtualMachineInstance \<Rightarrow> string \<Rightarrow> Endpoint" where
  "endpoint_for old v a = (case find (is_endpoint_of v a) old of Some ep \<Rightarrow> ep | None \<Rightarrow> new_endpoint v a)"

lemma single_address: "length (ep_Addresses ep) = 1 \<Longrightarrow> ep_Addresses ep = [ep_Addresses ep ! 0]"
  by (cases "ep_Addresses ep") auto

lemma existing_endpoint_find:
  "singles old \<Longrightarrow> existing_endpoint (md_UID (vmi_Meta v)) a old = Inr (find (is_endpoint_of v a) old)"
proof (induction old)
  case (Cons ep old)
  have "ep_Addresses ep = [a] \<longleftrightarrow> a = ep_Addresses ep ! 0"
    using Cons.prems single_address [of ep] by (auto simp: singles_def)
  moreover have "(case ep_TargetRef ep of None \<Rightarrow> False | Some r \<Rightarrow> md_UID (vmi_Meta v) = ref_UID r) \<longleftrightarrow>
      (\<exists>r. ep_TargetRef ep = Some r \<and> ref_UID r = md_UID (vmi_Meta v))"
    by (auto split: option.split)
  ultimately show ?case using Cons by (auto simp: singles_def is_endpoint_of_def)
qed simp

definition old_endpoints :: "EndpointSlice option \<Rightarrow> Endpoint list" where
  "old_endpoints cur = (case cur of None \<Rightarrow> [] | Some c \<Rightarrow> eps_Endpoints c)"

definition wanted_endpoints :: "Endpoint list \<Rightarrow> VirtualMachineInstance list \<Rightarrow> Endpoint list" where
  "wanted_endpoints old servers =
     List.map_filter (\<lambda>v. map_option (endpoint_for old v) (GetAddress v)) servers"

lemma server_endpoints_map: "singles old \<Longrightarrow> server_endpoints old servers = Inr (wanted_endpoints old servers)"
  by (induction servers)
    (auto simp: List.map_filter_simps existing_endpoint_find endpoint_for_def wanted_endpoints_def split: option.split)

lemma construct_endpoints:
  assumes "server_endpoints (old_endpoints cur) servers = Inr new"
  shows "\<exists>eps. constructEndpointSliceFromBackendServers cur lb servers = Inr eps \<and>
    eps_Endpoints eps = (if new = [] then [dummy_endpoint lb] else new) \<and>
    map epp_Port (eps_Ports eps) = map l_BackendPort (lbs_Listeners (lb_Spec lb))"
  using assms unfolding constructEndpointSliceFromBackendServers_def
  by (cases cur) (simp_all add: Let_def appendDummyEndpoint_def comp_def old_endpoints_def)

text \<open>Whatever the old slice holds, the endpoints of a rebuilt one have target references.\<close>

lemma existing_endpoint_ref: "existing_endpoint uid a old = Inr (Some ep) \<Longrightarrow> has_ref ep"
  by (induction old) (auto simp: has_ref_def split: if_splits option.splits)

lemma server_endpoints_refs: "server_endpoints old servers = Inr new \<Longrightarrow> list_all has_ref new"
  by (induction servers arbitrary: new)
    (auto split: option.splits sum.splits dest: existing_endpoint_ref)

lemma slice_refs:
  "constructEndpointSliceFromBackendServers cur lb servers = Inr e \<Longrightarrow> list_all has_ref (eps_Endpoints e)"
  by (auto simp: constructEndpointSliceFromBackendServers_def Let_def appendDummyEndpoint_def
      split: sum.splits dest: server_endpoints_refs)

lemma existing_endpoint_error: "existing_endpoint uid a old = Inl e \<Longrightarrow> \<not> is_panic e"
  by (induction old) (auto split: if_splits)

lemma server_endpoints_error: "server_endpoints old servers = Inl e \<Longrightarrow> \<not> is_panic e"
  by (induction servers) (auto split: option.splits sum.splits dest: existing_endpoint_error)

lemma construct_error: "constructEndpointSliceFromBackendServers cur lb servers = Inl e \<Longrightarrow> \<not> is_panic e"
  by (auto simp: constructEndpointSliceFromBackendServers_def Let_def split: sum.splits dest: server_endpoints_error)

text \<open>
  Rebuilding the endpoint slice of a load balancer succeeds whenever every old endpoint
  has one address, and gives one endpoint for each backend server with an address, in their
  order: the one it had, with its condition, or a new one that is not ready. Only when there is
  no such server the slice holds just the dummy endpoint. Every stored endpoint then has one
  address and a target reference, and the ports are the backend ports of the listeners.
\<close>

theorem rebuilt_slice:
  assumes "singles (old_endpoints cur)"
  shows "\<exists>eps. constructEndpointSliceFromBackendServers cur lb servers = Inr eps \<and>
    eps_Endpoints eps =
      (if wanted_endpoints (old_endpoints cur) servers = [] then [dummy_endpoint lb]
       else wanted_endpoints (old_endpoints cur) servers) \<and>
    singles (eps_Endpoints eps) \<and> list_all has_ref (eps_Endpoints eps) \<and>
    map epp_Port (eps_Ports eps) = map l_BackendPort (lbs_Listeners (lb_Spec lb))"
proof -
  let ?new = "wanted_endpoints (old_endpoints cur) servers"
  have "length (ep_Addresses (endpoint_for old v a)) = 1 \<and> has_ref (endpoint_for old v a)" for old v a
    by (auto simp: endpoint_for_def new_endpoint_def has_ref_def is_endpoint_of_def find_Some_iff split: option.split)
  then have "singles ?new" "list_all has_ref ?new"
    by (auto simp: singles_def list_all_iff wanted_endpoints_def List.map_filter_def)
  moreover have "length (ep_Addresses (dummy_endpoint lb)) = 1" by (simp add: dummy_endpoint_def)
  moreover obtain eps where "constructEndpointSliceFromBackendServers cur lb servers = Inr eps"
    "eps_Endpoints eps = (if ?new = [] then [dummy_endpoint lb] else ?new)"
    "map epp_Port (eps_Ports eps) = map l_BackendPort (lbs_Listeners (lb_Spec lb))"
    using construct_endpoints [OF server_endpoints_map [OF assms]] by blast
  ultimately show ?thesis by (auto simp: singles_def)
qed

definition demo_vmi :: VirtualMachineInstance where
  "demo_vmi = \<lparr>vmi_Meta = empty_meta\<lparr>md_Name := ''vm1'', md_Namespace := ''default'', md_UID := ''u1''\<rparr>,
     vmi_Interfaces = [''fe80::1'', ''10.0.0.5''], vmi_Networks = []\<rparr>"

theorem rebuilt_slice_witness:
  "\<exists>eps. constructEndpointSliceFromBackendServers None demo_lb [demo_vmi] = Inr eps \<and>
     eps_Endpoints eps = [new_endpoint demo_vmi ''10.0.0.5'']"
proof -
  have "GetAddress demo_vmi = Some ''10.0.0.5''" by code_simp
  then show ?thesis using rebuilt_slice [of None demo_lb "[demo_vmi]"]
    by (auto simp: singles_def List.map_filter_simps endpoint_for_def old_endpoints_def wanted_endpoints_def)
qed

section \<open>Probers follow the endpoints\<close>

definition probed :: "Endpoint \<Rightarrow> bool" where
  "probed ep \<longleftrightarrow> ep_Addresses ep \<noteq> [] \<and> \<not> is_dummy ep"

lemma keyed_set: "keyed m \<Longrightarrow> ho_Address opt = a \<Longrightarrow> keyed (m_set a opt m)"
  using set_AList_update [of a opt m] by (auto simp: keyed_def m_wf_set)

lemma target_probers_spec:
  assumes "list_all has_ref eps" and "keyed m"
  shows "\<exists>t. target_probers hc eps m = Inr t \<and> keyed t \<and>
    (\<forall>a. m_get t a \<noteq> None \<longleftrightarrow> m_get m a \<noteq> None \<or> (\<exists>ep \<in> set eps. probed ep \<and> a = marshalPorberAddress hc ep)) \<and>
    (\<forall>a opt. m_get t a = Some opt \<longrightarrow> m_get m a = Some opt \<or>
       (\<exists>ep \<in> set eps. probed ep \<and> a = marshalPorberAddress hc ep \<and> opt = generateOneProber hc ep))"
  using assms
proof (induction eps arbitrary: m)
  case (Cons ep eps)
  have r: "has_ref ep" "list_all has_ref eps" using Cons.prems(1) by simp_all
  show ?case
  proof (cases "probed ep")
    case False
    then have "target_probers hc (ep # eps) m = target_probers hc eps m"
      using isDummyEndpoint_ref [OF r(1)] by (auto simp: probed_def)
    then show ?thesis using Cons.IH [OF r(2) Cons.prems(2)] False by auto
  next
    case True
    let ?m = "m_set (marshalPorberAddress hc ep) (generateOneProber hc ep) m"
    have "target_probers hc (ep # eps) m = target_probers hc eps ?m"
      using True isDummyEndpoint_ref [OF r(1)] by (auto simp: probed_def)
    moreover have "keyed ?m" using Cons.prems(2) by (rule keyed_set) (simp add: generateOneProber_def)
    from Cons.IH [OF r(2) this] obtain t where t: "target_probers hc eps ?m = Inr t" "keyed t"
      "\<forall>a. m_get t a \<noteq> None \<longleftrightarrow> m_get ?m a \<noteq> None \<or> (\<exists>ep \<in> set eps. probed ep \<and> a = marshalPorberAddress hc ep)"
      "\<forall>a opt. m_get t a = Some opt \<longrightarrow> m_get ?m a = Some opt \<or>
         (\<exists>ep \<in> set eps. probed ep \<and> a = marshalPorberAddress hc ep \<and> opt = generateOneProber hc ep)"
      by blast
    ultimately show ?thesis using True by (auto simp: gomap_simps split: if_splits)
  qed
qed simp

abbreviation lb_uid :: "LoadBalancer \<Rightarrow> string" where
  "lb_uid lb \<equiv> marshalUID (lb_Namespace lb) (lb_Name lb)"

text \<open>
  \<^bold>\<open>C28.\<close> With an enabled health check, \<^verbatim>\<open>ensureProbes\<close> leaves a worker running for exactly the
  addresses of the endpoints that have one and are not the dummy endpoint, with the parameters of
  the health check, and touches no endpoint and no other load balancer. It cannot fail or panic,
  since every endpoint has a target reference.
\<close>

theorem probers_follow_endpoints:
  assumes "lbs_HealthCheck (lb_Spec lb) = Some hc" and "hc_Port hc \<noteq> 0" and "pm_inv pm"
    and "list_all has_ref (eps_Endpoints eps)"
  shows "\<exists>pm'. ensureProbes m lb eps (pm, w) = (Inr (), pm', w) \<and> pm_inv pm' \<and>
    (\<forall>a. worker_of pm' (lb_uid lb) a \<noteq> None \<longleftrightarrow>
       (\<exists>ep \<in> set (eps_Endpoints eps). probed ep \<and> a = marshalPorberAddress hc ep)) \<and>
    (\<forall>a wk. worker_of pm' (lb_uid lb) a = Some wk \<longrightarrow>
       (\<exists>ep \<in> set (eps_Endpoints eps). probed ep \<and> a = marshalPorberAddress hc ep \<and>
          ho_Equal (wk_option wk) (generateOneProber hc ep))) \<and>
    (\<forall>u a. u \<noteq> lb_uid lb \<longrightarrow> worker_of pm' u a = worker_of pm u a)"
proof -
  have "keyed []" by (simp add: keyed_def)
  from target_probers_spec [OF assms(4) this, of hc] obtain t where
    t: "target_probers hc (eps_Endpoints eps) [] = Inr t" "keyed t"
      "\<forall>a. m_get t a \<noteq> None \<longleftrightarrow> (\<exists>ep \<in> set (eps_Endpoints eps). probed ep \<and> a = marshalPorberAddress hc ep)"
      "\<forall>a opt. m_get t a = Some opt \<longrightarrow>
         (\<exists>ep \<in> set (eps_Endpoints eps). probed ep \<and> a = marshalPorberAddress hc ep \<and> opt = generateOneProber hc ep)"
    by auto
  let ?u = "lb_uid lb"
  define pm' where "pm' = updateAllProbers ?u (GetWorkerHealthOptionMap ?u pm) t pm"
  note U = updateAllProbers_spec [OF assms(3) t(2) pm'_def]
  have e: "ensureProbes m lb eps (pm, w) = (Inr (), pm', w)"
    using assms(1,2) t(1) by (simp add: ensureProbes_def pm'_def Let_def)
  have refl: "ho_Equal opt opt" for opt by (simp add: ho_Equal_def)
  have new: "\<exists>wk. worker_of pm' ?u a = Some wk \<and> ho_Equal (wk_option wk) tp" if "m_get t a = Some tp" for a tp
  proof (cases "\<exists>wk. worker_of pm ?u a = Some wk \<and> ho_Equal (wk_option wk) tp")
    case True
    then show ?thesis using U(4) that by blast
  next
    case False
    then have "fresh_worker ?u tp (worker_of pm' ?u a)" using U(5) that by blast
    then show ?thesis using refl by (auto simp: fresh_worker_def newWorker_def)
  qed
  have dom: "worker_of pm' ?u a \<noteq> None \<longleftrightarrow> m_get t a \<noteq> None" for a
    using new [of a] U(3) [of a] by (cases "m_get t a") auto
  have opts: "\<exists>ep \<in> set (eps_Endpoints eps). probed ep \<and> a = marshalPorberAddress hc ep \<and>
      ho_Equal (wk_option wk) (generateOneProber hc ep)" if wk: "worker_of pm' ?u a = Some wk" for a wk
  proof -
    obtain tp where tp: "m_get t a = Some tp" using dom [of a] wk by auto
    then have "ho_Equal (wk_option wk) tp" using new [OF tp] wk by auto
    then show ?thesis using t(4) tp by blast
  qed
  show ?thesis
    by (rule exI [of _ pm'], intro conjI allI impI)
      (use e U(1,2) dom t(3) opts in \<open>simp_all\<close>)
qed

definition demo_slice :: EndpointSlice where
  "demo_slice = \<lparr>eps_Meta = empty_meta\<lparr>md_Name := ''lb1'', md_Namespace := ''default''\<rparr>, eps_AddressType = ''IPv4'',
     eps_Endpoints = [new_endpoint demo_vmi ''10.0.0.5'', dummy_endpoint demo_lb], eps_Ports = []\<rparr>"

text \<open>Clients of a world that holds one endpoint slice and no service.\<close>

definition slice_ops :: "EndpointSlice EndpointSliceOps" where
  "slice_ops = \<lparr>eso_Get = \<lambda>ns n w. Inr w, eso_Update = \<lambda>e w. (Inr e, e), eso_Create = \<lambda>e w. (Inr e, e)\<rparr>"

definition slice_manager :: "EndpointSlice SvcManager" where
  "slice_manager = \<lparr>sm_services = \<lparr>svo_Get = \<lambda>_ _ _. Inl (Error '''' [NotFound]), svo_Update = \<lambda>s w. (Inr s, w),
       svo_Create = \<lambda>s w. (Inr s, w)\<rparr>,
     sm_endpointSlices = slice_ops, sm_vmiList = (\<lambda>_ _ _. Inr []), sm_newRequirement = (\<lambda>_ _. Inr ()),
     sm_healthHandler = None\<rparr>"

lemma demo_slice_refs: "list_all has_ref (eps_Endpoints demo_slice)" "singles (eps_Endpoints demo_slice)"
  by (simp_all add: demo_slice_def singles_def new_endpoint_def dummy_endpoint_def has_ref_def)

lemma demo_not_dummy: "\<not> is_dummy (new_endpoint demo_vmi ''10.0.0.5'')"
  by code_simp

theorem probers_follow_endpoints_witness:
  "\<exists>pm'. ensureProbes slice_manager demo_lb demo_slice (NewProbeManager, demo_slice) = (Inr (), pm', demo_slice) \<and>
     worker_of pm' ''default/lb1'' ''10.0.0.5:8080'' \<noteq> None \<and>
     worker_of pm' ''default/lb1'' ''10.52.0.255:8080'' = None"
proof -
  let ?hc = "\<lparr>hc_Port = 8080, hc_SuccessThreshold = 0, hc_FailureThreshold = 3, hc_PeriodSeconds = 5, hc_TimeoutSeconds = 0\<rparr>"
  have u: "lb_uid demo_lb = ''default/lb1''" by (simp add: marshalUID_def)
  have a: "marshalPorberAddress ?hc (new_endpoint demo_vmi ''10.0.0.5'') = ''10.0.0.5:8080''" by code_simp
  have h: "lbs_HealthCheck (lb_Spec demo_lb) = Some ?hc" "hc_Port ?hc \<noteq> 0" by simp_all
  have p: "probed ep \<and> x = marshalPorberAddress ?hc ep \<longleftrightarrow> x = ''10.0.0.5:8080''"
    if "ep \<in> set (eps_Endpoints demo_slice)" "probed ep" for ep x
    using that a by (auto simp: demo_slice_def probed_def)
  have "probed (new_endpoint demo_vmi ''10.0.0.5'')" using demo_not_dummy by (simp add: probed_def new_endpoint_def)
  then have ex: "(\<exists>ep \<in> set (eps_Endpoints demo_slice). probed ep \<and> x = marshalPorberAddress ?hc ep) \<longleftrightarrow> x = ''10.0.0.5:8080''" for x
    using p a by (auto simp: demo_slice_def)
  from probers_follow_endpoints [OF h NewProbeManager_inv demo_slice_refs(1), of slice_manager demo_slice]
  obtain pm' where e: "ensureProbes slice_manager demo_lb demo_slice (NewProbeManager, demo_slice) = (Inr (), pm', demo_slice)"
    and all: "\<forall>x. worker_of pm' (lb_uid demo_lb) x \<noteq> None \<longleftrightarrow>
       (\<exists>ep \<in> set (eps_Endpoints demo_slice). probed ep \<and> x = marshalPorberAddress ?hc ep)" by blast
  have "worker_of pm' ''default/lb1'' x \<noteq> None \<longleftrightarrow> x = ''10.0.0.5:8080''" for x
    using all unfolding u ex by blast
  from e this [of "''10.0.0.5:8080''"] this [of "''10.52.0.255:8080''"] show ?thesis by auto
qed

text \<open>
  Without an enabled health check the workers of the load balancer are all stopped and
  every endpoint but the dummy one is written as ready, unless it is already.
\<close>

theorem disabled_probes_ready:
  assumes "\<forall>hc. lbs_HealthCheck (lb_Spec lb) = Some hc \<longrightarrow> hc_Port hc = 0"
    and "list_all has_ref (eps_Endpoints eps)" and "ensureProbes m lb eps (pm, w) = (r, pm', w')"
  shows "worker_of pm' u a = (if u = lb_uid lb then None else worker_of pm u a) \<and>
    (if map (with_ready True) (eps_Endpoints eps) = eps_Endpoints eps then r = Inr () \<and> w' = w
     else w' = snd (eso_Update (sm_endpointSlices m) (eps\<lparr>eps_Endpoints := map (with_ready True) (eps_Endpoints eps)\<rparr>) w) \<and>
       (ok r \<longleftrightarrow> ok (fst (eso_Update (sm_endpointSlices m) (eps\<lparr>eps_Endpoints := map (with_ready True) (eps_Endpoints eps)\<rparr>) w))))"
proof -
  have e: "ensureProbes m lb eps (pm, w) =
      (let p = snd (removeLBProbers lb pm); (r, w) = updateAllConditions m lb eps True w in (r, p, w))"
    using assms(1) by (auto simp: ensureProbes_def split: option.split)
  have pm': "pm' = snd (RemoveWorkersByUid (lb_uid lb) pm)" and u: "updateAllConditions m lb eps True w = (r, w')"
    using assms(3) unfolding e removeLBProbers_def by (simp_all add: Let_def split: prod.splits)
  show ?thesis
    using u update_all_refs [OF assms(2), of True]
    by (auto simp: pm' worker_of_RemoveAll updateAllConditions_def split: prod.splits sum.splits if_splits)
qed

theorem disabled_probes_ready_witness:
  "ensureProbes slice_manager (demo_lb\<lparr>lb_Spec := (lb_Spec demo_lb)\<lparr>lbs_HealthCheck := None\<rparr>\<rparr>) demo_slice (demo_pm, demo_slice)
     = (Inr (), snd (RemoveWorkersByUid ''default/lb1'' demo_pm), demo_slice\<lparr>eps_Endpoints := map (with_ready True) (eps_Endpoints demo_slice)\<rparr>) \<and>
   worker_of (snd (RemoveWorkersByUid ''default/lb1'' demo_pm)) ''default/lb1'' ''10.0.0.5:80'' = None"
proof -
  let ?lb = "demo_lb\<lparr>lb_Spec := (lb_Spec demo_lb)\<lparr>lbs_HealthCheck := None\<rparr>\<rparr>"
  have e: "ensureProbes slice_manager ?lb demo_slice (demo_pm, demo_slice) =
      (Inr (), snd (RemoveWorkersByUid ''default/lb1'' demo_pm), demo_slice\<lparr>eps_Endpoints := map (with_ready True) (eps_Endpoints demo_slice)\<rparr>)"
    by code_simp
  have "lb_uid ?lb = ''default/lb1''" by (simp add: marshalUID_def)
  then show ?thesis
    using disabled_probes_ready [OF _ demo_slice_refs(1) e, of "''default/lb1''" "''10.0.0.5:80''"] e by simp
qed

section \<open>The dummy endpoint\<close>

definition ready_backends :: "Endpoint list \<Rightarrow> Endpoint list" where
  "ready_backends eps = filter (\<lambda>ep. \<not> is_dummy ep \<and> isEndpointConditionsReady ep) eps"

text \<open>The dummy endpoint is there if no backend server is ready, and not there if one is.\<close>

definition dummy_ok :: "Endpoint list \<Rightarrow> bool" where
  "dummy_ok eps \<longleftrightarrow> (filter is_dummy eps \<noteq> []) = (ready_backends eps = [])"

lemma ensureDummyEndpoint_eq:
  assumes "list_all has_ref (eps_Endpoints eps)"
  shows "ensureDummyEndpoint m lb eps w =
    (let es = (if ready_backends (eps_Endpoints eps) = []
               then (if filter is_dummy (eps_Endpoints eps) = [] then appendDummyEndpoint (eps_Endpoints eps) lb
                     else eps_Endpoints eps)
               else filter (\<lambda>ep. \<not> is_dummy ep) (eps_Endpoints eps));
         what = (if ready_backends (eps_Endpoints eps) = [] then ''fail to append dummy endpoint to lb ''
                 else ''fail to remove dummy endpoint from lb '')
     in if es = eps_Endpoints eps then (Inr (), w)
        else (case eso_Update (sm_endpointSlices m) (eps\<lparr>eps_Endpoints := es\<rparr>) w of
            (Inl e, w') \<Rightarrow> (Inl (wrapf (what @ lb_Name lb @ '' endpoint, error: '') e), w')
          | (Inr _, w') \<Rightarrow> (Inr (), w')))"
proof -
  have f: "filter (\<lambda>ep. isDummyEndpoint ep \<noteq> Inr True) eps' = filter (\<lambda>ep. \<not> is_dummy ep) eps'" for eps'
    by (simp add: is_dummy_def)
  have n: "filter (\<lambda>ep. \<not> is_dummy ep) eps' = eps' \<longleftrightarrow> filter is_dummy eps' = []" for eps'
    by (auto simp: filter_id_conv filter_empty_conv)
  show ?thesis
    unfolding ensureDummyEndpoint_def count_endpoints_refs [OF assms] ready_backends_def
    by (auto simp: f n appendDummyEndpoint_def Let_def)
qed

text \<open>
  \<^bold>\<open>C29.\<close> After \<^verbatim>\<open>ensureDummyEndpoint\<close> the slice it leaves on the server has the dummy endpoint if
  and only if no backend server is ready, with the other endpoints untouched and in order: traffic
  of a load balancer without ready servers always has an endpoint to go to, and never goes there
  otherwise. Nothing is written when the slice is already so, and an error of the client is
  returned.
\<close>

theorem dummy_endpoint_maintained:
  assumes "list_all has_ref (eps_Endpoints eps)"
  shows "\<exists>es. dummy_ok es \<and> filter (\<lambda>ep. \<not> is_dummy ep) es = filter (\<lambda>ep. \<not> is_dummy ep) (eps_Endpoints eps) \<and>
    (if es = eps_Endpoints eps then ensureDummyEndpoint m lb eps w = (Inr (), w)
     else snd (ensureDummyEndpoint m lb eps w) = snd (eso_Update (sm_endpointSlices m) (eps\<lparr>eps_Endpoints := es\<rparr>) w) \<and>
       ok (fst (ensureDummyEndpoint m lb eps w)) = ok (fst (eso_Update (sm_endpointSlices m) (eps\<lparr>eps_Endpoints := es\<rparr>) w)))"
proof -
  let ?eps = "eps_Endpoints eps"
  define es where "es = (if ready_backends ?eps = []
    then (if filter is_dummy ?eps = [] then appendDummyEndpoint ?eps lb else ?eps) else filter (\<lambda>ep. \<not> is_dummy ep) ?eps)"
  have "ready_backends (filter (\<lambda>ep. \<not> is_dummy ep) ?eps) = ready_backends ?eps"
    by (simp add: ready_backends_def conj_commute) (metis (no_types, lifting))
  then have "dummy_ok es" "filter (\<lambda>ep. \<not> is_dummy ep) es = filter (\<lambda>ep. \<not> is_dummy ep) ?eps"
    by (simp_all add: es_def dummy_ok_def appendDummyEndpoint_def ready_backends_def)
  moreover have "if es = ?eps then ensureDummyEndpoint m lb eps w = (Inr (), w)
     else snd (ensureDummyEndpoint m lb eps w) = snd (eso_Update (sm_endpointSlices m) (eps\<lparr>eps_Endpoints := es\<rparr>) w) \<and>
       ok (fst (ensureDummyEndpoint m lb eps w)) = ok (fst (eso_Update (sm_endpointSlices m) (eps\<lparr>eps_Endpoints := es\<rparr>) w))"
    unfolding ensureDummyEndpoint_eq [OF assms] es_def [symmetric] Let_def
    by (auto split: prod.split sum.split)
  ultimately show ?thesis by blast
qed

definition ready_slice :: EndpointSlice where
  "ready_slice = demo_slice\<lparr>eps_Endpoints := map (with_ready True) (eps_Endpoints demo_slice)\<rparr>"

lemma ready_slice_refs: "list_all has_ref (eps_Endpoints ready_slice)"
  by (simp add: ready_slice_def demo_slice_def with_ready_def new_endpoint_def dummy_endpoint_def has_ref_def)

theorem dummy_endpoint_maintained_witness:
  "\<exists>es. dummy_ok es \<and> es \<noteq> eps_Endpoints ready_slice \<and>
     snd (ensureDummyEndpoint slice_manager demo_lb ready_slice ready_slice) = ready_slice\<lparr>eps_Endpoints := es\<rparr>"
proof -
  obtain es where es: "dummy_ok es" "if es = eps_Endpoints ready_slice
      then ensureDummyEndpoint slice_manager demo_lb ready_slice ready_slice = (Inr (), ready_slice)
      else snd (ensureDummyEndpoint slice_manager demo_lb ready_slice ready_slice) =
        snd (eso_Update (sm_endpointSlices slice_manager) (ready_slice\<lparr>eps_Endpoints := es\<rparr>) ready_slice)"
    using dummy_endpoint_maintained [OF ready_slice_refs, of slice_manager demo_lb ready_slice] by metis
  have "\<not> dummy_ok (eps_Endpoints ready_slice)" by code_simp
  then have "es \<noteq> eps_Endpoints ready_slice" using es(1) by auto
  then show ?thesis using es by (auto simp: slice_manager_def slice_ops_def)
qed

section \<open>Reports reach their endpoint\<close>

lemma find_endpoint_index:
  assumes "singles eps" and "i < length eps" and "ep_Addresses (eps ! i) = [ip]"
    and "\<forall>j < i. ep_Addresses (eps ! j) \<noteq> [ip]"
  shows "find_endpoint uid ip eps = Inr (Some i)"
  using assms
proof (induction eps arbitrary: i)
  case (Cons ep eps)
  have e: "length (ep_Addresses ep) = 1" "singles eps" using Cons.prems(1) by (simp_all add: singles_def)
  show ?case
  proof (cases i)
    case 0
    then show ?thesis using Cons.prems(3) by simp
  next
    case (Suc j)
    have "ep_Addresses ep \<noteq> [ip]" using Cons.prems(4) Suc by (metis nth_Cons_0 zero_less_Suc)
    then have "ep_Addresses ep ! 0 \<noteq> ip" using single_address [OF e(1)] by metis
    moreover have "find_endpoint uid ip eps = Inr (Some j)"
      using Cons.IH [OF e(2)] Cons.prems(2-4) Suc by (metis Suc_less_eq length_Cons nth_Cons_Suc)
    ultimately show ?thesis using e(1) Suc by simp
  qed
qed simp

text \<open>
  The report of a worker reaches the endpoint it is about. For a load balancer and the
  first endpoint of its slice with some address, the uid and the address under which the worker
  was registered lead back to the slice and to that endpoint; if its condition differs from the
  report, the handler of the controller is called and the slice is written with only that
  condition changed, and otherwise nothing happens.
\<close>

theorem report_reaches_endpoint:
  assumes "CHR ''/'' \<notin> set ns" and "CHR ''/'' \<notin> set name"
    and "eso_Get (sm_endpointSlices m) ns name w = Inr eps" and "singles (eps_Endpoints eps)"
    and "i < length (eps_Endpoints eps)" and "ep_Addresses (eps_Endpoints eps ! i) = [ip]" and "CHR '':'' \<notin> set ip"
    and "\<forall>j < i. ep_Addresses (eps_Endpoints eps ! j) \<noteq> [ip]"
    and "sm_healthHandler m = Some h" and "h ns name w = (Inr (), w1)"
  shows "updateHealthCondition m (marshalUID ns name) (marshalPorberAddress hc (eps_Endpoints eps ! i)) b w =
    (if ep_Ready (eps_Endpoints eps ! i) = Some b then (Inr (), w)
     else (case eso_Update (sm_endpointSlices m)
             (eps\<lparr>eps_Endpoints := (eps_Endpoints eps)[i := (eps_Endpoints eps ! i)\<lparr>ep_Ready := Some b\<rparr>]\<rparr>) w1 of
         (Inl e, w2) \<Rightarrow>
           (Inl (wrapf (''fail to update condition of lb '' @ marshalUID ns name @ '' endpoint ip '' @ ip @ '' to '' @
              FormatBool b @ '', error: '') e), w2)
       | (Inr _, w2) \<Rightarrow> (Inr (), w2)))"
proof -
  have u: "unMarshalUID (marshalUID ns name) = Inr (ns, name)"
    using Split2_pair [of "CHR ''/''" ns name] assms(1,2) by (simp add: unMarshalUID_def marshalUID_def)
  have p: "unMarshalPorberAddress (marshalPorberAddress hc (eps_Endpoints eps ! i)) = Inr (ip, Itoa (sint (hc_Port hc)))"
    using Split2_pair [of "CHR '':''" ip "Itoa (sint (hc_Port hc))"] Itoa_no_colon assms(6,7)
    by (simp add: unMarshalPorberAddress_def marshalPorberAddress_def)
  have "needUpdateEndpointConditions (eps_Endpoints eps ! i) b \<longleftrightarrow> ep_Ready (eps_Endpoints eps ! i) \<noteq> Some b"
    by (auto simp: needUpdateEndpointConditions_def split: option.split)
  then show ?thesis
    using find_endpoint_index [OF assms(4-6,8), of "marshalUID ns name"] assms(3,9,10)
    by (simp add: updateHealthCondition_def u p set_condition_def updateEndpointConditions_eq)
qed

theorem report_reaches_endpoint_witness:
  "updateHealthCondition (slice_manager\<lparr>sm_healthHandler := Some (\<lambda>_ _ w. (Inr (), w))\<rparr>) ''default/lb1'' ''10.0.0.5:8080'' True demo_slice =
     (Inr (), ready_slice)"
proof -
  let ?m = "slice_manager\<lparr>sm_healthHandler := Some (\<lambda>_ _ w. (Inr (), w))\<rparr>"
  let ?hc = "\<lparr>hc_Port = 8080, hc_SuccessThreshold = 0, hc_FailureThreshold = 3, hc_PeriodSeconds = 5, hc_TimeoutSeconds = 0\<rparr>"
  have g: "eso_Get (sm_endpointSlices ?m) ''default'' ''lb1'' demo_slice = Inr demo_slice"
    by (simp add: slice_manager_def slice_ops_def)
  have e: "eps_Endpoints demo_slice ! 0 = new_endpoint demo_vmi ''10.0.0.5''" "0 < length (eps_Endpoints demo_slice)"
    by (simp_all add: demo_slice_def)
  have a: "marshalPorberAddress ?hc (new_endpoint demo_vmi ''10.0.0.5'') = ''10.0.0.5:8080''" by code_simp
  have ip: "ep_Addresses (eps_Endpoints demo_slice ! 0) = [''10.0.0.5'']" by (simp add: e new_endpoint_def)
  have nr: "ep_Ready (new_endpoint demo_vmi ''10.0.0.5'') \<noteq> Some True" by (simp add: new_endpoint_def)
  have up: "eso_Update (sm_endpointSlices slice_manager) = (\<lambda>e w. (Inr e, e))" by (simp add: slice_manager_def slice_ops_def)
  have r: "ready_slice = demo_slice\<lparr>eps_Endpoints := (eps_Endpoints demo_slice)
      [0 := (eps_Endpoints demo_slice ! 0)\<lparr>ep_Ready := Some True\<rparr>]\<rparr>"
    using demo_not_dummy by (simp add: ready_slice_def demo_slice_def with_ready_def)
  show ?thesis
    using report_reaches_endpoint [where ns = "''default''" and name = "''lb1''" and m = ?m and h = "\<lambda>_ _ w. (Inr (), w)"
      and hc = ?hc and b = True, OF _ _ g demo_slice_refs(2) e(2) ip] r
    by (simp add: e a nr up) (simp add: marshalUID_def)
qed

section \<open>Backend servers\<close>

lemma Append_fold:
  "fold bks_Append vs (Some b) = Some (b\<lparr>bks_servers := bks_servers b @ vs\<rparr>)"
  by (induction vs arbitrary: b) (simp_all add: bks_Append_def)

lemma servers_listed:
  assumes "getServiceBackendServers m lb w = Inr (Some bs)"
  obtains vmis where
    "sm_vmiList m (lb_Namespace lb) (lbs_BackendServerSelector (lb_Spec lb)) w = Inr vmis"
    and "bks_servers bs = filter (\<lambda>v. md_DeletionTimestamp (vmi_Meta v) = None \<and> GetAddress v \<noteq> None) vmis"
    and "bks_matched bs = int (length (filter (\<lambda>v. md_DeletionTimestamp (vmi_Meta v) = None) vmis))"
    and "bks_withAddress bs = int (length (bks_servers bs))"
proof -
  obtain sel where s: "NewSelector (sm_newRequirement m) (lbs_BackendServerSelector (lb_Spec lb)) = Inr sel"
    using assms by (auto simp: getServiceBackendServers_def split: if_splits sum.splits)
  then have sel: "sel = lbs_BackendServerSelector (lb_Spec lb)" using NewSelector_Inr by blast
  obtain vmis where v: "sm_vmiList m (lb_Namespace lb) sel w = Inr vmis"
    using assms s by (auto simp: getServiceBackendServers_def split: if_splits sum.splits)
  have "Some bs = SetWithAddressBackendServerCount
      (int (length (filter (\<lambda>v. GetAddress v \<noteq> None) (filter (\<lambda>v. md_DeletionTimestamp (vmi_Meta v) = None) vmis))))
      (SetMatchedBackendServerCount (int (length (filter (\<lambda>v. md_DeletionTimestamp (vmi_Meta v) = None) vmis)))
         (fold bks_Append (filter (\<lambda>v. GetAddress v \<noteq> None) (filter (\<lambda>v. md_DeletionTimestamp (vmi_Meta v) = None) vmis))
            (Some NewBackendServers)))"
    using assms s v by (simp add: getServiceBackendServers_def Let_def split: if_splits)
  then show thesis
    using v sel by (intro that [of vmis])
      (auto simp: Append_fold NewBackendServers_def SetWithAddressBackendServerCount_def SetMatchedBackendServerCount_def
        conj_commute)
qed

text \<open>
  The backend servers of a load balancer are the VMIs the selector lists that are not
  being deleted and have an IPv4 address, in the order of the list, with both counts exact: the
  number of live VMIs that matched and the number of those with an address. All of them are asked
  for with the selector of the load balancer in its namespace.
\<close>

theorem backend_servers_exact:
  assumes "ListBackendServers m lb w = Inr (Some bs)"
    and "sm_vmiList m (lb_Namespace lb) (lbs_BackendServerSelector (lb_Spec lb)) w = Inr vmis"
  shows "GetBackendServers (Some bs) =
      filter (\<lambda>v. md_DeletionTimestamp (vmi_Meta v) = None \<and> GetAddress v \<noteq> None) vmis \<and>
    GetMatchedBackendServerCount (Some bs) = int (length (filter (\<lambda>v. md_DeletionTimestamp (vmi_Meta v) = None) vmis)) \<and>
    GetWithIPAddressBackendServerCount (Some bs) = int (length (GetBackendServers (Some bs))) \<and>
    GetWithIPAddressBackendServerCount (Some bs) \<le> GetMatchedBackendServerCount (Some bs)"
proof -
  obtain vmis' where v: "sm_vmiList m (lb_Namespace lb) (lbs_BackendServerSelector (lb_Spec lb)) w = Inr vmis'"
    "bks_servers bs = filter (\<lambda>v. md_DeletionTimestamp (vmi_Meta v) = None \<and> GetAddress v \<noteq> None) vmis'"
    "bks_matched bs = int (length (filter (\<lambda>v. md_DeletionTimestamp (vmi_Meta v) = None) vmis'))"
    "bks_withAddress bs = int (length (bks_servers bs))"
    by (rule servers_listed [OF assms(1) [unfolded ListBackendServers_def]])
  have "length (filter (\<lambda>v. md_DeletionTimestamp (vmi_Meta v) = None \<and> GetAddress v \<noteq> None) xs) \<le>
      length (filter (\<lambda>v. md_DeletionTimestamp (vmi_Meta v) = None) xs)" for xs
    by (induction xs) auto
  then show ?thesis
    using v assms(2)
    by (simp add: GetBackendServers_def GetMatchedBackendServerCount_def GetWithIPAddressBackendServerCount_def)
qed

definition vmi_manager :: "EndpointSlice SvcManager" where
  "vmi_manager = slice_manager\<lparr>sm_vmiList := \<lambda>_ _ _. Inr [demo_vmi, demo_vmi\<lparr>vmi_Interfaces := [''fe80::1'']\<rparr>],
     sm_services := \<lparr>svo_Get = \<lambda>_ _ _. Inr (constructService None demo_lb), svo_Update = \<lambda>s w. (Inr s, w),
       svo_Create = \<lambda>s w. (Inr s, w)\<rparr>\<rparr>"

theorem backend_servers_exact_witness:
  "ListBackendServers vmi_manager demo_lb demo_slice = Inr (Some \<lparr>bks_servers = [demo_vmi], bks_matched = 2, bks_withAddress = 1\<rparr>) \<and>
   GetMatchedBackendServerCount (Some \<lparr>bks_servers = [demo_vmi], bks_matched = 2, bks_withAddress = 1\<rparr>) = 2"
proof -
  have l: "ListBackendServers vmi_manager demo_lb demo_slice =
      Inr (Some \<lparr>bks_servers = [demo_vmi], bks_matched = 2, bks_withAddress = 1\<rparr>)" by code_simp
  have "sm_vmiList vmi_manager (lb_Namespace demo_lb) (lbs_BackendServerSelector (lb_Spec demo_lb)) demo_slice =
      Inr [demo_vmi, demo_vmi\<lparr>vmi_Interfaces := [''fe80::1'']\<rparr>]" by (simp add: vmi_manager_def)
  from backend_servers_exact [OF l this] l show ?thesis by (simp add: GetMatchedBackendServerCount_def)
qed

section \<open>No panics\<close>

definition quiet :: "'a res \<Rightarrow> bool" where
  "quiet r = (case r of Inl e \<Rightarrow> \<not> is_panic e | Inr _ \<Rightarrow> True)"

lemma quiet_simps [simp]: "quiet (Inr x)" "quiet (Inl e) = (\<not> is_panic e)"
  by (simp_all add: quiet_def)

text \<open>Clients and listers report failures as errors, and a client returns the endpoints it has stored.\<close>

definition quiet_clients :: "'w SvcManager \<Rightarrow> bool" where
  "quiet_clients m \<longleftrightarrow>
     (\<forall>ns n w. quiet (svo_Get (sm_services m) ns n w) \<and> quiet (eso_Get (sm_endpointSlices m) ns n w)) \<and>
     (\<forall>e w. quiet (fst (eso_Update (sm_endpointSlices m) e w)) \<and> quiet (fst (eso_Create (sm_endpointSlices m) e w))) \<and>
     (\<forall>ns s w. quiet (sm_vmiList m ns s w)) \<and> (\<forall>k vs. quiet (sm_newRequirement m k vs))"

definition stores_endpoints :: "'w SvcManager \<Rightarrow> bool" where
  "stores_endpoints m \<longleftrightarrow>
     (\<forall>e e' w w'. eso_Update (sm_endpointSlices m) e w = (Inr e', w') \<longrightarrow> eps_Endpoints e' = eps_Endpoints e) \<and>
     (\<forall>e e' w w'. eso_Create (sm_endpointSlices m) e w = (Inr e', w') \<longrightarrow> eps_Endpoints e' = eps_Endpoints e)"

lemma quiet_NewSelector: "\<forall>k vs. quiet (nr k vs) \<Longrightarrow> quiet (NewSelector nr m)"
proof (induction nr m rule: NewSelector.induct)
  case (2 nr key vals m)
  then have q: "quiet (nr key vals)" by blast
  show ?case
  proof (cases "nr key vals")
    case (Inl e)
    then show ?thesis using q by simp
  next
    case (Inr u)
    then have "quiet (NewSelector nr m)" using 2 by simp
    then show ?thesis using Inr by (auto split: sum.splits)
  qed
qed simp

lemma quiet_servers: "quiet_clients m \<Longrightarrow> quiet (getServiceBackendServers m lb w)"
  using quiet_NewSelector [of "sm_newRequirement m" "lbs_BackendServerSelector (lb_Spec lb)"]
  by (auto simp: quiet_clients_def getServiceBackendServers_def Let_def split: sum.splits)
    (metis quiet_simps(2))+

lemma quiet_store_slice:
  assumes "quiet_clients m" and "stores_endpoints m" and "store_slice m cur e w = (r, w')"
  shows "quiet r" and "r = Inr eps \<Longrightarrow> eps_Endpoints eps = eps_Endpoints e"
proof -
  have "quiet (fst (eso_Update (sm_endpointSlices m) e w))" "quiet (fst (eso_Create (sm_endpointSlices m) e w))"
    using assms(1) by (simp_all add: quiet_clients_def)
  then show "quiet r" using assms(3)
    by (auto simp: store_slice_def split: option.splits prod.splits sum.splits if_splits)
  show "eps_Endpoints eps = eps_Endpoints e" if "r = Inr eps"
    using assms(2,3) that
    by (fastforce simp: store_slice_def stores_endpoints_def split: option.splits prod.splits sum.splits if_splits)
qed

lemma quiet_updateAllConditions:
  assumes "quiet_clients m" and "list_all has_ref (eps_Endpoints eps)"
  shows "quiet (fst (updateAllConditions m lb eps b w))"
proof -
  have "quiet (fst (eso_Update (sm_endpointSlices m) e w))" for e using assms(1) by (simp add: quiet_clients_def)
  then show ?thesis
    using update_all_refs [OF assms(2), of b]
    by (auto simp: updateAllConditions_def split: prod.split sum.split) (metis fst_conv quiet_simps(2))
qed

lemma quiet_ensureProbes:
  assumes "quiet_clients m" and "list_all has_ref (eps_Endpoints eps)" and "pm_inv pm"
  shows "quiet (fst (ensureProbes m lb eps (pm, w))) \<and> pm_inv (fst (snd (ensureProbes m lb eps (pm, w))))"
proof (cases "\<exists>hc. lbs_HealthCheck (lb_Spec lb) = Some hc \<and> hc_Port hc \<noteq> 0")
  case True
  then obtain hc where hc: "lbs_HealthCheck (lb_Spec lb) = Some hc" "hc_Port hc \<noteq> 0" by blast
  have "keyed []" by (simp add: keyed_def)
  then obtain t where t: "target_probers hc (eps_Endpoints eps) [] = Inr t" "keyed t"
    using target_probers_spec [OF assms(2)] by blast
  then show ?thesis
    using hc updateAllProbers_spec(1) [OF assms(3) t(2) refl] by (simp add: ensureProbes_def Let_def)
next
  case False
  then have "ensureProbes m lb eps (pm, w) =
      (let p = snd (removeLBProbers lb pm); (r, w) = updateAllConditions m lb eps True w in (r, p, w))"
    by (auto simp: ensureProbes_def split: option.split)
  moreover have "pm_inv (snd (removeLBProbers lb pm))"
    unfolding removeLBProbers_def using assms(3) by (rule RemoveWorkersByUid_inv)
  ultimately show ?thesis
    using quiet_updateAllConditions [OF assms(1,2), of lb True w] by (auto simp: Let_def split: prod.split)
qed

lemma quiet_ensureDummy:
  assumes "quiet_clients m" and "list_all has_ref (eps_Endpoints eps)"
  shows "quiet (fst (ensureDummyEndpoint m lb eps w))"
proof -
  have "quiet (fst (eso_Update (sm_endpointSlices m) e w))" for e using assms(1) by (simp add: quiet_clients_def)
  then show ?thesis
    unfolding ensureDummyEndpoint_eq [OF assms(2)] Let_def
    by (auto split: prod.split sum.split) (metis fst_conv quiet_simps(2))+
qed

text \<open>
  \<^bold>\<open>C30.\<close> \<^verbatim>\<open>EnsureBackendServers\<close> never dereferences a nil target reference: with clients that
  return errors and hand back what they have stored, it ends with a result or an error and never
  panics, whatever the stored slice holds, and it keeps one goroutine per registered worker. The
  slice is rebuilt before any endpoint is looked at, so that each has a target reference.
\<close>

theorem ensure_backend_servers_no_panic:
  assumes "quiet_clients m" and "stores_endpoints m" and "pm_inv pm"
  shows "quiet (fst (EnsureBackendServers m lb (pm, w))) \<and> pm_inv (fst (snd (EnsureBackendServers m lb (pm, w))))"
proof -
  have gs: "quiet (getService m lb w)"
    using assms(1) by (auto simp: getService_def quiet_clients_def split: sum.split) (metis quiet_simps(2))
  have ge: "quiet (eso_Get (sm_endpointSlices m) (lb_Namespace lb) (lb_Name lb) w)"
    using assms(1) by (simp add: quiet_clients_def)
  have sv: "quiet (getServiceBackendServers m lb w)" using assms(1) by (rule quiet_servers)
  have rest: "quiet (fst (EnsureBackendServers m lb (pm, w))) \<and> pm_inv (fst (snd (EnsureBackendServers m lb (pm, w))))"
    if svc: "getService m lb w = Inr (Some svc)"
      and cur: "(case eso_Get (sm_endpointSlices m) (lb_Namespace lb) (lb_Name lb) w of
          Inl e \<Rightarrow> if errors_Is e NotFound then Inr None else Inl (wrapf ''fail to get endpointslice, error: '' e)
        | Inr eps \<Rightarrow> Inr (Some eps)) = Inr cur"
      and servers: "getServiceBackendServers m lb w = Inr servers"
      and new: "constructEndpointSliceFromBackendServers cur lb (GetBackendServers servers) = Inr epsNew"
      and refs: "list_all has_ref (eps_Endpoints epsNew)" for svc cur servers epsNew
  proof -
    obtain r w1 where st: "store_slice m cur epsNew w = (r, w1)" by fastforce
    show ?thesis
    proof (cases r)
      case (Inl e)
      then show ?thesis
        using quiet_store_slice(1) [OF assms(1,2) st] st assms(3) svc cur servers new by (simp add: EnsureBackendServers_def)
    next
      case (Inr eps)
      then have re: "list_all has_ref (eps_Endpoints eps)"
        using quiet_store_slice(2) [OF assms(1,2) st] refs by simp
      obtain q pm2 w2 where pr: "ensureProbes m lb eps (pm, w1) = (q, pm2, w2)" by (metis prod_cases3)
      have qp: "quiet q" "pm_inv pm2" using quiet_ensureProbes [OF assms(1) re assms(3), of lb w1] pr by simp_all
      have "quiet (fst (ensureDummyEndpoint m lb eps w2))" using assms(1) re by (rule quiet_ensureDummy)
      then show ?thesis
        using st Inr pr qp svc cur servers new
        by (auto simp: EnsureBackendServers_def split: sum.split prod.split)
    qed
  qed
  have refs: "list_all has_ref (eps_Endpoints e)"
    if "constructEndpointSliceFromBackendServers cur lb servers = Inr e" for cur servers e
    using slice_refs [OF that] .
  show ?thesis
  proof (cases "\<exists>svc cur servers epsNew. getService m lb w = Inr (Some svc) \<and>
      (case eso_Get (sm_endpointSlices m) (lb_Namespace lb) (lb_Name lb) w of
          Inl e \<Rightarrow> if errors_Is e NotFound then Inr None else Inl (wrapf ''fail to get endpointslice, error: '' e)
        | Inr eps \<Rightarrow> Inr (Some eps)) = Inr cur \<and> getServiceBackendServers m lb w = Inr servers \<and>
      constructEndpointSliceFromBackendServers cur lb (GetBackendServers servers) = Inr epsNew")
    case True
    then show ?thesis using rest refs by blast
  next
    case False
    then show ?thesis
      using gs ge sv assms(3) construct_error [of _ lb]
      by (auto simp: EnsureBackendServers_def split: sum.splits option.splits if_splits)
  qed
qed

definition bad_slice :: EndpointSlice where
  "bad_slice = demo_slice\<lparr>eps_Endpoints := [\<lparr>ep_Addresses = [''10.0.0.9''], ep_TargetRef = None, ep_Ready = None\<rparr>]\<rparr>"

theorem ensure_backend_servers_no_panic_witness:
  "quiet_clients vmi_manager \<and> stores_endpoints vmi_manager \<and>
   quiet (fst (EnsureBackendServers vmi_manager demo_lb (NewProbeManager, bad_slice))) \<and>
   isDummyEndpoint (hd (eps_Endpoints bad_slice)) = Inl nil_panic"
proof -
  have q: "quiet_clients vmi_manager" "stores_endpoints vmi_manager"
    by (auto simp: quiet_clients_def stores_endpoints_def vmi_manager_def slice_manager_def slice_ops_def)
  moreover have "isDummyEndpoint (hd (eps_Endpoints bad_slice)) = Inl nil_panic"
    by (simp add: bad_slice_def isDummyEndpoint_def)
  ultimately show ?thesis
    using ensure_backend_servers_no_panic [OF q NewProbeManager_inv, of demo_lb bad_slice] by simp
qed

section \<open>A reconciliation that conflicts with itself\<close>

text \<open>
  A server that stores one endpoint slice, stamps each write with a new resource version and
  refuses an update with an old one, as the Kubernetes API server does.
\<close>

definition slice_rv :: "EndpointSlice \<Rightarrow> string" where
  "slice_rv e = md_ResourceVersion (eps_Meta e)"

definition stamp_slice :: "nat \<Rightarrow> EndpointSlice \<Rightarrow> EndpointSlice" where
  "stamp_slice n e = e\<lparr>eps_Meta := (eps_Meta e)\<lparr>md_ResourceVersion := Itoa (int n)\<rparr>\<rparr>"

definition versioned_ops :: "(EndpointSlice option \<times> nat) EndpointSliceOps" where
  "versioned_ops = \<lparr>
     eso_Get = \<lambda>ns n w. (case fst w of None \<Rightarrow> Inl (Error ''not found'' [NotFound]) | Some e \<Rightarrow> Inr e),
     eso_Update = \<lambda>e w. (case fst w of
         None \<Rightarrow> (Inl (Error ''not found'' [NotFound]), w)
       | Some cur \<Rightarrow> if slice_rv cur \<noteq> slice_rv e then (Inl (Error ''the object has been modified'' [Conflict]), w)
                     else (Inr (stamp_slice (snd w) e), Some (stamp_slice (snd w) e), Suc (snd w))),
     eso_Create = \<lambda>e w. (case fst w of
         Some cur \<Rightarrow> (Inl (Error ''already exists'' [AlreadyExists]), w)
       | None \<Rightarrow> (Inr (stamp_slice (snd w) e), Some (stamp_slice (snd w) e), Suc (snd w)))\<rparr>"

definition versioned_manager :: "(EndpointSlice option \<times> nat) SvcManager" where
  "versioned_manager = \<lparr>sm_services = \<lparr>svo_Get = \<lambda>_ _ _. Inr (constructService None demo_lb), svo_Update = \<lambda>s w. (Inr s, w),
       svo_Create = \<lambda>s w. (Inr s, w)\<rparr>,
     sm_endpointSlices = versioned_ops, sm_vmiList = (\<lambda>_ _ _. Inr [demo_vmi]), sm_newRequirement = (\<lambda>_ _. Inr ()),
     sm_healthHandler = None\<rparr>"

definition unprobed_lb :: LoadBalancer where
  "unprobed_lb = demo_lb\<lparr>lb_Spec := (lb_Spec demo_lb)\<lparr>lbs_HealthCheck := None\<rparr>\<rparr>"

text \<open>
  The first reconciliation of a load balancer without a health check and with a running
  server ends in a conflict: \<^verbatim>\<open>updateAllConditions\<close> writes the new endpoint as ready, and
  \<^verbatim>\<open>ensureDummyEndpoint\<close> then works on the slice as it was before, in which no endpoint is ready,
  and tries to add the dummy endpoint with the old resource version. A second reconciliation of
  the stored slice succeeds and writes nothing.
\<close>

theorem unprobed_reconcile_conflicts:
  "\<exists>e sl. EnsureBackendServers versioned_manager unprobed_lb (NewProbeManager, None, 1) =
       (Inl e, NewProbeManager, Some sl, 3) \<and> errors_Is e Conflict \<and>
     map ep_Ready (eps_Endpoints sl) = [Some True] \<and>
     EnsureBackendServers versioned_manager unprobed_lb (NewProbeManager, Some sl, 3) =
       (Inr (Some \<lparr>bks_servers = [demo_vmi], bks_matched = 1, bks_withAddress = 1\<rparr>), NewProbeManager, Some sl, 3)"
proof -
  let ?r = "EnsureBackendServers versioned_manager unprobed_lb (NewProbeManager, None, 1)"
  have a: "(case ?r of (Inl e, pm, Some sl, n) \<Rightarrow> errors_Is e Conflict \<and> pm = NewProbeManager \<and> n = 3 \<and>
      map ep_Ready (eps_Endpoints sl) = [Some True] \<and>
      EnsureBackendServers versioned_manager unprobed_lb (NewProbeManager, Some sl, 3) =
        (Inr (Some \<lparr>bks_servers = [demo_vmi], bks_matched = 1, bks_withAddress = 1\<rparr>), NewProbeManager, Some sl, 3)
    | _ \<Rightarrow> False)" by code_simp
  obtain q pm so n where r: "?r = (q, pm, so, n)" by (metis prod_cases4)
  with a obtain e sl where "q = Inl e" "so = Some sl"
    by (cases q; cases so) auto
  with a r show ?thesis by auto
qed

section \<open>The period of a prober\<close>

text \<open>
  The worker starts a ticker with the period of its option, which panics unless the period is
  positive. The period is the seconds of the health check times a thousand million, in 64 bits: it
  is positive up to 9223372036 seconds, and the default for zero seconds is positive too.
\<close>

lemma period_positive:
  assumes "unat (hc_PeriodSeconds hc) \<le> 9223372036"
  shows "0 < sint (ho_Period (generateOneProber hc ep))"
proof (cases "hc_PeriodSeconds hc = 0")
  case True
  then show ?thesis by (simp add: generateOneProber_def defaultPeriod_def Second_def)
next
  case False
  define n where "n = uint (hc_PeriodSeconds hc)"
  have "n \<noteq> 0" using False by (simp add: n_def unsigned_eq_0_iff)
  moreover have "0 \<le> n" by (simp add: n_def)
  moreover have "int (unat (hc_PeriodSeconds hc)) = n" by (simp add: n_def)
  ultimately have n: "0 < n" "n \<le> 9223372036" using assms by linarith+
  have "hc_PeriodSeconds hc * Second = word_of_int n * word_of_int 1000000000"
    by (simp add: n_def Second_def)
  also have "\<dots> = word_of_int (n * 1000000000)" by (simp only: wi_hom_mult)
  finally have "sint (hc_PeriodSeconds hc * Second) = signed_take_bit 63 (n * 1000000000)"
    by (simp only: signed_of_int) simp
  also have "\<dots> = n * 1000000000" using n by (intro signed_take_bit_int_eq_self) simp_all
  finally have "sint (hc_PeriodSeconds hc * Second) = n * 1000000000" .
  then show ?thesis using n(1) False by (simp add: generateOneProber_def)
qed

lemma worker_runs:
  assumes "unat (hc_PeriodSeconds hc) \<le> 9223372036" and "wk_option w = generateOneProber hc ep"
  shows "run evs w = Inr (run_loop evs w)"
  using period_positive [OF assms(1), of ep] by (simp add: run_def assms(2))

text \<open>
  Beyond that the product wraps around, and the validator has no upper bound: a health check with
  a period of 9223372037 seconds is accepted, and the worker that is started for it panics in its
  goroutine, which ends the process.
\<close>

definition endless_check :: HealthCheck where
  "endless_check = \<lparr>hc_Port = 8080, hc_SuccessThreshold = 1, hc_FailureThreshold = 3, hc_PeriodSeconds = 9223372037, hc_TimeoutSeconds = 3\<rparr>"

definition endless_lb :: LoadBalancer where
  "endless_lb = demo_lb\<lparr>lb_Spec := (lb_Spec demo_lb)\<lparr>lbs_HealthCheck := Some endless_check\<rparr>\<rparr>"

theorem accepted_period_panics:
  "checkHealthyCheck endless_lb = Inr () \<and>
   (\<forall>n uid ep evs. run evs (newWorker n uid (generateOneProber endless_check ep)) = Inl (Panic ''non-positive interval for NewTicker''))"
proof
  show "checkHealthyCheck endless_lb = Inr ()" by code_simp
  have "sint (ho_Period (generateOneProber endless_check ep)) \<le> 0" for ep
    by (simp add: generateOneProber_def endless_check_def Second_def)
  then show "\<forall>n uid ep evs. run evs (newWorker n uid (generateOneProber endless_check ep)) = Inl (Panic ''non-positive interval for NewTicker'')"
    by (simp add: run_def newWorker_def)
qed

end
