(* ===== verification/AllocationRuns.thy ===== *)
theory AllocationRuns
  imports IpamProps
begin

text \<open>
  Allocation as a state machine: any interleaving of allocations and releases by any applicants
  with the informer, which may deliver the stored pools to the cache at any time or not at all.
  A step is labelled with what was asked for and what was returned.
\<close>

datatype alloc_event =
    Got string "IPConfig res"
  | Released string "unit res"
  | Synced string

inductive alloc_step :: "PoolServer Allocator \<Rightarrow> PoolServer \<Rightarrow> alloc_event \<Rightarrow> PoolServer \<Rightarrow> bool" for a where
  get: "Allocator_Get a i w = Some (x, w') \<Longrightarrow> alloc_step a w (Got i x) w'"
| release: "IPAllocator_Release (al_IPAllocator a) i f w = (y, w') \<Longrightarrow> alloc_step a w (Released i y) w'"
| sync: "alloc_step a w (Synced m) (srv_sync m w)"

inductive_cases alloc_step_GotE: "alloc_step a w (Got i x) w'"
inductive_cases alloc_step_ReleasedE: "alloc_step a w (Released i y) w'"
inductive_cases alloc_step_SyncedE: "alloc_step a w (Synced m) w'"

inductive alloc_run :: "PoolServer Allocator \<Rightarrow> PoolServer \<Rightarrow> alloc_event list \<Rightarrow> PoolServer \<Rightarrow> bool" for a where
  run_nil: "alloc_run a w [] w"
| run_step: "alloc_step a w ev w1 \<Longrightarrow> alloc_run a w1 evs w2 \<Longrightarrow> alloc_run a w (ev # evs) w2"

inductive_cases alloc_run_NilE: "alloc_run a w [] w'"
inductive_cases alloc_run_ConsE: "alloc_run a w (ev # evs) w'"

lemma alloc_run_append:
  "alloc_run a w (evs @ evs') w' \<Longrightarrow> \<exists>w1. alloc_run a w evs w1 \<and> alloc_run a w1 evs' w'"
  by (induction evs arbitrary: w) (auto elim!: alloc_run_ConsE intro: run_nil, blast intro: run_step)

abbreviation recorded :: "string \<Rightarrow> PoolServer \<Rightarrow> string \<rightharpoonup> string" where
  "recorded n \<equiv> store_alloc server_pool n"

abbreviation run_inv :: "string \<Rightarrow> PoolServer \<Rightarrow> bool" where
  "run_inv n \<equiv> store_inv server_cache server_pool server_good n"

lemma sync_pools [simp]: "server_pool (srv_sync m w) = server_pool w"
  by (auto simp: server_pool_def srv_sync_def fun_eq_iff split: option.splits)

lemma sync_inv: "run_inv n w \<Longrightarrow> run_inv n (srv_sync m w)"
  using srv_sync_good [of w m]
  by (auto simp: store_inv_def server_cache_def srv_Get_def srv_sync_def server_pool_def gomap_simps
      split: option.splits if_splits)

lemma sync_recorded: "recorded n (srv_sync m w) = recorded n w"
  by (simp add: store_alloc_def)

section \<open>The ledger\<close>

text \<open>
  What the store of a pool promises, without caches, resource versions and iterators: a ledger of
  who holds which address. An address is handed out only when it is free and served by the ranges,
  a release frees one address of the applicant or, when the applicant is not known to hold any,
  nothing, and whatever fails leaves the ledger alone.
\<close>

inductive ledger_step ::
  "ARange list \<Rightarrow> (string \<rightharpoonup> string) \<Rightarrow> alloc_event \<Rightarrow> (string \<rightharpoonup> string) \<Rightarrow> bool" for rs where
  claim: "config_of rs c \<Longrightarrow> m (ip_String (net_IP (ipc_Address c))) = None \<Longrightarrow>
    ledger_step rs m (Got i (Inr c)) (m(ip_String (net_IP (ipc_Address c)) \<mapsto> i))"
| refuse: "ledger_step rs m (Got i (Inl e)) m"
| free: "m k = Some i \<Longrightarrow> ledger_step rs m (Released i (Inr ())) (m(k := None))"
| idle: "ledger_step rs m (Released i (Inr ())) m"
| fail: "ledger_step rs m (Released i (Inl e)) m"
| see: "ledger_step rs m (Synced n) m"

inductive ledger_run ::
  "ARange list \<Rightarrow> (string \<rightharpoonup> string) \<Rightarrow> alloc_event list \<Rightarrow> (string \<rightharpoonup> string) \<Rightarrow> bool" for rs where
  ledger_nil: "ledger_run rs m [] m"
| ledger_cons: "ledger_step rs m ev m1 \<Longrightarrow> ledger_run rs m1 evs m2 \<Longrightarrow> ledger_run rs m (ev # evs) m2"

lemma alloc_step_ledger:
  assumes al: "NewAllocator sha n ranges server_cache server_client = Inr a"
    and ok: "rangeset_ok (ia_rangeset (al_IPAllocator a))"
    and inv: "run_inv n w" and step: "alloc_step a w ev w'"
  shows "run_inv n w' \<and> ledger_step (ia_rangeset (al_IPAllocator a)) (recorded n w) ev (recorded n w')"
  using step
proof cases
  case (get i x)
  obtain x' w2 where g: "Allocator_Get a i w = Some (x', w2)" "run_inv n w2"
    "\<forall>e. x' = Inl e \<longrightarrow> recorded n w2 = recorded n w"
    "\<forall>c. x' = Inr c \<longrightarrow> config_of (ia_rangeset (al_IPAllocator a)) c \<and>
      recorded n w (ip_String (net_IP (ipc_Address c))) = None \<and>
      recorded n w2 = (recorded n w)(ip_String (net_IP (ipc_Address c)) \<mapsto> i)"
    using ps.Allocator_Get_fresh [OF al ok inv] .
  then have "x' = x" "w2 = w'" using get(2) by simp_all
  then show ?thesis using g get(1) by (cases x) (auto intro: ledger_step.intros)
next
  case (release i f y)
  have st: "ia_store (al_IPAllocator a) = store_backend (store_New n server_cache server_client)"
    using NewAllocator_Inr [OF al] by metis
  then have r: "bs_ReleaseByID (store_backend (store_New n server_cache server_client)) i f w = (y, w')"
    using release(2) by (simp add: IPAllocator_Release_def)
  have i: "run_inv n w'" using ps.st.release_inv [OF inv r] .
  show ?thesis
  proof (cases y)
    case (Inl e)
    then show ?thesis using i ps.st.release_err [OF inv] r release(1) by (auto intro: ledger_step.intros)
  next
    case (Inr u)
    from ps.st.release_ok [OF inv r [unfolded Inr]] show ?thesis
      using i release(1) Inr by (auto intro: ledger_step.intros)
  qed
next
  case (sync m)
  then show ?thesis using sync_inv [OF inv] sync_recorded by (auto intro: ledger_step.intros)
qed

text \<open>What a step may do to the record of one address.\<close>

lemma ledger_step_effect:
  "ledger_step rs m ev m' \<Longrightarrow>
    m' k = m k \<or>
    (\<exists>i c. ev = Got i (Inr c) \<and> k = ip_String (net_IP (ipc_Address c)) \<and> m k = None \<and> m' k = Some i) \<or>
    (\<exists>i. ev = Released i (Inr ()) \<and> m k = Some i \<and> m' k = None)"
  by (cases rule: ledger_step.cases) (auto split: if_splits)

lemma alloc_step_effect:
  assumes "NewAllocator sha n ranges server_cache server_client = Inr a"
    and "rangeset_ok (ia_rangeset (al_IPAllocator a))"
    and "run_inv n w" and "alloc_step a w ev w'"
  shows "run_inv n w' \<and>
    (recorded n w' k = recorded n w k \<or>
     (\<exists>i c. ev = Got i (Inr c) \<and> k = ip_String (net_IP (ipc_Address c)) \<and> recorded n w k = None \<and>
        recorded n w' k = Some i) \<or>
     (\<exists>i. ev = Released i (Inr ()) \<and> recorded n w k = Some i \<and> recorded n w' k = None))"
  using alloc_step_ledger [OF assms] ledger_step_effect by blast

lemma alloc_run_inv:
  assumes "NewAllocator sha n ranges server_cache server_client = Inr a"
    and "rangeset_ok (ia_rangeset (al_IPAllocator a))" and "alloc_run a w evs w'" and "run_inv n w"
  shows "run_inv n w'"
  using assms(3,4) by induction (use alloc_step_effect [OF assms(1,2)] in blast)+

text \<open>A recorded address stays with its applicant as long as that applicant does not release.\<close>

lemma alloc_run_keeps:
  assumes "NewAllocator sha n ranges server_cache server_client = Inr a"
    and "rangeset_ok (ia_rangeset (al_IPAllocator a))" and "alloc_run a w evs w'" and "run_inv n w"
    and "recorded n w k = Some i" and "Released i (Inr ()) \<notin> set evs"
  shows "recorded n w' k = Some i"
  using assms(3-6)
proof induction
  case (run_step w ev w1 evs w2)
  have e: "run_inv n w1 \<and> (recorded n w1 k = recorded n w k \<or>
     (\<exists>i c. ev = Got i (Inr c) \<and> k = ip_String (net_IP (ipc_Address c)) \<and> recorded n w k = None \<and>
        recorded n w1 k = Some i) \<or>
     (\<exists>i. ev = Released i (Inr ()) \<and> recorded n w k = Some i \<and> recorded n w1 k = None))"
    using alloc_step_effect [OF assms(1,2) run_step.prems(1) run_step.hyps(1)] .
  then have "recorded n w1 k = Some i" using run_step.prems(2,3) by auto
  with e show ?case using run_step.IH run_step.prems(3) by simp
qed

text \<open>
  \<^bold>\<open>C2.\<close> No address is given out twice. In every run of allocations, releases and cache updates
  in any order, started in a consistent state, if one applicant is given an address and later
  some applicant is given the same address, then the first one has released in between. This
  holds although each allocation decides on a cache that may be arbitrarily old. An allocation is one step: the
  cache is updated between allocations, not in the middle of one.
\<close>

theorem no_double_allocation:
  assumes "NewAllocator sha n ranges server_cache server_client = Inr a"
    and "rangeset_ok (ia_rangeset (al_IPAllocator a))" and "run_inv n w"
    and "alloc_run a w (before @ Got i (Inr c) # between @ Got j (Inr d) # after) w'"
    and "ip_String (net_IP (ipc_Address c)) = ip_String (net_IP (ipc_Address d))"
  shows "Released i (Inr ()) \<in> set between"
proof (rule ccontr)
  assume no: "Released i (Inr ()) \<notin> set between"
  let ?k = "ip_String (net_IP (ipc_Address c))"
  obtain w1 where w1: "alloc_run a w before w1" "alloc_run a w1 (Got i (Inr c) # between @ Got j (Inr d) # after) w'"
    using alloc_run_append [OF assms(4)] by blast
  obtain w2 where w2: "alloc_step a w1 (Got i (Inr c)) w2" "alloc_run a w2 (between @ Got j (Inr d) # after) w'"
    using w1(2) by (elim alloc_run_ConsE)
  obtain w3 where w3: "alloc_run a w2 between w3" "alloc_run a w3 (Got j (Inr d) # after) w'"
    using alloc_run_append [OF w2(2)] by blast
  obtain w4 where w4: "alloc_step a w3 (Got j (Inr d)) w4" using w3(2) by (elim alloc_run_ConsE)
  have fresh: "run_inv n u \<Longrightarrow> alloc_step a u (Got l (Inr b)) v \<Longrightarrow>
      recorded n u (ip_String (net_IP (ipc_Address b))) = None \<and>
      recorded n v (ip_String (net_IP (ipc_Address b))) = Some l \<and> run_inv n v" for u l b v
  proof (elim alloc_step_GotE)
    assume u: "run_inv n u" and g: "Allocator_Get a l u = Some (Inr b, v)"
    show ?thesis using ps.Allocator_Get_fresh [OF assms(1,2) u, of l] g by (metis Pair_inject fun_upd_same option.inject)
  qed
  have i1: "run_inv n w1" using alloc_run_inv [OF assms(1,2) w1(1) assms(3)] .
  have i2: "recorded n w2 ?k = Some i" "run_inv n w2" using fresh [OF i1 w2(1)] by blast+
  have "recorded n w3 ?k = Some i" using alloc_run_keeps [OF assms(1,2) w3(1) i2(2,1) no] .
  moreover have "run_inv n w3" using alloc_run_inv [OF assms(1,2) w3(1) i2(2)] .
  ultimately show False using fresh [OF _ w4] assms(5) by simp
qed

text \<open>
  \<^bold>\<open>C6.\<close> The detailed allocator implements the ledger: every run of allocations, releases
  and cache updates on the API server, with the same requests and the same answers, is a run of the
  ledger from the recorded allocations of the pool to the recorded allocations of the pool.
\<close>

theorem allocator_refines_ledger:
  assumes "NewAllocator sha n ranges server_cache server_client = Inr a"
    and "rangeset_ok (ia_rangeset (al_IPAllocator a))" and "run_inv n w"
    and "alloc_run a w evs w'"
  shows "ledger_run (ia_rangeset (al_IPAllocator a)) (recorded n w) evs (recorded n w')"
  using assms(4,3)
proof induction
  case (run_step w ev w1 evs w2)
  have "run_inv n w1 \<and> ledger_step (ia_rangeset (al_IPAllocator a)) (recorded n w) ev (recorded n w1)"
    using alloc_step_ledger [OF assms(1,2) run_step.prems run_step.hyps(1)] .
  then show ?case using run_step.IH by (blast intro: ledger_cons)
qed (rule ledger_nil)

text \<open>
  A run: an applicant gets back the address it held before, the cache catches up, the applicant
  releases, the cache catches up, and it is given the same address once more.
\<close>

definition sticky_config :: IPConfig where
  "sticky_config = \<lparr>ipc_Address = \<lparr>net_IP = [10, 0, 0, 3], net_Mask = [255, 255, 255, 0]\<rparr>, ipc_Gateway = ParseIP ''10.0.0.1''\<rparr>"

definition sticky_get :: "PoolServer \<Rightarrow> IPConfig res \<times> PoolServer" where
  "sticky_get w = Get_requested (al_IPAllocator demo_allocator) ''default/lb1'' '''' (ParseIP ''10.0.0.3'') w"

definition sticky_release :: "PoolServer \<Rightarrow> unit res \<times> PoolServer" where
  "sticky_release w = IPAllocator_Release (al_IPAllocator demo_allocator) ''default/lb1'' '''' w"

definition after_get :: PoolServer where
  "after_get = srv_sync ''demo'' (snd (sticky_get released_world))"

definition after_release :: PoolServer where
  "after_release = srv_sync ''demo'' (snd (sticky_release after_get))"

definition in_history :: "PoolServer \<Rightarrow> bool" where
  "in_history w = (case pc_Get (al_cache demo_allocator) (al_name demo_allocator) w of
     Inl e \<Rightarrow> False
   | Inr p \<Rightarrow> find_applicant ''default/lb1'' (entries (pool_History p)) = Some (''10.0.0.3'', ''default/lb1''))"

lemma sticky_step:
  assumes "in_history w" and "fst (sticky_get w) = Inr sticky_config"
  shows "alloc_step demo_allocator w (Got ''default/lb1'' (Inr sticky_config)) (snd (sticky_get w))"
proof (rule alloc_step.get)
  have "ParseIP ''10.0.0.3'' \<noteq> []" by code_simp
  then have "Allocator_Get demo_allocator ''default/lb1'' w = Some (sticky_get w)"
    using assms(1)
    by (auto simp: in_history_def Allocator_Get_def IPAllocator_Get_def sticky_get_def split: sum.splits)
  then show "Allocator_Get demo_allocator ''default/lb1'' w = Some (Inr sticky_config, snd (sticky_get w))"
    using assms(2) by (metis prod.collapse)
qed

lemma sticky_run:
  "alloc_run demo_allocator released_world
     ([] @ Got ''default/lb1'' (Inr sticky_config) # [Synced ''demo'', Released ''default/lb1'' (Inr ()), Synced ''demo''] @
      Got ''default/lb1'' (Inr sticky_config) # []) (snd (sticky_get after_release))"
proof -
  have h: "in_history released_world" "in_history after_release" by code_simp+
  have c: "fst (sticky_get released_world) = Inr sticky_config" "fst (sticky_get after_release) = Inr sticky_config"
    by code_simp+
  have "fst (sticky_release after_get) = Inr ()" by code_simp
  then have "IPAllocator_Release (al_IPAllocator demo_allocator) ''default/lb1'' '''' after_get
      = (Inr (), snd (sticky_release after_get))"
    unfolding sticky_release_def by (metis prod.collapse)
  note steps = sticky_step [OF h(1) c(1)] sticky_step [OF h(2) c(2)] alloc_step.release [OF this]
  show ?thesis
    unfolding append.simps
    by (rule run_step [OF steps(1)], rule run_step [OF alloc_step.sync], fold after_get_def,
        rule run_step [OF steps(3)], rule run_step [OF alloc_step.sync], fold after_release_def,
        rule run_step [OF steps(2)], rule run_nil)
qed

theorem no_double_allocation_witness:
  "Released ''default/lb1'' (Inr ()) \<in> set [Synced ''demo'', Released ''default/lb1'' (Inr ()), Synced ''demo'']"
  using no_double_allocation [OF demo_NewAllocator _ released_inv sticky_run refl]
  by (simp add: demo_rangeset demo_rangeset_ok)

theorem allocator_refines_ledger_witness:
  "ledger_run [demo_arange] (recorded ''demo'' released_world)
     [Got ''default/lb1'' (Inr sticky_config), Synced ''demo'', Released ''default/lb1'' (Inr ()), Synced ''demo'',
      Got ''default/lb1'' (Inr sticky_config)] (recorded ''demo'' (snd (sticky_get after_release)))"
  using allocator_refines_ledger [OF demo_NewAllocator _ released_inv sticky_run]
  by (simp add: demo_rangeset demo_rangeset_ok)

end
