(* ===== verification/LBController.thy ===== *)
theory LBController
  imports IPAllocator PoolSelector ServiceLB
begin

text \<open>
  The controller of load balancers: \<^verbatim>\<open>pkg/controller/loadbalancer/controller.go\<close>.

  The load balancer manager is the interface \<^verbatim>\<open>lbpkg.Manager\<close>, a record of functions; the map
  of allocators is an argument, since the handler only reads it. A handler that changes its copy of
  the object returns the copy. A function that allocates is an option, \<open>None\<close> when the
  allocator would not return. A result of a handler is the object it returns and its error, both
  of which may be nil. Log lines are left out.
\<close>

section \<open>Interfaces\<close>

record 's LBManager =
  lm_EnsureLoadBalancer :: "LoadBalancer \<Rightarrow> 's \<Rightarrow> unit res \<times> 's"
  lm_DeleteLoadBalancer :: "LoadBalancer \<Rightarrow> 's \<Rightarrow> unit res \<times> 's"
  lm_EnsureLoadBalancerServiceIP :: "LoadBalancer \<Rightarrow> 's \<Rightarrow> string res"
  lm_EnsureBackendServers :: "LoadBalancer \<Rightarrow> 's \<Rightarrow> BackendServers option res \<times> 's"
  lm_GetProbeReadyBackendServerCount :: "LoadBalancer \<Rightarrow> 's \<Rightarrow> int res"

definition servicelb_manager :: "'w SvcManager \<Rightarrow> 'w mstate LBManager" where
  "servicelb_manager m = \<lparr>lm_EnsureLoadBalancer = EnsureLoadBalancer m, lm_DeleteLoadBalancer = DeleteLoadBalancer m,
     lm_EnsureLoadBalancerServiceIP = (\<lambda>lb s. EnsureLoadBalancerServiceIP m lb (snd s)),
     lm_EnsureBackendServers = EnsureBackendServers m,
     lm_GetProbeReadyBackendServerCount = (\<lambda>lb s. GetProbeReadyBackendServerCount m lb (snd s))\<rparr>"

record 's LBHandler =
  lh_lbs :: "'s LBOps"
  lh_ipPoolCache :: "'s IPPoolCache"
  lh_lbManager :: "'s LBManager"
  lh_now :: string

type_synonym hres = "LoadBalancer option \<times> error option"

definition errNoMatchedIPPool :: error where
  "errNoMatchedIPPool = Error ''no matched IPPool'' [ErrNoMatchedIPPool]"
definition errNoRunningBackendServer :: error where
  "errNoRunningBackendServer = Error ''no running backend servers'' [ErrNoRunningBackendServer]"
definition errAllBackendServersNotHealthy :: error where
  "errAllBackendServersNotHealthy =
     Error ''running backend servers are not probed as healthy'' [ErrAllBackendServersNotHealthy]"
definition errAllBackendServersNoIP :: error where
  "errAllBackendServersNoIP = Error ''running backend servers have no IP'' [ErrAllBackendServersNoIP]"

text \<open>\<^verbatim>\<open>fmt.Errorf\<close> with two \<^verbatim>\<open>%w\<close>: both chains are kept.\<close>

definition wrap_two :: "string \<Rightarrow> error \<Rightarrow> string \<Rightarrow> error \<Rightarrow> error" where
  "wrap_two pre e mid f = Error (pre @ err_text e @ mid @ err_text f) (err_chain e @ err_chain f)"

definition lb_id :: "LoadBalancer \<Rightarrow> string" where
  "lb_id lb = lb_Namespace lb @ ''/'' @ lb_Name lb"

section \<open>Status\<close>

abbreviation set_conditions :: "LoadBalancer \<Rightarrow> Condition list \<Rightarrow> LoadBalancer" where
  "set_conditions lb cs \<equiv> lb\<lparr>lb_Status := (lb_Status lb)\<lparr>lbst_Conditions := cs\<rparr>\<rparr>"

definition set_ready :: "string \<Rightarrow> bool \<Rightarrow> string \<Rightarrow> LoadBalancer \<Rightarrow> LoadBalancer" where
  "set_ready now b msg lb = set_conditions lb
     (cond_setMessage now LoadBalancerReady msg
       (cond_setStatus now LoadBalancerReady (if b then ''True'' else ''False'') (lbst_Conditions (lb_Status lb))))"

definition lb_updateStatus :: "'s LBHandler \<Rightarrow> LoadBalancer \<Rightarrow> LoadBalancer \<Rightarrow> error option \<Rightarrow> 's \<Rightarrow> hres \<times> 's" where
  "lb_updateStatus h lbCopy0 lb err w =
     (let lbCopy = (case err of Some e \<Rightarrow> set_ready (lh_now h) False (err_text e) lbCopy0
                              | None \<Rightarrow> set_ready (lh_now h) True '''' lbCopy0) in
      if lb_Status lbCopy = lb_Status lb then ((Some lbCopy, err), w)
      else (case lbo_Update (lh_lbs h) lbCopy w of
          (Inl e, w') \<Rightarrow> ((None, Some (wrapf ''fail to update status, error: '' e)), w')
        | (Inr updatedLb, w') \<Rightarrow> ((Some updatedLb, err), w')))"

definition updateStatusNotReturnError :: "'s LBHandler \<Rightarrow> LoadBalancer \<Rightarrow> LoadBalancer \<Rightarrow> error \<Rightarrow> 's \<Rightarrow> hres \<times> 's" where
  "updateStatusNotReturnError h lbCopy0 lb err w =
     (let lbCopy = set_ready (lh_now h) False (err_text err) lbCopy0 in
      if lb_Status lbCopy = lb_Status lb then ((Some lb, None), w)
      else (case lbo_Update (lh_lbs h) lbCopy w of
          (Inl e, w') \<Rightarrow> ((None, Some (wrap_two ''fail to update status with original error '' err '', new error: '' e)), w')
        | (Inr updatedLb, w') \<Rightarrow> ((Some updatedLb, None), w')))"

text \<open>
  In Go a panic never reaches \<^verbatim>\<open>handleError\<close>: it ends the handler and nothing is written. In the model it is an
  error value that the handler is left with at once.
\<close>

definition handleError :: "'s LBHandler \<Rightarrow> LoadBalancer \<Rightarrow> LoadBalancer \<Rightarrow> error \<Rightarrow> 's \<Rightarrow> hres \<times> 's" where
  "handleError h lbCopy lb err w =
     (if is_panic err then ((None, Some err), w)
      else if errors_Is err ErrNoMatchedIPPool \<or> errors_Is err ErrNoAvailableIP \<or> errors_Is err ErrWaitExternalIP then
        updateStatusNotReturnError h lbCopy lb err (lbo_EnqueueAfter (lh_lbs h) (lb_Namespace lb) (lb_Name lb) 1 w)
      else if errors_Is err ErrNoRunningBackendServer \<or> errors_Is err ErrAllBackendServersNotHealthy \<or>
              errors_Is err ErrAllBackendServersNoIP then
        updateStatusNotReturnError h lbCopy lb err w
      else lb_updateStatus h lbCopy lb (Some err) w)"

definition panicked :: "hres \<Rightarrow> bool" where
  "panicked res = (case snd res of None \<Rightarrow> False | Some e \<Rightarrow> is_panic e)"

section \<open>Addresses\<close>

abbreviation set_address :: "LoadBalancer \<Rightarrow> AllocatedAddress \<Rightarrow> LoadBalancer" where
  "set_address lb a \<equiv> lb\<lparr>lb_Status := (lb_Status lb)\<lparr>lbst_AllocatedAddress := a\<rparr>\<rparr>"

abbreviation lb_address :: "LoadBalancer \<Rightarrow> AllocatedAddress" where
  "lb_address lb \<equiv> lbst_AllocatedAddress (lb_Status lb)"

definition format_requirement :: "Requirement \<Rightarrow> string" where
  "format_requirement r = ''&{Network:'' @ rq_Network r @ '' Project:'' @ rq_Project r @ '' Namespace:'' @
     rq_Namespace r @ '' Cluster:'' @ rq_Cluster r @ ''}''"

definition lb_requirement :: "LoadBalancer \<Rightarrow> Requirement" where
  "lb_requirement lb =
     (let an = str_get (md_Annotations (lb_Meta lb)) in
      \<lparr>rq_Network = an AnnotationKeyNetwork, rq_Project = an AnnotationKeyProject,
       rq_Namespace = (if an AnnotationKeyNamespace = '''' then lb_Namespace lb else an AnnotationKeyNamespace),
       rq_Cluster = an AnnotationKeyCluster\<rparr>)"

definition selectIPPool :: "'s LBHandler \<Rightarrow> LoadBalancer \<Rightarrow> 's \<Rightarrow> string res" where
  "selectIPPool h lb w =
     (let r = lb_requirement lb;
          none = Inl (Error (err_text errNoMatchedIPPool @ '' with requirement '' @ format_requirement r) [ErrNoMatchedIPPool]) in
      (case Select (lh_ipPoolCache h) (Some r) False w of
         Inl e \<Rightarrow> Inl (wrap_two '''' errNoMatchedIPPool '' with selector, error: '' e)
       | Inr (Some pool) \<Rightarrow> Inr (pool_Name pool)
       | Inr None \<Rightarrow>
           if lbs_WorkloadType (lb_Spec lb) = Cluster then
             (case Select (lh_ipPoolCache h) (Some r) True w of
                Inl e \<Rightarrow> Inl (wrap_two '''' errNoMatchedIPPool '' with selector, error: '' e)
              | Inr (Some pool) \<Rightarrow> Inr (pool_Name pool)
              | Inr None \<Rightarrow> none)
           else none))"

definition no_allocator :: "string \<Rightarrow> error" where
  "no_allocator pool = errorf (''fail to get allocator '' @ pool)"

definition releaseIP :: "'s SafeAllocatorMap \<Rightarrow> LoadBalancer \<Rightarrow> 's \<Rightarrow> unit res \<times> 's" where
  "releaseIP am lb w =
     (case sam_Get (aa_IPPool (lb_address lb)) am of
        None \<Rightarrow> (Inl (no_allocator (aa_IPPool (lb_address lb))), w)
      | Some a \<Rightarrow> IPAllocator_Release (al_IPAllocator a) (lb_id lb) '''' w)"

definition requestIP :: "'s SafeAllocatorMap \<Rightarrow> LoadBalancer \<Rightarrow> string \<Rightarrow> 's \<Rightarrow> (AllocatedAddress res \<times> 's) option" where
  "requestIP am lb pool w =
     (case sam_Get pool am of
        None \<Rightarrow> Some (Inl (no_allocator pool), w)
      | Some a \<Rightarrow>
          map_option (\<lambda>(r, w').
            (case r of
               Inl e \<Rightarrow> Inl (wrapf (''fail to get ip from pool '' @ pool @ '', error: '') e)
             | Inr c \<Rightarrow> Inr \<lparr>aa_IPPool = pool, aa_IP = ip_String (net_IP (ipc_Address c)),
                              aa_Mask = ip_String (net_Mask (ipc_Address c)), aa_Gateway = ip_String (ipc_Gateway c)\<rparr>, w'))
          (Allocator_Get a (lb_id lb) w))"

definition allocateIPFromPool ::
  "'s LBHandler \<Rightarrow> 's SafeAllocatorMap \<Rightarrow> LoadBalancer \<Rightarrow> 's \<Rightarrow> (AllocatedAddress res \<times> 's) option" where
  "allocateIPFromPool h am lb w =
     (if lbs_IPPool (lb_Spec lb) = '''' then
        (case selectIPPool h lb w of
           Inl e \<Rightarrow> Some (Inl e, w)
         | Inr pool \<Rightarrow> requestIP am lb pool w)
      else requestIP am lb (lbs_IPPool (lb_Spec lb)) w)"

definition tryReleaseDuplicatedIPToPool ::
  "'s LBHandler \<Rightarrow> 's SafeAllocatorMap \<Rightarrow> LoadBalancer \<Rightarrow> 's \<Rightarrow> unit res \<times> 's" where
  "tryReleaseDuplicatedIPToPool h am lb w =
     (case (if lbs_IPPool (lb_Spec lb) = '''' then selectIPPool h lb w else Inr (lbs_IPPool (lb_Spec lb))) of
        Inl e \<Rightarrow> (Inl e, w)
      | Inr pool \<Rightarrow>
          (case sam_Get pool am of
             None \<Rightarrow> (Inl (no_allocator pool), w)
           | Some a \<Rightarrow> IPAllocator_Release (al_IPAllocator a) (lb_id lb) '''' w))"

text \<open>The error of the step, the changed copy and the world.\<close>

type_synonym 's step_res = "error option \<times> LoadBalancer \<times> 's"

definition ensureAllocatedAddressDHCP :: "LoadBalancer \<Rightarrow> LoadBalancer \<Rightarrow> LoadBalancer" where
  "ensureAllocatedAddressDHCP lbCopy lb =
     (if aa_IP (lb_address lb) \<noteq> Address4AskDHCP
      then set_address lbCopy (empty_address\<lparr>aa_IP := Address4AskDHCP\<rparr>) else lbCopy)"

definition ensureAllocatedAddressPool ::
  "'s LBHandler \<Rightarrow> 's SafeAllocatorMap \<Rightarrow> LoadBalancer \<Rightarrow> LoadBalancer \<Rightarrow> 's \<Rightarrow> 's step_res option" where
  "ensureAllocatedAddressPool h am lbCopy lb w =
     (if lbs_IPPool (lb_Spec lb) \<noteq> '''' \<and> aa_IPPool (lb_address lb) \<noteq> '''' \<and>
         aa_IPPool (lb_address lb) \<noteq> lbs_IPPool (lb_Spec lb) then
        Some (case releaseIP am lb w of
            (Inl e, w') \<Rightarrow>
              (Some (wrapf (''fail to release ip '' @ aa_IP (lb_address lb) @ '' to pool '' @ lbs_IPPool (lb_Spec lb) @
                 '', error: '') e), lbCopy, w')
          | (Inr _, w') \<Rightarrow> (None, set_address lbCopy empty_address, w'))
      else if aa_IPPool (lb_address lb) = '''' then
        map_option (\<lambda>(r, w').
          (case r of
             Inr ip \<Rightarrow> (None, set_address lbCopy ip, w')
           | Inl e \<Rightarrow>
               if Contains (err_text e) DuplicateAllocationKeyWord
               then (Some e, lbCopy, snd (tryReleaseDuplicatedIPToPool h am lb w'))
               else (Some e, lbCopy, w')))
        (allocateIPFromPool h am lb w)
      else Some (None, lbCopy, w))"

definition ensureAllocatedAddress ::
  "'s LBHandler \<Rightarrow> 's SafeAllocatorMap \<Rightarrow> LoadBalancer \<Rightarrow> LoadBalancer \<Rightarrow> 's \<Rightarrow> 's step_res option" where
  "ensureAllocatedAddress h am lbCopy lb w =
     (if lbs_IPAM (lb_Spec lb) = DHCP then Some (None, ensureAllocatedAddressDHCP lbCopy lb, w)
      else ensureAllocatedAddressPool h am lbCopy lb w)"

section \<open>Virtual machine load balancers\<close>

definition getServerAddress :: "VirtualMachineInstance list \<Rightarrow> string list option" where
  "getServerAddress servers = (if servers = [] then None else Some (List.map_filter GetAddress servers))"

definition ensureVMLoadBalancer :: "'s LBHandler \<Rightarrow> LoadBalancer \<Rightarrow> LoadBalancer \<Rightarrow> 's \<Rightarrow> 's step_res" where
  "ensureVMLoadBalancer h lbCopy lb w =
     (let m = lh_lbManager h in
      (case lm_EnsureLoadBalancer m lb w of
         (Inl e, w1) \<Rightarrow> (Some e, lbCopy, w1)
       | (Inr _, w1) \<Rightarrow>
           (case lm_EnsureLoadBalancerServiceIP m lb w1 of
              Inl e \<Rightarrow> (Some e, lbCopy\<lparr>lb_Status := (lb_Status lbCopy)\<lparr>lbst_Address := ''''\<rparr>\<rparr>, w1)
            | Inr ip \<Rightarrow>
                let lbCopy1 = lbCopy\<lparr>lb_Status := (lb_Status lbCopy)\<lparr>lbst_Address := ip\<rparr>\<rparr> in
                (case lm_EnsureBackendServers m lb w1 of
                   (Inl e, w2) \<Rightarrow> (Some e, lbCopy1, w2)
                 | (Inr servers, w2) \<Rightarrow>
                     let addrs = getServerAddress (GetBackendServers servers);
                         n = length (case addrs of None \<Rightarrow> [] | Some xs \<Rightarrow> xs);
                         lbCopy2 = lbCopy1\<lparr>lb_Status := (lb_Status lbCopy1)\<lparr>lbst_BackendServers := addrs\<rparr>\<rparr> in
                     if n = 0 then
                       (Some (if GetMatchedBackendServerCount servers = 0 then errNoRunningBackendServer
                              else errAllBackendServersNoIP), lbCopy2, w2)
                     else (case lbs_HealthCheck (lb_Spec lb) of
                         None \<Rightarrow> (None, lbCopy2, w2)
                       | Some hc \<Rightarrow>
                           if hc_Port hc = 0 then (None, lbCopy2, w2)
                           else (case lm_GetProbeReadyBackendServerCount m lb w2 of
                               Inl e \<Rightarrow> (Some e, lbCopy2, w2)
                             | Inr cnt \<Rightarrow>
                                 if cnt = 0 then
                                   (Some (Error (err_text errAllBackendServersNotHealthy @ '' total:'' @ Itoa (int n) @
                                      '', healthy:0'') [ErrAllBackendServersNotHealthy]), lbCopy2, w2)
                                 else (None, lbCopy2, w2)))))))"

section \<open>The handlers\<close>

definition lb_OnChange :: "'s LBHandler \<Rightarrow> 's SafeAllocatorMap \<Rightarrow> LoadBalancer option \<Rightarrow> 's \<Rightarrow> (hres \<times> 's) option" where
  "lb_OnChange h am lbo w =
     (case lbo of
        None \<Rightarrow> Some ((None, None), w)
      | Some lb \<Rightarrow>
          if md_DeletionTimestamp (lb_Meta lb) \<noteq> None \<or> lb_APIVersion lb \<noteq> SchemeGroupVersion then Some ((None, None), w)
          else map_option (\<lambda>(err, lbCopy, w1).
            (case err of
               Some e \<Rightarrow> handleError h lbCopy lb e w1
             | None \<Rightarrow>
                 if lbs_WorkloadType (lb_Spec lb) = VM \<or> lbs_WorkloadType (lb_Spec lb) = '''' then
                   (case ensureVMLoadBalancer h lbCopy lb w1 of
                      (Some e, lbCopy2, w2) \<Rightarrow> handleError h lbCopy2 lb e w2
                    | (None, lbCopy2, w2) \<Rightarrow> lb_updateStatus h lbCopy2 lb None w2)
                 else lb_updateStatus h lbCopy lb None w1))
          (ensureAllocatedAddress h am lb lb w))"

definition lb_OnRemove :: "'s LBHandler \<Rightarrow> 's SafeAllocatorMap \<Rightarrow> LoadBalancer option \<Rightarrow> 's \<Rightarrow> hres \<times> 's" where
  "lb_OnRemove h am lbo w =
     (case lbo of
        None \<Rightarrow> ((None, None), w)
      | Some lb \<Rightarrow>
          let (rel, w1) = (if lbs_IPAM (lb_Spec lb) = PoolIPAM \<and> aa_IPPool (lb_address lb) \<noteq> '''' then releaseIP am lb w
                           else (Inr (), w)) in
          (case rel of
             Inl e \<Rightarrow> ((None, Some (wrapf (''fail to release ip '' @ aa_IP (lb_address lb) @ '', error: '') e)), w1)
           | Inr _ \<Rightarrow>
               if lbs_WorkloadType (lb_Spec lb) = VM \<or> lbs_WorkloadType (lb_Spec lb) = '''' then
                 (case lm_DeleteLoadBalancer (lh_lbManager h) lb w1 of
                    (Inl e, w2) \<Rightarrow> ((None, Some (wrapf ''fail to delete service, error: '' e)), w2)
                  | (Inr _, w2) \<Rightarrow> ((Some lb, None), w2))
               else ((Some lb, None), w1)))"

definition HealthCheckNotify :: "'s LBHandler \<Rightarrow> string \<Rightarrow> string \<Rightarrow> 's \<Rightarrow> unit res \<times> 's" where
  "HealthCheckNotify h namespace name w = (Inr (), lbo_Enqueue (lh_lbs h) namespace name w)"

end
