(* ===== verification/LBControllerLemmas.thy ===== *)
theory LBControllerLemmas
  imports LBController AllocationRuns
begin

text \<open>
  The load balancer controller on top of the allocators: what a reconciliation does to the address
  of a load balancer and to the records of the pools. The lemmas are proved once in the context of
  the locale \<open>pool_api\<close>, for any number of pools behind one client.
\<close>

section \<open>What an allocator leaves alone\<close>

text \<open>
  A relation between worlds that every reservation respects is respected by the search for an
  address. It is used to show that an allocator touches no other pool.
\<close>

lemma reserve_loop_frame:
  assumes "reserve_loop bs i f r iter w = Some y"
    and "\<And>a u x v. bs_Reserve bs i f a r u = (x, v) \<Longrightarrow> R u v"
    and "\<And>u. R u u" and "\<And>u v w. R u v \<Longrightarrow> R v w \<Longrightarrow> R u w"
  shows "R w (snd y)"
proof -
  let ?respects = "\<lambda>bs i f r. \<forall>a u x v. bs_Reserve bs i f a r u = (x, v) \<longrightarrow> R u v"
  have "?respects bs i f r \<longrightarrow> R w (snd y)"
  proof (rule reserve_loop.raw_induct [where P = "\<lambda>bs i f r iter w y. ?respects bs i f r \<longrightarrow> R w (snd y)", OF _ assms(1)], rule impI)
    fix rl and bs :: "'a BackendStore" and i f r iter w y
    assume IH: "\<And>bs i f r iter w y. rl bs i f r iter w = Some y \<Longrightarrow> ?respects bs i f r \<longrightarrow> R w (snd y)"
      and body: "Option.bind (iter_Next iter) (\<lambda>nx. case nx of Inl e \<Rightarrow> Some (Inl e, w)
            | Inr (iter', None) \<Rightarrow> Some (Inr None, w)
            | Inr (iter', Some (reservedIP, gw)) \<Rightarrow>
                case bs_Reserve bs i f (net_IP reservedIP) r w of
                  (Inl e, w') \<Rightarrow> Some (Inl e, w')
                | (Inr reserved, w') \<Rightarrow>
                    if reserved then Some (Inr (Some (reservedIP, gw)), w') else rl bs i f r iter' w') = Some y"
      and res: "?respects bs i f r"
    have step: "R w v" if "bs_Reserve bs i f a r w = (x, v)" for a x v using res that by blast
    have rest: "R w (snd z)" if "bs_Reserve bs i f a r w = (x, v)" "rl bs i f r it v = Some z" for a x v it z
      using assms(4) [OF step [OF that(1)]] IH [OF that(2)] res by blast
    show "R w (snd y)"
    proof (cases "iter_Next iter")
      case None
      then show ?thesis using body by simp
    next
      case (Some nx)
      with body show ?thesis
        by (auto simp: assms(3) split: sum.splits option.splits prod.splits if_splits dest: rest step)
    qed
  qed
  then show ?thesis using assms(2) by blast
qed

lemma Allocator_Get_frame:
  assumes get: "Allocator_Get al i w = Some (x, w')"
    and res: "\<And>f a r u y v. bs_Reserve (ia_store (al_IPAllocator al)) i f a r u = (y, v) \<Longrightarrow> R u v"
    and refl: "\<And>u. R u u" and trans: "\<And>u v w. R u v \<Longrightarrow> R v w \<Longrightarrow> R u w"
  shows "R w w'"
proof -
  let ?al = "al_IPAllocator al"
  have any: "R w w'" if "Get_any ?al i f w = Some (x, w')" for f
  proof -
    obtain iter y where y: "w' = w \<or> reserve_loop (ia_store ?al) i f (ia_rangeID ?al) iter w = Some y \<and> w' = snd y"
    proof (cases "GetIter ?al w")
      case (Inl e)
      then have "w' = w" using \<open>Get_any ?al i f w = Some (x, w')\<close> by (auto simp: Get_any_def split: option.splits)
      then show ?thesis using that by blast
    next
      case (Inr iter)
      have "w' = w \<or> (\<exists>y. reserve_loop (ia_store ?al) i f (ia_rangeID ?al) iter w = Some y \<and> w' = snd y)"
        using \<open>Get_any ?al i f w = Some (x, w')\<close> Inr by (auto simp: Get_any_def split: option.splits)
      then show ?thesis using that by blast
    qed
    have "R w (snd y)" if "reserve_loop (ia_store ?al) i f (ia_rangeID ?al) iter w = Some y"
      using reserve_loop_frame [OF that res refl trans] .
    with y refl show ?thesis by blast
  qed
  have req: "R w (snd (Get_requested ?al i f r w))" for f r
    using res refl by (auto simp: Get_requested_def split: sum.splits prod.splits if_splits)
  have "R w w'" if "IPAllocator_Get ?al i f r w = Some (x, w')" for f r
    using that any req [of f r] by (auto simp: IPAllocator_Get_def split: if_splits)
  then show ?thesis
    using get refl by (auto simp: Allocator_Get_def split: sum.splits option.splits)
qed

text \<open>Nothing but the pool \<open>n\<close> has changed.\<close>

definition only_pool ::
  "'w IPPoolCache \<Rightarrow> ('w \<Rightarrow> string \<Rightarrow> IPPool option) \<Rightarrow> ('w \<Rightarrow> bool) \<Rightarrow> string \<Rightarrow> 'w \<Rightarrow> 'w \<Rightarrow> bool" where
  "only_pool ca server good n w w' \<longleftrightarrow>
     (\<forall>m. m \<noteq> n \<longrightarrow> server w' m = server w m \<and> (store_inv ca server good m w \<longrightarrow> store_inv ca server good m w'))"

context pool_api
begin

abbreviation "elsewhere \<equiv> only_pool ca server good"

lemma elsewhere_refl: "elsewhere n w w"
  by (simp add: only_pool_def)

lemma elsewhere_trans: "elsewhere n u v \<Longrightarrow> elsewhere n v w \<Longrightarrow> elsewhere n u w"
  by (simp add: only_pool_def)

lemma update_elsewhere:
  assumes "good w" and "pcl_Update cl p w = (r, w')" and "pool_Name p = n"
  shows "elsewhere n w w'"
proof -
  have srv: "server w' m = server w m" if "m \<noteq> n" for m
    using update_ok [OF assms(1)] update_err [OF assms(1)] assms(2,3) that by (cases r) fastforce+
  have "store_inv ca server good m w'" if "m \<noteq> n" "store_inv ca server good m w" for m
    using update_good [OF assms(1,2)] update_cache [OF assms(1,2), of m] srv [OF that(1)] that(2)
    by (auto simp: store_inv_def)
  with srv show ?thesis by (simp add: only_pool_def)
qed

lemma Reserve_elsewhere:
  assumes "store_inv ca server good n w" and "Store_Reserve (store_New n ca cl) i f a r w = (x, w')"
  shows "elsewhere n w w'"
proof -
  have g: "good w" using assms(1) by (simp add: store_inv_def)
  then show ?thesis
    using assms(2) get_name [OF g] update_elsewhere [OF g] elsewhere_refl
    by (auto simp: Store_Reserve_def Let_def split: sum.splits option.splits if_splits prod.splits)
qed

lemma ReleaseByID_elsewhere:
  assumes "store_inv ca server good n w" and "Store_ReleaseByID (store_New n ca cl) i f w = (x, w')"
  shows "elsewhere n w w'"
proof -
  have g: "good w" using assms(1) by (simp add: store_inv_def)
  then show ?thesis
    using assms(2) get_name [OF g] update_elsewhere [OF g] elsewhere_refl
    by (auto simp: Store_ReleaseByID_def update_released_def split: sum.splits option.splits if_splits prod.splits)
qed

lemma Allocator_Get_elsewhere:
  assumes al: "NewAllocator sha n ranges ca cl = Inr a" and inv: "store_inv ca server good n w"
    and get: "Allocator_Get a i w = Some (x, w')"
  shows "elsewhere n w w'"
proof -
  let ?R = "\<lambda>u v. store_inv ca server good n u \<longrightarrow> store_inv ca server good n v \<and> elsewhere n u v"
  have st: "ia_store (al_IPAllocator a) = store_backend (store_New n ca cl)" using NewAllocator_Inr [OF al] by metis
  have "?R w w'"
  proof (rule Allocator_Get_frame [where R = ?R, OF get])
    fix f b r u y v
    assume "bs_Reserve (ia_store (al_IPAllocator a)) i f b r u = (y, v)"
    then have "bs_Reserve (store_backend (store_New n ca cl)) i f b r u = (y, v)"
      and "Store_Reserve (store_New n ca cl) i f b r u = (y, v)"
      unfolding st by (simp_all add: store_backend_def)
    then show "?R u v" using st.reserve_inv Reserve_elsewhere by blast
  qed (use elsewhere_refl elsewhere_trans in blast)+
  with inv show ?thesis by blast
qed

end

section \<open>The address of a load balancer\<close>

text \<open>
  The map of allocators is in order when each is the allocator of the pool it is stored under and
  its ranges are disjoint ranges of served subnets.
\<close>

definition allocators_ok :: "'w IPPoolCache \<Rightarrow> 'w IPPoolClient \<Rightarrow> 'w SafeAllocatorMap \<Rightarrow> bool" where
  "allocators_ok ca cl am \<longleftrightarrow>
     (\<forall>n a. sam_Get n am = Some a \<longrightarrow>
        (\<exists>sha ranges. NewAllocator sha n ranges ca cl = Inr a) \<and> rangeset_ok (ia_rangeset (al_IPAllocator a)))"

definition ledgers :: "('w \<Rightarrow> string \<Rightarrow> IPPool option) \<Rightarrow> 'w \<Rightarrow> string \<Rightarrow> string \<rightharpoonup> string" where
  "ledgers server w n = store_alloc server n w"

text \<open>An applicant gives back at most one address of one pool.\<close>

inductive gives_back :: "string \<Rightarrow> string \<Rightarrow> (string \<Rightarrow> string \<rightharpoonup> string) \<Rightarrow> (string \<Rightarrow> string \<rightharpoonup> string) \<Rightarrow> bool"
  for n i where
  nothing: "gives_back n i l l"
| one: "l n k = Some i \<Longrightarrow> gives_back n i l (l(n := (l n)(k := None)))"

text \<open>The ways a reconciliation can deal with the address, with the ledgers before and after.\<close>

inductive address_outcome ::
  "'w SafeAllocatorMap \<Rightarrow> LoadBalancer \<Rightarrow> (string \<Rightarrow> string \<rightharpoonup> string) \<Rightarrow> error option \<Rightarrow> LoadBalancer \<Rightarrow>
     (string \<Rightarrow> string \<rightharpoonup> string) \<Rightarrow> bool" for am lb l where
  dhcp: "lbs_IPAM (lb_Spec lb) = DHCP \<Longrightarrow> aa_IP a = Address4AskDHCP \<Longrightarrow>
    address_outcome am lb l None (set_address lb a) l"
| kept: "lbs_IPAM (lb_Spec lb) \<noteq> DHCP \<Longrightarrow> aa_IPPool (lb_address lb) \<noteq> '''' \<Longrightarrow>
    lbs_IPPool (lb_Spec lb) \<in> {'''', aa_IPPool (lb_address lb)} \<Longrightarrow> address_outcome am lb l None lb l"
| moved: "lbs_IPAM (lb_Spec lb) \<noteq> DHCP \<Longrightarrow> aa_IPPool (lb_address lb) \<noteq> '''' \<Longrightarrow>
    lbs_IPPool (lb_Spec lb) \<notin> {'''', aa_IPPool (lb_address lb)} \<Longrightarrow>
    gives_back (aa_IPPool (lb_address lb)) (lb_id lb) l l' \<Longrightarrow>
    address_outcome am lb l None (set_address lb empty_address) l'"
| given: "lbs_IPAM (lb_Spec lb) \<noteq> DHCP \<Longrightarrow> aa_IPPool (lb_address lb) = '''' \<Longrightarrow>
    lbs_IPPool (lb_Spec lb) \<in> {'''', n} \<Longrightarrow> sam_Get n am = Some a \<Longrightarrow>
    config_of (ia_rangeset (al_IPAllocator a)) c \<Longrightarrow> l n (ip_String (net_IP (ipc_Address c))) = None \<Longrightarrow>
    address_outcome am lb l None
      (set_address lb \<lparr>aa_IPPool = n, aa_IP = ip_String (net_IP (ipc_Address c)),
         aa_Mask = ip_String (net_Mask (ipc_Address c)), aa_Gateway = ip_String (ipc_Gateway c)\<rparr>)
      (l(n := (l n)(ip_String (net_IP (ipc_Address c)) \<mapsto> lb_id lb)))"
| failed: "lbs_IPAM (lb_Spec lb) \<noteq> DHCP \<Longrightarrow> address_outcome am lb l (Some e) lb l"
| returned: "lbs_IPAM (lb_Spec lb) \<noteq> DHCP \<Longrightarrow> aa_IPPool (lb_address lb) = '''' \<Longrightarrow>
    gives_back n (lb_id lb) l l' \<Longrightarrow> address_outcome am lb l (Some e) lb l'"

context pool_api
begin

abbreviation "sound_world w \<equiv> (\<forall>n. store_inv ca server good n w)"

lemma only_pool_sound:
  assumes "sound_world w" and "elsewhere n w w'" and "store_inv ca server good n w'"
  shows "sound_world w'"
proof
  fix m
  show "store_inv ca server good m w'" using assms by (cases "m = n") (auto simp: only_pool_def)
qed

lemma only_pool_ledgers:
  "elsewhere n w w' \<Longrightarrow> ledgers server w' = (ledgers server w)(n := store_alloc server n w')"
  by (auto simp: ledgers_def only_pool_def fun_eq_iff store_alloc_def)

lemma Release_outcome:
  assumes w: "sound_world w" and al: "NewAllocator sha n ranges ca cl = Inr a"
    and rel: "IPAllocator_Release (al_IPAllocator a) i f w = (x, w')"
  shows "sound_world w' \<and> gives_back n i (ledgers server w) (ledgers server w') \<and>
    (x \<noteq> Inr () \<longrightarrow> ledgers server w' = ledgers server w)"
proof -
  have inv: "store_inv ca server good n w" using w by blast
  have "ia_store (al_IPAllocator a) = store_backend (store_New n ca cl)" using NewAllocator_Inr [OF al] by metis
  then have r: "bs_ReleaseByID (store_backend (store_New n ca cl)) i f w = (x, w')"
    using rel by (simp add: IPAllocator_Release_def)
  then have e: "elsewhere n w w'" using ReleaseByID_elsewhere [OF inv] by (simp add: store_backend_def)
  have "store_alloc server n w' = store_alloc server n w \<or>
    (\<exists>k. store_alloc server n w k = Some i \<and> store_alloc server n w' = (store_alloc server n w)(k := None))"
  proof (cases x)
    case (Inl e)
    then show ?thesis using st.release_err [OF inv] r by blast
  next
    case (Inr u)
    then show ?thesis using st.release_ok [OF inv] r by blast
  qed
  then have "gives_back n i (ledgers server w) (ledgers server w')"
  proof
    assume same: "store_alloc server n w' = store_alloc server n w"
    have "ledgers server w' = ledgers server w"
      unfolding only_pool_ledgers [OF e] same by (rule ext) (simp add: ledgers_def)
    then show ?thesis by (simp add: gives_back.nothing)
  next
    assume "\<exists>k. store_alloc server n w k = Some i \<and> store_alloc server n w' = (store_alloc server n w)(k := None)"
    then obtain k where k: "store_alloc server n w k = Some i"
      "store_alloc server n w' = (store_alloc server n w)(k := None)" by blast
    then have "ledgers server w n k = Some i" by (simp add: ledgers_def)
    moreover have "ledgers server w' = (ledgers server w)(n := (ledgers server w n)(k := None))"
      unfolding only_pool_ledgers [OF e] k(2) by (simp add: ledgers_def)
    ultimately show ?thesis by (metis gives_back.one)
  qed
  moreover have "ledgers server w' = ledgers server w" if err: "x \<noteq> Inr ()"
  proof -
    obtain er where "x = Inl er" using err by (cases x) auto
    then have same: "store_alloc server n w' = store_alloc server n w" using st.release_err [OF inv] r by blast
    show ?thesis unfolding only_pool_ledgers [OF e] same by (rule ext) (simp add: ledgers_def)
  qed
  ultimately show ?thesis using only_pool_sound [OF w e st.release_inv [OF inv r]] by blast
qed

lemma request_outcome:
  assumes w: "sound_world w" and am: "allocators_ok ca cl am" and i: "lb_id lb = i"
  obtains x w' where "requestIP am lb n w = Some (x, w')" and "sound_world w'"
    and "\<forall>e. x = Inl e \<longrightarrow> ledgers server w' = ledgers server w"
    and "\<forall>ad. x = Inr ad \<longrightarrow> (\<exists>a c. sam_Get n am = Some a \<and> config_of (ia_rangeset (al_IPAllocator a)) c \<and>
      ad = \<lparr>aa_IPPool = n, aa_IP = ip_String (net_IP (ipc_Address c)),
         aa_Mask = ip_String (net_Mask (ipc_Address c)), aa_Gateway = ip_String (ipc_Gateway c)\<rparr> \<and>
      ledgers server w n (ip_String (net_IP (ipc_Address c))) = None \<and>
      ledgers server w' = (ledgers server w)(n := (ledgers server w n)(ip_String (net_IP (ipc_Address c)) \<mapsto> i)))"
proof (cases "sam_Get n am")
  case None
  show thesis by (rule that [of "Inl (no_allocator n)" w]) (use None w in \<open>simp_all add: requestIP_def\<close>)
next
  case (Some a)
  then obtain sha ranges where al: "NewAllocator sha n ranges ca cl = Inr a"
    and ok: "rangeset_ok (ia_rangeset (al_IPAllocator a))" using am unfolding allocators_ok_def by blast
  have inv: "store_inv ca server good n w" using w by blast
  obtain y w' where g: "Allocator_Get a i w = Some (y, w')" "store_inv ca server good n w'"
    "\<forall>e. y = Inl e \<longrightarrow> store_alloc server n w' = store_alloc server n w"
    "\<forall>c. y = Inr c \<longrightarrow> config_of (ia_rangeset (al_IPAllocator a)) c \<and>
      store_alloc server n w (ip_String (net_IP (ipc_Address c))) = None \<and>
      store_alloc server n w' = (store_alloc server n w)(ip_String (net_IP (ipc_Address c)) \<mapsto> i)"
    using Allocator_Get_fresh [OF al ok inv] .
  have e: "elsewhere n w w'" using Allocator_Get_elsewhere [OF al inv g(1)] .
  have s: "sound_world w'" using only_pool_sound [OF w e g(2)] .
  have l: "ledgers server w' = (ledgers server w)(n := store_alloc server n w')" using only_pool_ledgers [OF e] .
  show thesis
  proof (cases y)
    case (Inl err)
    have "ledgers server w' = ledgers server w"
      unfolding l using g(3) Inl by (intro ext) (simp add: ledgers_def)
    then show thesis
      by (intro that [of "Inl (wrapf (''fail to get ip from pool '' @ n @ '', error: '') err)" w'])
        (use Some g(1) Inl s i in \<open>simp_all add: requestIP_def\<close>)
  next
    case (Inr c)
    let ?ad = "\<lparr>aa_IPPool = n, aa_IP = ip_String (net_IP (ipc_Address c)),
         aa_Mask = ip_String (net_Mask (ipc_Address c)), aa_Gateway = ip_String (ipc_Gateway c)\<rparr>"
    have "requestIP am lb n w = Some (Inr ?ad, w')" using Some g(1) Inr i by (simp add: requestIP_def)
    moreover have "ledgers server w n (ip_String (net_IP (ipc_Address c))) = None" using g(4) Inr by (simp add: ledgers_def)
    moreover have "ledgers server w' = (ledgers server w)(n := (ledgers server w n)(ip_String (net_IP (ipc_Address c)) \<mapsto> i))"
      unfolding l using g(4) Inr by (simp add: ledgers_def)
    ultimately show thesis using that s Some g(4) Inr by blast
  qed
qed

lemma tryRelease_outcome:
  assumes "sound_world w" and "allocators_ok ca cl am"
  shows "\<exists>n. sound_world (snd (tryReleaseDuplicatedIPToPool h am lb w)) \<and>
    gives_back n (lb_id lb) (ledgers server w) (ledgers server (snd (tryReleaseDuplicatedIPToPool h am lb w)))"
proof -
  let ?pool = "if lbs_IPPool (lb_Spec lb) = '''' then selectIPPool h lb w else Inr (lbs_IPPool (lb_Spec lb))"
  consider (none) "snd (tryReleaseDuplicatedIPToPool h am lb w) = w"
    | (rel) n a where "sam_Get n am = Some a"
        "tryReleaseDuplicatedIPToPool h am lb w = IPAllocator_Release (al_IPAllocator a) (lb_id lb) '''' w"
  proof (cases ?pool)
    case (Inl e)
    then show thesis by (intro none) (simp add: tryReleaseDuplicatedIPToPool_def)
  next
    case (Inr n)
    then show thesis
      using none rel by (cases "sam_Get n am") (simp_all add: tryReleaseDuplicatedIPToPool_def)
  qed
  then show ?thesis
  proof cases
    case none
    then show ?thesis using assms(1) by (auto intro: gives_back.nothing)
  next
    case (rel n a)
    then obtain sha ranges where al: "NewAllocator sha n ranges ca cl = Inr a" using assms(2) unfolding allocators_ok_def by blast
    show ?thesis unfolding rel(2)
      using Release_outcome [OF assms(1) al] by (metis prod.collapse)
  qed
qed

lemma failed_allocation_outcome:
  assumes w: "sound_world w'" and am: "allocators_ok ca cl am" and pool: "lbs_IPAM (lb_Spec lb) \<noteq> DHCP"
    and ask: "aa_IPPool (lb_address lb) = ''''"
    and fail: "allocateIPFromPool h am lb w = Some (Inl e, w')" and l: "ledgers server w' = ledgers server w"
  shows "\<exists>err lb' w'. ensureAllocatedAddressPool h am lb lb w = Some (err, lb', w') \<and> sound_world w' \<and>
    address_outcome am lb (ledgers server w) err lb' (ledgers server w')"
proof (cases "Contains (err_text e) DuplicateAllocationKeyWord")
  case True
  let ?w = "snd (tryReleaseDuplicatedIPToPool h am lb w')"
  obtain n where "sound_world ?w" "gives_back n (lb_id lb) (ledgers server w) (ledgers server ?w)"
    using tryRelease_outcome [OF w am] l by metis
  then show ?thesis
    using ask fail True address_outcome.returned [OF pool ask] by (simp add: ensureAllocatedAddressPool_def) blast
next
  case False
  then show ?thesis
    using ask fail w address_outcome.failed [OF pool] by (simp add: ensureAllocatedAddressPool_def l)
qed

lemma pool_address_outcome:
  assumes w: "sound_world w" and am: "allocators_ok ca cl am" and pool: "lbs_IPAM (lb_Spec lb) \<noteq> DHCP"
  shows "\<exists>err lb' w'. ensureAllocatedAddressPool h am lb lb w = Some (err, lb', w') \<and> sound_world w' \<and>
    address_outcome am lb (ledgers server w) err lb' (ledgers server w')"
proof -
  consider (moved) "lbs_IPPool (lb_Spec lb) \<notin> {'''', aa_IPPool (lb_address lb)}" "aa_IPPool (lb_address lb) \<noteq> ''''"
    | (kept) "lbs_IPPool (lb_Spec lb) \<in> {'''', aa_IPPool (lb_address lb)}" "aa_IPPool (lb_address lb) \<noteq> ''''"
    | (ask) "aa_IPPool (lb_address lb) = ''''" by blast
  then show ?thesis
  proof cases
    case moved
    obtain x w' where rel: "releaseIP am lb w = (x, w')" by fastforce
    have out: "sound_world w' \<and> gives_back (aa_IPPool (lb_address lb)) (lb_id lb) (ledgers server w) (ledgers server w') \<and>
      (x \<noteq> Inr () \<longrightarrow> ledgers server w' = ledgers server w)"
    proof (cases "sam_Get (aa_IPPool (lb_address lb)) am")
      case None
      then show ?thesis using rel w by (auto simp: releaseIP_def intro: gives_back.nothing)
    next
      case (Some a)
      then obtain sha ranges where "NewAllocator sha (aa_IPPool (lb_address lb)) ranges ca cl = Inr a"
        using am unfolding allocators_ok_def by blast
      from Release_outcome [OF w this, of "lb_id lb" "''''"] show ?thesis using rel Some by (simp add: releaseIP_def)
    qed
    show ?thesis
    proof (cases x)
      case (Inl e)
      then show ?thesis
        using moved rel out address_outcome.failed [OF pool] by (auto simp: ensureAllocatedAddressPool_def)
    next
      case (Inr u)
      then show ?thesis
        using moved rel out pool by (auto simp: ensureAllocatedAddressPool_def intro: address_outcome.moved)
    qed
  next
    case kept
    then have "ensureAllocatedAddressPool h am lb lb w = Some (None, lb, w)"
      by (auto simp: ensureAllocatedAddressPool_def)
    then show ?thesis using w address_outcome.kept [OF pool kept(2,1)] by auto
  next
    case ask
    show ?thesis
    proof (cases "if lbs_IPPool (lb_Spec lb) = '''' then selectIPPool h lb w else Inr (lbs_IPPool (lb_Spec lb))")
      case (Inl e)
      then have "allocateIPFromPool h am lb w = Some (Inl e, w)"
        by (auto simp: allocateIPFromPool_def split: if_splits)
      then show ?thesis using failed_allocation_outcome [OF w am pool ask] by blast
    next
      case (Inr n)
      then have req: "allocateIPFromPool h am lb w = requestIP am lb n w" and n: "lbs_IPPool (lb_Spec lb) \<in> {'''', n}"
        by (auto simp: allocateIPFromPool_def split: if_splits)
      obtain x w' where g: "requestIP am lb n w = Some (x, w')" "sound_world w'"
        "\<forall>e. x = Inl e \<longrightarrow> ledgers server w' = ledgers server w"
        "\<forall>ad. x = Inr ad \<longrightarrow> (\<exists>a c. sam_Get n am = Some a \<and> config_of (ia_rangeset (al_IPAllocator a)) c \<and>
          ad = \<lparr>aa_IPPool = n, aa_IP = ip_String (net_IP (ipc_Address c)),
             aa_Mask = ip_String (net_Mask (ipc_Address c)), aa_Gateway = ip_String (ipc_Gateway c)\<rparr> \<and>
          ledgers server w n (ip_String (net_IP (ipc_Address c))) = None \<and>
          ledgers server w' = (ledgers server w)(n := (ledgers server w n)(ip_String (net_IP (ipc_Address c)) \<mapsto> lb_id lb)))"
        using request_outcome [OF w am refl] .
      show ?thesis
      proof (cases x)
        case (Inl e)
        then show ?thesis using failed_allocation_outcome [OF g(2) am pool ask] req g(1,3) by metis
      next
        case (Inr ad)
        with ask req g(1) have "ensureAllocatedAddressPool h am lb lb w = Some (None, set_address lb ad, w')"
          by (simp add: ensureAllocatedAddressPool_def)
        moreover have "address_outcome am lb (ledgers server w) None (set_address lb ad) (ledgers server w')"
          using g(4) Inr address_outcome.given [OF pool ask n] by metis
        ultimately show ?thesis using g(2) by blast
      qed
    qed
  qed
qed

lemma address_sound:
  assumes "sound_world w" and "allocators_ok ca cl am"
  shows "\<exists>err lb' w'. ensureAllocatedAddress h am lb lb w = Some (err, lb', w') \<and> sound_world w' \<and>
    address_outcome am lb (ledgers server w) err lb' (ledgers server w')"
proof (cases "lbs_IPAM (lb_Spec lb) = DHCP")
  case False
  then show ?thesis using pool_address_outcome [OF assms] by (simp add: ensureAllocatedAddress_def)
next
  case True
  let ?lb = "ensureAllocatedAddressDHCP lb lb"
  have "lb = set_address lb (lb_address lb)" by simp
  then have "address_outcome am lb (ledgers server w) None ?lb (ledgers server w)"
    using address_outcome.dhcp [OF True, of "lb_address lb"]
      address_outcome.dhcp [OF True, of "empty_address\<lparr>aa_IP := Address4AskDHCP\<rparr>"]
    by (auto simp: ensureAllocatedAddressDHCP_def)
  then show ?thesis using assms(1) True by (simp add: ensureAllocatedAddress_def)
qed

end

end
