(* ===== verification/LBControllerProps.thy ===== *)
theory LBControllerProps
  imports LBControllerLemmas
begin

text \<open>
  Properties of the load balancer controller: the address part of a reconciliation, the recovery
  from a lost status update, removal, the errors that are retried and the status that settles.
\<close>

section \<open>Recovery from a lost status update\<close>

text \<open>
  A reconciliation records an address in the pool before it
  writes the status of the load balancer; when that write is lost, the pool knows of an allocation
  that the load balancer does not. The next reconciliation runs into the duplicate check of the
  plugin, gives the address back, and the one after it gets the same address from the history.
\<close>

subsection \<open>Writes with an up-to-date cache\<close>

definition current :: "string \<Rightarrow> IPPool \<Rightarrow> PoolServer \<Rightarrow> bool" where
  "current n p w \<longleftrightarrow> m_get (srv_cache w) n = Some p \<and> m_get (srv_pools w) n = Some p \<and> pool_Name p = n"

lemma current_get: "current n p w \<Longrightarrow> pc_Get server_cache n w = Inr p"
  by (simp add: current_def server_cache_def srv_Get_def)

lemma current_pool: "current n p w \<Longrightarrow> server_pool w n = Some p"
  by (simp add: current_def server_pool_def)

lemma current_update:
  assumes "current n p w"
  obtains q w' where "pcl_Update server_client (p\<lparr>pool_Status := st\<rparr>) w = (Inr q, w')"
    and "pool_Status q = st" and "server_pool w' n = Some q" and "current n q (srv_sync n w')"
proof -
  let ?q = "stamp (srv_next w) (p\<lparr>pool_Status := st\<rparr>)"
  let ?w = "w\<lparr>srv_pools := m_set n ?q (srv_pools w), srv_next := Suc (srv_next w)\<rparr>"
  have "pcl_Update server_client (p\<lparr>pool_Status := st\<rparr>) w = (Inr ?q, ?w)"
    using assms by (simp add: current_def server_client_def srv_Update_def Let_def)
  moreover have "current n ?q (srv_sync n ?w)"
    using assms by (simp add: current_def srv_sync_def m_get_set)
  ultimately show thesis by (intro that [of ?q ?w]) (simp_all add: server_pool_def m_get_set)
qed

lemma release_current:
  assumes "current n p w" and "pool_inv p" and "\<And>j. allocation p j = Some i \<longleftrightarrow> j = k"
  obtains q w' where "Store_ReleaseByID (store_New n server_cache server_client) i f w = (Inr (), w')"
    and "pool_Status q = status_release k i (pool_Status p)" and "current n q (srv_sync n w')"
proof -
  obtain m where m: "pool_Allocated p = Some m" using assms(3) [of k] by (cases "pool_Allocated p") auto
  have wf: "m_wf m" using assms(2) m by (simp add: status_inv_def)
  have "(k, i) \<in> set m" using assms(3) [of k] m by (simp add: map_of_SomeD)
  then obtain j v where jv: "find_applicant i m = Some (j, v)"
    by (cases "find_applicant i m") (force simp: find_applicant_None)+
  have "m_get m j = Some i" "v = i" using find_applicant_get [OF wf jv] by simp_all
  then have f: "find_applicant i m = Some (k, i)" using jv assms(3) [of j] m by simp
  obtain q w' where "pcl_Update server_client (p\<lparr>pool_Status := status_release k i (pool_Status p)\<rparr>) w = (Inr q, w')"
    "pool_Status q = status_release k i (pool_Status p)" "current n q (srv_sync n w')"
    using current_update [OF assms(1)] .
  then show thesis
    by (intro that [of w' q]) (simp_all add: Store_ReleaseByID_def update_released_def current_get [OF assms(1)] m f)
qed

lemma reserve_current:
  assumes "current n p w" and "allocation p (ip_String b) = None"
  obtains q w' where "Store_Reserve (store_New n server_cache server_client) i f b r w = (Inr True, w')"
    and "pool_Status q = status_reserve (ip_String b) i (pool_Status p)" and "server_pool w' n = Some q"
proof -
  obtain q w' where "pcl_Update server_client (p\<lparr>pool_Status := status_reserve (ip_String b) i (pool_Status p)\<rparr>) w = (Inr q, w')"
    "pool_Status q = status_reserve (ip_String b) i (pool_Status p)" "server_pool w' n = Some q"
    using current_update [OF assms(1)] by metis
  then show thesis
    by (intro that [of w' q]) (simp_all add: Store_Reserve_def current_get [OF assms(1)] assms(2) Let_def)
qed

subsection \<open>The two reconciliations\<close>

lemma duplicate_keyword: "Contains (err_text (wrapf pre (duplicate_error a i))) DuplicateAllocationKeyWord"
proof -
  have "err_text (wrapf pre (duplicate_error a i)) =
      (pre @ ip_String a @ '' has been allocated to '' @ i @ '', '') @ DuplicateAllocationKeyWord @ []"
    by (simp add: duplicate_error_def errorf_def DuplicateAllocationKeyWord_def)
  then show ?thesis unfolding Contains_iff by blast
qed

lemma Get_duplicate:
  assumes al: "NewAllocator sha n ranges server_cache server_client = Inr a"
    and cur: "current n p w" and inv: "pool_inv p" and hist: "i \<notin> snd ` set (entries (pool_History p))"
    and k: "\<And>j. allocation p j = Some i \<longleftrightarrow> j = k" and sv: "rangeset_Contains (ia_rangeset (al_IPAllocator a)) (ParseIP k)"
  shows "Allocator_Get a i w = Some (Inl (duplicate_error (ParseIP k) i), w)"
proof -
  have a: "ia_store (al_IPAllocator a) = store_backend (store_New n server_cache server_client)"
    "al_cache a = server_cache" "al_name a = n" using NewAllocator_Inr [OF al] by metis+
  let ?ids = "bs_GetByID (ia_store (al_IPAllocator a)) i '''' w"
  have "set ?ids = {ParseIP k}"
    using k inv by (simp add: a(1) store_backend_def Store_GetByID_def current_get [OF cur] ips_of_entries set_ips_of status_inv_def)
  moreover have "find P xs = Some x" if "set xs = {x}" "P x" for P xs and x :: ip
    using that by (cases xs) auto
  ultimately have "find (rangeset_Contains (ia_rangeset (al_IPAllocator a))) ?ids = Some (ParseIP k)" using sv by blast
  moreover have "find_applicant i (entries (pool_History p)) = None" using hist by (simp add: find_applicant_None)
  ultimately show ?thesis
    by (simp add: Allocator_Get_def a(2,3) current_get [OF cur] IPAllocator_Get_def Get_any_def)
qed

lemma Get_back:
  assumes al: "NewAllocator sha n ranges server_cache server_client = Inr a"
    and ok: "rangeset_ok (ia_rangeset (al_IPAllocator a))"
    and cur: "current n p w" and hist: "find_applicant i (entries (pool_History p)) = Some (k, i)"
    and free: "allocation p k = None" and can: "canonical k"
    and sv: "served (ia_rangeset (al_IPAllocator a)) (ParseIP k)"
  obtains c w' q where "Allocator_Get a i w = Some (Inr c, w')"
    and "config_of (ia_rangeset (al_IPAllocator a)) c" and "ip_String (net_IP (ipc_Address c)) = k"
    and "server_pool w' n = Some q" and "pool_Status q = status_reserve k i (pool_Status p)"
proof -
  let ?rs = "ia_rangeset (al_IPAllocator a)"
  have a: "ia_store (al_IPAllocator a) = store_backend (store_New n server_cache server_client)"
    "al_cache a = server_cache" "al_name a = n" using NewAllocator_Inr [OF al] by metis+
  let ?v = "normalizeIP (ParseIP k)"
  obtain x where x: "at_pos ?rs x (ParseIP k)" "\<not> gw_pos ?rs x" using served_pos [OF ok sv] by blast
  then have ip: "ParseIP k \<noteq> []" using at_pos_neq_Nil by metis
  have len: "length (ParseIP k) = 16" using ip ParseIP_length [of k] by auto
  have nn: "normalizeIP ?v = ?v" using len by simp
  have same: "range_Contains r ?v = range_Contains r (ParseIP k)" for r
    by (rule range_Contains_normalizeIP) (simp add: nn)
  have v: "at_pos ?rs x ?v" using x(1) same nn by (simp add: at_pos_def ipToInt_normalizeIP)
  have ne: "?v \<noteq> []" using v at_pos_neq_Nil by metis
  let ?r = "?rs ! fst x"
  have r: "fst x < length ?rs" "range_Contains ?r ?v" using v by (simp_all add: at_pos_def)
  have gw: "\<not> ip_Equal ?v (Gateway ?r)" using gw_pos_iff [OF ok v] x(2) by simp
  have "find (\<lambda>r. range_Contains r ?v) ?rs = Some ?r"
  proof (cases "find (\<lambda>r. range_Contains r ?v) ?rs")
    case None
    then show ?thesis using r by (auto simp: find_None_iff)
  next
    case (Some r')
    then obtain j where "j < length ?rs" "range_Contains (?rs ! j) ?v" "r' = ?rs ! j" by (auto simp: find_Some_iff)
    then show ?thesis using Some rangeset_ok_disjoint [OF ok _ r(1) _ r(2)] by metis
  qed
  then have rf: "RangeFor ?rs ?v = Inr ?r" using ne nn by (simp add: RangeFor_def canonicalizeIP_normalizeIP)
  have t: "ip_String ?v = k" using canonical_normalizeIP [OF can ip] .
  obtain q w' where res: "Store_Reserve (store_New n server_cache server_client) i '''' ?v (ia_rangeID (al_IPAllocator a)) w = (Inr True, w')"
    and q: "pool_Status q = status_reserve k i (pool_Status p)" "server_pool w' n = Some q"
    using reserve_current [OF cur, of ?v] free t by metis
  let ?c = "\<lparr>ipc_Address = \<lparr>net_IP = ?v, net_Mask = net_Mask (Subnet ?r)\<rparr>, ipc_Gateway = Gateway ?r\<rparr>"
  have "Allocator_Get a i w = Some (Inr ?c, w')"
    using ip ne rf gw res
    by (simp add: Allocator_Get_def a current_get [OF cur] hist IPAllocator_Get_def Get_requested_def
        canonicalizeIP_normalizeIP store_backend_def)
  moreover have "config_of ?rs ?c" using r gw by (auto simp: config_of_def list_ex_iff)
  ultimately show thesis using that t q by simp
qed

lemma find_applicant_set: "i \<notin> snd ` set m \<Longrightarrow> find_applicant i (m_set k i m) = Some (k, i)"
  by (induction m) (auto simp: find_applicant_def)

text \<open>
  \<^bold>\<open>C7.\<close> A lost status update heals. Suppose the pool records an address for a load balancer whose
  status does not have it, the cache is up to date, and this is the only address the pool knows for
  it. Then a reconciliation fails with the duplicate error and gives the address back, and once the
  cache has followed, the next reconciliation succeeds: the load balancer has the recorded address
  in its status and the allocations of the pool are what they were.
\<close>

theorem lost_update_recovers:
  assumes "NewAllocator sha n ranges server_cache server_client = Inr a"
    and "rangeset_ok (ia_rangeset (al_IPAllocator a))" and "sam_Get n am = Some a"
    and "lbs_IPAM (lb_Spec lb) \<noteq> DHCP" and "lbs_IPPool (lb_Spec lb) = n" and "n \<noteq> ''''"
    and "aa_IPPool (lb_address lb) = ''''"
    and "current n p w" and "pool_inv p" and "lb_id lb \<notin> snd ` set (entries (pool_History p))"
    and "\<And>j. allocation p j = Some (lb_id lb) \<longleftrightarrow> j = k"
    and "served (ia_rangeset (al_IPAllocator a)) (ParseIP k)"
  shows "\<exists>e w1 ad w2. ensureAllocatedAddress h am lb lb w = Some (Some e, lb, w1) \<and>
    ensureAllocatedAddress h am lb lb (srv_sync n w1) = Some (None, set_address lb ad, w2) \<and>
    aa_IPPool ad = n \<and> aa_IP ad = k \<and> recorded n w2 = recorded n w"
proof -
  let ?rs = "ia_rangeset (al_IPAllocator a)" and ?i = "lb_id lb"
  have st: "ia_store (al_IPAllocator a) = store_backend (store_New n server_cache server_client)"
    using NewAllocator_Inr [OF assms(1)] by metis
  have ensure: "ensureAllocatedAddress h am lb lb u = map_option (\<lambda>(r, w').
      (case r of Inr ip \<Rightarrow> (None, set_address lb ip, w')
       | Inl e \<Rightarrow> if Contains (err_text e) DuplicateAllocationKeyWord
               then (Some e, lb, snd (tryReleaseDuplicatedIPToPool h am lb w')) else (Some e, lb, w'))) (requestIP am lb n u)"
    for u using assms(4-7) by (simp add: ensureAllocatedAddress_def ensureAllocatedAddressPool_def allocateIPFromPool_def)
  have kk: "allocation p k = Some ?i" using assms(11) by blast
  have "k \<in> fst ` set (entries (pool_Allocated p))" using kk by (force dest: map_of_SomeD)
  then have can: "canonical k" using assms(9) by (auto simp: status_inv_def)
  obtain r where "r \<in> set ?rs" "range_Contains r (ParseIP k)" using assms(12) by (auto simp: served_def list_ex_iff)
  then have con: "rangeset_Contains ?rs (ParseIP k)" by (auto simp: rangeset_Contains_iff)
  have dup: "Allocator_Get a ?i w = Some (Inl (duplicate_error (ParseIP k) ?i), w)"
    using Get_duplicate [OF assms(1,8,9,10,11) con] .
  obtain q w1 where rel: "Store_ReleaseByID (store_New n server_cache server_client) ?i '''' w = (Inr (), w1)"
    and q: "pool_Status q = status_release k ?i (pool_Status p)" and cur: "current n q (srv_sync n w1)"
    using release_current [OF assms(8,9,11)] .
  have "snd (tryReleaseDuplicatedIPToPool h am lb w) = w1"
    using assms(3,5,6) rel by (simp add: tryReleaseDuplicatedIPToPool_def IPAllocator_Release_def st store_backend_def)
  then have first: "\<exists>e. ensureAllocatedAddress h am lb lb w = Some (Some e, lb, w1)"
    using duplicate_keyword dup assms(3) by (simp add: ensure requestIP_def)
  have hist: "find_applicant ?i (entries (pool_History q)) = Some (k, ?i)"
    using find_applicant_set [OF assms(10)] by (simp add: q)
  have free: "allocation q k = None" by (simp add: q m_get_del)
  obtain c w2 q2 where c: "Allocator_Get a ?i (srv_sync n w1) = Some (Inr c, w2)" "ip_String (net_IP (ipc_Address c)) = k"
    "server_pool w2 n = Some q2" "pool_Status q2 = status_reserve k ?i (pool_Status q)"
    using Get_back [OF assms(1,2) cur hist free can assms(12)] .
  have "recorded n w2 = recorded n w"
    using kk by (auto simp: store_alloc_def c(3,4) current_pool [OF assms(8)] q m_get_set m_get_del fun_eq_iff)
  moreover have "\<exists>ad. ensureAllocatedAddress h am lb lb (srv_sync n w1) = Some (None, set_address lb ad, w2) \<and>
      aa_IPPool ad = n \<and> aa_IP ad = k"
    by (rule exI [of _ "\<lparr>aa_IPPool = n, aa_IP = k, aa_Mask = ip_String (net_Mask (ipc_Address c)),
        aa_Gateway = ip_String (ipc_Gateway c)\<rparr>"]) (use c(1,2) assms(3) in \<open>simp add: ensure requestIP_def\<close>)
  ultimately show ?thesis using first by blast
qed

subsection \<open>An example\<close>

definition plain_ops :: "'w LBOps" where
  "plain_ops = \<lparr>lbo_Get = (\<lambda>ns n w. Inl (not_found n)), lbo_List = (\<lambda>ns sel w. Inr []), lbo_Update = (\<lambda>lb w. (Inr lb, w)),
     lbo_Delete = (\<lambda>ns n w. (None, w)), lbo_Enqueue = (\<lambda>ns n w. w), lbo_EnqueueAfter = (\<lambda>ns n t w. w)\<rparr>"

definition plain_manager :: "'w LBManager" where
  "plain_manager = \<lparr>lm_EnsureLoadBalancer = (\<lambda>lb w. (Inr (), w)), lm_DeleteLoadBalancer = (\<lambda>lb w. (Inr (), w)),
     lm_EnsureLoadBalancerServiceIP = (\<lambda>lb w. Inr ''10.0.0.2''), lm_EnsureBackendServers = (\<lambda>lb w. (Inr None, w)),
     lm_GetProbeReadyBackendServerCount = (\<lambda>lb w. Inr 0)\<rparr>"

definition plain_handler :: "PoolServer LBHandler" where
  "plain_handler = \<lparr>lh_lbs = plain_ops, lh_ipPoolCache = server_cache, lh_lbManager = plain_manager, lh_now = ''t0''\<rparr>"

definition cluster_lb :: LoadBalancer where
  "cluster_lb = \<lparr>lb_APIVersion = SchemeGroupVersion, lb_Kind = ''LoadBalancer'',
     lb_Meta = empty_meta\<lparr>md_Name := ''lb1'', md_Namespace := ''default''\<rparr>,
     lb_Spec = \<lparr>lbs_Description = '''', lbs_WorkloadType = Cluster, lbs_IPAM = PoolIPAM, lbs_IPPool = ''demo'',
       lbs_Listeners = [], lbs_BackendServerSelector = [], lbs_HealthCheck = None\<rparr>,
     lb_Status = \<lparr>lbst_BackendServers = None, lbst_AllocatedAddress = empty_address, lbst_Address = '''',
       lbst_Conditions = []\<rparr>\<rparr>"

lemma cluster_lb_simps:
  "lb_id cluster_lb = ''default/lb1''" "lbs_IPAM (lb_Spec cluster_lb) = PoolIPAM" "lbs_IPPool (lb_Spec cluster_lb) = ''demo''"
  "aa_IPPool (lb_address cluster_lb) = ''''"
  by (simp_all add: cluster_lb_def lb_id_def empty_meta_def empty_address_def)

definition used_world :: PoolServer where
  "used_world = demo_world\<lparr>srv_pools := [(''demo'', demo_used)], srv_cache := [(''demo'', demo_used)]\<rparr>"

definition demo_allocators :: "PoolServer SafeAllocatorMap" where
  "demo_allocators = [(''demo'', demo_allocator)]"

lemma demo_allocators_get: "sam_Get n demo_allocators = (if n = ''demo'' then Some demo_allocator else None)"
  by (simp add: sam_Get_def demo_allocators_def)

lemma demo_allocators_ok: "allocators_ok server_cache server_client demo_allocators"
  using demo_NewAllocator
  by (auto simp: allocators_ok_def demo_allocators_get demo_rangeset demo_rangeset_ok split: if_splits)

lemma demo_used_facts:
  "allocation demo_used j = Some ''default/lb1'' \<longleftrightarrow> j = ''10.0.0.2''" "pool_inv demo_used" "current ''demo'' demo_used used_world"
  "snd ` set (entries (pool_History demo_used)) = {}" "served [demo_arange] (ParseIP ''10.0.0.2'')"
proof -
  have "canonical ''10.0.0.2''" by code_simp
  then show "pool_inv demo_used"
    by (simp add: status_inv_def demo_used_def demo_pool_def mk_pool_def)
  show "served [demo_arange] (ParseIP ''10.0.0.2'')" by code_simp
  show "current ''demo'' demo_used used_world"
    by (simp add: current_def used_world_def demo_used_def demo_pool_def mk_pool_def)
qed (simp_all add: demo_used_def demo_pool_def mk_pool_def)

theorem lost_update_recovers_witness:
  "\<exists>e w1 ad w2. ensureAllocatedAddress plain_handler demo_allocators cluster_lb cluster_lb used_world = Some (Some e, cluster_lb, w1) \<and>
    ensureAllocatedAddress plain_handler demo_allocators cluster_lb cluster_lb (srv_sync ''demo'' w1) =
      Some (None, set_address cluster_lb ad, w2) \<and>
    aa_IPPool ad = ''demo'' \<and> aa_IP ad = ''10.0.0.2'' \<and> recorded ''demo'' w2 = recorded ''demo'' used_world"
  by (rule lost_update_recovers [where p = demo_used, OF demo_NewAllocator])
    (simp_all add: demo_rangeset demo_rangeset_ok demo_allocators_get cluster_lb_simps demo_used_facts PoolIPAM_def DHCP_def)

lemma released_sound: "\<forall>n. store_inv server_cache server_pool server_good n released_world"
proof
  fix n
  show "store_inv server_cache server_pool server_good n released_world"
    using released_inv
    by (cases "n = ''demo''") (auto simp: store_inv_def server_pool_def server_cache_def srv_Get_def released_world_def)
qed

section \<open>The address of a load balancer\<close>

text \<open>
  \<^bold>\<open>C5.\<close> The address part of a reconciliation always returns and has one of six outcomes: a
  DHCP load balancer gets the placeholder address and no pool is touched; a load balancer whose address
  comes from the pool its spec names, or whose spec names none, keeps it; one whose spec names another pool gives its
  address back and its status is emptied; one without a pool address gets a free address of the
  pool named in the spec or selected for it, not a gateway, with the mask and the gateway of the
  range, and the record of the pool now names it; or an error leaves its status alone, and either
  leaves the pools alone or, when the load balancer had no address in its status, gives back one that was recorded for it. In every
  outcome the only records that change are its own.
\<close>

theorem reconcile_address_sound:
  assumes "pool_api ca cl server good" and "allocators_ok ca cl am"
    and "\<forall>n. store_inv ca server good n w"
  shows "\<exists>err lb' w'. ensureAllocatedAddress h am lb lb w = Some (err, lb', w') \<and>
    (\<forall>n. store_inv ca server good n w') \<and>
    address_outcome am lb (ledgers server w) err lb' (ledgers server w')"
  by (rule pool_api.address_sound [OF assms(1,3,2)])

theorem reconcile_address_sound_witness:
  "\<exists>err lb' w'. ensureAllocatedAddress plain_handler demo_allocators cluster_lb cluster_lb released_world = Some (err, lb', w') \<and>
    (\<forall>n. store_inv server_cache server_pool server_good n w') \<and>
    address_outcome demo_allocators cluster_lb (ledgers server_pool released_world) err lb' (ledgers server_pool w')"
  by (rule reconcile_address_sound [OF ps.pool_api_axioms demo_allocators_ok released_sound])

section \<open>Status\<close>

lemma set_ready_simps [simp]:
  "lb_Spec (set_ready now b msg lb) = lb_Spec lb" "lb_Meta (set_ready now b msg lb) = lb_Meta lb"
  "lb_APIVersion (set_ready now b msg lb) = lb_APIVersion lb" "lb_address (set_ready now b msg lb) = lb_address lb"
  "cond_getMessage LoadBalancerReady (lbst_Conditions (lb_Status (set_ready now b msg lb))) = msg"
  by (simp_all add: set_ready_def)

lemma set_ready_status [simp]:
  "cond_getStatus LoadBalancerReady (lbst_Conditions (lb_Status (set_ready now b msg lb))) = (if b then ''True'' else ''False'')"
  by (simp add: set_ready_def cond_setStatus_def)

lemma set_ready_idem:
  assumes "cond_getStatus LoadBalancerReady (lbst_Conditions (lb_Status lb)) = (if b then ''True'' else ''False'')"
    and "cond_getMessage LoadBalancerReady (lbst_Conditions (lb_Status lb)) = msg"
  shows "set_ready now b msg lb = lb"
proof -
  have "find_cond LoadBalancerReady (lbst_Conditions (lb_Status lb)) \<noteq> None"
    using assms(1) by (auto simp: cond_getStatus_def split: if_splits option.splits)
  then show ?thesis using cond_set_idem [OF assms] by (simp add: set_ready_def)
qed

lemma updateStatus_settled:
  assumes "cond_getStatus LoadBalancerReady (lbst_Conditions (lb_Status lb)) = ''True''"
    and "cond_getMessage LoadBalancerReady (lbst_Conditions (lb_Status lb)) = ''''"
  shows "lb_updateStatus h lb lb None w = ((Some lb, None), w)"
  using set_ready_idem [of lb True "''''"] assms by (simp add: lb_updateStatus_def)

text \<open>What the controller relies on of an accepted update: the object returned is the one sent, with a new resource version.\<close>

definition update_echoes :: "'w LBOps \<Rightarrow> bool" where
  "update_echoes ops \<longleftrightarrow> (\<forall>x u y v. lbo_Update ops x u = (Inr y, v) \<longrightarrow>
     (\<exists>rv. y = x\<lparr>lb_Meta := (lb_Meta x)\<lparr>md_ResourceVersion := rv\<rparr>\<rparr>))"

lemma update_echoesD:
  "update_echoes ops \<Longrightarrow> lbo_Update ops x u = (Inr y, v) \<Longrightarrow>
    lb_Spec y = lb_Spec x \<and> lb_Status y = lb_Status x \<and> lb_APIVersion y = lb_APIVersion x \<and>
    md_DeletionTimestamp (lb_Meta y) = md_DeletionTimestamp (lb_Meta x)"
  unfolding update_echoes_def by fastforce

lemma NotReturnError_not_ready:
  assumes "updateStatusNotReturnError h lbCopy lb e w = ((Some lb1, None), w1)" and "update_echoes (lh_lbs h)"
  shows "cond_getStatus LoadBalancerReady (lbst_Conditions (lb_Status lb1)) = ''False''"
proof -
  let ?lb = "set_ready (lh_now h) False (err_text e) lbCopy"
  have "lb_Status lb1 = lb_Status ?lb"
    using assms(1)
    by (auto simp: updateStatusNotReturnError_def Let_def split: if_splits prod.splits sum.splits
        dest: update_echoesD [OF assms(2)])
  then show ?thesis by simp
qed

lemma updateStatus_ready:
  assumes "lb_updateStatus h lbCopy lb None w = ((Some lb1, None), w1)"
    and "update_echoes (lh_lbs h)"
  shows "lb_Spec lb1 = lb_Spec lbCopy \<and> lb_Status lb1 = lb_Status (set_ready (lh_now h) True '''' lbCopy) \<and>
    md_DeletionTimestamp (lb_Meta lb1) = md_DeletionTimestamp (lb_Meta lbCopy) \<and> lb_APIVersion lb1 = lb_APIVersion lbCopy"
proof (cases "lb_Status (set_ready (lh_now h) True '''' lbCopy) = lb_Status lb")
  case True
  then show ?thesis using assms(1) by (auto simp: lb_updateStatus_def)
next
  case False
  then have "lbo_Update (lh_lbs h) (set_ready (lh_now h) True '''' lbCopy) w = (Inr lb1, w1)"
    using assms(1) by (auto simp: lb_updateStatus_def split: prod.splits sum.splits)
  from update_echoesD [OF assms(2) this] show ?thesis by simp
qed

text \<open>What a successful address step leaves in the copy.\<close>

lemma address_step_ok:
  assumes "ensureAllocatedAddress h am lb lb w = Some (None, lb', w')"
  shows "lb' = set_address lb (lb_address lb') \<and>
    (if lbs_IPAM (lb_Spec lb) = DHCP then aa_IP (lb_address lb') = Address4AskDHCP
     else aa_IPPool (lb_address lb') = '''' \<or> lbs_IPPool (lb_Spec lb) \<in> {'''', aa_IPPool (lb_address lb')})"
proof (cases "lbs_IPAM (lb_Spec lb) = DHCP")
  case True
  then show ?thesis
    using assms by (auto simp: ensureAllocatedAddress_def ensureAllocatedAddressDHCP_def)
next
  case False
  have req: "aa_IPPool ad = n" if rq: "requestIP am lb n w = Some (Inr ad, v)" for ad n v
  proof (cases "sam_Get n am")
    case None
    then show ?thesis using rq by (simp add: requestIP_def)
  next
    case (Some a)
    then obtain y where "Allocator_Get a (lb_id lb) w = Some (y, v)" using rq by (auto simp: requestIP_def)
    then show ?thesis using rq Some by (cases y) (auto simp: requestIP_def)
  qed
  have "lbs_IPPool (lb_Spec lb) \<in> {'''', aa_IPPool ad}" if "allocateIPFromPool h am lb w = Some (Inr ad, v)" for ad v
    using that req by (fastforce simp: allocateIPFromPool_def split: if_splits sum.splits)
  note alloc = this
  consider (moved) "lb' = set_address lb empty_address"
    | (given) ad where "allocateIPFromPool h am lb w = Some (Inr ad, w')" "lb' = set_address lb ad"
    | (kept) "lb' = lb" "lbs_IPPool (lb_Spec lb) \<in> {'''', aa_IPPool (lb_address lb)}"
  proof (cases "aa_IPPool (lb_address lb) = ''''")
    case True
    then obtain x v where x: "allocateIPFromPool h am lb w = Some (x, v)"
      using assms False by (auto simp: ensureAllocatedAddress_def ensureAllocatedAddressPool_def)
    then show thesis
      using assms False True given
      by (cases x) (auto simp: ensureAllocatedAddress_def ensureAllocatedAddressPool_def split: if_splits)
  next
    case pool: False
    then show thesis
      using assms False moved kept
      by (auto simp: ensureAllocatedAddress_def ensureAllocatedAddressPool_def split: if_splits sum.splits prod.splits)
  qed
  then show ?thesis
    using False alloc by cases (auto simp: empty_address_def)
qed

lemma handleError_not_ready:
  assumes "handleError h lbCopy lb e w = ((Some lb1, None), w1)" and "update_echoes (lh_lbs h)"
  shows "cond_getStatus LoadBalancerReady (lbst_Conditions (lb_Status lb1)) = ''False''"
proof -
  have "snd (fst (lb_updateStatus h lbCopy lb (Some e) w)) \<noteq> None"
    by (auto simp: lb_updateStatus_def Let_def split: prod.splits sum.splits)
  then obtain u where "updateStatusNotReturnError h lbCopy lb e u = ((Some lb1, None), w1)"
    using assms(1) by (auto simp: handleError_def split: if_splits)
  from NotReturnError_not_ready [OF this assms(2)] show ?thesis .
qed

text \<open>
  \<^bold>\<open>C15.\<close> A cluster load balancer that has been reported ready with an address is settled: a later
  reconciliation of the object that was written returns it unchanged and writes nothing, at any later time, in any
  state of the pools and whatever allocators there are. In particular the time stamp of the
  condition does not start a loop of updates.
\<close>

theorem reconcile_settles:
  assumes "lb_OnChange h am (Some lb) w = Some ((Some lb1, None), w1)"
    and "lbs_WorkloadType (lb_Spec lb) = Cluster" and "update_echoes (lh_lbs h)"
    and "cond_getStatus LoadBalancerReady (lbst_Conditions (lb_Status lb1)) = ''True''"
    and "lbs_IPAM (lb_Spec lb) = DHCP \<or> aa_IPPool (lb_address lb1) \<noteq> ''''"
  shows "lb_OnChange h' am' (Some lb1) w2 = Some ((Some lb1, None), w2)"
proof -
  have alive: "md_DeletionTimestamp (lb_Meta lb) = None" "lb_APIVersion lb = SchemeGroupVersion"
    using assms(1) by (auto simp: lb_OnChange_def split: if_splits)
  have cl: "Cluster \<noteq> VM" "Cluster \<noteq> ''''" by (simp_all add: Cluster_def VM_def)
  obtain err lbCopy v where step: "ensureAllocatedAddress h am lb lb w = Some (err, lbCopy, v)"
    using assms(1) alive by (auto simp: lb_OnChange_def)
  have up: "err = None" "lb_updateStatus h lbCopy lb None v = ((Some lb1, None), w1)"
  proof -
    show "err = None"
    proof (rule ccontr)
      assume "err \<noteq> None"
      then obtain e where "handleError h lbCopy lb e v = ((Some lb1, None), w1)"
        using assms(1) alive step by (auto simp: lb_OnChange_def)
      then show False using handleError_not_ready assms(3,4) by fastforce
    qed
    then show "lb_updateStatus h lbCopy lb None v = ((Some lb1, None), w1)"
      using assms(1,2) alive step cl by (simp add: lb_OnChange_def)
  qed
  have copy: "lbCopy = set_address lb (lb_address lbCopy)"
    "if lbs_IPAM (lb_Spec lb) = DHCP then aa_IP (lb_address lbCopy) = Address4AskDHCP
     else aa_IPPool (lb_address lbCopy) = '''' \<or> lbs_IPPool (lb_Spec lb) \<in> {'''', aa_IPPool (lb_address lbCopy)}"
    using address_step_ok [OF step [unfolded up(1)]] by (rule conjunct1, rule conjunct2)
  note ready = updateStatus_ready [OF up(2) assms(3)]
  have spec: "lb_Spec lbCopy = lb_Spec lb" "lb_Meta lbCopy = lb_Meta lb" "lb_APIVersion lbCopy = lb_APIVersion lb"
    by (subst copy(1), simp)+
  have ad: "lb_address lb1 = lb_address lbCopy" using ready by simp
  have "ensureAllocatedAddress h' am' lb1 lb1 w2 = Some (None, lb1, w2)"
    using copy(2) assms(5) ready spec ad
    by (auto simp: ensureAllocatedAddress_def ensureAllocatedAddressDHCP_def ensureAllocatedAddressPool_def)
  moreover have "lb_updateStatus h' lb1 lb1 None w2 = ((Some lb1, None), w2)"
    by (rule updateStatus_settled [OF assms(4)]) (use ready in simp)
  ultimately show ?thesis
    using ready spec alive assms(2) cl by (simp add: lb_OnChange_def)
qed

definition dhcp_lb :: LoadBalancer where
  "dhcp_lb = cluster_lb\<lparr>lb_Spec := (lb_Spec cluster_lb)\<lparr>lbs_IPAM := DHCP\<rparr>\<rparr>"

definition dhcp_ready :: LoadBalancer where
  "dhcp_ready = set_ready ''t0'' True '''' (set_address dhcp_lb (empty_address\<lparr>aa_IP := Address4AskDHCP\<rparr>))"

theorem reconcile_settles_witness:
  "lb_OnChange (plain_handler\<lparr>lh_now := ''t1''\<rparr>) [] (Some dhcp_ready) demo_world = Some ((Some dhcp_ready, None), demo_world)"
proof (rule reconcile_settles [where h = plain_handler and am = demo_allocators and lb = dhcp_lb and w = used_world])
  have "lb_Status dhcp_ready \<noteq> lb_Status dhcp_lb" by code_simp
  then show "lb_OnChange plain_handler demo_allocators (Some dhcp_lb) used_world = Some ((Some dhcp_ready, None), used_world)"
    by (simp add: lb_OnChange_def ensureAllocatedAddress_def ensureAllocatedAddressDHCP_def lb_updateStatus_def
        dhcp_ready_def dhcp_lb_def cluster_lb_def plain_handler_def plain_ops_def empty_meta_def empty_address_def
        Cluster_def VM_def Address4AskDHCP_def)
  show "update_echoes (lh_lbs plain_handler)"
  proof -
    have "\<exists>rv. x = x\<lparr>lb_Meta := (lb_Meta x)\<lparr>md_ResourceVersion := rv\<rparr>\<rparr>" for x :: LoadBalancer
      by (rule exI [of _ "md_ResourceVersion (lb_Meta x)"]) simp
    then show ?thesis by (simp add: update_echoes_def plain_handler_def plain_ops_def)
  qed
qed (simp_all add: dhcp_lb_def dhcp_ready_def cluster_lb_def)

section \<open>Removal\<close>

text \<open>
  Removal of a cluster load balancer with an up-to-date cache and one recorded address:
  with IPAM \<^verbatim>\<open>pool\<close> the record is freed, the address goes to the history under the name of the
  load balancer and nothing else changes; with any other IPAM the pools are left as they are.
\<close>

theorem removal_releases:
  assumes "NewAllocator sha n ranges server_cache server_client = Inr a" and "sam_Get n am = Some a"
    and "lbs_WorkloadType (lb_Spec lb) = Cluster" and "aa_IPPool (lb_address lb) = n" and "n \<noteq> ''''"
    and "current n p w" and "pool_inv p" and "\<And>j. allocation p j = Some (lb_id lb) \<longleftrightarrow> j = k"
  shows "\<exists>w' q. lb_OnRemove h am (Some lb) w = ((Some lb, None), w') \<and> server_pool w' n = Some q \<and>
    (if lbs_IPAM (lb_Spec lb) = PoolIPAM
     then allocation q = (allocation p)(k := None) \<and> m_get (entries (pool_History q)) k = Some (lb_id lb)
     else w' = w)"
proof -
  have cl: "Cluster \<noteq> VM" "Cluster \<noteq> ''''" by (simp_all add: Cluster_def VM_def)
  have st: "ia_store (al_IPAllocator a) = store_backend (store_New n server_cache server_client)"
    using NewAllocator_Inr [OF assms(1)] by metis
  obtain q w' where rel: "Store_ReleaseByID (store_New n server_cache server_client) (lb_id lb) '''' w = (Inr (), w')"
    and q: "pool_Status q = status_release k (lb_id lb) (pool_Status p)" "current n q (srv_sync n w')"
    using release_current [OF assms(6-8)] .
  have srv: "server_pool w' n = Some q"
    using current_pool [OF q(2)] by simp
  have al: "allocation q = (allocation p)(k := None)" "m_get (entries (pool_History q)) k = Some (lb_id lb)"
    by (auto simp: q(1) m_get_del m_get_set fun_eq_iff)
  have "releaseIP am lb w = (Inr (), w')"
    using assms(2,4) rel by (simp add: releaseIP_def IPAllocator_Release_def st store_backend_def)
  then show ?thesis
    using assms(3-5) cl srv al current_pool [OF assms(6)] by (simp add: lb_OnRemove_def Let_def)
qed

definition placed_lb :: LoadBalancer where
  "placed_lb = set_address cluster_lb (empty_address\<lparr>aa_IPPool := ''demo'', aa_IP := ''10.0.0.2''\<rparr>)"

theorem removal_releases_witness:
  "\<exists>w' q. lb_OnRemove plain_handler demo_allocators (Some placed_lb) used_world = ((Some placed_lb, None), w') \<and>
    server_pool w' ''demo'' = Some q \<and> allocation q = (allocation demo_used)(''10.0.0.2'' := None)"
proof -
  have "lb_id placed_lb = ''default/lb1''" using cluster_lb_simps(1) by (simp add: placed_lb_def lb_id_def)
  moreover have "lbs_IPAM (lb_Spec placed_lb) = PoolIPAM" by (simp add: placed_lb_def cluster_lb_def)
  ultimately show ?thesis
    using removal_releases [where p = demo_used and lb = placed_lb and am = demo_allocators and k = "''10.0.0.2''"
        and h = plain_handler and w = used_world, OF demo_NewAllocator]
    by (auto simp: demo_allocators_get demo_used_facts placed_lb_def cluster_lb_def)
qed

text \<open>
  The empty IPAM, which the CRD allows and the controller treats as \<^verbatim>\<open>pool\<close> when it allocates,
  is not \<^verbatim>\<open>pool\<close> when the load balancer is removed: the address stays recorded.
\<close>

definition unset_lb :: LoadBalancer where
  "unset_lb = cluster_lb\<lparr>lb_Spec := (lb_Spec cluster_lb)\<lparr>lbs_IPAM := ''''\<rparr>\<rparr>"

theorem unset_ipam_leaks:
  "\<exists>lb' w'. ensureAllocatedAddress plain_handler demo_allocators unset_lb unset_lb released_world = Some (None, lb', w') \<and>
    aa_IPPool (lb_address lb') = ''demo'' \<and> aa_IP (lb_address lb') = ''10.0.0.3'' \<and>
    lb_OnRemove plain_handler demo_allocators (Some lb') w' = ((Some lb', None), w') \<and>
    recorded ''demo'' w' ''10.0.0.3'' = Some ''default/lb1''"
proof -
  have h: "in_history released_world" by code_simp
  have c: "fst (sticky_get released_world) = Inr sticky_config" by code_simp
  let ?w = "snd (sticky_get released_world)"
  have get: "Allocator_Get demo_allocator ''default/lb1'' released_world = Some (Inr sticky_config, ?w)"
    using sticky_step [OF h c] by (elim alloc_step_GotE)
  have ip: "ip_String (net_IP (ipc_Address sticky_config)) = ''10.0.0.3''" by code_simp
  have i: "lb_id unset_lb = ''default/lb1''" using cluster_lb_simps(1) by (simp add: unset_lb_def lb_id_def)
  let ?ad = "\<lparr>aa_IPPool = ''demo'', aa_IP = ''10.0.0.3'', aa_Mask = ip_String (net_Mask (ipc_Address sticky_config)),
      aa_Gateway = ip_String (ipc_Gateway sticky_config)\<rparr>"
  have u: "lbs_IPAM (lb_Spec unset_lb) = ''''" "lbs_IPPool (lb_Spec unset_lb) = ''demo''"
    "aa_IPPool (lb_address unset_lb) = ''''" "lbs_WorkloadType (lb_Spec unset_lb) = Cluster"
    by (simp_all add: unset_lb_def cluster_lb_def empty_address_def)
  have "ensureAllocatedAddress plain_handler demo_allocators unset_lb unset_lb released_world =
      Some (None, set_address unset_lb ?ad, ?w)"
    using get ip i u by (simp add: ensureAllocatedAddress_def ensureAllocatedAddressPool_def allocateIPFromPool_def
        requestIP_def demo_allocators_get DHCP_def)
  moreover have "lb_OnRemove plain_handler demo_allocators (Some (set_address unset_lb ?ad)) ?w =
      ((Some (set_address unset_lb ?ad), None), ?w)"
    using u by (simp add: lb_OnRemove_def PoolIPAM_def Cluster_def VM_def)
  moreover have "recorded ''demo'' ?w ''10.0.0.3'' = Some ''default/lb1''" by code_simp
  ultimately show ?thesis by fastforce
qed

section \<open>Errors\<close>

lemma selectIPPool_error: "selectIPPool h lb w = Inl e \<Longrightarrow> errors_Is e ErrNoMatchedIPPool"
  by (auto simp: selectIPPool_def Let_def errors_Is_def wrap_two_def errNoMatchedIPPool_def
      split: sum.splits option.splits if_splits)

lemma hard_error:
  "err_chain e = [] \<Longrightarrow> \<not> is_panic e \<Longrightarrow> handleError h lbCopy lb e w = lb_updateStatus h lbCopy lb (Some e) w"
  by (simp add: handleError_def errors_Is_def)

text \<open>The results of the two ways to end with an error.\<close>

lemma NotReturnError_result:
  assumes "update_echoes (lh_lbs h)" and "updateStatusNotReturnError h lb lb e w = ((r, err), w')"
  shows "(err = None \<longrightarrow> (\<exists>x. r = Some x \<and> cond_getStatus LoadBalancerReady (lbst_Conditions (lb_Status x)) = ''False'' \<and>
      cond_getMessage LoadBalancerReady (lbst_Conditions (lb_Status x)) = err_text e)) \<and>
    (err \<noteq> None \<longrightarrow> r = None \<and> (\<exists>e'. lbo_Update (lh_lbs h) (set_ready (lh_now h) False (err_text e) lb) w = (Inl e', w')))"
proof -
  let ?lb = "set_ready (lh_now h) False (err_text e) lb"
  have "err = None \<longrightarrow> (\<exists>x. r = Some x \<and> lb_Status x = lb_Status ?lb)"
    using assms(2) by (auto simp: updateStatusNotReturnError_def Let_def split: if_splits prod.splits sum.splits
        dest: update_echoesD [OF assms(1)])
  moreover have "err \<noteq> None \<longrightarrow> r = None \<and> (\<exists>e'. lbo_Update (lh_lbs h) ?lb w = (Inl e', w'))"
    using assms(2) by (auto simp: updateStatusNotReturnError_def Let_def split: if_splits prod.splits sum.splits)
  ultimately show ?thesis by fastforce
qed

lemma updateStatus_result:
  "\<exists>r e' w'. lb_updateStatus h lbCopy lb (Some e) w = ((r, Some e'), w') \<and> (r \<noteq> None \<longrightarrow> e' = e)"
  by (auto simp: lb_updateStatus_def Let_def split: prod.splits sum.splits)

text \<open>
  \<^bold>\<open>C18.\<close> How a failed allocation ends. When no pool matches, the load balancer is put back in the queue for one
  second later, and the framework sees no error and an object that is not ready, with the reason as its message, unless
  the API server refuses the write of the status. When the allocator of the pool has no address left, the error of the plugin is
  not one the controller knows: the framework always sees an error, that of the allocator or that of
  the write, and retries with its own back-off.
\<close>

theorem allocation_errors:
  assumes "md_DeletionTimestamp (lb_Meta lb) = None" and "lb_APIVersion lb = SchemeGroupVersion"
    and "lbs_IPAM (lb_Spec lb) \<noteq> DHCP" and "aa_IPPool (lb_address lb) = ''''" and "update_echoes (lh_lbs h)"
  shows "case (if lbs_IPPool (lb_Spec lb) = '''' then selectIPPool h lb w else Inr (lbs_IPPool (lb_Spec lb))) of
      Inl e \<Rightarrow> \<exists>r err w1 w'. lb_OnChange h am (Some lb) w = Some ((r, err), w') \<and>
        w1 = lbo_EnqueueAfter (lh_lbs h) (lb_Namespace lb) (lb_Name lb) 1 w \<and>
        w' \<in> {w1, snd (lbo_Update (lh_lbs h) (set_ready (lh_now h) False (err_text e) lb) w1)} \<and>
        (err = None \<longrightarrow> (\<exists>x. r = Some x \<and> cond_getStatus LoadBalancerReady (lbst_Conditions (lb_Status x)) = ''False'' \<and>
          cond_getMessage LoadBalancerReady (lbst_Conditions (lb_Status x)) = err_text e)) \<and>
        (err \<noteq> None \<longrightarrow> r = None \<and>
          (\<exists>e'. lbo_Update (lh_lbs h) (set_ready (lh_now h) False (err_text e) lb) w1 = (Inl e', w')))
    | Inr n \<Rightarrow> (\<forall>a w' rs. sam_Get n am = Some a \<longrightarrow> Allocator_Get a (lb_id lb) w = Some (Inl (no_address_error rs), w') \<longrightarrow>
        (\<exists>r e v. lb_OnChange h am (Some lb) w = Some ((r, Some e), v) \<and>
          (r \<noteq> None \<longrightarrow> e = wrapf (''fail to get ip from pool '' @ n @ '', error: '') (no_address_error rs))))"
proof (cases "if lbs_IPPool (lb_Spec lb) = '''' then selectIPPool h lb w else Inr (lbs_IPPool (lb_Spec lb))")
  case (Inl e)
  then have p: "lbs_IPPool (lb_Spec lb) = ''''" "selectIPPool h lb w = Inl e" by (auto split: if_splits)
  let ?w = "lbo_EnqueueAfter (lh_lbs h) (lb_Namespace lb) (lb_Name lb) 1 w"
  have "snd (tryReleaseDuplicatedIPToPool h am lb w) = w" using p by (simp add: tryReleaseDuplicatedIPToPool_def)
  then have "ensureAllocatedAddress h am lb lb w = Some (Some e, lb, w)"
    using p assms(3,4) by (simp add: ensureAllocatedAddress_def ensureAllocatedAddressPool_def allocateIPFromPool_def)
  then have "lb_OnChange h am (Some lb) w = Some (handleError h lb lb e w)"
    using assms(1,2) by (simp add: lb_OnChange_def)
  moreover have "errors_Is e ErrNoMatchedIPPool" "\<not> is_panic e"
    using selectIPPool_error [OF p(2)] by (auto simp: errors_Is_def) (cases e; simp)
  ultimately have on: "lb_OnChange h am (Some lb) w = Some (updateStatusNotReturnError h lb lb e ?w)"
    by (simp add: handleError_def)
  obtain r err w' where u: "updateStatusNotReturnError h lb lb e ?w = ((r, err), w')" by (metis prod.collapse)
  have "w' \<in> {?w, snd (lbo_Update (lh_lbs h) (set_ready (lh_now h) False (err_text e) lb) ?w)}"
    using u by (auto simp: updateStatusNotReturnError_def Let_def split: if_splits prod.splits sum.splits)
  then show ?thesis using Inl on u NotReturnError_result [OF assms(5) u] by auto
next
  case (Inr n)
  have "\<exists>r e v. lb_OnChange h am (Some lb) w = Some ((r, Some e), v) \<and>
      (r \<noteq> None \<longrightarrow> e = wrapf (''fail to get ip from pool '' @ n @ '', error: '') (no_address_error rs))"
    if a: "sam_Get n am = Some a" "Allocator_Get a (lb_id lb) w = Some (Inl (no_address_error rs), w')" for a w' rs
  proof -
    let ?e = "wrapf (''fail to get ip from pool '' @ n @ '', error: '') (no_address_error rs)"
    have "allocateIPFromPool h am lb w = requestIP am lb n w"
      using Inr by (auto simp: allocateIPFromPool_def split: if_splits)
    also have "\<dots> = Some (Inl ?e, w')" using a by (simp add: requestIP_def)
    finally obtain v where "ensureAllocatedAddress h am lb lb w = Some (Some ?e, lb, v)"
      using assms(3,4) by (simp add: ensureAllocatedAddress_def ensureAllocatedAddressPool_def) metis
    then have "lb_OnChange h am (Some lb) w = Some (handleError h lb lb ?e v)"
      using assms(1,2) by (simp add: lb_OnChange_def)
    moreover have "err_chain ?e = []" "\<not> is_panic ?e" by (simp_all add: no_address_error_def)
    ultimately have "lb_OnChange h am (Some lb) w = Some (lb_updateStatus h lb lb (Some ?e) v)" using hard_error by metis
    then show ?thesis using updateStatus_result [of h lb lb ?e v] by fastforce
  qed
  then show ?thesis using Inr by simp
qed

definition other_lb :: LoadBalancer where
  "other_lb = cluster_lb\<lparr>lb_Meta := (lb_Meta cluster_lb)\<lparr>md_Namespace := ''elsewhere''\<rparr>,
     lb_Spec := (lb_Spec cluster_lb)\<lparr>lbs_IPPool := ''''\<rparr>\<rparr>"

theorem allocation_errors_witness:
  "\<exists>e x w'. selectIPPool plain_handler other_lb demo_world = Inl e \<and>
    lb_OnChange plain_handler demo_allocators (Some other_lb) demo_world = Some ((Some x, None), w') \<and>
    cond_getStatus LoadBalancerReady (lbst_Conditions (lb_Status x)) = ''False'' \<and>
    cond_getMessage LoadBalancerReady (lbst_Conditions (lb_Status x)) = err_text e"
proof -
  have "\<not> ok (selectIPPool plain_handler other_lb demo_world)" by code_simp
  then obtain e where e: "selectIPPool plain_handler other_lb demo_world = Inl e"
    by (cases "selectIPPool plain_handler other_lb demo_world") auto
  have l: "lbs_IPPool (lb_Spec other_lb) = ''''" by (simp add: other_lb_def)
  have q: "lbo_EnqueueAfter (lh_lbs plain_handler) ns n t w = w" "lbo_Update (lh_lbs plain_handler) x w = (Inr x, w)" for ns n t w x
    by (simp_all add: plain_handler_def plain_ops_def)
  have echo: "update_echoes (lh_lbs plain_handler)"
    unfolding update_echoes_def q by (metis LoadBalancer.surjective LoadBalancer.update_convs(3) ObjectMeta.surjective
        ObjectMeta.update_convs(4) Pair_inject sum.inject(2))
  show ?thesis
    using allocation_errors [where lb = other_lb and h = plain_handler and w = demo_world and am = demo_allocators] echo e l q
    by (simp add: other_lb_def cluster_lb_def empty_meta_def empty_address_def PoolIPAM_def DHCP_def) blast
qed

end
