(* ===== verification/KubeVip.thy ===== *)
theory KubeVip
  imports KubeObjects PoolSelector
begin

text \<open>
  The conversion of the kube-vip configuration of earlier releases into IP pools:
  \<^verbatim>\<open>pkg/controller/ippool/kubevip/kubevip.go\<close>.

  The converter hands out pointers to pools and writes through them later, and the global pool is
  reached both from the list of pools and from the converter. The pools are therefore cells of a
  heap, a list in which a pointer is an index. The decoder of the JSON list of services is a
  parameter that returns the virtual address and the name of each service.
\<close>

definition kubeSystemNamespace :: string where "kubeSystemNamespace = ''kube-system''"
definition kubevipIPPoolConfigMap :: string where "kubevipIPPoolConfigMap = ''kubevip''"
definition kubevipDataKey :: string where "kubevipDataKey = ''kubevip-services''"
definition GlobalIPPoolName :: string where "GlobalIPPoolName = ''global''"
definition formatCidr :: string where "formatCidr = ''cidr''"
definition formatRange :: string where "formatRange = ''range''"
definition keyAfterConversion :: string where "keyAfterConversion = GroupName @ ''/after-conversion''"

definition errInvalidFormat :: error where
  "errInvalidFormat = Error ''invalid format'' [ErrInvalidFormat]"

record IPPoolConverter =
  cv_heap :: "IPPool list"
  cv_global :: "nat option"
  cv_globalRangeSet :: "ARange list"

definition NewIPPoolConverter :: IPPoolConverter where
  "NewIPPoolConverter = \<lparr>cv_heap = [], cv_global = None, cv_globalRangeSet = []\<rparr>"

definition getFormatAndName :: "string \<Rightarrow> (string \<times> string) res" where
  "getFormatAndName s =
     (case SplitN2 (CHR ''-'') s of [f, n] \<Rightarrow> Inr (f, n) | _ \<Rightarrow> Inl (errorf (''invalid input '' @ s)))"

text \<open>
  The longest prefix of at most 31 bits under which the two masked addresses are equal. Masking an
  IPv6 address with a 4-byte mask gives nil.
\<close>

definition common_prefix :: "ip \<Rightarrow> ip \<Rightarrow> int" where
  "common_prefix start ed =
     (case find (\<lambda>i. ip_Equal (ip_Mask start (CIDRMask i 32)) (ip_Mask ed (CIDRMask i 32))) (map int (rev [0..<32])) of
        Some i \<Rightarrow> i | None \<Rightarrow> 0)"

definition getIPNet :: "string \<Rightarrow> string \<Rightarrow> IPNet res" where
  "getIPNet startIP endIP =
     (let start = ParseIP startIP; ed = ParseIP endIP in
      if start = [] then Inl (errorf (''invalid start IP address: '' @ startIP))
      else if ed = [] then Inl (errorf (''invalid end IP address: '' @ endIP))
      else if length (To4 start) \<noteq> length (To4 ed) then
        Inl (errorf (''IP version mismatch between start ('' @ startIP @ '') and end ('' @ endIP @ '') IP addresses''))
      else let m = CIDRMask (common_prefix start ed) 32 in Inr \<lparr>net_IP = ip_Mask start m, net_Mask = m\<rparr>)"

definition empty_range :: LBRange where
  "empty_range = \<lparr>lb_RangeStart = '''', lb_RangeEnd = '''', lb_Subnet = '''', lb_Gateway = ''''\<rparr>"

definition parse_one :: "string \<Rightarrow> string \<Rightarrow> LBRange res" where
  "parse_one format r =
     (if format = formatCidr then
        (case ParseCIDR r of
           Inl e \<Rightarrow> Inl e
         | Inr (a, ipNet) \<Rightarrow> Inr (empty_range\<lparr>lb_Subnet := net_String ipNet\<rparr>))
      else if format = formatRange then
        (case Split (CHR ''-'') r of
           [s, t] \<Rightarrow>
             if ParseIP s = [] \<or> ParseIP t = [] then Inl (errorf (''invalid range '' @ r))
             else (case getIPNet s t of
                 Inl e \<Rightarrow> Inl (wrapf (''get IP net failed for range '' @ r @ '' faield, error: '') e)
               | Inr ipNet \<Rightarrow>
                   Inr \<lparr>lb_RangeStart = s, lb_RangeEnd = t, lb_Subnet = net_String ipNet, lb_Gateway = ''''\<rparr>)
         | _ \<Rightarrow> Inl (errorf (''invalid range '' @ r)))
      else Inl errInvalidFormat)"

definition parseKubevipIPPool :: "string \<Rightarrow> string \<Rightarrow> LBRange list res" where
  "parseKubevipIPPool pool format = res_map (parse_one format) (Split (CHR '','') pool)"

definition makeIPPool :: "string \<Rightarrow> LBRange list \<Rightarrow> IPPool" where
  "makeIPPool name ranges = \<lparr>pool_Meta = empty_meta\<lparr>md_Name := name\<rparr>,
     pool_Spec = \<lparr>ps_Description = '''', ps_Ranges = ranges,
       ps_Selector = \<lparr>sel_Priority = 0, sel_Network = '''',
         sel_Scope = [\<lparr>t_Project = All, t_Namespace = (if name = GlobalIPPoolName then All else name),
                        t_GuestCluster = All\<rparr>]\<rparr>\<rparr>,
     pool_Status = \<lparr>st_Total = 0, st_Available = 0, st_LastAllocated = '''', st_Allocated = None,
       st_AllocatedHistory = Some [], st_Conditions = []\<rparr>\<rparr>"

definition convertKubevipIPPool :: "string \<Rightarrow> string \<Rightarrow> IPPoolConverter \<Rightarrow> nat res \<times> IPPoolConverter" where
  "convertKubevipIPPool key val c =
     (case getFormatAndName key of
        Inl e \<Rightarrow> (Inl e, c)
      | Inr (format, name) \<Rightarrow>
          (case parseKubevipIPPool val format of
             Inl e \<Rightarrow> (Inl e, c)
           | Inr ranges \<Rightarrow>
               let ptr = length (cv_heap c); c1 = c\<lparr>cv_heap := cv_heap c @ [makeIPPool name ranges]\<rparr> in
               if name = GlobalIPPoolName then
                 (case LBRangesToAllocatorRangeSet ranges of
                    Inl e \<Rightarrow> (Inl e, c1\<lparr>cv_global := Some ptr, cv_globalRangeSet := []\<rparr>)
                  | Inr rs \<Rightarrow> (Inr ptr, c1\<lparr>cv_global := Some ptr, cv_globalRangeSet := rs\<rparr>))
               else (Inr ptr, c1)))"

text \<open>The global entries come first, in the reverse of their order; the others keep theirs.\<close>

fun order_configs :: "strmap \<Rightarrow> (string \<times> string) list \<Rightarrow> (string \<times> string) list" where
  "order_configs [] acc = acc"
| "order_configs ((k, v) # m) acc =
     (if k = formatCidr @ ''-'' @ GlobalIPPoolName \<or> k = formatRange @ ''-'' @ GlobalIPPoolName
      then order_configs m ((k, v) # acc) else order_configs m (acc @ [(k, v)]))"

fun convert_all :: "(string \<times> string) list \<Rightarrow> IPPoolConverter \<Rightarrow> nat list res \<times> IPPoolConverter" where
  "convert_all [] c = (Inr [], c)"
| "convert_all ((k, v) # configs) c =
     (case convertKubevipIPPool k v c of
        (Inl e, c1) \<Rightarrow>
          if errors_Is e ErrInvalidFormat then convert_all configs c1
          else (Inl (wrapf (''convert kubevip IP pool '' @ k @ '':'' @ v @ '' failed, '') e), c1)
      | (Inr ptr, c1) \<Rightarrow>
          (case convert_all configs c1 of
             (Inl e, c2) \<Rightarrow> (Inl e, c2)
           | (Inr ptrs, c2) \<Rightarrow> (Inr (ptr # ptrs), c2)))"

section \<open>Allocated addresses\<close>

definition decodeKubeVIPServicesJSON ::
  "(string \<Rightarrow> (string \<times> string) list res) \<Rightarrow> string \<Rightarrow> (string \<times> string) list res" where
  "decodeKubeVIPServicesJSON unmarshal jsonString =
     (case unmarshal jsonString of
        Inl e \<Rightarrow> Inl (errorf (''failed to decode JSON: '' @ err_text e)) | Inr services \<Rightarrow> Inr services)"

definition record_history :: "nat \<Rightarrow> string \<Rightarrow> string \<Rightarrow> IPPool list \<Rightarrow> IPPool list" where
  "record_history ptr vip applicant heap =
     heap[ptr := (heap ! ptr)\<lparr>pool_Status := (pool_Status (heap ! ptr))\<lparr>st_AllocatedHistory :=
       Some (m_set vip applicant (entries (st_AllocatedHistory (pool_Status (heap ! ptr)))))\<rparr>\<rparr>]"

definition assign_one :: "nat option \<Rightarrow> ARange list \<Rightarrow> string \<Rightarrow> string \<times> string \<Rightarrow> IPPoolConverter \<Rightarrow> IPPoolConverter" where
  "assign_one pool rangeSet namespace service c =
     (case service of (vip, serviceName) \<Rightarrow>
        let ip = ParseIP vip; applicant = namespace @ ''/'' @ serviceName in
        if vip = Address4AskDHCP \<or> ip = [] then c
        else if pool \<noteq> None \<and> rangeSet \<noteq> [] \<and> rangeset_Contains rangeSet ip
        then c\<lparr>cv_heap := record_history (the pool) vip applicant (cv_heap c)\<rparr>
        else if cv_global c \<noteq> None \<and> cv_globalRangeSet c \<noteq> [] \<and> rangeset_Contains (cv_globalRangeSet c) ip
        then c\<lparr>cv_heap := record_history (the (cv_global c)) vip applicant (cv_heap c)\<rparr>
        else c)"

definition assignAllocatedIPs ::
  "(string \<Rightarrow> (string \<times> string) list res) \<Rightarrow> ConfigMap \<Rightarrow> nat option \<Rightarrow> IPPoolConverter \<Rightarrow> unit res \<times> IPPoolConverter" where
  "assignAllocatedIPs unmarshal cm pool c =
     (case m_get (cm_Data cm) kubevipDataKey of
        None \<Rightarrow> (Inr (), c)
      | Some kubevipServices \<Rightarrow>
          (case decodeKubeVIPServicesJSON unmarshal kubevipServices of
             Inl e \<Rightarrow> (Inl e, c)
           | Inr services \<Rightarrow>
               (case (case pool of None \<Rightarrow> Inr [] | Some p \<Rightarrow> LBRangesToAllocatorRangeSet (ps_Ranges (pool_Spec (cv_heap c ! p)))) of
                  Inl e \<Rightarrow> (Inl e, c)
                | Inr rangeSet \<Rightarrow>
                    (Inr (), fold (assign_one pool rangeSet (md_Namespace (cm_Meta cm))) services c))))"

fun assign_cms ::
  "(string \<Rightarrow> (string \<times> string) list res) \<Rightarrow> (string, nat) gomap \<Rightarrow> ConfigMap list \<Rightarrow> IPPoolConverter \<Rightarrow> unit res \<times> IPPoolConverter" where
  "assign_cms unmarshal m [] c = (Inr (), c)"
| "assign_cms unmarshal m (cm # cms) c =
     (if md_Name (cm_Meta cm) \<noteq> kubevipIPPoolConfigMap then assign_cms unmarshal m cms c
      else (case assignAllocatedIPs unmarshal cm (m_get m (md_Namespace (cm_Meta cm))) c of
          (Inl e, c1) \<Rightarrow>
            (Inl (wrapf (''assign allocated IPs from configmap '' @ md_Namespace (cm_Meta cm) @ ''/'' @
               md_Name (cm_Meta cm) @ '' failed, error: '') e), c1)
        | (Inr _, c1) \<Rightarrow> assign_cms unmarshal m cms c1))"

definition assignAllAllocatedIPs ::
  "(string \<Rightarrow> (string \<times> string) list res) \<Rightarrow> 'w ConfigMapOps \<Rightarrow> nat list \<Rightarrow> IPPoolConverter \<Rightarrow> 'w \<Rightarrow> unit res \<times> IPPoolConverter" where
  "assignAllAllocatedIPs unmarshal cms pools c w =
     (let m = fold (\<lambda>ptr m. m_set (pool_Name (cv_heap c ! ptr)) ptr m) pools [] in
      (case cmo_List cms w of
         Inl e \<Rightarrow> (Inl (wrapf ''list configmaps failed, error: '' e), c)
       | Inr items \<Rightarrow> assign_cms unmarshal m items c))"

section \<open>The conversion\<close>

definition ConvertFromKubevipConfigMap ::
  "(string \<Rightarrow> (string \<times> string) list res) \<Rightarrow> 'w ConfigMapOps \<Rightarrow> IPPoolConverter \<Rightarrow> 'w \<Rightarrow> IPPool list res \<times> IPPoolConverter" where
  "ConvertFromKubevipConfigMap unmarshal cms c w =
     (case cmo_Get cms kubeSystemNamespace kubevipIPPoolConfigMap w of
        Inl e \<Rightarrow> if errors_Is e NotFound then (Inr [], c) else (Inl e, c)
      | Inr cm \<Rightarrow>
          if str_get (md_Annotations (cm_Meta cm)) keyAfterConversion = ValueTrue then (Inr [], c)
          else (case convert_all (order_configs (cm_Data cm) []) c of
              (Inl e, c1) \<Rightarrow> (Inl e, c1)
            | (Inr pools, c1) \<Rightarrow>
                (case assignAllAllocatedIPs unmarshal cms pools c1 w of
                   (Inl e, c2) \<Rightarrow> (Inl (wrapf ''assign allocated IPs to pools failed, '' e), c2)
                 | (Inr _, c2) \<Rightarrow> (Inr (map (\<lambda>ptr. cv_heap c2 ! ptr) pools), c2))))"

definition AfterConversion :: "'w ConfigMapOps \<Rightarrow> 'w \<Rightarrow> unit res \<times> 'w" where
  "AfterConversion cms w =
     (case cmo_Get cms kubeSystemNamespace kubevipIPPoolConfigMap w of
        Inl e \<Rightarrow> if errors_Is e NotFound then (Inr (), w) else (Inl e, w)
      | Inr cm \<Rightarrow>
          if str_get (md_Annotations (cm_Meta cm)) keyAfterConversion = ValueTrue then (Inr (), w)
          else (case cmo_Update cms (cm\<lparr>cm_Meta := (cm_Meta cm)\<lparr>md_Annotations :=
                       Some (m_set keyAfterConversion ValueTrue (entries (md_Annotations (cm_Meta cm))))\<rparr>\<rparr>) w of
              (Inl e, w') \<Rightarrow> (Inl e, w')
            | (Inr _, w') \<Rightarrow> (Inr (), w')))"

end
