(* ===== verification/Controllers.thy ===== *)
theory Controllers
  imports IPAllocator KubeVip
begin

text \<open>
  The controllers of IP pools (\<^verbatim>\<open>pkg/controller/ippool/controller.go\<close>), of virtual machines
  (\<^verbatim>\<open>pkg/controller/vm/controller.go\<close>) and of virtual machine instances
  (\<^verbatim>\<open>pkg/controller/vmi/controller.go\<close>).

  The pool handler writes the shared map of allocators, so it takes the map and returns it. A
  result is the object returned and the error, both of which may be nil. Log lines are left out,
  except one that calls a method of an error that may be nil.
\<close>

section \<open>IP pools\<close>

record 'w PoolHandler =
  ph_ipPoolCache :: "'w IPPoolCache"
  ph_ipPoolClient :: "'w IPPoolClient"
  ph_lbs :: "'w LBOps"
  ph_configMaps :: "'w ConfigMapOps"
  ph_sha256 :: "string \<Rightarrow> string"
  ph_unmarshal :: "string \<Rightarrow> (string \<times> string) list res"
  ph_now :: string

type_synonym pres = "IPPool option \<times> error option"

fun correct_history :: "ARange list \<Rightarrow> strmap \<Rightarrow> strmap \<Rightarrow> strmap res" where
  "correct_history rs [] acc = Inr acc"
| "correct_history rs ((ipStr, applicant) # m) acc =
     (let ip = ParseIP ipStr in
      if ip = [] then Inl (errorf (''invalid ip '' @ ipStr))
      else correct_history rs m (if rangeset_Contains rs ip then m_set ipStr applicant acc else acc))"

definition correctAllocatedHistory :: "IPPool \<Rightarrow> strmap res" where
  "correctAllocatedHistory pool =
     (case LBRangesToAllocatorRangeSet (ps_Ranges (pool_Spec pool)) of
        Inl e \<Rightarrow> Inl e
      | Inr rs \<Rightarrow> correct_history rs (entries (pool_History pool)) [])"

definition corrected_status :: "string \<Rightarrow> IPPool \<Rightarrow> int64 \<Rightarrow> strmap \<Rightarrow> IPPoolStatus" where
  "corrected_status now pool tot hist =
     (pool_Status pool)\<lparr>
       st_Available := (case pool_Allocated pool of None \<Rightarrow> tot | Some m \<Rightarrow> tot - of_nat (length m)),
       st_Total := tot, st_AllocatedHistory := Some hist,
       st_Conditions := cond_setMessage now IPPoolReady ''''
         (cond_setStatus now IPPoolReady ''True'' (st_Conditions (pool_Status pool)))\<rparr>"

definition pool_updateStatus :: "'w PoolHandler \<Rightarrow> IPPool \<Rightarrow> int64 \<Rightarrow> 'w \<Rightarrow> unit res \<times> 'w" where
  "pool_updateStatus h pool tot w =
     (case correctAllocatedHistory pool of
        Inl e \<Rightarrow> (Inl (wrapf (''correct allocated history for '' @ pool_Name pool @ '' failed, '') e), w)
      | Inr hist \<Rightarrow>
          let st = corrected_status (ph_now h) pool tot hist in
          if pool_Status pool = st then (Inr (), w)
          else (case pcl_Update (ph_ipPoolClient h) (pool\<lparr>pool_Status := st\<rparr>) w of
              (Inl e, w') \<Rightarrow> (Inl (wrapf (''update IP pool '' @ pool_Name pool @ '' status failed, '') e), w')
            | (Inr _, w') \<Rightarrow> (Inr (), w')))"

definition pool_OnChange ::
  "'w PoolHandler \<Rightarrow> IPPool option \<Rightarrow> 'w SafeAllocatorMap \<Rightarrow> 'w \<Rightarrow> pres \<times> 'w SafeAllocatorMap \<times> 'w" where
  "pool_OnChange h po am w =
     (case po of
        None \<Rightarrow> ((None, None), am, w)
      | Some ipPool \<Rightarrow>
          if md_DeletionTimestamp (pool_Meta ipPool) \<noteq> None then ((None, None), am, w)
          else if (case sam_Get (pool_Name ipPool) am of
                     None \<Rightarrow> True
                   | Some prev \<Rightarrow> al_checkSum prev \<noteq> CalculateCheckSum (ph_sha256 h) (ps_Ranges (pool_Spec ipPool))) then
            (case NewAllocator (ph_sha256 h) (pool_Name ipPool) (ps_Ranges (pool_Spec ipPool)) (ph_ipPoolCache h) (ph_ipPoolClient h) of
               Inl e \<Rightarrow> ((None, Some e), am, w)
             | Inr a \<Rightarrow>
                 let am' = sam_AddOrUpdate (pool_Name ipPool) a am in
                 (case pool_updateStatus h ipPool (al_total a) w of
                    (Inl e, w') \<Rightarrow> ((None, Some e), am', w')
                  | (Inr _, w') \<Rightarrow> ((Some ipPool, None), am', w')))
          else ((Some ipPool, None), am, w))"

definition pool_OnRemove :: "IPPool option \<Rightarrow> 'w SafeAllocatorMap \<Rightarrow> pres \<times> 'w SafeAllocatorMap" where
  "pool_OnRemove po am =
     (case po of
        None \<Rightarrow> ((None, None), am)
      | Some ipPool \<Rightarrow> ((Some ipPool, None), sam_Delete (pool_Name ipPool) am))"

definition removeAnnotationKeyManuallyReleaseIP :: "'w PoolHandler \<Rightarrow> IPPool \<Rightarrow> 'w \<Rightarrow> pres \<times> 'w" where
  "removeAnnotationKeyManuallyReleaseIP h ipPool w =
     (case pcl_Update (ph_ipPoolClient h)
             (ipPool\<lparr>pool_Meta := (pool_Meta ipPool)\<lparr>md_Annotations :=
                map_option (m_del AnnotationKeyManuallyReleaseIP) (md_Annotations (pool_Meta ipPool))\<rparr>\<rparr>) w of
        (Inl e, w') \<Rightarrow> ((None, Some e), w')
      | (Inr p, w') \<Rightarrow> ((Some p, None), w'))"

definition OnChangeToReleaseAnIP ::
  "'w PoolHandler \<Rightarrow> 'w SafeAllocatorMap \<Rightarrow> IPPool option \<Rightarrow> 'w \<Rightarrow> pres \<times> 'w" where
  "OnChangeToReleaseAnIP h am po w =
     (case po of
        None \<Rightarrow> ((None, None), w)
      | Some ipPool \<Rightarrow>
          let ipStr = str_get (md_Annotations (pool_Meta ipPool)) AnnotationKeyManuallyReleaseIP in
          if md_DeletionTimestamp (pool_Meta ipPool) \<noteq> None \<or> md_Annotations (pool_Meta ipPool) = None \<or> ipStr = ''''
          then ((Some ipPool, None), w)
          else (case SplitIPAllocatedString ipStr of
              Inl e \<Rightarrow> removeAnnotationKeyManuallyReleaseIP h ipPool w
            | Inr (ip, namespace, name) \<Rightarrow>
                let lbStr = str_get (pool_Allocated ipPool) ip; applicant = namespace @ ''/'' @ name in
                if lbStr = '''' \<or> lbStr \<noteq> applicant then removeAnnotationKeyManuallyReleaseIP h ipPool w
                else (case lbo_Get (ph_lbs h) namespace name w of
                    Inr _ \<Rightarrow> removeAnnotationKeyManuallyReleaseIP h ipPool w
                  | Inl e \<Rightarrow>
                      if \<not> errors_Is e NotFound then ((Some ipPool, Some e), w)
                      else (case sam_Get (pool_Name ipPool) am of
                          None \<Rightarrow>
                            ((Some ipPool, Some (errorf (''IP Pool '' @ pool_Name ipPool @
                               '' has a manual IP release request '' @ ipStr @ '', fail to get allocator''))), w)
                        | Some a \<Rightarrow>
                            (case IPAllocator_Release (al_IPAllocator a) applicant '''' w of
                               (Inl e', w1) \<Rightarrow>
                                 ((Some ipPool, Some (wrapf (''IP Pool '' @ pool_Name ipPool @
                                    '' has a manual IP release request '' @ ipStr @ '', fail to release, error:'') e')), w1)
                             | (Inr _, w1) \<Rightarrow> removeAnnotationKeyManuallyReleaseIP h ipPool w1)))))"

fun create_pools :: "'w IPPoolClient \<Rightarrow> IPPool list \<Rightarrow> 'w \<Rightarrow> unit res \<times> 'w" where
  "create_pools cl [] w = (Inr (), w)"
| "create_pools cl (pool # pools) w =
     (case pcl_Create cl pool w of
        (Inl e, w') \<Rightarrow>
          if errors_Is e AlreadyExists then create_pools cl pools w'
          else (Inl (wrapf (''create IP pool '' @ pool_Name pool @ '' failed, '') e), w')
      | (Inr _, w') \<Rightarrow> create_pools cl pools w')"

definition initializeFromKubevipConfigMap :: "'w PoolHandler \<Rightarrow> 'w \<Rightarrow> unit res \<times> 'w" where
  "initializeFromKubevipConfigMap h w =
     (case fst (ConvertFromKubevipConfigMap (ph_unmarshal h) (ph_configMaps h) NewIPPoolConverter w) of
        Inl e \<Rightarrow> (Inl (wrapf ''convert IP pool from kube-vip configmap failed, '' e), w)
      | Inr pools \<Rightarrow>
          (case create_pools (ph_ipPoolClient h) pools w of
             (Inl e, w') \<Rightarrow> (Inl e, w')
           | (Inr _, w') \<Rightarrow> AfterConversion (ph_configMaps h) w'))"

section \<open>Virtual machines\<close>

definition nil_error :: error where
  "nil_error = Panic ''invalid memory address or nil pointer dereference''"

text \<open>
  The loop that deletes the load balancers of a guest cluster, with the number of deletions, the
  number of failures, the last failure and the result of the last call of \<^verbatim>\<open>Delete\<close>.
\<close>

fun delete_lbs ::
  "'w LBOps \<Rightarrow> LoadBalancer list \<Rightarrow> int \<Rightarrow> int \<Rightarrow> error option \<Rightarrow> error option \<Rightarrow> 'w \<Rightarrow>
     (int \<times> int \<times> error option \<times> error option) \<times> 'w" where
  "delete_lbs ops [] cnt errCount lastError err w = ((cnt, errCount, lastError, err), w)"
| "delete_lbs ops (lb # lbs) cnt errCount lastError err w =
     (if lbs_WorkloadType (lb_Spec lb) \<noteq> Cluster then delete_lbs ops lbs cnt errCount lastError err w
      else if md_DeletionTimestamp (lb_Meta lb) \<noteq> None then delete_lbs ops lbs (cnt + 1) errCount lastError err w
      else (case lbo_Delete ops (lb_Namespace lb) (lb_Name lb) w of
          (Some e, w') \<Rightarrow>
            if \<not> errors_Is e NotFound then delete_lbs ops lbs (cnt + 1) (errCount + 1) (Some e) (Some e) w'
            else delete_lbs ops lbs (cnt + 1) errCount lastError (Some e) w'
        | (None, w') \<Rightarrow> delete_lbs ops lbs (cnt + 1) errCount lastError None w'))"

definition CleanGuestClusterLBs ::
  "'w LBOps \<Rightarrow> VirtualMachine option \<Rightarrow> 'w \<Rightarrow> (VirtualMachine option \<times> error option) \<times> 'w" where
  "CleanGuestClusterLBs ops vm w =
     (if \<not> IsGuestClusterVM vm then ((vm, None), w)
      else if \<not> IsVmWithGuestClusterOnRemoveAnnotation vm then ((vm, None), w)
      else (case (vm, GetGuestClusterNameFromVM vm) of
          (Some v, Some gcName) \<Rightarrow>
            let ns = md_Namespace (vm_Meta v) in
            (case lbo_List ops ns (set_selector [(LabelKeyGuestClusterNameOnLB, gcName)]) w of
               Inl e \<Rightarrow> ((None, Some (wrapf (''list lb from '' @ ns @ '' failed, error: '') e)), w)
             | Inr lbs \<Rightarrow>
                 if lbs = [] then ((vm, None), w)
                 else (case delete_lbs ops lbs 0 0 None None w of
                     ((cnt, errCount, lastError, err), w') \<Rightarrow>
                       if errCount \<noteq> 0 then
                         (if err = None then ((None, Some nil_error), w') else ((None, lastError), w'))
                       else ((vm, None), w')))
        | _ \<Rightarrow> ((vm, None), w)))"

section \<open>Virtual machine instances\<close>

fun notify_lbs ::
  "(string \<Rightarrow> string list \<Rightarrow> unit res) \<Rightarrow> 'w LBOps \<Rightarrow> VirtualMachineInstance \<Rightarrow> LoadBalancer list \<Rightarrow> 'w \<Rightarrow> unit res \<times> 'w" where
  "notify_lbs nr ops vmi [] w = (Inr (), w)"
| "notify_lbs nr ops vmi (lb # lbs) w =
     (if md_DeletionTimestamp (lb_Meta lb) \<noteq> None \<or> lbs_WorkloadType (lb_Spec lb) = Cluster \<or>
         lbs_BackendServerSelector (lb_Spec lb) = [] then notify_lbs nr ops vmi lbs w
      else (case NewSelector nr (lbs_BackendServerSelector (lb_Spec lb)) of
          Inl e \<Rightarrow> (Inl (wrapf ''fail to parse selector, error: '' e), w)
        | Inr sel \<Rightarrow>
            if selector_Matches sel (md_Labels (vmi_Meta vmi))
            then notify_lbs nr ops vmi lbs (lbo_Enqueue ops (lb_Namespace lb) (lb_Name lb) w)
            else notify_lbs nr ops vmi lbs w))"

definition notifyLoadBalancer ::
  "(string \<Rightarrow> string list \<Rightarrow> unit res) \<Rightarrow> 'w LBOps \<Rightarrow> VirtualMachineInstance \<Rightarrow> 'w \<Rightarrow>
     (VirtualMachineInstance option \<times> error option) \<times> 'w" where
  "notifyLoadBalancer nr ops vmi w =
     (case lbo_List ops (md_Namespace (vmi_Meta vmi)) [] w of
        Inl e \<Rightarrow> ((None, Some (wrapf ''fail to list load balancers, error: '' e)), w)
      | Inr lbs \<Rightarrow>
          (case notify_lbs nr ops vmi lbs w of
             (Inl e, w') \<Rightarrow> ((None, Some e), w')
           | (Inr _, w') \<Rightarrow> ((Some vmi, None), w')))"

definition vmi_OnChange ::
  "(string \<Rightarrow> string list \<Rightarrow> unit res) \<Rightarrow> 'w LBOps \<Rightarrow> VirtualMachineInstance option \<Rightarrow> 'w \<Rightarrow>
     (VirtualMachineInstance option \<times> error option) \<times> 'w" where
  "vmi_OnChange nr ops vo w =
     (case vo of
        None \<Rightarrow> ((None, None), w)
      | Some vmi \<Rightarrow>
          if md_DeletionTimestamp (vmi_Meta vmi) \<noteq> None then ((None, None), w) else notifyLoadBalancer nr ops vmi w)"

definition vmi_OnRemove ::
  "(string \<Rightarrow> string list \<Rightarrow> unit res) \<Rightarrow> 'w LBOps \<Rightarrow> VirtualMachineInstance option \<Rightarrow> 'w \<Rightarrow>
     (VirtualMachineInstance option \<times> error option) \<times> 'w" where
  "vmi_OnRemove nr ops vo w =
     (case vo of None \<Rightarrow> ((None, None), w) | Some vmi \<Rightarrow> notifyLoadBalancer nr ops vmi w)"

end
