(* ===== verification/ControllersProps.thy ===== *)
theory ControllersProps
  imports Controllers LBControllerProps
begin

text \<open>
  Properties of the controllers of IP pools and virtual machines: what a change of a pool does to
  the allocators and to the status of the pool, and the manual release of an address.
\<close>

section \<open>The history of a pool\<close>

lemma correct_history_Inr:
  assumes "correct_history rs m acc = Inr hist" and "distinct (map fst (acc @ m))"
  shows "hist = acc @ filter (\<lambda>(k, i). rangeset_Contains rs (ParseIP k)) m"
  using assms
proof (induction rs m acc rule: correct_history.induct)
  case (2 rs k i m acc)
  have "k \<notin> fst ` set acc" using 2(3) by auto
  then have "m_set k i acc = acc @ [(k, i)]" by (induction acc) auto
  then show ?case using 2 by (auto simp: Let_def split: if_splits)
qed simp

lemma corrected_status_simps [simp]:
  "st_Allocated (corrected_status now p tot hist) = pool_Allocated p" "st_Total (corrected_status now p tot hist) = tot"
  "st_AllocatedHistory (corrected_status now p tot hist) = Some hist"
  "st_Available (corrected_status now p tot hist) = tot - of_nat (length (entries (pool_Allocated p)))"
  by (simp_all add: corrected_status_def split: option.splits)

lemma m_wf_filter: "m_wf m \<Longrightarrow> m_wf (filter Q m)"
  by (simp add: m_wf_def distinct_map_filter)

lemma corrected_status_inv:
  assumes "status_inv (pool_Status p)"
  shows "status_inv (corrected_status now p tot (filter Q (entries (pool_History p))))"
proof -
  let ?h = "filter Q (entries (pool_History p))"
  have shrink: "A \<inter> B = {} \<Longrightarrow> \<forall>k \<in> A \<union> B. canonical k \<Longrightarrow> C \<subseteq> B \<Longrightarrow> A \<inter> C = {} \<and> (\<forall>k \<in> A \<union> C. canonical k)" for A B C
    by blast
  have sub: "fst ` set ?h \<subseteq> fst ` set (entries (pool_History p))" by auto
  have old: "m_wf (entries (pool_Allocated p))" "m_wf (entries (pool_History p))"
    "fst ` set (entries (pool_Allocated p)) \<inter> fst ` set (entries (pool_History p)) = {}"
    "\<forall>k \<in> fst ` set (entries (pool_Allocated p)) \<union> fst ` set (entries (pool_History p)). canonical k"
    using assms unfolding status_inv_def by blast+
  have "fst ` set (entries (pool_Allocated p)) \<inter> fst ` set ?h = {}"
    "\<forall>k \<in> fst ` set (entries (pool_Allocated p)) \<union> fst ` set ?h. canonical k"
    using shrink [OF old(3,4) sub] by (rule conjunct1, rule conjunct2)
  then show ?thesis
    unfolding status_inv_def corrected_status_simps option.case using old(1) m_wf_filter [OF old(2)] by simp
qed

section \<open>A change of a pool\<close>

lemma correctAllocatedHistory_Inr:
  assumes "correctAllocatedHistory p = Inr hist" and "pool_inv p"
  obtains rs where "LBRangesToAllocatorRangeSet (ps_Ranges (pool_Spec p)) = Inr rs"
    and "hist = filter (\<lambda>(k, i). rangeset_Contains rs (ParseIP k)) (entries (pool_History p))"
proof -
  obtain rs where rs: "LBRangesToAllocatorRangeSet (ps_Ranges (pool_Spec p)) = Inr rs"
    "correct_history rs (entries (pool_History p)) [] = Inr hist"
    using assms(1) by (auto simp: correctAllocatedHistory_def split: sum.splits)
  have "distinct (map fst ([] @ entries (pool_History p)))" using assms(2) by (simp add: status_inv_def m_wf_def)
  from correct_history_Inr [OF rs(2) this] show thesis using that rs(1) by simp
qed

context pool_api
begin

lemma updateStatus_outcome:
  assumes "sound_world w" and "pc_Get ca (pool_Name p) w = Inr p" and "ph_ipPoolClient h = cl"
    and "pool_updateStatus h p tot w = (x, w')"
  shows "sound_world w' \<and> ledgers server w' = ledgers server w \<and>
    (server w' = server w \<or>
     (\<exists>q rs. server w' = (server w)(pool_Name p \<mapsto> q) \<and> LBRangesToAllocatorRangeSet (ps_Ranges (pool_Spec p)) = Inr rs \<and>
        st_Total (pool_Status q) = tot \<and> pool_Allocated q = pool_Allocated p \<and> pool_inv q \<and>
        pool_History q = Some (filter (\<lambda>(k, i). rangeset_Contains rs (ParseIP k)) (entries (pool_History p)))))"
proof -
  let ?n = "pool_Name p"
  have g: "good w" and inv: "store_inv ca server good ?n w" and pinv: "pool_inv p"
    using assms(1,2) by (auto simp: store_inv_def)
  consider (same) "w' = w"
    | (wrote) hist y where "correctAllocatedHistory p = Inr hist"
        "pcl_Update cl (p\<lparr>pool_Status := corrected_status (ph_now h) p tot hist\<rparr>) w = (y, w')"
    using assms(3,4) by (auto simp: pool_updateStatus_def Let_def split: sum.splits prod.splits if_splits)
  then show ?thesis
  proof cases
    case same
    then show ?thesis using assms(1) by simp
  next
    case (wrote hist y)
    obtain rs where rs: "LBRangesToAllocatorRangeSet (ps_Ranges (pool_Spec p)) = Inr rs"
      "hist = filter (\<lambda>(k, i). rangeset_Contains rs (ParseIP k)) (entries (pool_History p))"
      using correctAllocatedHistory_Inr [OF wrote(1) pinv] .
    let ?st = "corrected_status (ph_now h) p tot hist"
    have st: "status_inv ?st" unfolding rs(2) by (rule corrected_status_inv [OF pinv])
    note wr = store_write [OF inv assms(2) wrote(2) st]
    have e: "elsewhere ?n w w'" using update_elsewhere [OF g wrote(2)] by simp
    have sw: "sound_world w'" using only_pool_sound [OF assms(1) e wr(1)] .
    show ?thesis
    proof (cases y)
      case (Inl err)
      then show ?thesis using wr(3) sw by (simp add: ledgers_def store_alloc_def fun_eq_iff)
    next
      case (Inr q)
      note q = wr(2) [OF Inr]
      have "ledgers server w' = ledgers server w"
        using q by (auto simp: ledgers_def store_alloc_def fun_eq_iff)
      moreover have "server w' = (server w)(?n \<mapsto> q)" "st_Total (pool_Status q) = tot" "pool_Allocated q = pool_Allocated p"
        "pool_inv q" "pool_History q = Some hist"
        using q st by simp_all
      ultimately show ?thesis using sw rs by blast
    qed
  qed
qed

end

lemma allocators_ok_add:
  assumes "allocators_ok ca cl am" and "NewAllocator sha n ranges ca cl = Inr a"
    and "rangeset_ok (ia_rangeset (al_IPAllocator a))"
  shows "allocators_ok ca cl (sam_AddOrUpdate n a am)"
  using assms unfolding allocators_ok_def sam_Get_def sam_AddOrUpdate_def by (metis m_get_set option.inject)

text \<open>
  \<^bold>\<open>C14.\<close> A change of a pool whose ranges were admitted, with the object the cache holds. The
  allocators stay in order, no allocation changes, and when the change is accepted the pool has an
  allocator with the check sum of its ranges. If the pool is written at all, its total is the
  number of addresses the allocator counted, the available number is the total less the allocated
  ones, and the history holds exactly the old entries that lie in the new ranges.
\<close>

theorem pool_change_sound:
  assumes "pool_api ca cl server good" and "ph_ipPoolCache h = ca" and "ph_ipPoolClient h = cl"
    and "allocators_ok ca cl am" and "\<forall>n. store_inv ca server good n w" and "pc_Get ca (pool_Name p) w = Inr p"
    and "LBRangesToAllocatorRangeSet (ps_Ranges (pool_Spec p)) = Inr rs" and "rangeset_ok rs"
    and "md_DeletionTimestamp (pool_Meta p) = None"
    and "pool_OnChange h (Some p) am w = ((o', err), am', w')"
  shows "allocators_ok ca cl am' \<and> (\<forall>n. store_inv ca server good n w') \<and> ledgers server w' = ledgers server w \<and>
    (err = None \<longrightarrow> (\<exists>a. sam_Get (pool_Name p) am' = Some a \<and>
       al_checkSum a = CalculateCheckSum (ph_sha256 h) (ps_Ranges (pool_Spec p)))) \<and>
    (server w' \<noteq> server w \<longrightarrow> (\<exists>q. server w' = (server w)(pool_Name p \<mapsto> q) \<and>
       st_Total (pool_Status q) = sum_list (map countIP rs) \<and>
       st_Available (pool_Status q) = st_Total (pool_Status q) - of_nat (length (entries (pool_Allocated p))) \<and>
       pool_History q = Some (filter (\<lambda>(k, i). rangeset_Contains rs (ParseIP k)) (entries (pool_History p)))))"
proof -
  let ?n = "pool_Name p" and ?new = "NewAllocator (ph_sha256 h) (pool_Name p) (ps_Ranges (pool_Spec p)) ca cl"
  let ?sum = "CalculateCheckSum (ph_sha256 h) (ps_Ranges (pool_Spec p))"
  show ?thesis
  proof (cases "case sam_Get ?n am of None \<Rightarrow> True | Some prev \<Rightarrow> al_checkSum prev \<noteq> ?sum")
    case False
    then have "am' = am" "w' = w" "\<exists>a. sam_Get ?n am = Some a \<and> al_checkSum a = ?sum"
      using assms(9,10) by (auto simp: pool_OnChange_def split: option.splits)
    then show ?thesis using assms(4,5) by simp
  next
    case new: True
    show ?thesis
    proof (cases ?new)
      case (Inl e)
      then have "am' = am" "w' = w" "err = Some e" using assms(2,3,9,10) new by (simp_all add: pool_OnChange_def)
      then show ?thesis using assms(4,5) by simp
    next
      case (Inr a)
      obtain x where up: "pool_updateStatus h p (al_total a) w = (x, w')" "am' = sam_AddOrUpdate ?n a am"
        using assms(2,3,9,10) new Inr by (auto simp: pool_OnChange_def Let_def split: prod.splits sum.splits)
      have a: "ia_rangeset (al_IPAllocator a) = rs" "al_total a = sum_list (map countIP rs)" "al_checkSum a = ?sum"
        using NewAllocator_Inr [OF Inr] assms(7) by (metis sum.inject(2))+
      have am': "allocators_ok ca cl am'"
        using allocators_ok_add [OF assms(4) Inr] assms(8) a(1) up(2) by simp
      have get: "sam_Get ?n am' = Some a" by (simp add: up(2) sam_Get_def sam_AddOrUpdate_def m_get_set)
      note out = pool_api.updateStatus_outcome [OF assms(1,5,6,3) up(1)]
      have "server w' = server w \<or> (\<exists>q. server w' = (server w)(?n \<mapsto> q) \<and>
         st_Total (pool_Status q) = al_total a \<and> pool_Allocated q = pool_Allocated p \<and> pool_inv q \<and>
         pool_History q = Some (filter (\<lambda>(k, i). rangeset_Contains rs (ParseIP k)) (entries (pool_History p))))"
        using out assms(7) by (metis sum.inject(2))
      then have "server w' \<noteq> server w \<longrightarrow> (\<exists>q. server w' = (server w)(?n \<mapsto> q) \<and>
         st_Total (pool_Status q) = sum_list (map countIP rs) \<and>
         st_Available (pool_Status q) = st_Total (pool_Status q) - of_nat (length (entries (pool_Allocated p))) \<and>
         pool_History q = Some (filter (\<lambda>(k, i). rangeset_Contains rs (ParseIP k)) (entries (pool_History p))))"
        by (auto simp: a(2) status_inv_def)
      then show ?thesis using out am' get a(3) by blast
    qed
  qed
qed

definition pool_handler :: "PoolServer PoolHandler" where
  "pool_handler = \<lparr>ph_ipPoolCache = server_cache, ph_ipPoolClient = server_client, ph_lbs = plain_ops,
     ph_configMaps = \<lparr>cmo_Get = (\<lambda>ns n w. Inl (not_found n)), cmo_List = (\<lambda>w. Inr []), cmo_Update = (\<lambda>cm w. (Inr cm, w))\<rparr>,
     ph_sha256 = id, ph_unmarshal = (\<lambda>s. Inr []), ph_now = ''t0''\<rparr>"

theorem pool_change_sound_witness:
  "\<exists>o' err am' w'. pool_OnChange pool_handler (Some demo_released) [] released_world = ((o', err), am', w') \<and>
    allocators_ok server_cache server_client am' \<and> ledgers server_pool w' = ledgers server_pool released_world"
proof -
  obtain o' err am' w' where r: "pool_OnChange pool_handler (Some demo_released) [] released_world = ((o', err), am', w')"
    by (metis prod.collapse)
  have none: "allocators_ok server_cache server_client []" by (simp add: allocators_ok_def sam_Get_def)
  have rs: "LBRangesToAllocatorRangeSet (ps_Ranges (pool_Spec demo_released)) = Inr [demo_arange]"
    using demo_ranges(1) by (simp add: demo_released_def)
  have g: "pc_Get server_cache (pool_Name demo_released) released_world = Inr demo_released"
    by (simp add: server_cache_def srv_Get_def released_world_def demo_released_def demo_pool_def mk_pool_def)
  have d: "md_DeletionTimestamp (pool_Meta demo_released) = None"
    by (simp add: demo_released_def demo_pool_def mk_pool_def empty_meta_def)
  have h: "ph_ipPoolCache pool_handler = server_cache" "ph_ipPoolClient pool_handler = server_client"
    by (simp_all add: pool_handler_def)
  show ?thesis
    using pool_change_sound [OF ps.pool_api_axioms h none released_sound g rs demo_rangeset_ok d r] r by blast
qed

text \<open>
  The allocator is stored before the status is written, and its check sum decides whether anything
  is done: once the write has failed, no later call for the same ranges repeats it.
\<close>

theorem failed_correction_not_retried:
  assumes "pool_OnChange h (Some p) am w = ((o', Some e), am', w')"
    and "NewAllocator (ph_sha256 h) (pool_Name p) (ps_Ranges (pool_Spec p)) (ph_ipPoolCache h) (ph_ipPoolClient h) = Inr a"
    and "pool_Name q = pool_Name p" and "ps_Ranges (pool_Spec q) = ps_Ranges (pool_Spec p)"
    and "md_DeletionTimestamp (pool_Meta q) = None"
  shows "pool_OnChange h (Some q) am' w2 = ((Some q, None), am', w2)"
proof -
  have "am' = sam_AddOrUpdate (pool_Name p) a am"
    using assms(1,2) by (auto simp: pool_OnChange_def Let_def split: if_splits prod.splits sum.splits option.splits)
  then have "sam_Get (pool_Name q) am' = Some a" using assms(3) by (simp add: sam_Get_def sam_AddOrUpdate_def m_get_set)
  moreover have "al_checkSum a = CalculateCheckSum (ph_sha256 h) (ps_Ranges (pool_Spec q))"
    using NewAllocator_Inr [OF assms(2)] assms(4) by metis
  ultimately show ?thesis using assms(5) by (simp add: pool_OnChange_def)
qed

section \<open>Manual release\<close>

lemma Trim_space_ends:
  assumes "hd s \<noteq> CHR '' ''" and "last s \<noteq> CHR '' ''"
  shows "Trim_space s = s"
proof -
  have "dropWhile (\<lambda>c. c = CHR '' '') s = s" using assms(1) by (simp add: dropWhile_eq_self_iff)
  moreover have "dropWhile (\<lambda>c. c = CHR '' '') (rev s) = rev s" using assms(2) by (simp add: dropWhile_eq_self_iff hd_rev)
  ultimately show ?thesis by (simp add: Trim_space_def)
qed

lemma Trim_space_id: "CHR '' '' \<notin> set s \<Longrightarrow> Trim_space s = s"
  by (cases "s = []") (simp add: Trim_space_def, metis Trim_space_ends hd_in_set last_in_set)

lemma Trim_space_first: "Trim_space (CHR '' '' # s) = Trim_space s"
  by (simp add: Trim_space_def)

text \<open>
  \<^bold>\<open>C37.\<close> The record of a manual release, written as in the comment of the code, \<open>address: namespace/name\<close>,
  reads back exactly when the address has no colon: for an IPv4 address the three parts are
  returned, for an IPv6 address the record is refused.
\<close>

theorem release_record_roundtrip:
  assumes "set ip \<inter> {CHR '' ''} = {}" and "ip \<noteq> ''''" and "name \<noteq> ''''"
    and "set namespace \<inter> {CHR '' '', CHR '':'', CHR ''/''} = {}"
    and "set name \<inter> {CHR '' '', CHR '':'', CHR ''/''} = {}"
  shows "ok (SplitIPAllocatedString (ip @ '': '' @ namespace @ ''/'' @ name)) = (CHR '':'' \<notin> set ip) \<and>
    (CHR '':'' \<notin> set ip \<longrightarrow> SplitIPAllocatedString (ip @ '': '' @ namespace @ ''/'' @ name) = Inr (ip, namespace, name))"
proof -
  let ?s = "ip @ '': '' @ namespace @ ''/'' @ name" and ?b = "'' '' @ namespace @ ''/'' @ name"
  have "hd ?s \<noteq> CHR '' ''" "last ?s \<noteq> CHR '' ''" "?s \<noteq> []"
    using assms(1-3,5) by (auto simp: hd_append last_append) (metis hd_in_set last_in_set)+
  then have t: "Trim_space ?s = ?s" by (intro Trim_space_ends)
  have b: "Trim_space ?b = namespace @ ''/'' @ name"
    using assms(4,5) by (simp add: Trim_space_first Trim_space_id)
  have two: "Split (CHR ''/'') (namespace @ ''/'' @ name) = [namespace, name]"
    using assms(4,5) by (simp add: Split_append_sep)
  show ?thesis
  proof (cases "CHR '':'' \<in> set ip")
    case False
    then have "Split (CHR '':'') ?s = [ip, ?b]" using assms(4,5) by (simp add: Split_append_sep)
    then show ?thesis using t b two False by (simp add: SplitIPAllocatedString_def Let_def)
  next
    case True
    have "length (Split (CHR '':'') ?s) \<noteq> 2" using True by (simp add: length_Split)
    then show ?thesis using t True
      by (auto simp: SplitIPAllocatedString_def Let_def split: list.splits)
  qed
qed

theorem release_record_roundtrip_witness:
  "SplitIPAllocatedString ''192.168.5.12: default/cluster1-lb-3'' = Inr (''192.168.5.12'', ''default'', ''cluster1-lb-3'') \<and>
   \<not> ok (SplitIPAllocatedString ''2001:db8::1: default/lb1'')"
  using release_record_roundtrip [of "''192.168.5.12''" "''cluster1-lb-3''" "''default''"]
    release_record_roundtrip [of "''2001:db8::1''" "''lb1''" "''default''"] by simp

section \<open>Removal of a guest cluster\<close>

text \<open>
  Two load balancers of a guest cluster, the deletion of the first fails and that of the second
  succeeds: the log line after the loop calls a method of the last error, which is nil.
\<close>

definition guest_vm :: VirtualMachine where
  "guest_vm = \<lparr>vm_Meta = empty_meta\<lparr>md_Name := ''node1'', md_Namespace := ''default'',
     md_Labels := Some [(LabelKeyHarvesterCreator, GuestClusterHarvesterNodeDriver), (LabelKeyGuestClusterNameOnVM, ''rke'')],
     md_Annotations := Some [(AnnotationKeyGuestClusterOnRemove, ValueTrue)]\<rparr>\<rparr>"

definition failing_ops :: "unit LBOps" where
  "failing_ops = plain_ops\<lparr>lbo_List := (\<lambda>ns sel w. Inr [cluster_lb,
       cluster_lb\<lparr>lb_Meta := (lb_Meta cluster_lb)\<lparr>md_Name := ''lb2''\<rparr>\<rparr>]),
     lbo_Delete := (\<lambda>ns n w. (if n = ''lb1'' then Some (Error ''timeout'' []) else None, w))\<rparr>"

theorem clean_guest_cluster_panics:
  "snd (fst (CleanGuestClusterLBs failing_ops (Some guest_vm) ())) = Some nil_error"
  by code_simp

end
