(* ===== verification/KubeVipProps.thy ===== *)
theory KubeVipProps
  imports KubeVip IpamProps
begin

text \<open>
  Properties of the conversion of the kube-vip configuration: the subnet computed for a range that
  is given by its two ends, and the ranges for which that subnet is of no use.
\<close>

lemma find_descending:
  assumes "find Q (map int (rev [0..<n])) = Some x"
  shows "\<exists>i < n. x = int i \<and> Q x \<and> (\<forall>j. i < j \<and> j < n \<longrightarrow> \<not> Q (int j))"
  using assms
proof (induction n)
  case (Suc n)
  show ?case
  proof (cases "Q (int n)")
    case True
    then show ?thesis using Suc.prems by auto
  next
    case False
    then obtain i where "i < n" "x = int i" "Q x" "\<forall>j. i < j \<and> j < n \<longrightarrow> \<not> Q (int j)"
      using Suc by auto
    then show ?thesis using False by (metis less_Suc_eq)
  qed
qed simp

lemma find_descending_ex:
  assumes "Q 0" and "0 < n"
  shows "find Q (map int (rev [0..<n])) \<noteq> None"
  using assms by (auto simp: find_None_iff intro!: bexI [of _ 0])

lemma mask_bytes_idem: "mask_bytes (mask_bytes a m) m = mask_bytes a m"
  by (induction a m rule: list_induct2') (simp_all add: mask_bytes_def and.assoc)

lemma ip_Mask_v4:
  assumes "length a = 16" and "To4 a \<noteq> []" and "length m = 4"
  shows "ip_Mask a m = mask_bytes (To4 a) m" and "length (ip_Mask a m) = 4"
  using assms by (auto simp: ip_Mask_def To4_def mask_bytes_def split: if_splits)

lemma net_Contains_v4:
  assumes "length (net_IP n) = 4" and "length (net_Mask n) = 4" and "To4 a \<noteq> []"
  shows "net_Contains n a \<longleftrightarrow> mask_bytes (net_IP n) (net_Mask n) = mask_bytes (To4 a) (net_Mask n)"
  using assms length_To4 [of a] by (auto simp: net_Contains_def networkNumberAndMask_def)

text \<open>
  \<^bold>\<open>C36.\<close> The subnet that \<^verbatim>\<open>getIPNet\<close> computes from the two ends of an IPv4 range contains
  both ends and has at most 31 bits of prefix, and no subnet with a longer prefix of at most 31
  bits contains both.
\<close>

theorem getIPNet_smallest:
  assumes "To4 (ParseIP s) \<noteq> []" and "To4 (ParseIP t) \<noteq> []"
  shows "\<exists>net i. getIPNet s t = Inr net \<and> i \<le> 31 \<and> net_Mask net = mask_from i 4 \<and>
    net_Contains net (ParseIP s) \<and> net_Contains net (ParseIP t) \<and>
    (\<forall>n j. length (net_IP n) = 4 \<and> net_Mask n = mask_from j 4 \<and> j \<le> 31 \<and>
       net_Contains n (ParseIP s) \<and> net_Contains n (ParseIP t) \<longrightarrow> j \<le> i)"
proof -
  let ?s = "ParseIP s" and ?t = "ParseIP t"
  have ne: "?s \<noteq> []" "?t \<noteq> []" using assms by (auto simp: To4_def)
  have l16: "length ?s = 16" "length ?t = 16" using ne ParseIP_length by blast+
  have l4: "length (To4 ?s) = 4" "length (To4 ?t) = 4" using assms length_To4 by blast+
  let ?Q = "\<lambda>i. ip_Equal (ip_Mask ?s (CIDRMask i 32)) (ip_Mask ?t (CIDRMask i 32))"
  have cm: "CIDRMask (int i) 32 = mask_from i 4" if "i \<le> 31" for i using that by (simp add: CIDRMask_def)
  have Q: "?Q (int i) \<longleftrightarrow> mask_bytes (To4 ?s) (mask_from i 4) = mask_bytes (To4 ?t) (mask_from i 4)" if "i \<le> 31" for i
    using ip_Mask_v4 [OF l16(1) assms(1)] ip_Mask_v4 [OF l16(2) assms(2)] by (simp add: cm [OF that] ip_Equal_def)
  have "?Q 0" using Q [of 0] l4 by (simp add: mask_from_zero mask_bytes_zero)
  then obtain x where x: "find ?Q (map int (rev [0..<32])) = Some x" using find_descending_ex [of ?Q 32] by auto
  obtain i where i: "i < 32" "x = int i" "?Q x" "\<forall>j. i < j \<and> j < 32 \<longrightarrow> \<not> ?Q (int j)"
    using find_descending [OF x] by blast
  let ?m = "mask_from i 4"
  let ?net = "\<lparr>net_IP = ip_Mask ?s ?m, net_Mask = ?m\<rparr>"
  have i31: "i \<le> 31" using i(1) by simp
  have get: "getIPNet s t = Inr ?net"
    using ne l4 x i(2) cm [OF i31] by (simp add: getIPNet_def common_prefix_def Let_def)
  have eq: "mask_bytes (To4 ?s) ?m = mask_bytes (To4 ?t) ?m" using Q [OF i31] i(2,3) by simp
  have net: "net_IP ?net = mask_bytes (To4 ?s) ?m" "length (net_IP ?net) = 4"
    using ip_Mask_v4 [OF l16(1) assms(1), of ?m] by simp_all
  have con: "net_Contains ?net ?s" "net_Contains ?net ?t"
    using net_Contains_v4 [OF net(2)] assms net(1) eq by (simp_all add: mask_bytes_idem)
  have "j \<le> i" if n: "length (net_IP n) = 4" "net_Mask n = mask_from j 4" "j \<le> 31" "net_Contains n ?s" "net_Contains n ?t" for n j
  proof (rule ccontr)
    assume "\<not> j \<le> i"
    then have "\<not> ?Q (int j)" using i(4) n(3) by simp
    moreover have "mask_bytes (To4 ?s) (mask_from j 4) = mask_bytes (To4 ?t) (mask_from j 4)"
      using net_Contains_v4 [OF n(1)] n(2,4,5) assms by simp
    ultimately show False using Q [OF n(3)] by simp
  qed
  then show ?thesis using get i31 con by (intro exI [of _ ?net] exI [of _ i]) auto
qed

theorem getIPNet_smallest_witness:
  "\<exists>net i. getIPNet ''192.168.1.10'' ''192.168.1.20'' = Inr net \<and> i \<le> 31 \<and> net_Mask net = mask_from i 4 \<and>
    net_Contains net (ParseIP ''192.168.1.10'') \<and> net_Contains net (ParseIP ''192.168.1.20'')"
proof -
  have "To4 (ParseIP ''192.168.1.10'') \<noteq> []" "To4 (ParseIP ''192.168.1.20'') \<noteq> []" by code_simp+
  from getIPNet_smallest [OF this] show ?thesis by blast
qed

text \<open>
  Two kinds of range come out unusable: the subnet of an IPv6 range is written as \<open>\<^verbatim>\<open><nil>\<close>\<close>, and
  a range whose ends are the two addresses of a /31 block gets that block as its subnet. The allocator
  refuses both.
\<close>

theorem kubevip_ranges_refused:
  "\<exists>r6 r4. parse_one formatRange ''2001:db8::1-2001:db8::9'' = Inr r6 \<and> lb_Subnet r6 = ''<nil>'' \<and> \<not> ok (MakeRange r6) \<and>
    parse_one formatRange ''10.0.0.2-10.0.0.3'' = Inr r4 \<and> lb_Subnet r4 = ''10.0.0.2/31'' \<and> \<not> ok (MakeRange r4)"
proof -
  let ?r6 = "\<lparr>lb_RangeStart = ''2001:db8::1'', lb_RangeEnd = ''2001:db8::9'', lb_Subnet = ''<nil>'', lb_Gateway = ''''\<rparr>"
  let ?r4 = "\<lparr>lb_RangeStart = ''10.0.0.2'', lb_RangeEnd = ''10.0.0.3'', lb_Subnet = ''10.0.0.2/31'', lb_Gateway = ''''\<rparr>"
  have "parse_one formatRange ''2001:db8::1-2001:db8::9'' = Inr ?r6" by code_simp
  moreover have "\<not> ok (MakeRange ?r6)" by code_simp
  moreover have "parse_one formatRange ''10.0.0.2-10.0.0.3'' = Inr ?r4" by code_simp
  moreover have "\<not> ok (MakeRange ?r4)" by code_simp
  ultimately show ?thesis by (intro exI [of _ ?r6] exI [of _ ?r4]) simp
qed

end
