(* ===== verification/LBConverter.thy ===== *)
theory LBConverter
  imports ServiceLB
begin

text \<open>
  Conversion of load balancers between the API versions v1alpha1 and v1beta1
  (\<^verbatim>\<open>pkg/webhook/loadbalancer/converter.go\<close>, \<^verbatim>\<open>keys.go\<close>).

  The converter works on unstructured objects, trees of Go interface values: \<open>uval\<close> has a
  constructor for every dynamic type the code stores or asserts, and \<open>UOther\<close> for those it
  never asserts (booleans and floats). A type assertion on another dynamic type panics. The object is
  copied before it is changed and the copy is dropped on an error, so the maps are values here.
\<close>

datatype uval =
    UNil
  | UStr string
  | UInt int64
  | UMap "(string \<times> uval) list"
  | UList "uval list"
  | UAddr AllocatedAddress
  | UListeners "Listener list"
  | UStrs "string list"
  | USelector "(string, string list) gomap"
  | UOther

type_synonym umap = "(string, uval) gomap"

definition u_get :: "umap \<Rightarrow> string \<Rightarrow> uval" where
  "u_get m k = (case m_get m k of None \<Rightarrow> UNil | Some v \<Rightarrow> v)"

definition assertion_panic :: error where
  "assertion_panic = Panic ''interface conversion''"

fun as_map :: "uval \<Rightarrow> umap res" where
  "as_map (UMap m) = Inr m"
| "as_map _ = Inl assertion_panic"

fun as_list :: "uval \<Rightarrow> uval list res" where
  "as_list (UList l) = Inr l"
| "as_list _ = Inl assertion_panic"

fun as_string :: "uval \<Rightarrow> string res" where
  "as_string (UStr s) = Inr s"
| "as_string _ = Inl assertion_panic"

fun as_int64 :: "uval \<Rightarrow> int64 res" where
  "as_int64 (UInt i) = Inr i"
| "as_int64 _ = Inl assertion_panic"

section \<open>Keys\<close>

definition keySpec :: string where "keySpec = ''spec''"
definition keyStatus :: string where "keyStatus = ''status''"
definition keyAddress :: string where "keyAddress = ''address''"
definition keyIPAM :: string where "keyIPAM = ''ipam''"
definition keyIPPool :: string where "keyIPPool = ''ipPool''"
definition keyAllocatedAddress :: string where "keyAllocatedAddress = ''allocatedAddress''"
definition keyListeners :: string where "keyListeners = ''listeners''"
definition keyName :: string where "keyName = ''name''"
definition keyPort :: string where "keyPort = ''port''"
definition keyProtocol :: string where "keyProtocol = ''protocol''"
definition keyBackendPort :: string where "keyBackendPort = ''backendPort''"
definition keyBackendServers :: string where "keyBackendServers = ''backendServers''"
definition keyBackendServerSelector :: string where "keyBackendServerSelector = ''backendServerSelector''"
definition keyVMName :: string where "keyVMName = ''harvesterhci.io/vmName''"

lemmas key_defs = keySpec_def keyStatus_def keyAddress_def keyIPAM_def keyIPPool_def keyAllocatedAddress_def
  keyListeners_def keyName_def keyPort_def keyProtocol_def keyBackendPort_def keyBackendServers_def
  keyBackendServerSelector_def

section \<open>Metadata of an unstructured object\<close>

text \<open>A field that is absent or no string reads as the empty string.\<close>

definition u_string :: "umap \<Rightarrow> string \<Rightarrow> string" where
  "u_string m k = (case u_get m k of UStr s \<Rightarrow> s | _ \<Rightarrow> '''')"

definition u_meta :: "umap \<Rightarrow> umap" where
  "u_meta obj = (case u_get obj ''metadata'' of UMap m \<Rightarrow> m | _ \<Rightarrow> [])"

definition GetAPIVersion :: "umap \<Rightarrow> string" where
  "GetAPIVersion obj = u_string obj ''apiVersion''"

definition SetAPIVersion :: "string \<Rightarrow> umap \<Rightarrow> umap" where
  "SetAPIVersion v obj = m_set ''apiVersion'' (UStr v) obj"

section \<open>The conversion\<close>

definition addr_vmi_map :: "VirtualMachineInstance list \<Rightarrow> (string, VirtualMachineInstance) gomap" where
  "addr_vmi_map vmis =
     fold (\<lambda>vmi m. case GetAddress vmi of None \<Rightarrow> m | Some addr \<Rightarrow> m_set addr vmi m) vmis []"

definition convertBackendServersToBackendServerSelector ::
  "'w VmiList \<Rightarrow> string list \<Rightarrow> string \<Rightarrow> 'w \<Rightarrow> (string, string list) gomap res" where
  "convertBackendServersToBackendServerSelector vmiList backendServers namespace w =
     (case vmiList namespace [] w of
        Inl e \<Rightarrow> Inl (errorf (''list vmi failed, error: '' @ err_text e))
      | Inr vmis \<Rightarrow>
          let m = addr_vmi_map vmis in
          Inr [(keyVMName, map (\<lambda>vmi. md_Name (vmi_Meta vmi)) (List.map_filter (m_get m) backendServers))])"

definition getPoolByAddressOfV1alpha1LB ::
  "'w IPPoolCache \<Rightarrow> string \<Rightarrow> string \<Rightarrow> string \<Rightarrow> 'w \<Rightarrow> string res" where
  "getPoolByAddressOfV1alpha1LB ca addr lbName lbNamespace w =
     (let name = lbNamespace @ ''/'' @ lbName in
      case pc_List ca [] w of
        Inl e \<Rightarrow> Inl e
      | Inr pools \<Rightarrow>
          (case find (\<lambda>p. str_get (pool_Allocated p) addr = name) pools of
             Some p \<Rightarrow> Inr (pool_Name p)
           | None \<Rightarrow> Inl (errorf (''not found pool for lb '' @ name @ '' with address '' @ addr))))"

definition convert_listener :: "uval \<Rightarrow> Listener res" where
  "convert_listener v =
     (case as_map v of
        Inl e \<Rightarrow> Inl e
      | Inr l \<Rightarrow>
          (case (as_string (u_get l keyName), as_int64 (u_get l keyPort), as_string (u_get l keyProtocol),
                 as_int64 (u_get l keyBackendPort)) of
             (Inr n, Inr p, Inr pr, Inr b) \<Rightarrow>
               Inr \<lparr>l_Name = n, l_Port = ucast p, l_Protocol = pr, l_BackendPort = ucast b\<rparr>
           | _ \<Rightarrow> Inl assertion_panic))"

definition convert_listeners :: "umap \<Rightarrow> umap res" where
  "convert_listeners spec =
     (if u_get spec keyListeners = UNil then Inr spec
      else (case as_list (u_get spec keyListeners) of
          Inl e \<Rightarrow> Inl e
        | Inr ls \<Rightarrow>
            (case res_map convert_listener ls of
               Inl e \<Rightarrow> Inl e
             | Inr ls' \<Rightarrow> Inr (m_set keyListeners (UListeners ls') spec))))"

definition convert_address :: "'w IPPoolCache \<Rightarrow> umap \<Rightarrow> umap \<Rightarrow> umap \<Rightarrow> 'w \<Rightarrow> (umap \<times> umap) res" where
  "convert_address ca obj spec status w =
     (case m_get status keyAddress of
        None \<Rightarrow> Inr (spec, status)
      | Some addr \<Rightarrow>
          if u_get spec keyIPAM = UStr PoolIPAM then
            (case as_string addr of
               Inl e \<Rightarrow> Inl e
             | Inr a \<Rightarrow>
                 (case getPoolByAddressOfV1alpha1LB ca a (u_string (u_meta obj) ''name'')
                         (u_string (u_meta obj) ''namespace'') w of
                    Inl e \<Rightarrow> Inl e
                  | Inr pool \<Rightarrow>
                      Inr (m_set keyIPPool (UStr pool) spec,
                           m_set keyAllocatedAddress (UAddr (empty_address\<lparr>aa_IPPool := pool, aa_IP := a\<rparr>)) status)))
          else Inr (spec, m_set keyAllocatedAddress (UAddr (empty_address\<lparr>aa_IP := Address4AskDHCP\<rparr>)) status))"

definition convert_servers :: "'w VmiList \<Rightarrow> umap \<Rightarrow> umap \<Rightarrow> umap \<Rightarrow> 'w \<Rightarrow> (umap \<times> umap) res" where
  "convert_servers vmiList obj spec status w =
     (if u_get spec keyBackendServers = UNil then Inr (spec, status)
      else (case as_list (u_get spec keyBackendServers) of
          Inl e \<Rightarrow> Inl e
        | Inr vs \<Rightarrow>
            (case res_map as_string vs of
               Inl e \<Rightarrow> Inl e
             | Inr servers \<Rightarrow>
                 (case convertBackendServersToBackendServerSelector vmiList servers
                         (u_string (u_meta obj) ''namespace'') w of
                    Inl e \<Rightarrow> Inl e
                  | Inr sel \<Rightarrow>
                      Inr (m_set keyBackendServerSelector (USelector sel) spec,
                           m_set keyBackendServers (UStrs servers) status)))))"

definition convertFromV1alpha1ToV1beta1 :: "'w VmiList \<Rightarrow> 'w IPPoolCache \<Rightarrow> umap \<Rightarrow> 'w \<Rightarrow> umap res" where
  "convertFromV1alpha1ToV1beta1 vmiList ca obj w =
     (case as_map (u_get obj keySpec) of
        Inl e \<Rightarrow> Inl e
      | Inr spec \<Rightarrow>
          (case as_map (u_get obj keyStatus) of
             Inl e \<Rightarrow> Inl e
           | Inr status \<Rightarrow>
               (case convert_address ca obj spec status w of
                  Inl e \<Rightarrow> Inl e
                | Inr (spec1, status1) \<Rightarrow>
                    (case convert_listeners spec1 of
                       Inl e \<Rightarrow> Inl e
                     | Inr spec2 \<Rightarrow>
                         (case convert_servers vmiList obj spec2 status1 w of
                            Inl e \<Rightarrow> Inl e
                          | Inr (spec3, status3) \<Rightarrow>
                              Inr (m_set keyStatus (UMap status3) (m_set keySpec (UMap spec3) obj)))))))"

definition convertFromV1beta1ToV1alpha1 :: "umap \<Rightarrow> umap res" where
  "convertFromV1beta1ToV1alpha1 obj =
     (case as_map (u_get obj keySpec) of
        Inl e \<Rightarrow> Inl e
      | Inr spec \<Rightarrow>
          (case convert_listeners spec of
             Inl e \<Rightarrow> Inl e
           | Inr spec1 \<Rightarrow>
               if u_get obj keyStatus = UNil then Inr (m_set keySpec (UMap spec1) obj)
               else (case as_map (u_get obj keyStatus) of
                   Inl e \<Rightarrow> Inl e
                 | Inr status \<Rightarrow>
                     Inr (m_set keySpec (UMap (m_set keyBackendServers (u_get status keyBackendServers) spec1)) obj))))"

definition v1alpha1_version :: string where
  "v1alpha1_version = GroupName @ ''/v1alpha1''"

definition Convert :: "'w VmiList \<Rightarrow> 'w IPPoolCache \<Rightarrow> umap \<Rightarrow> string \<Rightarrow> 'w \<Rightarrow> umap res" where
  "Convert vmiList ca obj toVersion w =
     (if GetAPIVersion obj = toVersion
      then Inl (errorf (''conversion from a version to itself should not call the webhook: '' @ toVersion))
      else
        let convertedObj = SetAPIVersion toVersion obj in
        if toVersion = SchemeGroupVersion then convertFromV1alpha1ToV1beta1 vmiList ca convertedObj w
        else if toVersion = v1alpha1_version then convertFromV1beta1ToV1alpha1 convertedObj
        else Inl (errorf (''unexpected conversion version '' @ [CHR 0x22] @ toVersion @ [CHR 0x22])))"

end
