(* ===== verification/LBConverterProps.thy ===== *)
theory LBConverterProps
  imports LBConverter IpamProps
begin

text \<open>
  Properties of the conversion of load balancers from v1alpha1 to v1beta1: on objects whose fields
  have the types the code asserts it never panics, and a converted object names the pool that
  records its address.
\<close>

section \<open>Typed objects\<close>

definition is_str :: "uval \<Rightarrow> bool" where
  "is_str v = (case v of UStr s \<Rightarrow> True | _ \<Rightarrow> False)"

definition is_int64 :: "uval \<Rightarrow> bool" where
  "is_int64 v = (case v of UInt i \<Rightarrow> True | _ \<Rightarrow> False)"

definition typed_listener :: "uval \<Rightarrow> bool" where
  "typed_listener v = (case v of
     UMap l \<Rightarrow> is_str (u_get l keyName) \<and> is_int64 (u_get l keyPort) \<and> is_str (u_get l keyProtocol) \<and>
       is_int64 (u_get l keyBackendPort)
   | _ \<Rightarrow> False)"

definition typed_list :: "(uval \<Rightarrow> bool) \<Rightarrow> uval \<Rightarrow> bool" where
  "typed_list P v = (case v of UNil \<Rightarrow> True | UList vs \<Rightarrow> list_all P vs | _ \<Rightarrow> False)"

definition typed_lb :: "umap \<Rightarrow> bool" where
  "typed_lb obj = (case (u_get obj keySpec, u_get obj keyStatus) of
     (UMap spec, UMap status) \<Rightarrow>
       typed_list typed_listener (u_get spec keyListeners) \<and> typed_list is_str (u_get spec keyBackendServers) \<and>
       (case m_get status keyAddress of None \<Rightarrow> True | Some v \<Rightarrow> is_str v)
   | _ \<Rightarrow> False)"

definition listener_of :: "uval \<Rightarrow> Listener \<Rightarrow> bool" where
  "listener_of v l = (case v of
     UMap m \<Rightarrow> u_get m keyName = UStr (l_Name l) \<and> u_get m keyProtocol = UStr (l_Protocol l) \<and>
       (case (u_get m keyPort, u_get m keyBackendPort) of
          (UInt p, UInt b) \<Rightarrow> l_Port l = ucast p \<and> l_BackendPort l = ucast b | _ \<Rightarrow> False)
   | _ \<Rightarrow> False)"

lemma is_str_iff: "is_str v \<longleftrightarrow> (\<exists>s. v = UStr s)" and is_int64_iff: "is_int64 v \<longleftrightarrow> (\<exists>i. v = UInt i)"
  by (auto simp: is_str_def is_int64_def split: uval.splits)

lemma typed_listI:
  assumes "typed_list P v" and "v \<noteq> UNil"
  obtains vs where "v = UList vs" and "list_all P vs"
  using assms by (auto simp: typed_list_def split: uval.splits)

section \<open>The steps of the conversion\<close>

lemma convert_listener_typed: "typed_listener v \<Longrightarrow> \<exists>l. convert_listener v = Inr l \<and> listener_of v l"
  by (cases v) (auto simp: typed_listener_def convert_listener_def listener_of_def is_str_iff is_int64_iff)

lemma res_map_typed:
  assumes "list_all P vs" and "\<And>v. P v \<Longrightarrow> \<exists>l. f v = Inr l \<and> R v l"
  shows "\<exists>ls. res_map f vs = Inr ls \<and> list_all2 R vs ls"
  using assms(1) by (induction vs) (use assms(2) in fastforce)+

lemma convert_listeners_typed:
  assumes "typed_list typed_listener (u_get spec keyListeners)"
  obtains spec' where "convert_listeners spec = Inr spec'"
    and "\<forall>k. k \<noteq> keyListeners \<longrightarrow> m_get spec' k = m_get spec k"
    and "case u_get spec keyListeners of
      UList vs \<Rightarrow> \<exists>ls. u_get spec' keyListeners = UListeners ls \<and> list_all2 listener_of vs ls | _ \<Rightarrow> spec' = spec"
proof (cases "u_get spec keyListeners = UNil")
  case True
  then show thesis by (intro that [of spec]) (simp_all add: convert_listeners_def)
next
  case False
  then obtain vs where vs: "u_get spec keyListeners = UList vs" "list_all typed_listener vs"
    using typed_listI [OF assms] by blast
  obtain ls where ls: "res_map convert_listener vs = Inr ls" "list_all2 listener_of vs ls"
    using res_map_typed [where f = convert_listener and R = listener_of, OF vs(2)] convert_listener_typed by blast
  show thesis
    by (rule that [of "m_set keyListeners (UListeners ls) spec"])
      (use vs ls in \<open>simp_all add: convert_listeners_def m_get_set u_get_def\<close>)
qed

definition pool_of_address :: "'w IPPoolCache \<Rightarrow> string \<Rightarrow> string \<Rightarrow> 'w \<Rightarrow> IPPool \<Rightarrow> bool" where
  "pool_of_address ca addr applicant w p \<longleftrightarrow>
     (\<exists>pools. pc_List ca [] w = Inr pools \<and> p \<in> set pools \<and> str_get (pool_Allocated p) addr = applicant)"

lemma getPool_Inr:
  assumes "getPoolByAddressOfV1alpha1LB ca addr name ns w = Inr n"
  obtains p where "pool_of_address ca addr (ns @ ''/'' @ name) w p" and "n = pool_Name p"
  using assms
  by (auto simp: getPoolByAddressOfV1alpha1LB_def pool_of_address_def Let_def find_Some_iff
      split: sum.splits option.splits) (metis nth_mem)

lemma getPool_Inl:
  assumes "getPoolByAddressOfV1alpha1LB ca addr name ns w = Inl e" and "\<And>e. pc_List ca [] w = Inl e \<Longrightarrow> \<not> is_panic e"
  shows "\<not> is_panic e"
  using assms by (auto simp: getPoolByAddressOfV1alpha1LB_def Let_def split: sum.splits option.splits)

text \<open>What the address step leaves in the spec and in the status.\<close>

definition address_converted :: "'w IPPoolCache \<Rightarrow> umap \<Rightarrow> umap \<Rightarrow> umap \<Rightarrow> umap \<Rightarrow> umap \<Rightarrow> 'w \<Rightarrow> bool" where
  "address_converted ca obj spec status spec' status' w \<longleftrightarrow>
     (case m_get status keyAddress of
        Some (UStr a) \<Rightarrow>
          if u_get spec keyIPAM = UStr PoolIPAM then
            (\<exists>p. pool_of_address ca a (u_string (u_meta obj) ''namespace'' @ ''/'' @ u_string (u_meta obj) ''name'') w p \<and>
               u_get spec' keyIPPool = UStr (pool_Name p) \<and>
               u_get status' keyAllocatedAddress = UAddr (empty_address\<lparr>aa_IPPool := pool_Name p, aa_IP := a\<rparr>))
          else u_get status' keyAllocatedAddress = UAddr (empty_address\<lparr>aa_IP := Address4AskDHCP\<rparr>)
      | _ \<Rightarrow> u_get spec' keyIPPool = u_get spec keyIPPool \<and> u_get status' keyAllocatedAddress = u_get status keyAllocatedAddress)"

lemma address_converted_cong:
  "u_get s keyIPPool = u_get s' keyIPPool \<Longrightarrow> u_get t keyAllocatedAddress = u_get t' keyAllocatedAddress \<Longrightarrow>
    address_converted ca obj spec status s t w = address_converted ca obj spec status s' t' w"
  by (simp only: address_converted_def)

lemma convert_address_Inr:
  assumes "convert_address ca obj spec status w = Inr (spec', status')"
    and "case m_get status keyAddress of None \<Rightarrow> True | Some v \<Rightarrow> is_str v"
  shows "address_converted ca obj spec status spec' status' w \<and> (\<forall>k. k \<noteq> keyIPPool \<longrightarrow> m_get spec' k = m_get spec k) \<and>
    (\<forall>k. k \<noteq> keyAllocatedAddress \<longrightarrow> m_get status' k = m_get status k)"
proof (cases "m_get status keyAddress")
  case None
  then show ?thesis using assms by (simp add: convert_address_def address_converted_def)
next
  case (Some v)
  show ?thesis
  proof (cases "u_get spec keyIPAM = UStr PoolIPAM")
    case False
    have "\<exists>a. v = UStr a" using assms(2) Some by (simp add: is_str_iff)
    moreover have "spec' = spec" "status' = m_set keyAllocatedAddress (UAddr (empty_address\<lparr>aa_IP := Address4AskDHCP\<rparr>)) status"
      using assms(1) Some False by (auto simp: convert_address_def)
    ultimately show ?thesis
      using Some False by (auto simp: address_converted_def u_get_def m_get_set)
  next
    case True
    then obtain a n where v: "v = UStr a" and n: "getPoolByAddressOfV1alpha1LB ca a (u_string (u_meta obj) ''name'')
        (u_string (u_meta obj) ''namespace'') w = Inr n"
      and out: "spec' = m_set keyIPPool (UStr n) spec"
        "status' = m_set keyAllocatedAddress (UAddr (empty_address\<lparr>aa_IPPool := n, aa_IP := a\<rparr>)) status"
      using assms(1) Some by (cases v) (auto simp: convert_address_def split: sum.splits)
    obtain p where "pool_of_address ca a (u_string (u_meta obj) ''namespace'' @ ''/'' @ u_string (u_meta obj) ''name'') w p"
      "n = pool_Name p" using getPool_Inr [OF n] .
    then show ?thesis
      using Some v True out by (auto simp: address_converted_def u_get_def m_get_set)
  qed
qed

lemma convert_address_Inl:
  assumes "convert_address ca obj spec status w = Inl e"
    and "case m_get status keyAddress of None \<Rightarrow> True | Some v \<Rightarrow> is_str v"
    and "\<And>e. pc_List ca [] w = Inl e \<Longrightarrow> \<not> is_panic e"
  shows "\<not> is_panic e"
proof -
  obtain a where "m_get status keyAddress = Some (UStr a)"
    using assms(1,2) by (auto simp: convert_address_def is_str_iff split: option.splits)
  then have "getPoolByAddressOfV1alpha1LB ca a (u_string (u_meta obj) ''name'') (u_string (u_meta obj) ''namespace'') w = Inl e"
    using assms(1) by (auto simp: convert_address_def split: if_splits sum.splits)
  from getPool_Inl [OF this assms(3)] show ?thesis .
qed

lemma convert_servers_typed:
  assumes "typed_list is_str (u_get spec keyBackendServers)"
    and "\<And>ns e. vmiList ns [] w = Inl e \<Longrightarrow> \<not> is_panic e"
  shows "case convert_servers vmiList obj spec status w of
      Inl e \<Rightarrow> \<not> is_panic e
    | Inr (spec', status') \<Rightarrow>
        (\<forall>k. k \<noteq> keyBackendServerSelector \<longrightarrow> m_get spec' k = m_get spec k) \<and>
        (\<forall>k. k \<noteq> keyBackendServers \<longrightarrow> m_get status' k = m_get status k) \<and>
        (case u_get spec keyBackendServers of
           UList vs \<Rightarrow> \<exists>ss. vs = map UStr ss \<and> u_get status' keyBackendServers = UStrs ss | _ \<Rightarrow> spec' = spec \<and> status' = status)"
proof (cases "u_get spec keyBackendServers = UNil")
  case True
  then show ?thesis by (simp add: convert_servers_def)
next
  case False
  then obtain vs where vs: "u_get spec keyBackendServers = UList vs" "list_all is_str vs"
    using typed_listI [OF assms(1)] by blast
  have str: "\<exists>s. as_string v = Inr s \<and> v = UStr s" if "is_str v" for v using that by (auto simp: is_str_iff)
  obtain ss where ss: "res_map as_string vs = Inr ss" "list_all2 (\<lambda>v s. v = UStr s) vs ss"
    using res_map_typed [where f = as_string and R = "\<lambda>v s. v = UStr s", OF vs(2)] str by blast
  have "vs = map UStr ss" using ss(2) by (simp add: list_all2_conv_all_nth list_eq_iff_nth_eq)
  then show ?thesis
    using vs(1) ss(1) assms(2)
    by (auto simp: convert_servers_def convertBackendServersToBackendServerSelector_def u_get_def m_get_set Let_def
        split: sum.splits)
qed

section \<open>The conversion\<close>

lemma conversion_outcome:
  assumes "typed_lb obj" and "GetAPIVersion obj \<noteq> SchemeGroupVersion"
    and "\<forall>e. pc_List ca [] w = Inl e \<longrightarrow> \<not> is_panic e" and "\<forall>ns e. vmiList ns [] w = Inl e \<longrightarrow> \<not> is_panic e"
  shows "case Convert vmiList ca obj SchemeGroupVersion w of
      Inl e \<Rightarrow> \<not> is_panic e
    | Inr obj' \<Rightarrow> GetAPIVersion obj' = SchemeGroupVersion \<and>
        (\<exists>spec status spec' status'. u_get obj keySpec = UMap spec \<and> u_get obj keyStatus = UMap status \<and>
           u_get obj' keySpec = UMap spec' \<and> u_get obj' keyStatus = UMap status' \<and>
           address_converted ca obj spec status spec' status' w \<and>
           (case u_get spec keyListeners of
              UList vs \<Rightarrow> \<exists>ls. u_get spec' keyListeners = UListeners ls \<and> list_all2 listener_of vs ls
            | _ \<Rightarrow> u_get spec' keyListeners = u_get spec keyListeners) \<and>
           (case u_get spec keyBackendServers of
              UList vs \<Rightarrow> \<exists>ss. vs = map UStr ss \<and> u_get status' keyBackendServers = UStrs ss
            | _ \<Rightarrow> True) \<and>
           (\<forall>k. k \<notin> {keyIPPool, keyListeners, keyBackendServerSelector} \<longrightarrow> m_get spec' k = m_get spec k))"
proof -
  let ?o = "SetAPIVersion SchemeGroupVersion obj"
  have lister: "\<And>e. pc_List ca [] w = Inl e \<Longrightarrow> \<not> is_panic e" "\<And>ns e. vmiList ns [] w = Inl e \<Longrightarrow> \<not> is_panic e"
    using assms(3,4) by blast+
  obtain spec status where o: "u_get obj keySpec = UMap spec" "u_get obj keyStatus = UMap status"
    and t: "typed_list typed_listener (u_get spec keyListeners)" "typed_list is_str (u_get spec keyBackendServers)"
      "case m_get status keyAddress of None \<Rightarrow> True | Some v \<Rightarrow> is_str v"
    using assms(1) by (auto simp: typed_lb_def split: uval.splits)
  have o': "u_get ?o keySpec = UMap spec" "u_get ?o keyStatus = UMap status" "u_meta ?o = u_meta obj"
    using o by (simp_all add: u_get_def SetAPIVersion_def m_get_set u_meta_def key_defs)
  have conv: "Convert vmiList ca obj SchemeGroupVersion w = convertFromV1alpha1ToV1beta1 vmiList ca ?o w"
    using assms(2) by (simp add: Convert_def Let_def)
  have addr: "address_converted ca ?o = address_converted ca obj"
    by (intro ext) (simp only: address_converted_def o'(3))
  show ?thesis
  proof (cases "convert_address ca ?o spec status w")
    case (Inl e)
    then show ?thesis
      using convert_address_Inl [OF Inl t(3) lister(1)] o' conv by (simp add: convertFromV1alpha1ToV1beta1_def)
  next
    case (Inr st)
    obtain spec1 status1 where st: "st = (spec1, status1)" by (cases st)
    note a = convert_address_Inr [OF Inr [unfolded st] t(3), unfolded addr]
    have keep1: "u_get spec1 keyListeners = u_get spec keyListeners" "u_get spec1 keyBackendServers = u_get spec keyBackendServers"
      using a by (simp_all add: u_get_def key_defs)
    obtain spec2 where ls: "convert_listeners spec1 = Inr spec2"
      "\<forall>k. k \<noteq> keyListeners \<longrightarrow> m_get spec2 k = m_get spec1 k"
      "case u_get spec1 keyListeners of
        UList vs \<Rightarrow> \<exists>ls. u_get spec2 keyListeners = UListeners ls \<and> list_all2 listener_of vs ls | _ \<Rightarrow> spec2 = spec1"
      using convert_listeners_typed [OF t(1) [folded keep1(1)]] .
    have t2: "typed_list is_str (u_get spec2 keyBackendServers)"
      using t(2) keep1(2) ls(2) by (simp add: u_get_def key_defs)
    note sv = convert_servers_typed [where vmiList = vmiList and w = w and obj = ?o and status = status1, OF t2 lister(2)]
    show ?thesis
    proof (cases "convert_servers vmiList ?o spec2 status1 w")
      case (Inl e)
      then show ?thesis using sv o' conv Inr st ls(1) by (simp add: convertFromV1alpha1ToV1beta1_def)
    next
      case srv: (Inr x)
      obtain spec3 status3 where x: "x = (spec3, status3)" by (cases x)
      let ?o3 = "m_set keyStatus (UMap status3) (m_set keySpec (UMap spec3) ?o)"
      have res: "Convert vmiList ca obj SchemeGroupVersion w = Inr ?o3"
        using o' conv Inr st ls(1) srv x by (simp add: convertFromV1alpha1ToV1beta1_def)
      have keep3: "\<And>k. k \<noteq> keyBackendServerSelector \<Longrightarrow> m_get spec3 k = m_get spec2 k"
        "\<And>k. k \<noteq> keyBackendServers \<Longrightarrow> m_get status3 k = m_get status1 k"
        using sv srv x by simp_all
      have servers3: "case u_get spec2 keyBackendServers of
           UList vs \<Rightarrow> \<exists>ss. vs = map UStr ss \<and> u_get status3 keyBackendServers = UStrs ss | _ \<Rightarrow> True"
        using sv srv x by (cases "u_get spec2 keyBackendServers") auto
      have same: "u_get spec3 keyIPPool = u_get spec1 keyIPPool" "u_get status3 keyAllocatedAddress = u_get status1 keyAllocatedAddress"
        using keep3(1,2) ls(2) by (simp_all add: u_get_def key_defs)
      have "address_converted ca obj spec status spec3 status3 w"
        unfolding address_converted_cong [OF same] using a by (rule conjunct1)
      moreover have "u_get spec3 keyListeners = u_get spec2 keyListeners" using keep3(1) by (simp add: u_get_def key_defs)
      then have "case u_get spec keyListeners of
          UList vs \<Rightarrow> \<exists>ls. u_get spec3 keyListeners = UListeners ls \<and> list_all2 listener_of vs ls
        | _ \<Rightarrow> u_get spec3 keyListeners = u_get spec keyListeners"
        using ls(3) keep1(1) by (auto split: uval.splits)
      moreover have "GetAPIVersion ?o3 = SchemeGroupVersion"
        "u_get ?o3 keySpec = UMap spec3" "u_get ?o3 keyStatus = UMap status3"
        by (simp_all add: GetAPIVersion_def u_string_def u_get_def SetAPIVersion_def m_get_set key_defs)
      moreover have "u_get spec2 keyBackendServers = u_get spec keyBackendServers"
        using keep1(2) ls(2) by (simp add: u_get_def key_defs)
      then have "case u_get spec keyBackendServers of
          UList vs \<Rightarrow> \<exists>ss. vs = map UStr ss \<and> u_get status3 keyBackendServers = UStrs ss | _ \<Rightarrow> True"
        using servers3 by simp
      moreover have "\<forall>k. k \<notin> {keyIPPool, keyListeners, keyBackendServerSelector} \<longrightarrow> m_get spec3 k = m_get spec k"
        using keep3(1) ls(2) a by simp
      ultimately show ?thesis unfolding res sum.case using o by blast
    qed
  qed
qed

text \<open>
  Conversion of a v1alpha1 load balancer whose fields have the asserted types, with listers
  that return errors and do not panic: it does not panic either. When it succeeds, the object has the
  new version; if its IPAM is pool and it has an address, the pool of the spec and of the allocated
  address is one that records this address for this load balancer; and the listeners are those
  of the old object, in order, with the ports cut to 32 bits.
\<close>

theorem conversion_sound:
  assumes "typed_lb obj" and "GetAPIVersion obj \<noteq> SchemeGroupVersion"
    and "\<And>e. pc_List ca [] w = Inl e \<Longrightarrow> \<not> is_panic e" and "\<And>ns e. vmiList ns [] w = Inl e \<Longrightarrow> \<not> is_panic e"
  shows "case Convert vmiList ca obj SchemeGroupVersion w of
      Inl e \<Rightarrow> \<not> is_panic e
    | Inr obj' \<Rightarrow> GetAPIVersion obj' = SchemeGroupVersion \<and>
        (case (u_get obj keySpec, u_get obj keyStatus, u_get obj' keySpec, u_get obj' keyStatus) of
           (UMap spec, UMap status, UMap spec', UMap status') \<Rightarrow>
             address_converted ca obj spec status spec' status' w \<and>
             (case u_get spec keyListeners of
                UList vs \<Rightarrow> \<exists>ls. u_get spec' keyListeners = UListeners ls \<and> list_all2 listener_of vs ls
              | _ \<Rightarrow> u_get spec' keyListeners = u_get spec keyListeners)
         | _ \<Rightarrow> False)"
proof -
  have "\<forall>e. pc_List ca [] w = Inl e \<longrightarrow> \<not> is_panic e" "\<forall>ns e. vmiList ns [] w = Inl e \<longrightarrow> \<not> is_panic e"
    using assms(3,4) by blast+
  note out = conversion_outcome [where ca = ca and w = w and vmiList = vmiList, OF assms(1,2) this]
  show ?thesis
  proof (cases "Convert vmiList ca obj SchemeGroupVersion w")
    case (Inl e)
    then show ?thesis using out unfolding Inl by simp
  next
    case (Inr obj')
    show ?thesis using out unfolding Inr sum.case by - (elim conjE exE, simp)
  qed
qed

definition old_lb :: umap where
  "old_lb = [(''apiVersion'', UStr v1alpha1_version),
     (''metadata'', UMap [(''name'', UStr ''lb1''), (''namespace'', UStr ''default'')]),
     (keySpec, UMap [(keyIPAM, UStr PoolIPAM), (keyListeners, UList [UMap [(keyName, UStr ''web''), (keyPort, UInt 80),
        (keyProtocol, UStr ''TCP''), (keyBackendPort, UInt 8080)]])]),
     (keyStatus, UMap [(keyAddress, UStr ''10.0.0.2'')])]"

definition old_world :: PoolServer where
  "old_world = demo_world\<lparr>srv_cache := [(''demo'', demo_used)]\<rparr>"

theorem conversion_sound_witness:
  "ok (Convert (\<lambda>ns sel w. Inr []) server_cache old_lb SchemeGroupVersion old_world) \<and>
   (case Convert (\<lambda>ns sel w. Inr []) server_cache old_lb SchemeGroupVersion old_world of
      Inl e \<Rightarrow> False | Inr obj' \<Rightarrow> GetAPIVersion obj' = SchemeGroupVersion)"
proof -
  let ?c = "Convert (\<lambda>ns sel w. Inr []) server_cache old_lb SchemeGroupVersion old_world"
  have t: "typed_lb old_lb" by code_simp
  have v: "GetAPIVersion old_lb \<noteq> SchemeGroupVersion" by code_simp
  have l: "\<not> is_panic e" if "pc_List server_cache [] old_world = Inl e" for e
    using that by (simp add: server_cache_def srv_List_def)
  have k: "ok ?c" by code_simp
  then obtain obj' where o: "?c = Inr obj'" by (cases ?c) simp_all
  have "GetAPIVersion obj' = SchemeGroupVersion"
    using conversion_sound [where ca = server_cache and w = old_world and vmiList = "\<lambda>ns sel w. Inr []", OF t v l]
    by (simp add: o)
  then show ?thesis using k o by simp
qed

text \<open>
  An object that has no status yet, which the conversion in the other direction allows, is
  converted to v1beta1 by a type assertion on nil.
\<close>

theorem conversion_without_status_panics:
  "case Convert (\<lambda>ns sel w. Inr []) server_cache (m_del keyStatus old_lb) SchemeGroupVersion old_world of
     Inl e \<Rightarrow> is_panic e | Inr obj' \<Rightarrow> False"
  by code_simp

end
