(* ===== verification/LBV1alpha1.thy ===== *)
theory LBV1alpha1
  imports LBConverterProps
begin

text \<open>
  Load balancers of the API version v1alpha1 (\<^verbatim>\<open>pkg/apis/loadbalancer.harvesterhci.io/v1alpha1\<close>)
  and their JSON form, the trees that the conversion webhook is given for them. A field with
  \<^verbatim>\<open>omitempty\<close> is left out when it is empty; a struct is never empty, so Go writes spec and status
  always. An object that was stored from YAML or by another client may lack the status. Of the metadata the name and the namespace are written, the only ones the
  converter reads. A list of pointers may hold nil, which becomes null.
\<close>

section \<open>The types\<close>

record HeathCheckV1 =
  h1_Port :: int64
  h1_SuccessThreshold :: int64
  h1_FailureThreshold :: int64
  h1_PeriodSeconds :: int64
  h1_TimeoutSeconds :: int64

record ListenerV1 =
  l1_Name :: string
  l1_Port :: int32
  l1_Protocol :: string
  l1_BackendPort :: int32

record LoadBalancerSpecV1 =
  s1_Description :: string
  s1_IPAM :: string
  s1_Listeners :: "ListenerV1 option list"
  s1_BackendServers :: "string list"
  s1_HeathCheck :: "HeathCheckV1 option"

record LoadBalancerStatusV1 =
  st1_Address :: string
  st1_Conditions :: "Condition list"

record LoadBalancerV1 =
  lb1_APIVersion :: string
  lb1_Kind :: string
  lb1_Meta :: ObjectMeta
  lb1_Spec :: LoadBalancerSpecV1
  lb1_Status :: LoadBalancerStatusV1

section \<open>Their JSON form\<close>

definition j_str :: "string \<Rightarrow> string \<Rightarrow> umap" where
  "j_str k s = (if s = '''' then [] else [(k, UStr s)])"

definition j_list :: "string \<Rightarrow> uval list \<Rightarrow> umap" where
  "j_list k vs = (if vs = [] then [] else [(k, UList vs)])"

definition j_listener :: "ListenerV1 option \<Rightarrow> uval" where
  "j_listener lo = (case lo of
     None \<Rightarrow> UNil
   | Some l \<Rightarrow> UMap [(keyName, UStr (l1_Name l)), (keyPort, UInt (scast (l1_Port l))), (keyProtocol, UStr (l1_Protocol l)),
                      (keyBackendPort, UInt (scast (l1_BackendPort l)))])"

definition j_health :: "HeathCheckV1 \<Rightarrow> uval" where
  "j_health h = UMap [(''port'', UInt (h1_Port h)), (''successThreshold'', UInt (h1_SuccessThreshold h)),
     (''failureThreshold'', UInt (h1_FailureThreshold h)), (''PeriodSeconds'', UInt (h1_PeriodSeconds h)),
     (''timeoutSeconds'', UInt (h1_TimeoutSeconds h))]"

definition j_condition :: "Condition \<Rightarrow> uval" where
  "j_condition c = UMap ([(''type'', UStr (cond_Type c)), (''status'', UStr (cond_Status c))] @
     j_str ''lastUpdateTime'' (cond_LastUpdateTime c) @ j_str ''lastTransitionTime'' (cond_LastTransitionTime c) @
     j_str ''reason'' (cond_Reason c) @ j_str ''message'' (cond_Message c))"

definition j_spec :: "LoadBalancerSpecV1 \<Rightarrow> umap" where
  "j_spec s = j_str ''description'' (s1_Description s) @ [(keyIPAM, UStr (s1_IPAM s))] @
     j_list keyListeners (map j_listener (s1_Listeners s)) @ j_list keyBackendServers (map UStr (s1_BackendServers s)) @
     (case s1_HeathCheck s of None \<Rightarrow> [] | Some h \<Rightarrow> [(''healthCheck'', j_health h)])"

definition j_status :: "LoadBalancerStatusV1 \<Rightarrow> umap" where
  "j_status s = j_str keyAddress (st1_Address s) @ j_list ''conditions'' (map j_condition (st1_Conditions s))"

definition j_lb :: "LoadBalancerV1 \<Rightarrow> umap" where
  "j_lb lb = j_str ''kind'' (lb1_Kind lb) @ j_str ''apiVersion'' (lb1_APIVersion lb) @
     [(''metadata'', UMap (j_str ''name'' (md_Name (lb1_Meta lb)) @ j_str ''namespace'' (md_Namespace (lb1_Meta lb)))),
      (keySpec, UMap (j_spec (lb1_Spec lb))), (keyStatus, UMap (j_status (lb1_Status lb)))]"

section \<open>Reading it back\<close>








section \<open>Conversion of typed objects\<close>









definition demo_v1 :: LoadBalancerV1 where
  "demo_v1 = \<lparr>lb1_APIVersion = v1alpha1_version, lb1_Kind = ''LoadBalancer'',
     lb1_Meta = empty_meta\<lparr>md_Name := ''lb1'', md_Namespace := ''default''\<rparr>,
     lb1_Spec = \<lparr>s1_Description = '''', s1_IPAM = PoolIPAM,
       s1_Listeners = [Some \<lparr>l1_Name = ''web'', l1_Port = 80, l1_Protocol = ''TCP'', l1_BackendPort = 8080\<rparr>],
       s1_BackendServers = [''10.52.0.7''],
       s1_HeathCheck = Some \<lparr>h1_Port = 8080, h1_SuccessThreshold = 1, h1_FailureThreshold = 3, h1_PeriodSeconds = 5, h1_TimeoutSeconds = 3\<rparr>\<rparr>,
     lb1_Status = \<lparr>st1_Address = ''10.0.0.2'', st1_Conditions = []\<rparr>\<rparr>"

definition demo_converted :: "umap res" where
  "demo_converted = Convert (\<lambda>ns sel w. Inr []) server_cache (j_lb demo_v1) SchemeGroupVersion old_world"



section \<open>When the conversion panics\<close>











text \<open>
  The period of a v1alpha1 health check is written with a capital letter, which v1beta1 does not
  read; the converter copies the health check as it is, so the new object has no period.
\<close>

fun field_of :: "string list \<Rightarrow> uval \<Rightarrow> uval" where
  "field_of [] v = v"
| "field_of (k # ks) (UMap m) = field_of ks (u_get m k)"
| "field_of (k # ks) v = UNil"

theorem converted_period_lost:
  "field_of [keySpec, ''healthCheck'', ''PeriodSeconds''] (UMap (j_lb demo_v1)) = UInt 5 \<and>
   (case demo_converted of
      Inl e \<Rightarrow> False
    | Inr obj' \<Rightarrow> field_of [keySpec, ''healthCheck'', ''timeoutSeconds''] (UMap obj') = UInt 3 \<and>
        field_of [keySpec, ''healthCheck'', ''periodSeconds''] (UMap obj') = UNil)"
  by (rule conjI; code_simp)

end
