(* ===== verification/ProberRuns.thy ===== *)
theory ProberRuns
  imports ProberUse
begin

text \<open>
  The goroutines of \<^verbatim>\<open>pkg/prober\<close> one step at a time. A worker waits for its ticker or a stop
  request, probes, and sends a report on an unbuffered channel, which blocks it until the loop of
  \<^verbatim>\<open>NewManager\<close> takes the report; that loop is away while the handler runs. An operation of the
  manager holds the lock while it stops workers, and a stop request blocks it until the worker is back at its
  \<^verbatim>\<open>select\<close>. \<open>Prober\<close> takes an operation as one step; the results here say that this is right:
  an operation can always finish, and when it has, the goroutines are the ones it wants.
\<close>

section \<open>Goroutines and channels\<close>

datatype phase = Selecting | Probing | Sending healthCondition

text \<open>
  The manager, the goroutines of the workers, the lock with the workers still to be stopped and the
  one to be started by the operation that holds it, whether the handler runs, the reports that the loop has taken, with
  the worker that sent each, and the results of all probes made so far, with the worker that made each.
  The last one is a record of the environment: no step reads it. A worker with a period that is not positive
  panics when it starts (\<open>run\<close>) and takes the process with it; the steps go on, which only adds states.
\<close>

record Probers =
  pb_mgr :: ProbeManager
  pb_go :: "(nat, Worker \<times> phase) gomap"
  pb_lock :: "(nat list \<times> Worker option) option"
  pb_busy :: bool
  pb_got :: "(nat \<times> healthCondition) list"
  pb_made :: "(nat \<times> bool) list"

datatype pop = AddOp string HealthOption | RemoveOp string string | RemoveAllOp string

fun op_effect :: "pop \<Rightarrow> ProbeManager \<Rightarrow> ProbeManager" where
  "op_effect (AddOp uid opt) m = AddWorker uid (ho_Address opt) opt m"
| "op_effect (RemoveOp uid a) m = snd (RemoveWorker uid a m)"
| "op_effect (RemoveAllOp uid) m = snd (RemoveWorkersByUid uid m)"

fun op_stops :: "pop \<Rightarrow> ProbeManager \<Rightarrow> nat list" where
  "op_stops (AddOp uid opt) m = (case worker_of m uid (ho_Address opt) of None \<Rightarrow> [] | Some w \<Rightarrow> [wk_id w])"
| "op_stops (RemoveOp uid a) m = (case worker_of m uid a of None \<Rightarrow> [] | Some w \<Rightarrow> [wk_id w])"
| "op_stops (RemoveAllOp uid) m = map (\<lambda>(a, w). wk_id w) (wm_of uid (pm_workers m))"

fun op_start :: "pop \<Rightarrow> ProbeManager \<Rightarrow> Worker option" where
  "op_start (AddOp uid opt) m = Some (newWorker (pm_next m) uid opt)"
| "op_start (RemoveOp uid a) m = None"
| "op_start (RemoveAllOp uid) m = None"

fun after_probe :: "healthCondition list \<Rightarrow> phase" where
  "after_probe [] = Selecting"
| "after_probe (c # cs) = Sending c"

definition set_go :: "nat \<Rightarrow> Worker \<times> phase \<Rightarrow> Probers \<Rightarrow> Probers" where
  "set_go i g s = s\<lparr>pb_go := m_set i g (pb_go s)\<rparr>"

inductive prober_step :: "Probers \<Rightarrow> Probers \<Rightarrow> bool" where
  ticked: "m_get (pb_go s) i = Some (w, Selecting) \<Longrightarrow> prober_step s (set_go i (w, Probing) s)"
| probed: "m_get (pb_go s) i = Some (w, Probing) \<Longrightarrow> doProbe (probe check w = None) w = (w', ms) \<Longrightarrow>
    prober_step s (set_go i (w', after_probe ms) s\<lparr>pb_made := pb_made s @ [(i, probe check w = None)]\<rparr>)"
| received: "m_get (pb_go s) i = Some (w, Sending c) \<Longrightarrow> \<not> pb_busy s \<Longrightarrow>
    prober_step s (set_go i (w, Selecting) s\<lparr>pb_busy := True, pb_got := pb_got s @ [(i, c)]\<rparr>)"
| handled: "pb_busy s \<Longrightarrow> prober_step s (s\<lparr>pb_busy := False\<rparr>)"
| locked: "pb_lock s = None \<Longrightarrow> prober_step s (s\<lparr>pb_mgr := op_effect p (pb_mgr s),
    pb_lock := Some (op_stops p (pb_mgr s), op_start p (pb_mgr s))\<rparr>)"
| stopped: "pb_lock s = Some (i # is, st) \<Longrightarrow> m_get (pb_go s) i = Some (w, Selecting) \<Longrightarrow>
    prober_step s (s\<lparr>pb_go := m_del i (pb_go s), pb_lock := Some (is, st)\<rparr>)"
| unlocked: "pb_lock s = Some ([], st) \<Longrightarrow>
    prober_step s (s\<lparr>pb_go := (case st of None \<Rightarrow> pb_go s | Some w \<Rightarrow> m_set (wk_id w) (w, Selecting) (pb_go s)), pb_lock := None\<rparr>)"

definition no_probers :: Probers where
  "no_probers = \<lparr>pb_mgr = NewProbeManager, pb_go = [], pb_lock = None, pb_busy = False, pb_got = [], pb_made = []\<rparr>"

abbreviation prober_reachable :: "Probers \<Rightarrow> bool" where
  "prober_reachable \<equiv> prober_step\<^sup>*\<^sup>* no_probers"

section \<open>The goroutines are the registered workers\<close>

definition lock_stops :: "Probers \<Rightarrow> nat list" where
  "lock_stops s = (case pb_lock s of None \<Rightarrow> [] | Some (is, st) \<Rightarrow> is)"

definition lock_start :: "Probers \<Rightarrow> Worker option" where
  "lock_start s = Option.bind (pb_lock s) snd"

definition start_ids :: "Worker option \<Rightarrow> nat list" where
  "start_ids st = (case st of None \<Rightarrow> [] | Some w \<Rightarrow> [wk_id w])"

abbreviation go_ids :: "Probers \<Rightarrow> nat list" where
  "go_ids s \<equiv> map fst (pb_go s)"

text \<open>Nothing is lost or doubled on the way: running and starting are registered and stopping.\<close>

definition pb_inv :: "Probers \<Rightarrow> bool" where
  "pb_inv s \<longleftrightarrow> pm_inv (pb_mgr s) \<and> m_wf (pb_go s) \<and> distinct (go_ids s @ start_ids (lock_start s)) \<and>
     (\<forall>i \<in> set (go_ids s @ start_ids (lock_start s)). i < pm_next (pb_mgr s)) \<and>
     mset (go_ids s @ start_ids (lock_start s)) = mset (pm_running (pb_mgr s) @ lock_stops s) \<and>
     set (start_ids (lock_start s)) \<inter> set (lock_stops s) = {}"

lemma op_effect_inv: "pm_inv m \<Longrightarrow> pm_inv (op_effect p m)"
  by (cases p) (simp_all add: AddWorker_inv RemoveWorker_inv RemoveWorkersByUid_inv)

lemma op_effect_ids:
  assumes "pm_inv m"
  shows "mset (pm_running (op_effect p m) @ op_stops p m) = mset (pm_running m @ start_ids (op_start p m))"
proof (cases p)
  case (AddOp uid opt)
  then show ?thesis
    using registered_running [OF assms, of uid "ho_Address opt"]
    by (cases "m_get (pm_workers m) uid"; cases "m_get (wm_of uid (pm_workers m)) (ho_Address opt)")
      (auto simp: AddWorker_def Let_def worker_of_def stop_worker_def start_ids_def newWorker_def)
next
  case (RemoveOp uid a)
  then show ?thesis
    using registered_running [OF assms, of uid a]
    by (cases "m_get (pm_workers m) uid"; cases "m_get (wm_of uid (pm_workers m)) a")
      (auto simp: RemoveWorker_def worker_of_def stop_worker_def start_ids_def)
next
  case (RemoveAllOp uid)
  then show ?thesis
    using wm_ids_running [OF assms, of uid] stop_all_mset [of "wm_of uid (pm_workers m)" "pm_running m"]
    by (cases "m_get (pm_workers m) uid") (auto simp: RemoveWorkersByUid_def start_ids_def wm_ids_def)
qed


lemma op_start_id: "start_ids (op_start p m) = [] \<and> pm_next (op_effect p m) = pm_next m \<or>
    start_ids (op_start p m) = [pm_next m] \<and> pm_next (op_effect p m) = Suc (pm_next m)"
  by (cases p) (auto simp: start_ids_def newWorker_def AddWorker_def RemoveWorker_def RemoveWorkersByUid_def Let_def
      split: option.splits)

lemma op_stops_running: "pm_inv m \<Longrightarrow> set (op_stops p m) \<subseteq> set (pm_running m)"
proof (cases p)
  case (RemoveAllOp uid)
  assume "pm_inv m"
  then have "set_mset (wm_ids (wm_of uid (pm_workers m))) \<subseteq> set_mset (mset (pm_running m))"
    using wm_ids_running set_mset_mono by blast
  then show ?thesis by (simp add: RemoveAllOp wm_ids_def)
qed (auto simp: worker_of_def registered_running split: option.splits)

lemma go_set_ids: "m_get (pb_go s) i = Some g \<Longrightarrow> go_ids (set_go i g' s) = go_ids s"
  using map_of_SomeD [of "pb_go s" i g] by (force simp: set_go_def AList.update_keys)

lemma set_go_simps [simp]:
  "pb_mgr (set_go i g s) = pb_mgr s" "pb_lock (set_go i g s) = pb_lock s" "pb_busy (set_go i g s) = pb_busy s"
  "pb_got (set_go i g s) = pb_got s" "pb_made (set_go i g s) = pb_made s" "m_get (pb_go (set_go i g s)) j = (if j = i then Some g else m_get (pb_go s) j)"
  by (simp_all add: set_go_def m_get_set)

lemma lock_cong: "pb_lock s' = pb_lock s \<Longrightarrow> lock_stops s' = lock_stops s \<and> lock_start s' = lock_start s"
  by (simp add: lock_stops_def lock_start_def)

lemma pb_inv_cong:
  assumes "pb_inv s" and "pb_mgr s' = pb_mgr s" and "pb_lock s' = pb_lock s" and "go_ids s' = go_ids s"
  shows "pb_inv s'"
  using assms lock_cong [OF assms(3)] unfolding pb_inv_def m_wf_def by simp

lemma locked_inv:
  assumes "pb_inv s" and "pb_lock s = None"
  shows "pb_inv (s\<lparr>pb_mgr := op_effect p (pb_mgr s), pb_lock := Some (op_stops p (pb_mgr s), op_start p (pb_mgr s))\<rparr>)"
proof -
  let ?m = "pb_mgr s" and ?st = "start_ids (op_start p (pb_mgr s))"
  have inv: "pm_inv ?m" "m_wf (pb_go s)" "distinct (go_ids s)" "\<forall>i \<in> set (go_ids s). i < pm_next ?m"
    "mset (go_ids s) = mset (pm_running ?m)"
    using assms by (simp_all add: pb_inv_def lock_stops_def lock_start_def start_ids_def)
  have st: "\<forall>i \<in> set ?st. i = pm_next ?m" "pm_next ?m \<le> pm_next (op_effect p ?m)"
    "\<forall>i \<in> set ?st. i < pm_next (op_effect p ?m)" "distinct ?st"
    using op_start_id [of p ?m] by auto
  have "set (go_ids s) = set (pm_running ?m)" using inv(5) by (metis set_mset_mset)
  then have "set ?st \<inter> set (op_stops p ?m) = {}" using op_stops_running [OF inv(1), of p] inv(4) st(1) by fastforce
  moreover have "mset (go_ids s @ ?st) = mset (pm_running (op_effect p ?m) @ op_stops p ?m)"
    using op_effect_ids [OF inv(1), of p] inv(5) by simp
  moreover have "distinct (go_ids s @ ?st)" using inv(3,4) st by auto
  moreover have "\<forall>i \<in> set (go_ids s @ ?st). i < pm_next (op_effect p ?m)" using inv(4) st(2,3) by auto
  ultimately show ?thesis
    using inv(1,2) op_effect_inv by (simp add: pb_inv_def lock_stops_def lock_start_def)
qed

lemma stopped_inv:
  assumes "pb_inv s" and lk: "pb_lock s = Some (i # is, st)"
  shows "pb_inv (s\<lparr>pb_go := m_del i (pb_go s), pb_lock := Some (is, st)\<rparr>)"
proof -
  let ?m = "pb_mgr s"
  have inv: "pm_inv ?m" "m_wf (pb_go s)" "distinct (go_ids s @ start_ids st)"
    "\<forall>j \<in> set (go_ids s @ start_ids st). j < pm_next ?m"
    "mset (go_ids s @ start_ids st) = mset (pm_running ?m @ i # is)" "set (start_ids st) \<inter> set (i # is) = {}"
    using assms by (simp_all add: pb_inv_def lock_stops_def lock_start_def)
  have go: "map fst (m_del i (pb_go s)) = remove1 i (go_ids s)"
    using inv(2) by (simp add: AList.delete_keys m_wf_def distinct_remove1_removeAll)
  have "i \<in> set (go_ids s @ start_ids st)" using inv(5) by (metis in_set_conv_decomp set_mset_mset append.assoc)
  then have i: "i \<in> set (go_ids s)" using inv(6) by auto
  have "mset (remove1 i (go_ids s) @ start_ids st) = mset (pm_running ?m @ is)"
    using inv(5) i by (simp add: insert_DiffM2 add_mset_add_single [symmetric])
  then show ?thesis
    using inv go by (auto simp: pb_inv_def lock_stops_def lock_start_def m_wf_del dest: notin_set_remove1 set_remove1_subset [THEN subsetD])
qed

lemma unlocked_inv:
  assumes "pb_inv s" and lk: "pb_lock s = Some ([], st)"
  shows "pb_inv (s\<lparr>pb_go := (case st of None \<Rightarrow> pb_go s | Some w \<Rightarrow> m_set (wk_id w) (w, Selecting) (pb_go s)), pb_lock := None\<rparr>)"
proof -
  let ?m = "pb_mgr s" and ?go = "case st of None \<Rightarrow> pb_go s | Some w \<Rightarrow> m_set (wk_id w) (w, Selecting) (pb_go s)"
  have inv: "pm_inv ?m" "m_wf (pb_go s)" "distinct (go_ids s @ start_ids st)"
    "\<forall>j \<in> set (go_ids s @ start_ids st). j < pm_next ?m"
    "mset (go_ids s @ start_ids st) = mset (pm_running ?m)"
    using assms by (simp_all add: pb_inv_def lock_stops_def lock_start_def)
  have "map fst ?go = go_ids s @ start_ids st"
    using inv(3) by (cases st) (auto simp: start_ids_def AList.update_keys)
  then show ?thesis
    using inv by (auto simp: pb_inv_def lock_stops_def lock_start_def start_ids_def m_wf_def)
qed

lemma prober_step_inv: "prober_step s s' \<Longrightarrow> pb_inv s \<Longrightarrow> pb_inv s'"
proof (induction rule: prober_step.induct)
  case (ticked s i w)
  show ?case by (rule pb_inv_cong [OF ticked.prems]) (simp_all add: go_set_ids [OF ticked.hyps])
next
  case (probed s i w check w' ms)
  show ?case by (rule pb_inv_cong [OF probed.prems]) (simp_all add: go_set_ids [OF probed.hyps(1)])
next
  case (received s i w c)
  show ?case by (rule pb_inv_cong [OF received.prems]) (simp_all add: go_set_ids [OF received.hyps(1)])
next
  case (handled s)
  show ?case by (rule pb_inv_cong [OF handled.prems]) simp_all
next
  case (locked s p)
  then show ?case by (intro locked_inv)
next
  case (stopped s i "is" st w)
  then show ?case by (intro stopped_inv)
next
  case (unlocked s st)
  then show ?case by (intro unlocked_inv)
qed

lemma no_probers_inv: "pb_inv no_probers"
  using NewProbeManager_inv
  by (simp add: pb_inv_def no_probers_def m_wf_def lock_stops_def lock_start_def start_ids_def) (simp add: NewProbeManager_def)

lemma reachable_pb_inv: "prober_reachable s \<Longrightarrow> pb_inv s"
  by (induction rule: rtranclp_induct) (simp_all add: no_probers_inv prober_step_inv)

section \<open>An operation can always finish\<close>

text \<open>
  Whatever a worker is doing, it can come back to its \<^verbatim>\<open>select\<close> without help from the operation
  that waits for it: the handler returns, the loop takes the report.
\<close>

definition waits_same :: "Probers \<Rightarrow> Probers \<Rightarrow> bool" where
  "waits_same s s' \<longleftrightarrow> pb_mgr s' = pb_mgr s \<and> pb_lock s' = pb_lock s"

lemma sending_selects:
  assumes "m_get (pb_go s) i = Some (w, Sending c)"
  shows "\<exists>s' w'. prober_step\<^sup>*\<^sup>* s s' \<and> waits_same s s' \<and> m_get (pb_go s') i = Some (w', Selecting)"
proof -
  have send: "\<exists>s' w'. prober_step\<^sup>*\<^sup>* t s' \<and> waits_same t s' \<and> m_get (pb_go s') i = Some (w', Selecting)"
    if "m_get (pb_go t) i = Some (w, Sending c)" "\<not> pb_busy t" for t
    using r_into_rtranclp [of prober_step, OF prober_step.received [OF that]] by (fastforce simp: waits_same_def)
  show ?thesis
  proof (cases "pb_busy s")
    case True
    obtain s' w' where "prober_step\<^sup>*\<^sup>* (s\<lparr>pb_busy := False\<rparr>) s'" "waits_same (s\<lparr>pb_busy := False\<rparr>) s'"
      "m_get (pb_go s') i = Some (w', Selecting)"
      using send [of "s\<lparr>pb_busy := False\<rparr>"] assms by auto
    then show ?thesis using converse_rtranclp_into_rtranclp [of prober_step, OF prober_step.handled [OF True]] by (auto simp: waits_same_def)
  qed (use send assms in blast)
qed

lemma worker_selects:
  assumes "m_get (pb_go s) i = Some (w, ph)"
  shows "\<exists>s' w'. prober_step\<^sup>*\<^sup>* s s' \<and> waits_same s s' \<and> m_get (pb_go s') i = Some (w', Selecting)"
proof (cases ph)
  case Selecting
  then show ?thesis using assms by (auto simp: waits_same_def)
next
  case (Sending c)
  then show ?thesis using sending_selects assms by simp
next
  case Probing
  obtain w' ms where d: "doProbe (probe (\<lambda>a t. None) w = None) w = (w', ms)" by fastforce
  let ?t = "set_go i (w', after_probe ms) s\<lparr>pb_made := pb_made s @ [(i, probe (\<lambda>a t. None) w = None)]\<rparr>"
  have st: "prober_step s ?t" using prober_step.probed [OF _ d] assms Probing by simp
  have "\<exists>s' w2. prober_step\<^sup>*\<^sup>* ?t s' \<and> waits_same ?t s' \<and> m_get (pb_go s') i = Some (w2, Selecting)"
  proof (cases ms)
    case Nil
    then show ?thesis by (intro exI [of _ ?t] exI [of _ w']) (simp add: waits_same_def)
  next
    case (Cons c cs)
    then show ?thesis by (intro sending_selects [of _ _ w' c]) simp
  qed
  then show ?thesis using converse_rtranclp_into_rtranclp [of prober_step, OF st] by (auto simp: waits_same_def)
qed

lemma lock_released:
  assumes "pb_inv s" and "pb_lock s = Some (is, st)"
  shows "\<exists>s'. prober_step\<^sup>*\<^sup>* s s' \<and> pb_lock s' = None \<and> pb_mgr s' = pb_mgr s"
  using assms
proof (induction "is" arbitrary: s)
  case Nil
  then show ?case using r_into_rtranclp [of prober_step, OF prober_step.unlocked [OF Nil.prems(2)]] by fastforce
next
  case (Cons i "is")
  have "mset (go_ids s @ start_ids st) = mset (pm_running (pb_mgr s) @ i # is)" "set (start_ids st) \<inter> set (i # is) = {}"
    using Cons.prems by (simp_all add: pb_inv_def lock_stops_def lock_start_def)
  then have "i \<in> set (go_ids s)"
    by (metis IntI UnE empty_iff list.set_intros(1) mset_eq_setD set_append UnI2)
  then obtain g where "m_get (pb_go s) i = Some g" using m_get_None [of "pb_go s" i] by fastforce
  then obtain s1 w1 where s1: "prober_step\<^sup>*\<^sup>* s s1" "waits_same s s1" "m_get (pb_go s1) i = Some (w1, Selecting)"
    using worker_selects by (metis prod.collapse)
  have lk: "pb_lock s1 = Some (i # is, st)" using s1(2) Cons.prems(2) by (simp add: waits_same_def)
  let ?t = "s1\<lparr>pb_go := m_del i (pb_go s1), pb_lock := Some (is, st)\<rparr>"
  have st: "prober_step s1 ?t" using prober_step.stopped [OF lk s1(3)] .
  have "pb_inv s1" using s1(1) Cons.prems(1) by (induction rule: rtranclp_induct) (auto intro: prober_step_inv)
  then have "pb_inv ?t" using prober_step_inv [OF st] by simp
  then obtain s2 where "prober_step\<^sup>*\<^sup>* ?t s2" "pb_lock s2 = None" "pb_mgr s2 = pb_mgr ?t" using Cons.IH [of ?t] by auto
  then show ?case using s1(1,2) st by (auto simp: waits_same_def intro!: exI [of _ s2])
qed


text \<open>
  \<^bold>\<open>C12.\<close> Stopping workers cannot deadlock: in every reachable state of the goroutines, whatever
  the workers, the loop that takes reports and the operation that holds the lock are doing, the operation can
  finish and release the lock, and then exactly the registered workers have a goroutine, one each.
\<close>

theorem stop_completes:
  assumes "prober_reachable s"
  shows "\<exists>s'. prober_step\<^sup>*\<^sup>* s s' \<and> pb_lock s' = None \<and> pb_mgr s' = pb_mgr s \<and>
    mset (map fst (pb_go s')) = mset (map wk_id (all_workers (pb_mgr s)))"
proof -
  note inv = reachable_pb_inv [OF assms]
  have "\<exists>s'. prober_step\<^sup>*\<^sup>* s s' \<and> pb_lock s' = None \<and> pb_mgr s' = pb_mgr s"
  proof (cases "pb_lock s")
    case (Some l)
    then show ?thesis using lock_released [OF inv] by (cases l) simp
  qed auto
  then obtain s' where s': "prober_step\<^sup>*\<^sup>* s s'" "pb_lock s' = None" "pb_mgr s' = pb_mgr s" by blast
  have "pb_inv s'" using reachable_pb_inv rtranclp_trans [OF assms s'(1)] by blast
  then have "mset (go_ids s') = mset (pm_running (pb_mgr s))" "pm_inv (pb_mgr s)"
    using s'(2,3) by (simp_all add: pb_inv_def lock_stops_def lock_start_def start_ids_def)
  then show ?thesis using s' unfolding pm_inv_def by (intro exI [of _ s']) simp
qed

subsection \<open>An example\<close>

datatype pmove = Lock pop | Unlock | StopNext | TickOf nat | ProbeOf nat bool | ReceiveOf nat | HandlerReturns

fun pmove_step :: "pmove \<Rightarrow> Probers \<Rightarrow> Probers option" where
  "pmove_step (Lock p) s =
     (if pb_lock s = None then Some (s\<lparr>pb_mgr := op_effect p (pb_mgr s),
        pb_lock := Some (op_stops p (pb_mgr s), op_start p (pb_mgr s))\<rparr>) else None)"
| "pmove_step Unlock s =
     (case pb_lock s of
        Some ([], st) \<Rightarrow>
          Some (s\<lparr>pb_go := (case st of None \<Rightarrow> pb_go s | Some w \<Rightarrow> m_set (wk_id w) (w, Selecting) (pb_go s)), pb_lock := None\<rparr>)
      | _ \<Rightarrow> None)"
| "pmove_step StopNext s =
     (case pb_lock s of
        Some (i # is, st) \<Rightarrow>
          (case m_get (pb_go s) i of
             Some (w, Selecting) \<Rightarrow> Some (s\<lparr>pb_go := m_del i (pb_go s), pb_lock := Some (is, st)\<rparr>)
           | _ \<Rightarrow> None)
      | _ \<Rightarrow> None)"
| "pmove_step (TickOf i) s = (case m_get (pb_go s) i of Some (w, Selecting) \<Rightarrow> Some (set_go i (w, Probing) s) | _ \<Rightarrow> None)"
| "pmove_step (ProbeOf i b) s =
     (case m_get (pb_go s) i of
        Some (w, Probing) \<Rightarrow>
          (case doProbe b w of (w', ms) \<Rightarrow> Some (set_go i (w', after_probe ms) s\<lparr>pb_made := pb_made s @ [(i, b)]\<rparr>))
      | _ \<Rightarrow> None)"
| "pmove_step (ReceiveOf i) s =
     (case m_get (pb_go s) i of
        Some (w, Sending c) \<Rightarrow>
          if pb_busy s then None
          else Some (set_go i (w, Selecting) s\<lparr>pb_busy := True, pb_got := pb_got s @ [(i, c)]\<rparr>)
      | _ \<Rightarrow> None)"
| "pmove_step HandlerReturns s = (if pb_busy s then Some (s\<lparr>pb_busy := False\<rparr>) else None)"

fun pmoves :: "pmove list \<Rightarrow> Probers \<Rightarrow> Probers option" where
  "pmoves [] s = Some s"
| "pmoves (m # ms) s = Option.bind (pmove_step m s) (pmoves ms)"

lemma probed_any:
  assumes "m_get (pb_go s) i = Some (w, Probing)" and "doProbe b w = (w', ms)"
  shows "prober_step s (set_go i (w', after_probe ms) s\<lparr>pb_made := pb_made s @ [(i, b)]\<rparr>)"
proof -
  have "(probe (\<lambda>a t. if b then None else Some (Error ''timeout'' [])) w = None) = b" by (simp add: probe_def Probe_def)
  then show ?thesis using prober_step.probed [OF assms(1), of "\<lambda>a t. if b then None else Some (Error ''timeout'' [])" w' ms] assms(2) by simp
qed

lemma pmove_step_step: "pmove_step m s = Some s' \<Longrightarrow> prober_step s s'"
  by (cases m)
    (auto split: if_splits option.splits list.splits phase.splits prod.splits simp del: op_effect.simps op_stops.simps op_start.simps
      intro: prober_step.intros probed_any prober_step.unlocked [where st = None, simplified] prober_step.unlocked [where st = "Some w" for w, simplified])

lemma pmoves_steps: "pmoves ms s = Some s' \<Longrightarrow> prober_step\<^sup>*\<^sup>* s s'"
  by (induction ms arbitrary: s)
    (auto simp: bind_eq_Some_conv intro: converse_rtranclp_into_rtranclp dest!: pmove_step_step)

text \<open>
  A worker has sent a report, the handler is still busy with it, the worker has another one to send, and an
  operation waits to stop it.
\<close>

definition blocked_moves :: "pmove list" where
  "blocked_moves = [Lock (AddOp ''default/lb1'' demo_option), Unlock, TickOf 0, ProbeOf 0 True, ReceiveOf 0,
     TickOf 0, ProbeOf 0 True, Lock (RemoveOp ''default/lb1'' ''10.0.0.5:80'')]"

definition released_moves :: "pmove list" where
  "released_moves = [HandlerReturns, ReceiveOf 0, StopNext, Unlock, HandlerReturns]"

definition blocked_state :: Probers where
  "blocked_state = the (pmoves blocked_moves no_probers)"

definition stopped_state :: Probers where
  "stopped_state = the (pmoves released_moves blocked_state)"

lemma blocked_run: "pmoves blocked_moves no_probers = Some blocked_state"
proof -
  have "pmoves blocked_moves no_probers \<noteq> None" by code_simp
  then show ?thesis by (auto simp: blocked_state_def)
qed

lemma stopped_run: "pmoves released_moves blocked_state = Some stopped_state"
proof -
  have "pmoves released_moves blocked_state \<noteq> None" by code_simp
  then show ?thesis by (auto simp: stopped_state_def)
qed

lemma blocked_reachable: "prober_reachable blocked_state"
  by (rule pmoves_steps [OF blocked_run])

lemma stopped_reachable: "prober_reachable stopped_state"
  by (rule rtranclp_trans [OF blocked_reachable pmoves_steps [OF stopped_run]])

theorem stop_completes_witness:
  "pb_lock blocked_state = Some ([0], None) \<and> pb_busy blocked_state \<and>
   (\<exists>s'. prober_step\<^sup>*\<^sup>* blocked_state s' \<and> pb_lock s' = None \<and> pb_mgr s' = pb_mgr blocked_state \<and>
      mset (map fst (pb_go s')) = mset (map wk_id (all_workers (pb_mgr blocked_state))))"
proof -
  have "pb_lock blocked_state = Some ([0], None)" "pb_busy blocked_state" by code_simp+
  then show ?thesis using stop_completes [OF blocked_reachable] by blast
qed

section \<open>A stopped worker is silent\<close>

definition received_from :: "nat \<Rightarrow> Probers \<Rightarrow> healthCondition list" where
  "received_from i s = map snd (filter (\<lambda>(j, c). j = i) (pb_got s))"

text \<open>A number that has been used and is not running will not be used again.\<close>

definition dead :: "nat \<Rightarrow> Probers \<Rightarrow> bool" where
  "dead i s \<longleftrightarrow> i < pm_next (pb_mgr s) \<and> i \<notin> set (go_ids s) \<and> i \<notin> set (start_ids (lock_start s))"

lemma dead_step:
  assumes "prober_step s s'" and "dead i s"
  shows "dead i s' \<and> received_from i s' = received_from i s"
  using assms
proof (induction rule: prober_step.induct)
  case (ticked s j w)
  then show ?case using go_set_ids [OF ticked.hyps] by (simp add: dead_def received_from_def lock_start_def)
next
  case (probed s j w check w' ms)
  then show ?case using go_set_ids [OF probed.hyps(1)] by (simp add: dead_def received_from_def lock_start_def)
next
  case (received s j w c)
  have "j \<in> set (go_ids s)" using map_of_SomeD [OF received.hyps(1)] by force
  then have "j \<noteq> i" using received.prems by (auto simp: dead_def)
  then show ?case using received go_set_ids [OF received.hyps(1)] by (simp add: dead_def received_from_def lock_start_def)
next
  case (locked s p)
  then show ?case using op_start_id [of p "pb_mgr s"] by (auto simp: dead_def received_from_def lock_start_def)
next
  case (stopped s j "is" st w)
  then show ?case by (auto simp: dead_def received_from_def lock_start_def AList.delete_keys)
next
  case (unlocked s st)
  then show ?case
    by (cases st) (auto simp: dead_def received_from_def lock_start_def start_ids_def AList.update_keys split: if_splits)
qed (simp add: dead_def received_from_def lock_start_def)

text \<open>
  \<^bold>\<open>C23.\<close> Once an operation has returned, a worker that is no longer registered is silent: no report
  of it is taken in any later state.
\<close>

theorem stopped_worker_silent:
  assumes "prober_reachable s" and "pb_lock s = None" and "i < pm_next (pb_mgr s)"
    and "i \<notin> set (map wk_id (all_workers (pb_mgr s)))" and "prober_step\<^sup>*\<^sup>* s s'"
  shows "received_from i s' = received_from i s"
proof -
  have "mset (map wk_id (all_workers (pb_mgr s))) = mset (go_ids s)"
    using reachable_pb_inv [OF assms(1)] assms(2)
    by (simp add: pb_inv_def pm_inv_def lock_stops_def lock_start_def start_ids_def)
  then have "dead i s" using assms(2-4) mset_eq_setD by (fastforce simp: dead_def lock_start_def start_ids_def)
  with assms(5) have "dead i s' \<and> received_from i s' = received_from i s"
    by (induction rule: rtranclp_induct) (use dead_step in auto)
  then show ?thesis by blast
qed

theorem stopped_worker_silent_witness:
  "pb_lock stopped_state = None \<and> length (received_from 0 stopped_state) = 2 \<and>
   (\<exists>s'. prober_step stopped_state s' \<and> received_from 0 s' = received_from 0 stopped_state)"
proof -
  have h: "pb_lock stopped_state = None" "0 < pm_next (pb_mgr stopped_state)"
    "0 \<notin> set (map wk_id (all_workers (pb_mgr stopped_state)))" "length (received_from 0 stopped_state) = 2" by code_simp+
  have st: "prober_step stopped_state (stopped_state\<lparr>pb_mgr := op_effect (AddOp ''u'' demo_option) (pb_mgr stopped_state),
      pb_lock := Some (op_stops (AddOp ''u'' demo_option) (pb_mgr stopped_state), op_start (AddOp ''u'' demo_option) (pb_mgr stopped_state))\<rparr>)"
    by (rule prober_step.locked [OF h(1)])
  show ?thesis using stopped_worker_silent [OF stopped_reachable h(1-3) r_into_rtranclp [of prober_step, OF st]] st h by blast
qed

section \<open>Reports follow the probes\<close>

fun pending :: "phase \<Rightarrow> healthCondition list" where
  "pending (Sending c) = [c]"
| "pending Selecting = []"
| "pending Probing = []"

text \<open>The results of the probes a worker has made.\<close>

definition probes_of :: "nat \<Rightarrow> Probers \<Rightarrow> bool list" where
  "probes_of i s = map snd (filter (\<lambda>(j, r). j = i) (pb_made s))"

definition trace_ok :: "Probers \<Rightarrow> Worker \<Rightarrow> bool" where
  "trace_ok s w \<longleftrightarrow>
     (case m_get (pb_go s) (wk_id w) of
        None \<Rightarrow> lock_start s = Some w \<and> received_from (wk_id w) s = [] \<and> probes_of (wk_id w) s = []
      | Some (w', ph) \<Rightarrow> run_probes (probes_of (wk_id w) s) w = (w', received_from (wk_id w) s @ pending ph))"

definition tr_inv :: "Probers \<Rightarrow> bool" where
  "tr_inv s \<longleftrightarrow>
     (\<forall>uid a w. worker_of (pb_mgr s) uid a = Some w \<longrightarrow> trace_ok s w \<and> (\<exists>opt. w = newWorker (wk_id w) uid opt)) \<and>
     (\<forall>i. pm_next (pb_mgr s) \<le> i \<longrightarrow> received_from i s = [] \<and> probes_of i s = [])"

lemma doProbe_pending: "doProbe r w = (w', ms) \<Longrightarrow> pending (after_probe ms) = ms"
  by (cases r) (auto simp: doProbe_def Let_def split: if_splits)

lemma trace_cong:
  assumes "trace_ok s w" and "m_get (pb_go s') (wk_id w) = m_get (pb_go s) (wk_id w)" and "lock_start s' = lock_start s"
    and "received_from (wk_id w) s' = received_from (wk_id w) s" and "probes_of (wk_id w) s' = probes_of (wk_id w) s"
  shows "trace_ok s' w"
  using assms(1) unfolding trace_ok_def assms(2-5) .

lemma received_from_simps [simp]:
  "received_from i (s\<lparr>pb_got := pb_got s @ [(j, c)]\<rparr>) = received_from i s @ (if j = i then [c] else [])"
  "received_from i (set_go j g s) = received_from i s"
  "received_from i (s\<lparr>pb_made := m\<rparr>) = received_from i s"
  by (simp_all add: received_from_def)

lemma probes_of_simps [simp]:
  "probes_of i (s\<lparr>pb_made := pb_made s @ [(j, r)]\<rparr>) = probes_of i s @ (if j = i then [r] else [])"
  "probes_of i (set_go j g s\<lparr>pb_made := pb_made s @ [(j, r)]\<rparr>) = probes_of i s @ (if j = i then [r] else [])"
  "probes_of i (set_go j g s) = probes_of i s" "probes_of i (s\<lparr>pb_busy := b\<rparr>) = probes_of i s"
  "probes_of i (s\<lparr>pb_busy := b, pb_got := gs\<rparr>) = probes_of i s" "probes_of i (s\<lparr>pb_mgr := m, pb_lock := l\<rparr>) = probes_of i s"
  "probes_of i (s\<lparr>pb_go := go, pb_lock := l\<rparr>) = probes_of i s"
  by (simp_all add: probes_of_def)

text \<open>Steps of one worker keep its own trace.\<close>

lemma trace_probed:
  assumes "m_get (pb_go s) i = Some (w0, Probing)" and "doProbe r w0 = (w', ms)" and "trace_ok s w"
  shows "trace_ok (set_go i (w', after_probe ms) s\<lparr>pb_made := pb_made s @ [(i, r)]\<rparr>) w"
proof (cases "wk_id w = i")
  case True
  then have "run_probes (probes_of i s) w = (w0, received_from i s)" using assms(1,3) by (auto simp: trace_ok_def)
  then have "run_probes (probes_of i s @ [r]) w = (w', received_from i s @ ms)" using assms(2) by (simp add: run_probes_append)
  then show ?thesis using True doProbe_pending [OF assms(2)] by (auto simp: trace_ok_def)
next
  case False
  then show ?thesis by (intro trace_cong [OF assms(3)]) (simp_all add: lock_start_def)
qed

lemma trace_received:
  assumes "m_get (pb_go s) i = Some (w0, Sending c)" and "trace_ok s w"
  shows "trace_ok (set_go i (w0, Selecting) s\<lparr>pb_busy := True, pb_got := pb_got s @ [(i, c)]\<rparr>) w"
proof -
  have rec: "received_from j (set_go i (w0, Selecting) s\<lparr>pb_busy := True, pb_got := pb_got s @ [(i, c)]\<rparr>) =
      received_from j s @ (if i = j then [c] else [])" for j
    by (simp add: received_from_def)
  show ?thesis
  proof (cases "wk_id w = i")
    case True
    then show ?thesis using assms rec [of i] by (auto simp: trace_ok_def)
  next
    case False
    then show ?thesis using rec [of "wk_id w"] by (intro trace_cong [OF assms(2)]) (simp_all add: lock_start_def)
  qed
qed

lemma registered_id:
  assumes "pm_inv m" and "worker_of m uid a = Some w"
  shows "wk_id w \<in> set (pm_running m)"
  using registered_running [OF assms(1)] assms(2) by (simp add: worker_of_def)

lemma op_registered:
  assumes "worker_of (op_effect p m) uid a = Some w"
  shows "worker_of m uid a = Some w \<or> (\<exists>opt. w = newWorker (pm_next m) uid opt \<and> op_start p m = Some w)"
  using assms by (cases p) (auto simp: worker_of_ops split: if_splits)

lemma trace_locked:
  assumes "pb_inv s" and "tr_inv s" and lk: "pb_lock s = None"
  shows "tr_inv (s\<lparr>pb_mgr := op_effect p (pb_mgr s), pb_lock := Some (op_stops p (pb_mgr s), op_start p (pb_mgr s))\<rparr>)"
    (is "tr_inv ?t")
proof -
  have go: "\<forall>i \<in> set (go_ids s). i < pm_next (pb_mgr s)" using assms(1) by (simp add: pb_inv_def)
  have rec: "received_from i ?t = received_from i s" for i by (simp add: received_from_def)
  have "trace_ok ?t w \<and> (\<exists>opt. w = newWorker (wk_id w) uid opt)" if w: "worker_of (pb_mgr ?t) uid a = Some w" for uid a w
  proof (cases "worker_of (pb_mgr s) uid a = Some w")
    case True
    then have "trace_ok s w" "\<exists>opt. w = newWorker (wk_id w) uid opt" using assms(2) unfolding tr_inv_def by blast+
    then show ?thesis using lk rec by (auto simp: trace_ok_def lock_start_def split: option.splits)
  next
    case False
    then obtain opt where opt: "w = newWorker (pm_next (pb_mgr s)) uid opt" "op_start p (pb_mgr s) = Some w"
      using op_registered w by fastforce
    then have id: "wk_id w = pm_next (pb_mgr s)" by (simp add: newWorker_def)
    then have "m_get (pb_go s) (wk_id w) = None" using go m_get_None [of "pb_go s"] by fastforce
    moreover have "received_from (wk_id w) s = []" "probes_of (wk_id w) s = []" using assms(2) id by (simp_all add: tr_inv_def)
    ultimately show ?thesis using opt id rec by (auto simp: trace_ok_def lock_start_def)
  qed
  moreover have "received_from i ?t = [] \<and> probes_of i ?t = []" if "pm_next (pb_mgr ?t) \<le> i" for i
    using that op_start_id [of p "pb_mgr s"] assms(2) rec by (auto simp: tr_inv_def)
  ultimately show ?thesis unfolding tr_inv_def by blast
qed


text \<open>The steps that change neither the manager nor the lock, one worker at a time.\<close>

lemma trace_workers:
  assumes "tr_inv s" and "pb_mgr s' = pb_mgr s" and "\<And>uid a w. worker_of (pb_mgr s) uid a = Some w \<Longrightarrow> trace_ok s w \<Longrightarrow> trace_ok s' w"
    and "\<And>i. pm_next (pb_mgr s) \<le> i \<Longrightarrow> received_from i s' = received_from i s \<and> probes_of i s' = probes_of i s"
  shows "tr_inv s'"
  using assms unfolding tr_inv_def by metis

lemma trace_stopped:
  assumes inv: "pb_inv s" and "tr_inv s" and lk: "pb_lock s = Some (i # is, st)"
  shows "tr_inv (s\<lparr>pb_go := m_del i (pb_go s), pb_lock := Some (is, st)\<rparr>)"
proof (rule trace_workers [OF assms(2)])
  fix uid a w
  assume w: "worker_of (pb_mgr s) uid a = Some w" and tr: "trace_ok s w"
  have "pm_inv (pb_mgr s)" "mset (go_ids s @ start_ids st) = mset (pm_running (pb_mgr s) @ i # is)"
    "distinct (go_ids s @ start_ids st)"
    using inv lk by (simp_all add: pb_inv_def lock_stops_def lock_start_def)
  then have "distinct (pm_running (pb_mgr s) @ i # is)" "wk_id w \<in> set (pm_running (pb_mgr s))"
    using mset_eq_imp_distinct_iff registered_id [OF _ w] by blast+
  then have "wk_id w \<noteq> i" by auto
  then show "trace_ok (s\<lparr>pb_go := m_del i (pb_go s), pb_lock := Some (is, st)\<rparr>) w"
    using lk by (intro trace_cong [OF tr]) (simp_all add: m_get_del lock_start_def received_from_def)
qed (simp_all add: received_from_def)

lemma trace_unlocked:
  assumes inv: "pb_inv s" and "tr_inv s" and lk: "pb_lock s = Some ([], st)"
  shows "tr_inv (s\<lparr>pb_go := (case st of None \<Rightarrow> pb_go s | Some w \<Rightarrow> m_set (wk_id w) (w, Selecting) (pb_go s)), pb_lock := None\<rparr>)"
    (is "tr_inv ?t")
proof (rule trace_workers [OF assms(2)])
  fix uid a w
  assume w: "worker_of (pb_mgr s) uid a = Some w" and tr: "trace_ok s w"
  have dis: "distinct (go_ids s @ start_ids st)" using inv lk by (simp add: pb_inv_def lock_start_def)
  have rec: "received_from i ?t = received_from i s" for i by (simp add: received_from_def)
  have st: "lock_start s = st" using lk by (simp add: lock_start_def)
  show "trace_ok ?t w"
  proof (cases "m_get (pb_go s) (wk_id w)")
    case None
    then have "st = Some w" "received_from (wk_id w) s = []" "probes_of (wk_id w) s = []" using tr st by (simp_all add: trace_ok_def)
    then show ?thesis using rec by (auto simp: trace_ok_def m_get_set)
  next
    case (Some g)
    then have "wk_id w \<in> fst ` set (pb_go s)" using map_of_SomeD by force
    then have "wk_id w \<notin> set (start_ids st)" using dis by auto
    then have "m_get (pb_go ?t) (wk_id w) = Some g" using Some by (cases st) (auto simp: start_ids_def m_get_set)
    then show ?thesis using tr Some rec by (simp add: trace_ok_def)
  qed
qed (simp_all add: received_from_def)

lemma prober_step_trace: "prober_step s s' \<Longrightarrow> pb_inv s \<Longrightarrow> tr_inv s \<Longrightarrow> tr_inv s'"
proof (induction rule: prober_step.induct)
  case (ticked s i w)
  have "trace_ok (set_go i (w, Probing) s) v" if "trace_ok s v" for v
  proof (cases "wk_id v = i")
    case True
    then show ?thesis using that ticked.hyps by (auto simp: trace_ok_def)
  next
    case False
    then show ?thesis by (intro trace_cong [OF that]) (simp_all add: lock_start_def)
  qed
  then show ?case by (intro trace_workers [OF ticked.prems(2)]) simp_all
next
  case (probed s i w check w' ms)
  have i: "i < pm_next (pb_mgr s)"
    using probed.prems(1) map_of_SomeD [OF probed.hyps(1)] by (force simp: pb_inv_def)
  show ?case by (intro trace_workers [OF probed.prems(2)] trace_probed [OF probed.hyps]) (use i in simp_all)
next
  case (received s i w c)
  have i: "i < pm_next (pb_mgr s)"
    using received.prems(1) map_of_SomeD [OF received.hyps(1)] by (force simp: pb_inv_def)
  show ?case
  proof (rule trace_workers [OF received.prems(2)])
    show "trace_ok (set_go i (w, Selecting) s\<lparr>pb_busy := True, pb_got := pb_got s @ [(i, c)]\<rparr>) v" if "trace_ok s v" for v
      by (rule trace_received [OF received.hyps(1) that])
  qed (use i in \<open>simp_all add: received_from_def\<close>)
next
  case (handled s)
  have "trace_ok (s\<lparr>pb_busy := False\<rparr>) v" if "trace_ok s v" for v
    by (rule trace_cong [OF that]) (simp_all add: lock_start_def received_from_def)
  then show ?case by (intro trace_workers [OF handled.prems(2)]) (simp_all add: received_from_def)
qed (use trace_locked trace_stopped trace_unlocked in blast)+

lemma reachable_trace: "prober_reachable s \<Longrightarrow> tr_inv s"
proof (induction rule: rtranclp_induct)
  case base
  then show ?case by (simp add: tr_inv_def no_probers_def NewProbeManager_def worker_of_def received_from_def probes_of_def)
next
  case (step y z)
  then show ?case using prober_step_trace reachable_pb_inv by blast
qed

text \<open>
  \<^bold>\<open>C24.\<close> What the handler is told: for every registered worker, with the goroutines running in any
  interleaving, the reports taken from it, with at most one that it is just sending, are those that the
  results of its own probes so far call for, in order, none lost, doubled or changed: with positive thresholds
  a probe calls for a report of its result exactly when the streak of equal results that it ends is a multiple of the threshold.
\<close>

theorem reports_follow_probes:
  assumes "prober_reachable s" and "pb_lock s = None" and "worker_of (pb_mgr s) uid a = Some w"
  shows "\<exists>opt w' ms. w = newWorker (wk_id w) uid opt \<and> length ms \<le> 1 \<and>
    run_probes (probes_of (wk_id w) s) w = (w', received_from (wk_id w) s @ ms) \<and>
    (thresholds_ok opt \<longrightarrow> received_from (wk_id w) s @ ms = due_reports opt uid (probes_of (wk_id w) s))"
proof -
  obtain opt where opt: "trace_ok s w" "w = newWorker (wk_id w) uid opt"
    using reachable_trace [OF assms(1)] assms(3) unfolding tr_inv_def by blast
  have "length (pending ph) \<le> 1" for ph by (cases ph) simp_all
  then obtain w' ms where r: "length ms \<le> 1" "run_probes (probes_of (wk_id w) s) w = (w', received_from (wk_id w) s @ ms)"
    using opt(1) assms(2) by (auto simp: trace_ok_def lock_start_def split: option.splits)
  moreover have "received_from (wk_id w) s @ ms = due_reports opt uid (probes_of (wk_id w) s)" if "thresholds_ok opt"
    using run_probes_due [OF that, of "probes_of (wk_id w) s" "wk_id w" uid] r(2) opt(2) by simp
  ultimately show ?thesis using opt(2) by blast
qed

definition sending_moves :: "pmove list" where
  "sending_moves = butlast blocked_moves"

definition sending_state :: Probers where
  "sending_state = the (pmoves sending_moves no_probers)"

lemma sending_reachable: "prober_reachable sending_state"
proof -
  have "pmoves sending_moves no_probers \<noteq> None" by code_simp
  then have "pmoves sending_moves no_probers = Some sending_state" by (auto simp: sending_state_def)
  then show ?thesis by (rule pmoves_steps)
qed

theorem reports_follow_probes_witness:
  "\<exists>ms. received_from 0 sending_state @ ms = due_reports demo_option ''default/lb1'' [True, True] \<and> length ms \<le> 1 \<and>
     length (received_from 0 sending_state) = 1"
proof -
  have h: "pb_lock sending_state = None" "length (received_from 0 sending_state) = 1" "probes_of 0 sending_state = [True, True]"
    "worker_of (pb_mgr sending_state) ''default/lb1'' ''10.0.0.5:80'' = Some (newWorker 0 ''default/lb1'' demo_option)"
    "thresholds_ok demo_option" by code_simp+
  have "wk_id (newWorker 0 ''default/lb1'' demo_option) = 0" by (simp add: newWorker_def)
  moreover have "newWorker 0 ''default/lb1'' demo_option = newWorker 0 ''default/lb1'' opt \<Longrightarrow> opt = demo_option" for opt
    by (simp add: newWorker_def)
  ultimately show ?thesis using reports_follow_probes [OF sending_reachable h(1,4)] h(2,3,5) by auto
qed

end
