(* ===== verification/ClusterPools.thy ===== *)
theory ClusterPools
  imports ControllersProps PoolProps
begin

text \<open>
  The life of the IP pools of a cluster, apart from allocation: a user creates a pool, changes its
  spec or deletes it, each with the consent of the webhook, and the informer delivers the stored
  version to the cache. The steps are a relation on \<open>PoolServer\<close>; the invariant that the
  controllers rely on is kept by all of them.
\<close>

section \<open>Steps\<close>

definition fresh_status :: IPPoolStatus where
  "fresh_status = \<lparr>st_Total = 0, st_Available = 0, st_LastAllocated = '''', st_Allocated = None,
     st_AllocatedHistory = None, st_Conditions = []\<rparr>"

definition srv_Delete :: "string \<Rightarrow> PoolServer \<Rightarrow> PoolServer" where
  "srv_Delete n w = w\<lparr>srv_pools := m_del n (srv_pools w)\<rparr>"

definition admitted_ranges :: "PoolServer \<Rightarrow> IPPool \<Rightarrow> bool" where
  "admitted_ranges w p \<longleftrightarrow> pool_admitted server_cache p w \<and>
     (case LBRangesToAllocatorRangeSet (ps_Ranges (pool_Spec p)) of Inl e \<Rightarrow> False | Inr rs \<Rightarrow> served_ranges rs)"

inductive pool_step :: "PoolServer \<Rightarrow> PoolServer \<Rightarrow> bool" where
  created: "admitted_ranges w p \<Longrightarrow> pool_Status p = fresh_status \<Longrightarrow> srv_Create p w = (Inr q, w') \<Longrightarrow> pool_step w w'"
| changed: "admitted_ranges w p \<Longrightarrow> server_pool w (pool_Name p) = Some old \<Longrightarrow> pool_Status p = pool_Status old \<Longrightarrow>
    srv_Update p w = (Inr q, w') \<Longrightarrow> pool_step w w'"
| deleted: "server_pool w n = Some p \<Longrightarrow> pool_validator_Delete p = Inr () \<Longrightarrow> pool_step w (srv_Delete n w)"
| synced: "pool_step w (srv_sync n w)"

section \<open>The invariant\<close>

definition ranges_ok :: "PoolServer \<Rightarrow> bool" where
  "ranges_ok w \<longleftrightarrow> (\<forall>n p. m_get (srv_pools w) n = Some p \<or> m_get (srv_cache w) n = Some p \<longrightarrow>
     (\<exists>rs. LBRangesToAllocatorRangeSet (ps_Ranges (pool_Spec p)) = Inr rs \<and> rangeset_ok rs))"

abbreviation sound_pools :: "PoolServer \<Rightarrow> bool" where
  "sound_pools w \<equiv> \<forall>n. store_inv server_cache server_pool server_good n w"

lemma admitted_rangeset_ok:
  assumes "admitted_ranges w p"
  shows "\<exists>rs. LBRangesToAllocatorRangeSet (ps_Ranges (pool_Spec p)) = Inr rs \<and> rangeset_ok rs"
proof -
  obtain rs where rs: "LBRangesToAllocatorRangeSet (ps_Ranges (pool_Spec p)) = Inr rs" "served_ranges rs"
    using assms by (auto simp: admitted_ranges_def split: sum.splits)
  moreover obtain others where "ps_Ranges (pool_Spec p) \<noteq> []" "\<not> overlap_inside rs"
    using assms rs(1) by (auto simp: admitted_ranges_def elim!: pool_admitted_cases)
  ultimately show ?thesis using checked_rangeset_ok by blast
qed

lemma sound_pools_iff:
  "sound_pools w \<longleftrightarrow> server_good w \<and> (\<forall>n p. m_get (srv_pools w) n = Some p \<or> m_get (srv_cache w) n = Some p \<longrightarrow> pool_inv p)"
  by (auto simp: store_inv_def server_pool_def server_cache_def srv_Get_def split: option.splits)

text \<open>Writing one pool and deleting one.\<close>

lemma write_sound:
  assumes "sound_pools w" and "pool_Name p = n" and "pool_inv p"
  shows "sound_pools (w\<lparr>srv_pools := m_set n (stamp (srv_next w) p) (srv_pools w), srv_next := Suc (srv_next w)\<rparr>)"
  using assms srv_write_good [of w p n] unfolding sound_pools_iff by (auto simp: m_get_set split: if_splits)

lemma delete_good: "server_good w \<Longrightarrow> server_good (srv_Delete n w)"
  unfolding server_good_def srv_Delete_def by (auto simp: m_get_del issued_def split: if_splits)

lemma fresh_status_inv: "status_inv fresh_status"
  by (simp add: status_inv_def fresh_status_def)

lemma pool_step_sound: "pool_step w w' \<Longrightarrow> sound_pools w \<Longrightarrow> sound_pools w'"
proof (induction rule: pool_step.induct)
  case (created w p q w')
  then show ?case
    using write_sound [of w p "pool_Name p"] fresh_status_inv
    by (auto simp: srv_Create_def Let_def split: if_splits)
next
  case (changed w p old q w')
  have "pool_inv p" using changed.prems changed.hyps(2,3) unfolding sound_pools_iff by (auto simp: server_pool_def)
  then show ?case
    using write_sound [OF changed.prems] changed.hyps(4) by (auto simp: srv_Update_def Let_def split: option.splits if_splits)
next
  case (deleted w n p)
  then show ?case using delete_good unfolding sound_pools_iff by (auto simp: srv_Delete_def m_get_del split: if_splits)
next
  case (synced w n)
  then show ?case
    using srv_sync_good unfolding sound_pools_iff by (auto simp: srv_sync_def m_get_set m_get_del split: option.splits if_splits)
qed

lemma pool_step_ranges: "pool_step w w' \<Longrightarrow> ranges_ok w \<Longrightarrow> ranges_ok w'"
proof (induction rule: pool_step.induct)
  case (created w p q w')
  then show ?case
    using admitted_rangeset_ok [of w p]
    by (auto simp: ranges_ok_def srv_Create_def Let_def m_get_set split: if_splits)
next
  case (changed w p old q w')
  then show ?case
    using admitted_rangeset_ok [of w p]
    by (auto simp: ranges_ok_def srv_Update_def Let_def m_get_set split: option.splits if_splits)
qed (auto simp: ranges_ok_def srv_Delete_def srv_sync_def m_get_set m_get_del split: option.splits if_splits)

text \<open>No step takes an address from its applicant.\<close>

lemma pool_step_ledgers:
  assumes "pool_step w w'" and "sound_pools w"
  shows "ledgers server_pool w' = ledgers server_pool w"
  using assms
proof (induction rule: pool_step.induct)
  case (created w p q w')
  then show ?case
    by (auto simp: ledgers_def store_alloc_def server_pool_def srv_Create_def Let_def m_get_set fresh_status_def fun_eq_iff
        split: if_splits option.splits)
next
  case (changed w p old q w')
  then show ?case
    by (auto simp: ledgers_def store_alloc_def server_pool_def srv_Update_def Let_def m_get_set fun_eq_iff
        split: if_splits option.splits)
next
  case (deleted w n p)
  then have "entries (pool_Allocated p) = []" by (auto simp: pool_validator_Delete_def split: if_splits)
  then show ?case
    using deleted by (auto simp: ledgers_def store_alloc_def server_pool_def srv_Delete_def m_get_del fun_eq_iff split: option.splits)
next
  case (synced w n)
  then show ?case by (simp add: ledgers_def store_alloc_def fun_eq_iff)
qed

end
