(* ===== verification/ClusterModel.thy ===== *)
theory ClusterModel
  imports ClusterPools
begin

text \<open>
  A cluster in which the controllers run: the pools (\<open>PoolServer\<close>), the load balancers as the API
  server stores them, the cache the controllers read them from, and the rest of the cluster, which
  the load balancer manager may change and this theory never looks into. The handlers of
  \<open>LBController\<close> and \<open>Controllers\<close> run on it unchanged.
\<close>

section \<open>The cluster\<close>

type_synonym lbkey = "string \<times> string"

record 'r Cluster =
  cl_srv :: PoolServer
  cl_lbs :: "(lbkey, LoadBalancer) gomap"
  cl_lbcache :: "(lbkey, LoadBalancer) gomap"
  cl_next :: nat
  cl_rest :: 'r

definition on_pools :: "(PoolServer \<Rightarrow> 'x \<times> PoolServer) \<Rightarrow> 'r Cluster \<Rightarrow> 'x \<times> 'r Cluster" where
  "on_pools f c = (case f (cl_srv c) of (x, s) \<Rightarrow> (x, c\<lparr>cl_srv := s\<rparr>))"

definition cluster_cache :: "'r Cluster IPPoolCache" where
  "cluster_cache = \<lparr>pc_Get = (\<lambda>n c. srv_Get n (cl_srv c)), pc_List = (\<lambda>sel c. srv_List sel (cl_srv c))\<rparr>"

definition cluster_client :: "'r Cluster IPPoolClient" where
  "cluster_client = \<lparr>pcl_Update = (\<lambda>p. on_pools (srv_Update p)), pcl_Create = (\<lambda>p. on_pools (srv_Create p))\<rparr>"

abbreviation lb_rv :: "LoadBalancer \<Rightarrow> string" where
  "lb_rv lb \<equiv> md_ResourceVersion (lb_Meta lb)"

definition key_of :: "LoadBalancer \<Rightarrow> lbkey" where
  "key_of lb = (lb_Namespace lb, lb_Name lb)"

definition lb_stamp :: "nat \<Rightarrow> LoadBalancer \<Rightarrow> LoadBalancer" where
  "lb_stamp n lb = lb\<lparr>lb_Meta := (lb_Meta lb)\<lparr>md_ResourceVersion := Uitoa (int n)\<rparr>\<rparr>"

definition lb_write :: "LoadBalancer \<Rightarrow> 'r Cluster \<Rightarrow> 'r Cluster" where
  "lb_write lb c = c\<lparr>cl_lbs := m_set (key_of lb) (lb_stamp (cl_next c) lb) (cl_lbs c), cl_next := Suc (cl_next c)\<rparr>"

definition lb_Update :: "LoadBalancer \<Rightarrow> 'r Cluster \<Rightarrow> LoadBalancer res \<times> 'r Cluster" where
  "lb_Update lb c =
     (case m_get (cl_lbs c) (key_of lb) of
        None \<Rightarrow> (Inl (not_found (lb_Name lb)), c)
      | Some cur \<Rightarrow>
          if lb_rv cur \<noteq> lb_rv lb then (Inl (Error ''the object has been modified'' [Conflict]), c)
          else (Inr (lb_stamp (cl_next c) lb), lb_write lb c))"

definition lb_lookup :: "string \<Rightarrow> string \<Rightarrow> 'r Cluster \<Rightarrow> LoadBalancer res" where
  "lb_lookup ns n c = (case m_get (cl_lbcache c) (ns, n) of None \<Rightarrow> Inl (not_found n) | Some lb \<Rightarrow> Inr lb)"

definition lb_list :: "string \<Rightarrow> LabelSelector \<Rightarrow> 'r Cluster \<Rightarrow> LoadBalancer list res" where
  "lb_list ns sel c = Inr (filter (\<lambda>lb. lb_Namespace lb = ns \<and> selector_Matches sel (md_Labels (lb_Meta lb)))
     (map snd (cl_lbcache c)))"

definition lb_mark_deleted :: "lbkey \<Rightarrow> 'r Cluster \<Rightarrow> error option \<times> 'r Cluster" where
  "lb_mark_deleted k c =
     (case m_get (cl_lbs c) k of
        None \<Rightarrow> (Some (not_found (snd k)), c)
      | Some lb \<Rightarrow> (None, lb_write (lb\<lparr>lb_Meta := (lb_Meta lb)\<lparr>md_DeletionTimestamp := Some ''now''\<rparr>\<rparr>) c))"

text \<open>The work queue only decides when a handler runs, which the steps below leave open.\<close>

definition cluster_ops :: "'r Cluster LBOps" where
  "cluster_ops = \<lparr>lbo_Get = lb_lookup, lbo_List = lb_list, lbo_Update = lb_Update,
     lbo_Delete = (\<lambda>ns n. lb_mark_deleted (ns, n)), lbo_Enqueue = (\<lambda>ns n c. c), lbo_EnqueueAfter = (\<lambda>ns n t c. c)\<rparr>"

definition lb_handler :: "'r Cluster LBManager \<Rightarrow> string \<Rightarrow> 'r Cluster LBHandler" where
  "lb_handler mgr now = \<lparr>lh_lbs = cluster_ops, lh_ipPoolCache = cluster_cache, lh_lbManager = mgr, lh_now = now\<rparr>"

text \<open>The manager works on the services and endpoints, not on pools or load balancers.\<close>

definition manager_frame :: "'r Cluster LBManager \<Rightarrow> bool" where
  "manager_frame mgr \<longleftrightarrow> (\<forall>lb c.
     (\<exists>r. snd (lm_EnsureLoadBalancer mgr lb c) = c\<lparr>cl_rest := r\<rparr>) \<and>
     (\<exists>r. snd (lm_DeleteLoadBalancer mgr lb c) = c\<lparr>cl_rest := r\<rparr>) \<and>
     (\<exists>r. snd (lm_EnsureBackendServers mgr lb c) = c\<lparr>cl_rest := r\<rparr>))"

section \<open>Optimistic concurrency on the cluster\<close>

abbreviation cluster_pool :: "'r Cluster \<Rightarrow> string \<Rightarrow> IPPool option" where
  "cluster_pool \<equiv> \<lambda>c. server_pool (cl_srv c)"

abbreviation cluster_good :: "'r Cluster \<Rightarrow> bool" where
  "cluster_good \<equiv> \<lambda>c. server_good (cl_srv c)"

lemma cluster_Get [simp]: "pc_Get cluster_cache n c = pc_Get server_cache n (cl_srv c)"
  by (simp add: cluster_cache_def server_cache_def)

lemma cluster_Update:
  "pcl_Update cluster_client p c = (x, c') \<longleftrightarrow>
     (\<exists>s. pcl_Update server_client p (cl_srv c) = (x, s) \<and> c' = c\<lparr>cl_srv := s\<rparr>)"
  by (auto simp: cluster_client_def server_client_def on_pools_def split: prod.splits)

interpretation cl: pool_api cluster_cache cluster_client cluster_pool cluster_good
proof unfold_locales
  fix c :: "'a Cluster" and n p
  assume "cluster_good c" "pc_Get cluster_cache n c = Inr p"
  then show "pool_Name p = n" using ps.get_name by simp
next
  fix c :: "'a Cluster" and n p cur
  assume "cluster_good c" "pc_Get cluster_cache n c = Inr p" "cluster_pool c n = Some cur" "pool_rv p = pool_rv cur"
  then show "p = cur" using ps.get_current by simp
next
  fix c :: "'a Cluster" and p q c'
  assume "cluster_good c" "pcl_Update cluster_client p c = (Inr q, c')"
  then show "\<exists>cur. cluster_pool c (pool_Name p) = Some cur \<and> pool_rv p = pool_rv cur \<and>
      cluster_pool c' = (cluster_pool c)(pool_Name p \<mapsto> q) \<and> pool_Spec q = pool_Spec p \<and> pool_Status q = pool_Status p"
    using ps.update_ok by (force simp: cluster_Update)
next
  fix c :: "'a Cluster" and p e c'
  assume "cluster_good c" "pcl_Update cluster_client p c = (Inl e, c')"
  then show "cluster_pool c' = cluster_pool c" using ps.update_err by (force simp: cluster_Update)
next
  fix c :: "'a Cluster" and p r c'
  assume "cluster_good c" "pcl_Update cluster_client p c = (r, c')"
  then show "cluster_good c'" using ps.update_good by (force simp: cluster_Update)
next
  fix c :: "'a Cluster" and p r c' n
  assume "cluster_good c" "pcl_Update cluster_client p c = (r, c')"
  then show "pc_Get cluster_cache n c' = pc_Get cluster_cache n c \<or>
      (\<exists>q. cluster_pool c' n = Some q \<and> pc_Get cluster_cache n c' = Inr q)"
    using ps.update_cache by (force simp: cluster_Update)
qed

lemma cluster_sound_iff:
  "(\<forall>n. store_inv cluster_cache cluster_pool cluster_good n c) \<longleftrightarrow> sound_pools (cl_srv c)"
  by (simp add: store_inv_def)

lemma cluster_ledgers: "ledgers cluster_pool c = ledgers server_pool (cl_srv c)"
  by (simp add: ledgers_def store_alloc_def fun_eq_iff)

section \<open>What a handler leaves alone\<close>

lemma ensureAllocatedAddress_frame:
  assumes step: "ensureAllocatedAddress h am lbCopy lb w = Some (err, lb', w')"
    and res: "\<And>n a i f ip r u y v. sam_Get n am = Some a \<Longrightarrow>
      bs_Reserve (ia_store (al_IPAllocator a)) i f ip r u = (y, v) \<Longrightarrow> R u v"
    and rel: "\<And>n a i f u y v. sam_Get n am = Some a \<Longrightarrow>
      bs_ReleaseByID (ia_store (al_IPAllocator a)) i f u = (y, v) \<Longrightarrow> R u v"
    and refl: "\<And>u. R u u" and trans: "\<And>u v w. R u v \<Longrightarrow> R v w \<Longrightarrow> R u w"
  shows "R w w'"
proof -
  have release: "R u (snd (releaseIP am lb u))" for u
    using rel refl
    by (cases "releaseIP am lb u") (auto simp: releaseIP_def IPAllocator_Release_def split: option.splits)
  have duplicate: "R u (snd (tryReleaseDuplicatedIPToPool h am lb u))" for u
    using rel refl
    by (cases "tryReleaseDuplicatedIPToPool h am lb u")
      (auto simp: tryReleaseDuplicatedIPToPool_def IPAllocator_Release_def split: option.splits sum.splits)
  have request: "R u v" if req: "requestIP am lb n u = Some (x, v)" for n u x v
  proof (cases "sam_Get n am")
    case None
    then show ?thesis using req refl by (simp add: requestIP_def)
  next
    case (Some a)
    then obtain y where "Allocator_Get a (lb_id lb) u = Some (y, v)" using req by (auto simp: requestIP_def)
    then show ?thesis by (rule Allocator_Get_frame) (use res [OF Some] refl trans in blast)+
  qed
  have allocate: "R u v" if "allocateIPFromPool h am lb u = Some (x, v)" for u x v
    using that request refl by (auto simp: allocateIPFromPool_def split: if_splits sum.splits)
  show ?thesis
  proof (cases "lbs_IPAM (lb_Spec lb) = DHCP \<or> aa_IPPool (lb_address lb) \<noteq> ''''")
    case True
    then show ?thesis
      using step refl release [of w]
      by (auto simp: ensureAllocatedAddress_def ensureAllocatedAddressPool_def split: if_splits sum.splits prod.splits)
  next
    case False
    then obtain x v where x: "allocateIPFromPool h am lb w = Some (x, v)"
      using step by (auto simp: ensureAllocatedAddress_def ensureAllocatedAddressPool_def)
    then have "w' = v \<or> w' = snd (tryReleaseDuplicatedIPToPool h am lb v)"
      using step False by (cases x) (auto simp: ensureAllocatedAddress_def ensureAllocatedAddressPool_def split: if_splits)
    then show ?thesis using allocate [OF x] duplicate trans by blast
  qed
qed

text \<open>Only the stored pools have changed, and their ranges are still in order.\<close>

definition pools_only :: "'r Cluster \<Rightarrow> 'r Cluster \<Rightarrow> bool" where
  "pools_only c c' \<longleftrightarrow>
     (\<exists>s. c' = c\<lparr>cl_srv := s\<rparr> \<and> srv_cache s = srv_cache (cl_srv c) \<and> (ranges_ok (cl_srv c) \<longrightarrow> ranges_ok s))"

lemma pools_only_refl: "pools_only c c"
  unfolding pools_only_def by (rule exI [of _ "cl_srv c"]) simp

lemma pools_only_trans: "pools_only a b \<Longrightarrow> pools_only b c \<Longrightarrow> pools_only a c"
  by (auto simp: pools_only_def)

lemma cache_Get: "pc_Get server_cache n w = Inr p \<longleftrightarrow> m_get (srv_cache w) n = Some p"
  by (auto simp: server_cache_def srv_Get_def split: option.splits)

lemma write_pools_only:
  assumes "pcl_Update cluster_client p c = (x, c')"
    and "ranges_ok (cl_srv c) \<Longrightarrow> \<exists>rs. LBRangesToAllocatorRangeSet (ps_Ranges (pool_Spec p)) = Inr rs \<and> rangeset_ok rs"
  shows "pools_only c c'"
proof -
  obtain s where s: "srv_Update p (cl_srv c) = (x, s)" "c' = c\<lparr>cl_srv := s\<rparr>"
    using assms(1) by (auto simp: cluster_Update server_client_def)
  have "ranges_ok s" if "ranges_ok (cl_srv c)"
    using that s(1) assms(2) [OF that]
    by (auto simp: ranges_ok_def srv_Update_def Let_def m_get_set split: option.splits if_splits)
  moreover have "srv_cache s = srv_cache (cl_srv c)"
    using s(1) by (auto simp: srv_Update_def Let_def split: option.splits if_splits)
  ultimately show ?thesis using s(2) by (auto simp: pools_only_def)
qed

lemma update_pools_only:
  assumes "pc_Get server_cache n (cl_srv c) = Inr p" and "pcl_Update cluster_client (p\<lparr>pool_Status := st\<rparr>) c = (x, c')"
  shows "pools_only c c'"
proof (rule write_pools_only [OF assms(2)])
  assume "ranges_ok (cl_srv c)"
  then show "\<exists>rs. LBRangesToAllocatorRangeSet (ps_Ranges (pool_Spec (p\<lparr>pool_Status := st\<rparr>))) = Inr rs \<and> rangeset_ok rs"
    using assms(1) unfolding cache_Get ranges_ok_def by auto
qed

lemma Reserve_pools_only:
  "Store_Reserve (store_New n cluster_cache cluster_client) i f a r c = (x, c') \<Longrightarrow> pools_only c c'"
  by (auto simp: Store_Reserve_def Let_def pools_only_refl split: sum.splits option.splits if_splits prod.splits
      intro: update_pools_only)

lemma ReleaseByID_pools_only:
  "Store_ReleaseByID (store_New n cluster_cache cluster_client) i f c = (x, c') \<Longrightarrow> pools_only c c'"
  by (auto simp: Store_ReleaseByID_def update_released_def pools_only_refl
      split: sum.splits option.splits if_splits prod.splits intro: update_pools_only)

lemma allocators_ok_store:
  assumes "allocators_ok ca cl am" and "sam_Get n am = Some a"
  shows "ia_store (al_IPAllocator a) = store_backend (store_New n ca cl)"
  using assms NewAllocator_Inr unfolding allocators_ok_def by metis

lemma address_pools_only:
  assumes "allocators_ok cluster_cache cluster_client am"
    and "ensureAllocatedAddress h am lbCopy lb c = Some (err, lb', c')"
  shows "pools_only c c'"
proof (rule ensureAllocatedAddress_frame [OF assms(2), where R = pools_only])
  fix n a i f ip r u y v
  assume "sam_Get n am = Some a" "bs_Reserve (ia_store (al_IPAllocator a)) i f ip r u = (y, v)"
  then show "pools_only u v"
    using allocators_ok_store [OF assms(1)] Reserve_pools_only by (simp add: store_backend_def)
next
  fix n a i f u y v
  assume "sam_Get n am = Some a" "bs_ReleaseByID (ia_store (al_IPAllocator a)) i f u = (y, v)"
  then show "pools_only u v"
    using allocators_ok_store [OF assms(1)] ReleaseByID_pools_only by (simp add: store_backend_def)
qed (use pools_only_refl pools_only_trans in blast)+

section \<open>The end of a reconciliation\<close>

definition same_lb :: "LoadBalancer \<Rightarrow> LoadBalancer \<Rightarrow> bool" where
  "same_lb lb lb' \<longleftrightarrow> lb_Spec lb' = lb_Spec lb \<and> lb_Meta lb' = lb_Meta lb \<and> lb_address lb' = lb_address lb"

text \<open>A status is written unless it is the one the object has.\<close>

definition status_written :: "LoadBalancer \<Rightarrow> LoadBalancer \<Rightarrow> 'r Cluster \<Rightarrow> 'r Cluster \<Rightarrow> bool" where
  "status_written lbCopy lb c c' \<longleftrightarrow>
     (\<exists>lb2. same_lb lbCopy lb2 \<and> (if lb_Status lb2 = lb_Status lb then c' = c else c' = snd (lb_Update lb2 c)))"

lemma same_lb_set_ready: "same_lb lb (set_ready now b msg lb)"
  by (simp add: same_lb_def)

lemma updateStatus_written: "status_written lbCopy lb c (snd (lb_updateStatus (lb_handler mgr now) lbCopy lb err c))"
proof -
  let ?b = "err = None" and ?m = "case err of None \<Rightarrow> '''' | Some e \<Rightarrow> err_text e"
  have "snd (lb_updateStatus (lb_handler mgr now) lbCopy lb err c) =
      (if lb_Status (set_ready now ?b ?m lbCopy) = lb_Status lb then c else snd (lb_Update (set_ready now ?b ?m lbCopy) c))"
    by (auto simp: lb_updateStatus_def lb_handler_def cluster_ops_def Let_def split: option.splits prod.splits sum.splits)
  then show ?thesis
    unfolding status_written_def using same_lb_set_ready by metis
qed

lemma NotReturnError_written:
  "status_written lbCopy lb c (snd (updateStatusNotReturnError (lb_handler mgr now) lbCopy lb e c))"
proof -
  let ?lb = "set_ready now False (err_text e) lbCopy"
  have "snd (updateStatusNotReturnError (lb_handler mgr now) lbCopy lb e c) =
      (if lb_Status ?lb = lb_Status lb then c else snd (lb_Update ?lb c))"
    by (auto simp: updateStatusNotReturnError_def lb_handler_def cluster_ops_def Let_def split: prod.splits sum.splits)
  then show ?thesis
    unfolding status_written_def using same_lb_set_ready by metis
qed

lemma handleError_panic: "is_panic e \<Longrightarrow> panicked (fst (handleError h lbCopy lb e w))"
  by (simp add: handleError_def panicked_def)

lemma handleError_written:
  assumes "\<not> panicked (fst (handleError (lb_handler mgr now) lbCopy lb e c))"
  shows "status_written lbCopy lb c (snd (handleError (lb_handler mgr now) lbCopy lb e c))"
proof -
  have "\<not> is_panic e" using assms handleError_panic [of e "lb_handler mgr now" lbCopy lb c] by blast
  moreover
  have "lbo_EnqueueAfter (lh_lbs (lb_handler mgr now)) ns n t c = c" for ns n t
    by (simp add: lb_handler_def cluster_ops_def)
  ultimately show ?thesis
    by (simp add: handleError_def NotReturnError_written updateStatus_written)
qed

lemma ensureVM_frame:
  assumes "manager_frame mgr" and "ensureVMLoadBalancer (lb_handler mgr now) lbCopy lb c = (err, lbCopy', c')"
  shows "same_lb lbCopy lbCopy' \<and> (\<exists>r. c' = c\<lparr>cl_rest := r\<rparr>)"
proof -
  have m: "lh_lbManager (lb_handler mgr now) = mgr" by (simp add: lb_handler_def)
  obtain x1 c1 where e: "lm_EnsureLoadBalancer mgr lb c = (x1, c1)" by fastforce
  obtain x2 c2 where b: "lm_EnsureBackendServers mgr lb c1 = (x2, c2)" by fastforce
  obtain r1 r2 where r: "c1 = c\<lparr>cl_rest := r1\<rparr>" "c2 = c1\<lparr>cl_rest := r2\<rparr>"
    using assms(1) e b unfolding manager_frame_def by (metis snd_conv)
  have "c' \<in> {c1, c2} \<and> same_lb lbCopy lbCopy'"
    using assms(2) e b m
    by (auto simp: ensureVMLoadBalancer_def Let_def same_lb_def split: sum.splits if_splits option.splits)
  then show ?thesis using r by auto
qed

lemma snd_eqI: "f x = (y, z) \<Longrightarrow> \<exists>x. z = snd (f x)"
  by (metis snd_conv)

lemma OnChange_cluster:
  assumes "manager_frame mgr" and "lb_OnChange (lb_handler mgr now) am (Some lb) c = Some (res, c')"
    and "md_DeletionTimestamp (lb_Meta lb) = None" and "lb_APIVersion lb = SchemeGroupVersion" and "\<not> panicked res"
  obtains err lbCopy c1 lbCopy2 r where "ensureAllocatedAddress (lb_handler mgr now) am lb lb c = Some (err, lbCopy, c1)"
    and "same_lb lbCopy lbCopy2" and "status_written lbCopy2 lb (c1\<lparr>cl_rest := r\<rparr>) c'"
proof -
  let ?h = "lb_handler mgr now"
  obtain err lbCopy c1 where e: "ensureAllocatedAddress ?h am lb lb c = Some (err, lbCopy, c1)"
    using assms(2-4) by (auto simp: lb_OnChange_def)
  have same: "same_lb lbCopy lbCopy" by (simp add: same_lb_def)
  have rest: "c1 = c1\<lparr>cl_rest := cl_rest c1\<rparr>" by simp
  show thesis
  proof (cases "\<exists>er. err = Some er \<or> \<not> (lbs_WorkloadType (lb_Spec lb) = VM \<or> lbs_WorkloadType (lb_Spec lb) = '''')")
    case True
    then have "c' = snd (lb_updateStatus ?h lbCopy lb None c1) \<or> (\<exists>er. handleError ?h lbCopy lb er c1 = (res, c'))"
      using assms(2-4) e by (cases err) (auto simp: lb_OnChange_def intro: snd_eqI)
    then have "status_written lbCopy lb c1 c'"
      using updateStatus_written handleError_written assms(5) by (metis fst_conv snd_conv)
    then show thesis using that [OF e same] rest by metis
  next
    case False
    then have vm: "err = None" "lbs_WorkloadType (lb_Spec lb) = VM \<or> lbs_WorkloadType (lb_Spec lb) = ''''" by auto
    obtain err2 lbCopy2 c2 where v: "ensureVMLoadBalancer ?h lbCopy lb c1 = (err2, lbCopy2, c2)"
      by (metis prod.collapse)
    obtain r where r: "same_lb lbCopy lbCopy2" "c2 = c1\<lparr>cl_rest := r\<rparr>" using ensureVM_frame [OF assms(1) v] by blast
    have "c' = snd (lb_updateStatus ?h lbCopy2 lb None c2) \<or> (\<exists>er. handleError ?h lbCopy2 lb er c2 = (res, c'))"
      using assms(2-4) e vm v by (cases err2) (auto simp: lb_OnChange_def intro: snd_eqI)
    then have "status_written lbCopy2 lb c2 c'"
      using updateStatus_written handleError_written assms(5) by (metis fst_conv snd_conv)
    then show thesis using that [OF e r(1)] r(2) by metis
  qed
qed

end
