(* ===== verification/ClusterRuns.thy ===== *)
theory ClusterRuns
  imports ClusterModel LBWebhook
begin

text \<open>
  The controllers together: users create, change and delete pools and load balancers, informers
  deliver them to the caches, and the handlers of the pool controller and of the load balancer
  controller run in any order. The invariant says that every address a live load balancer has in its
  status is recorded for it in the pool it came from.

  A reconciliation is a step only when the cache of load balancers has the stored version of the
  object; \<open>ClusterProps\<close> shows what happens otherwise. The runs are those in which no reconciliation panics.
\<close>

section \<open>Steps\<close>

definition empty_lb_status :: LoadBalancerStatus where
  "empty_lb_status = \<lparr>lbst_BackendServers = None, lbst_AllocatedAddress = empty_address, lbst_Address = '''', lbst_Conditions = []\<rparr>"

definition lb_sync :: "lbkey \<Rightarrow> 'r Cluster \<Rightarrow> 'r Cluster" where
  "lb_sync k c =
     (case m_get (cl_lbs c) k of
        None \<Rightarrow> c\<lparr>cl_lbcache := m_del k (cl_lbcache c)\<rparr>
      | Some lb \<Rightarrow> c\<lparr>cl_lbcache := m_set k lb (cl_lbcache c)\<rparr>)"

definition pool_side :: "'r Cluster PoolHandler \<Rightarrow> bool" where
  "pool_side h \<longleftrightarrow> ph_ipPoolCache h = cluster_cache \<and> ph_ipPoolClient h = cluster_client \<and> ph_lbs h = cluster_ops"

inductive cluster_step ::
  "'r Cluster LBManager \<Rightarrow> 'r Cluster SafeAllocatorMap \<times> 'r Cluster \<Rightarrow> 'r Cluster SafeAllocatorMap \<times> 'r Cluster \<Rightarrow> bool"
  for mgr where
  lb_created: "CHR ''/'' \<notin> set (lb_Namespace lb) \<Longrightarrow> m_get (cl_lbs c) (key_of lb) = None \<Longrightarrow> lb_Status lb = empty_lb_status \<Longrightarrow>
    lb_validator_Create vms lb c = Inr () \<Longrightarrow> cluster_step mgr (am, c) (am, lb_write lb c)"
| lb_changed: "m_get (cl_lbs c) k = Some lb \<Longrightarrow> lb_validator_Update lb (lb\<lparr>lb_Spec := spec\<rparr>) = Inr () \<Longrightarrow>
    cluster_step mgr (am, c) (am, lb_write (lb\<lparr>lb_Spec := spec\<rparr>) c)"
| lb_deleted: "cluster_step mgr (am, c) (am, snd (lb_mark_deleted k c))"
| lb_synced: "cluster_step mgr (am, c) (am, lb_sync k c)"
| reconciled: "m_get (cl_lbcache c) k = Some lb \<Longrightarrow> m_get (cl_lbs c) k = Some lb \<Longrightarrow>
    lb_OnChange (lb_handler mgr now) am (Some lb) c = Some (res, c') \<Longrightarrow> \<not> panicked res \<Longrightarrow> cluster_step mgr (am, c) (am, c')"
| removed: "m_get (cl_lbcache c) k = Some lb \<Longrightarrow> m_get (cl_lbs c) k = Some cur \<Longrightarrow> md_DeletionTimestamp (lb_Meta cur) \<noteq> None \<Longrightarrow>
    lb_OnRemove (lb_handler mgr now) am (Some lb) c = ((o', err), c') \<Longrightarrow>
    c2 = c' \<or> err = None \<and> c2 = c'\<lparr>cl_lbs := m_del k (cl_lbs c')\<rparr> \<Longrightarrow> cluster_step mgr (am, c) (am, c2)"
| pools: "pool_step (cl_srv c) s \<Longrightarrow> cluster_step mgr (am, c) (am, c\<lparr>cl_srv := s\<rparr>)"
| pool_changed: "pool_side h \<Longrightarrow> pc_Get cluster_cache n c = Inr p \<Longrightarrow> pool_OnChange h (Some p) am c = (res', am', c') \<Longrightarrow>
    cluster_step mgr (am, c) (am', c')"
| ip_released: "pool_side h \<Longrightarrow> pc_Get cluster_cache n c = Inr p \<Longrightarrow> OnChangeToReleaseAnIP h am (Some p) c = (res', c') \<Longrightarrow>
    cluster_step mgr (am, c) (am, c')"
| pool_removed: "cluster_step mgr (am, c) (snd (pool_OnRemove po am), c)"

definition empty_cluster :: "'r \<Rightarrow> 'r Cluster" where
  "empty_cluster r = \<lparr>cl_srv = \<lparr>srv_pools = [], srv_cache = [], srv_next = 0\<rparr>, cl_lbs = [], cl_lbcache = [], cl_next = 0, cl_rest = r\<rparr>"

inductive cluster_reachable ::
  "'r Cluster LBManager \<Rightarrow> 'r Cluster SafeAllocatorMap \<times> 'r Cluster \<Rightarrow> bool" for mgr where
  start: "cluster_reachable mgr ([], empty_cluster r)"
| step: "cluster_reachable mgr s \<Longrightarrow> cluster_step mgr s s' \<Longrightarrow> cluster_reachable mgr s'"

section \<open>The invariant\<close>

definition live_pool_lb :: "LoadBalancer \<Rightarrow> bool" where
  "live_pool_lb lb \<longleftrightarrow> md_DeletionTimestamp (lb_Meta lb) = None \<and> lbs_IPAM (lb_Spec lb) \<noteq> DHCP \<and> aa_IPPool (lb_address lb) \<noteq> ''''"

abbreviation records :: "'r Cluster \<Rightarrow> string \<Rightarrow> string \<rightharpoonup> string" where
  "records c \<equiv> ledgers server_pool (cl_srv c)"

definition recorded_for :: "'r Cluster \<Rightarrow> LoadBalancer \<Rightarrow> bool" where
  "recorded_for c lb \<longleftrightarrow> records c (aa_IPPool (lb_address lb)) (aa_IP (lb_address lb)) = Some (lb_id lb)"

definition lbs_named :: "'r Cluster \<Rightarrow> bool" where
  "lbs_named c \<longleftrightarrow> (\<forall>k lb. m_get (cl_lbs c) k = Some lb \<or> m_get (cl_lbcache c) k = Some lb \<longrightarrow>
     key_of lb = k \<and> CHR ''/'' \<notin> set (lb_Namespace lb))"

definition addresses_recorded :: "'r Cluster \<Rightarrow> bool" where
  "addresses_recorded c \<longleftrightarrow> (\<forall>k lb. m_get (cl_lbs c) k = Some lb \<longrightarrow> live_pool_lb lb \<longrightarrow> recorded_for c lb)"

definition addressed_cached :: "'r Cluster \<Rightarrow> bool" where
  "addressed_cached c \<longleftrightarrow> (\<forall>k lb. m_get (cl_lbs c) k = Some lb \<longrightarrow> aa_IPPool (lb_address lb) \<noteq> '''' \<longrightarrow> m_get (cl_lbcache c) k \<noteq> None)"

definition pools_in_order :: "'r Cluster SafeAllocatorMap \<Rightarrow> 'r Cluster \<Rightarrow> bool" where
  "pools_in_order am c \<longleftrightarrow> sound_pools (cl_srv c) \<and> ranges_ok (cl_srv c) \<and> allocators_ok cluster_cache cluster_client am"

definition cluster_inv :: "'r Cluster SafeAllocatorMap \<times> 'r Cluster \<Rightarrow> bool" where
  "cluster_inv s \<longleftrightarrow> pools_in_order (fst s) (snd s) \<and> lbs_named (snd s) \<and> addresses_recorded (snd s) \<and> addressed_cached (snd s)"

lemma lb_id_inj:
  assumes "CHR ''/'' \<notin> set (lb_Namespace lb)" and "CHR ''/'' \<notin> set (lb_Namespace lb')" and "lb_id lb = lb_id lb'"
  shows "key_of lb = key_of lb'"
  using assms first_sep_inj [of "CHR ''/''" "lb_Namespace lb" "lb_Namespace lb'" "lb_Name lb" "lb_Name lb'"]
  by (simp add: lb_id_def key_of_def)

text \<open>A reconciliation does not touch the records of others, and what it leaves in the copy is recorded.\<close>

lemma outcome_others:
  assumes "address_outcome am lb l err lb' l'" and "i \<noteq> lb_id lb"
  shows "l n k = Some i \<Longrightarrow> l' n k = Some i"
  using assms by (cases rule: address_outcome.cases) (auto elim!: gives_back.cases)

lemma outcome_recorded:
  assumes "address_outcome am lb l err lb' l'" and "lbs_IPAM (lb_Spec lb) \<noteq> DHCP" and "aa_IPPool (lb_address lb') \<noteq> ''''"
    and "aa_IPPool (lb_address lb) \<noteq> '''' \<Longrightarrow> l (aa_IPPool (lb_address lb)) (aa_IP (lb_address lb)) = Some (lb_id lb)"
  shows "l' (aa_IPPool (lb_address lb')) (aa_IP (lb_address lb')) = Some (lb_id lb)"
  using assms by (cases rule: address_outcome.cases) (auto simp: empty_address_def)

lemma outcome_same:
  assumes "address_outcome am lb l err lb' l'"
  shows "lb_Spec lb' = lb_Spec lb" and "lb_Meta lb' = lb_Meta lb"
  using assms by (cases rule: address_outcome.cases; simp)+

section \<open>Every step keeps the invariant\<close>

lemma lb_id_key: "lb_Meta lb' = lb_Meta lb \<Longrightarrow> lb_id lb' = lb_id lb \<and> key_of lb' = key_of lb"
  by (simp add: lb_id_def key_of_def)

text \<open>
  The common part: one load balancer is handled, the records of the others stay, and if it is still
  there with a pool address, that address is recorded.
\<close>

lemma handled_recorded:
  assumes "lbs_named c" and "addresses_recorded c" and "m_get (cl_lbs c) k = Some lb"
    and "\<And>k'. k' \<noteq> k \<Longrightarrow> m_get (cl_lbs c') k' = m_get (cl_lbs c) k'"
    and "\<And>i n a. i \<noteq> lb_id lb \<Longrightarrow> records c n a = Some i \<Longrightarrow> records c' n a = Some i"
    and "\<And>lb'. m_get (cl_lbs c') k = Some lb' \<Longrightarrow> live_pool_lb lb' \<Longrightarrow> recorded_for c' lb'"
  shows "addresses_recorded c'"
  unfolding addresses_recorded_def
proof (intro allI impI)
  fix k' lb'
  assume lb': "m_get (cl_lbs c') k' = Some lb'" "live_pool_lb lb'"
  show "recorded_for c' lb'"
  proof (cases "k' = k")
    case True
    then show ?thesis using assms(6) lb' by blast
  next
    case False
    then have old: "m_get (cl_lbs c) k' = Some lb'" using assms(4) lb'(1) by metis
    have "key_of lb' = k'" "key_of lb = k" "CHR ''/'' \<notin> set (lb_Namespace lb')" "CHR ''/'' \<notin> set (lb_Namespace lb)"
      using assms(1,3) old unfolding lbs_named_def by blast+
    then have "lb_id lb' \<noteq> lb_id lb" using lb_id_inj False by metis
    moreover have "recorded_for c lb'" using assms(2) old lb'(2) unfolding addresses_recorded_def by blast
    ultimately show ?thesis using assms(5) unfolding recorded_for_def by blast
  qed
qed

lemma handled_named:
  assumes "lbs_named c" and "m_get (cl_lbs c) k = Some lb" and "cl_lbcache c' = cl_lbcache c"
    and "\<And>k'. k' \<noteq> k \<Longrightarrow> m_get (cl_lbs c') k' = m_get (cl_lbs c) k'"
    and "\<And>lb'. m_get (cl_lbs c') k = Some lb' \<Longrightarrow> key_of lb' = key_of lb \<and> lb_Namespace lb' = lb_Namespace lb"
  shows "lbs_named c'"
  unfolding lbs_named_def
proof (intro allI impI)
  fix k' lb'
  assume l: "m_get (cl_lbs c') k' = Some lb' \<or> m_get (cl_lbcache c') k' = Some lb'"
  have old: "key_of x = y \<and> CHR ''/'' \<notin> set (lb_Namespace x)"
    if "m_get (cl_lbs c) y = Some x \<or> m_get (cl_lbcache c) y = Some x" for x y
    using assms(1) that unfolding lbs_named_def by blast
  show "key_of lb' = k' \<and> CHR ''/'' \<notin> set (lb_Namespace lb')"
  proof (cases "k' = k \<and> m_get (cl_lbs c') k' = Some lb'")
    case True
    then show ?thesis using assms(5) [of lb'] old [of k lb] assms(2) by auto
  next
    case False
    then have "m_get (cl_lbs c) k' = Some lb' \<or> m_get (cl_lbcache c) k' = Some lb'" using l assms(3,4) by metis
    then show ?thesis by (rule old)
  qed
qed

lemma handled_cached:
  assumes "addressed_cached c" and "m_get (cl_lbcache c) k = Some lb" and "cl_lbcache c' = cl_lbcache c"
    and "\<And>k'. k' \<noteq> k \<Longrightarrow> m_get (cl_lbs c') k' = m_get (cl_lbs c) k'"
  shows "addressed_cached c'"
  unfolding addressed_cached_def
proof (intro allI impI)
  fix k' lb'
  assume l: "m_get (cl_lbs c') k' = Some lb'" "aa_IPPool (lb_address lb') \<noteq> ''''"
  show "m_get (cl_lbcache c') k' \<noteq> None"
    using l assms(1-3) assms(4) [of k'] unfolding addressed_cached_def by (cases "k' = k") (simp, metis)
qed

lemma lb_stamp_simps [simp]:
  "lb_Spec (lb_stamp n lb) = lb_Spec lb" "lb_address (lb_stamp n lb) = lb_address lb" "lb_id (lb_stamp n lb) = lb_id lb"
  "key_of (lb_stamp n lb) = key_of lb" "md_DeletionTimestamp (lb_Meta (lb_stamp n lb)) = md_DeletionTimestamp (lb_Meta lb)"
  "lb_Namespace (lb_stamp n lb) = lb_Namespace lb"
  by (simp_all add: lb_stamp_def lb_id_def key_of_def)

lemma lb_write_simps [simp]:
  "cl_srv (lb_write lb c) = cl_srv c" "cl_lbcache (lb_write lb c) = cl_lbcache c"
  "m_get (cl_lbs (lb_write lb c)) k = (if k = key_of lb then Some (lb_stamp (cl_next c) lb) else m_get (cl_lbs c) k)"
  by (simp_all add: lb_write_def m_get_set)

lemma status_written_cases:
  assumes "status_written lbCopy lb c c'" and "m_get (cl_lbs c) (key_of lb) = Some lb" and "lb_Meta lbCopy = lb_Meta lb"
    and "lb_Spec lbCopy = lb_Spec lb"
  obtains lb2 where "m_get (cl_lbs c') (key_of lb) = Some lb2" and "lb_address lb2 = lb_address lbCopy"
    and "lb_Spec lb2 = lb_Spec lb" and "lb_id lb2 = lb_id lb" and "key_of lb2 = key_of lb"
    and "md_DeletionTimestamp (lb_Meta lb2) = md_DeletionTimestamp (lb_Meta lb)" and "lb_Namespace lb2 = lb_Namespace lb"
    and "\<forall>k. k \<noteq> key_of lb \<longrightarrow> m_get (cl_lbs c') k = m_get (cl_lbs c) k"
    and "cl_srv c' = cl_srv c" and "cl_lbcache c' = cl_lbcache c"
proof -
  obtain lb2 where lb2: "same_lb lbCopy lb2" "if lb_Status lb2 = lb_Status lb then c' = c else c' = snd (lb_Update lb2 c)"
    using assms(1) unfolding status_written_def by blast
  then have m: "lb_Meta lb2 = lb_Meta lb" "lb_Spec lb2 = lb_Spec lb" "lb_address lb2 = lb_address lbCopy"
    using assms(3,4) by (simp_all add: same_lb_def)
  note k = lb_id_key [OF m(1)]
  show thesis
  proof (cases "lb_Status lb2 = lb_Status lb")
    case True
    then show thesis using that [of lb] lb2(2) assms(2) m(3) by simp
  next
    case False
    then have "c' = lb_write lb2 c" using lb2(2) assms(2) k m(1) by (simp add: lb_Update_def)
    then show thesis using that [of "lb_stamp (cl_next c) lb2"] m k by simp
  qed
qed

lemma address_in_cluster:
  assumes "sound_pools (cl_srv c)" and "allocators_ok cluster_cache cluster_client am"
    and "ensureAllocatedAddress h am lb lb c = Some (err, lb', c')"
  shows "sound_pools (cl_srv c') \<and> address_outcome am lb (records c) err lb' (records c')"
proof -
  have "\<forall>n. store_inv cluster_cache cluster_pool cluster_good n c" using assms(1) unfolding cluster_sound_iff .
  from cl.address_sound [OF this assms(2), of h lb] obtain err2 lb2 c2 where o2: "ensureAllocatedAddress h am lb lb c = Some (err2, lb2, c2)"
    "\<forall>n. store_inv cluster_cache cluster_pool cluster_good n c2"
    "address_outcome am lb (ledgers cluster_pool c) err2 lb2 (ledgers cluster_pool c2)"
    by (elim exE conjE)
  moreover have "err2 = err" "lb2 = lb'" "c2 = c'" using o2(1) assms(3) by simp_all
  ultimately show ?thesis unfolding cluster_sound_iff cluster_ledgers by blast
qed

lemma reconciled_inv:
  assumes mgr: "manager_frame mgr" and inv: "cluster_inv (am, c)" and lb: "m_get (cl_lbs c) k = Some lb"
    and cached: "m_get (cl_lbcache c) k = Some lb"
    and step: "lb_OnChange (lb_handler mgr now) am (Some lb) c = Some (res, c')" "\<not> panicked res"
  shows "cluster_inv (am, c')"
proof (cases "md_DeletionTimestamp (lb_Meta lb) = None \<and> lb_APIVersion lb = SchemeGroupVersion")
  case False
  then have "c' = c" using step(1) by (auto simp: lb_OnChange_def)
  then show ?thesis using inv by simp
next
  case alive: True
  have pools: "sound_pools (cl_srv c)" "ranges_ok (cl_srv c)" and am: "allocators_ok cluster_cache cluster_client am"
    and named: "lbs_named c" and rec: "addresses_recorded c" and addr: "addressed_cached c"
    using inv by (simp_all add: cluster_inv_def pools_in_order_def)
  have key: "key_of lb = k" using named lb unfolding lbs_named_def by blast
  obtain err lbCopy c1 lbCopy2 r where e: "ensureAllocatedAddress (lb_handler mgr now) am lb lb c = Some (err, lbCopy, c1)"
    and same: "same_lb lbCopy lbCopy2" and wr: "status_written lbCopy2 lb (c1\<lparr>cl_rest := r\<rparr>) c'"
    using OnChange_cluster [OF mgr step(1)] step(2) alive by blast
  have out: "sound_pools (cl_srv c1)" "address_outcome am lb (records c) err lbCopy (records c1)"
    using address_in_cluster [OF pools(1) am e] by simp_all
  obtain s where s: "c1 = c\<lparr>cl_srv := s\<rparr>" "ranges_ok s"
    using address_pools_only [OF am e] pools(2) by (auto simp: pools_only_def)
  have copy: "lb_Meta lbCopy2 = lb_Meta lb" "lb_Spec lbCopy2 = lb_Spec lb" "lb_address lbCopy2 = lb_address lbCopy"
    using same outcome_same [OF out(2)] by (simp_all add: same_lb_def)
  have stored: "m_get (cl_lbs (c1\<lparr>cl_rest := r\<rparr>)) (key_of lb) = Some lb" using lb key s(1) by simp
  obtain lb2 where lb2: "m_get (cl_lbs c') (key_of lb) = Some lb2" "lb_address lb2 = lb_address lbCopy2"
    "lb_Spec lb2 = lb_Spec lb" "lb_id lb2 = lb_id lb" "key_of lb2 = key_of lb"
    "md_DeletionTimestamp (lb_Meta lb2) = md_DeletionTimestamp (lb_Meta lb)" "lb_Namespace lb2 = lb_Namespace lb"
    "\<forall>k'. k' \<noteq> key_of lb \<longrightarrow> m_get (cl_lbs c') k' = m_get (cl_lbs (c1\<lparr>cl_rest := r\<rparr>)) k'"
    "cl_srv c' = cl_srv (c1\<lparr>cl_rest := r\<rparr>)" "cl_lbcache c' = cl_lbcache (c1\<lparr>cl_rest := r\<rparr>)"
    using status_written_cases [OF wr stored copy(1,2)] .
  have "recorded_for c' lb2" if "live_pool_lb lb2"
  proof -
    have "records c1 (aa_IPPool (lb_address lbCopy)) (aa_IP (lb_address lbCopy)) = Some (lb_id lb)"
    proof (rule outcome_recorded [OF out(2)])
      show "lbs_IPAM (lb_Spec lb) \<noteq> DHCP" "aa_IPPool (lb_address lbCopy) \<noteq> ''''"
        using that lb2(2,3) copy(3) by (simp_all add: live_pool_lb_def)
      assume "aa_IPPool (lb_address lb) \<noteq> ''''"
      then have "live_pool_lb lb" using that lb2(3) alive by (simp add: live_pool_lb_def)
      then show "records c (aa_IPPool (lb_address lb)) (aa_IP (lb_address lb)) = Some (lb_id lb)"
        using rec lb unfolding addresses_recorded_def recorded_for_def by blast
    qed
    then show ?thesis using lb2(2,4,9) copy(3) by (simp add: recorded_for_def)
  qed
  then have "addresses_recorded c'"
    using lb2(1,8,9) s(1) key outcome_others [OF out(2)]
    by (intro handled_recorded [OF named rec lb]) auto
  moreover have "lbs_named c'"
    by (rule handled_named [OF named lb]) (use lb2 key s(1) in auto)
  moreover have "addressed_cached c'"
    by (rule handled_cached [OF addr cached]) (use lb2(8,10) key s(1) in auto)
  ultimately show ?thesis
    using out(1) s lb2(9) am by (simp add: cluster_inv_def pools_in_order_def)
qed

text \<open>A user writes a load balancer: the records and the address do not change.\<close>

lemma written_inv:
  assumes inv: "cluster_inv (am, c)" and ns: "CHR ''/'' \<notin> set (lb_Namespace lb)"
    and live: "live_pool_lb lb \<Longrightarrow> recorded_for c lb"
    and cached: "aa_IPPool (lb_address lb) \<noteq> '''' \<Longrightarrow> m_get (cl_lbcache c) (key_of lb) \<noteq> None"
  shows "cluster_inv (am, lb_write lb c)"
proof -
  have live': "recorded_for (lb_write lb c) (lb_stamp (cl_next c) lb)" if "live_pool_lb (lb_stamp (cl_next c) lb)"
    using live that by (simp add: recorded_for_def live_pool_lb_def)
  have same: "recorded_for (lb_write lb c) x \<longleftrightarrow> recorded_for c x" for x by (simp add: recorded_for_def)
  have "addresses_recorded (lb_write lb c)"
    using inv live' unfolding cluster_inv_def addresses_recorded_def by (auto simp: same split: if_splits)
  moreover have "lbs_named (lb_write lb c)"
    using inv ns unfolding cluster_inv_def lbs_named_def by (auto split: if_splits)
  moreover have "addressed_cached (lb_write lb c)"
    using inv cached unfolding cluster_inv_def addressed_cached_def by (auto split: if_splits)
  ultimately show ?thesis using inv by (simp add: cluster_inv_def pools_in_order_def)
qed

lemma inv_stored:
  assumes "cluster_inv (am, c)" and "m_get (cl_lbs c) k = Some lb"
  shows "key_of lb = k" and "CHR ''/'' \<notin> set (lb_Namespace lb)" and "live_pool_lb lb \<Longrightarrow> recorded_for c lb"
    and "aa_IPPool (lb_address lb) \<noteq> '''' \<Longrightarrow> m_get (cl_lbcache c) k \<noteq> None"
  using assms unfolding cluster_inv_def lbs_named_def addresses_recorded_def addressed_cached_def fst_conv snd_conv by blast+

lemma accepted_update_ipam:
  "lb_validator_Update old lb = Inr () \<Longrightarrow> md_DeletionTimestamp (lb_Meta lb) = None \<Longrightarrow>
     lbs_IPAM (lb_Spec lb) = DHCP \<longleftrightarrow> lbs_IPAM (lb_Spec old) = DHCP"
  by (auto simp: lb_validator_Update_def checkIPAM_def Let_def split: sum.splits if_splits)

lemma spec_update_simps [simp]:
  "lb_address (lb\<lparr>lb_Spec := spec\<rparr>) = lb_address lb" "lb_id (lb\<lparr>lb_Spec := spec\<rparr>) = lb_id lb"
  "key_of (lb\<lparr>lb_Spec := spec\<rparr>) = key_of lb"
  "lb_address (lb\<lparr>lb_Meta := m\<rparr>) = lb_address lb"
  by (simp_all add: lb_id_def key_of_def)

lemma changed_inv:
  assumes "cluster_inv (am, c)" and lb: "m_get (cl_lbs c) k = Some lb"
    and ok: "lb_validator_Update lb (lb\<lparr>lb_Spec := spec\<rparr>) = Inr ()"
  shows "cluster_inv (am, lb_write (lb\<lparr>lb_Spec := spec\<rparr>) c)"
proof (rule written_inv [OF assms(1)])
  note st = inv_stored [OF assms(1) lb]
  show "CHR ''/'' \<notin> set (lb_Namespace (lb\<lparr>lb_Spec := spec\<rparr>))" using st(2) by simp
  show "m_get (cl_lbcache c) (key_of (lb\<lparr>lb_Spec := spec\<rparr>)) \<noteq> None" if "aa_IPPool (lb_address (lb\<lparr>lb_Spec := spec\<rparr>)) \<noteq> ''''"
    using st(1,4) that by simp
  assume l: "live_pool_lb (lb\<lparr>lb_Spec := spec\<rparr>)"
  then have "live_pool_lb lb" using accepted_update_ipam [OF ok] by (simp add: live_pool_lb_def)
  then show "recorded_for c (lb\<lparr>lb_Spec := spec\<rparr>)" using st(3) by (simp add: recorded_for_def)
qed

lemma marked_inv:
  assumes "cluster_inv (am, c)"
  shows "cluster_inv (am, snd (lb_mark_deleted k c))"
proof (cases "m_get (cl_lbs c) k")
  case None
  then show ?thesis using assms by (simp add: lb_mark_deleted_def)
next
  case (Some lb)
  let ?lb = "lb\<lparr>lb_Meta := (lb_Meta lb)\<lparr>md_DeletionTimestamp := Some ''now''\<rparr>\<rparr>"
  note st = inv_stored [OF assms Some]
  have "cluster_inv (am, lb_write ?lb c)"
    using st by (intro written_inv [OF assms]) (auto simp: live_pool_lb_def key_of_def)
  then show ?thesis using Some by (simp add: lb_mark_deleted_def)
qed

lemma synced_inv:
  assumes "cluster_inv (am, c)"
  shows "cluster_inv (am, lb_sync k c)"
proof -
  have "records (lb_sync k c) = records c" "cl_lbs (lb_sync k c) = cl_lbs c" "cl_srv (lb_sync k c) = cl_srv c"
    by (simp_all add: lb_sync_def split: option.splits)
  moreover from this have "recorded_for (lb_sync k c) = recorded_for c" by (simp add: recorded_for_def fun_eq_iff)
  moreover have "lbs_named (lb_sync k c)"
    using assms unfolding cluster_inv_def lbs_named_def lb_sync_def
    by (auto simp: m_get_set m_get_del split: option.splits if_splits)
  moreover have "addressed_cached (lb_sync k c)"
    using assms unfolding cluster_inv_def addressed_cached_def lb_sync_def
    by (auto simp: m_get_set m_get_del split: option.splits if_splits)
  ultimately show ?thesis
    using assms by (simp add: cluster_inv_def pools_in_order_def addresses_recorded_def)
qed

text \<open>Only the pools change: it is enough that the records of the live load balancers stay.\<close>

lemma pools_inv:
  assumes inv: "cluster_inv (am, c)" and "sound_pools s" and "ranges_ok s" and "allocators_ok cluster_cache cluster_client am'"
    and rec: "\<And>k lb. m_get (cl_lbs c) k = Some lb \<Longrightarrow> live_pool_lb lb \<Longrightarrow> recorded_for c lb \<Longrightarrow> recorded_for (c\<lparr>cl_srv := s\<rparr>) lb"
  shows "cluster_inv (am', c\<lparr>cl_srv := s\<rparr>)"
proof -
  have "addresses_recorded (c\<lparr>cl_srv := s\<rparr>)"
    unfolding addresses_recorded_def
  proof (intro allI impI)
    fix k lb
    assume "m_get (cl_lbs (c\<lparr>cl_srv := s\<rparr>)) k = Some lb" and live: "live_pool_lb lb"
    then have lb: "m_get (cl_lbs c) k = Some lb" by simp
    show "recorded_for (c\<lparr>cl_srv := s\<rparr>) lb" by (rule rec [OF lb live inv_stored(3) [OF inv lb live]])
  qed
  moreover have "lbs_named (c\<lparr>cl_srv := s\<rparr>)" "addressed_cached (c\<lparr>cl_srv := s\<rparr>)"
    using inv by (simp_all add: cluster_inv_def lbs_named_def addressed_cached_def)
  ultimately show ?thesis using assms(2-4) by (simp add: cluster_inv_def pools_in_order_def)
qed

lemma pools_inv_same:
  assumes "cluster_inv (am, c)" and "sound_pools s" and "ranges_ok s" and "allocators_ok cluster_cache cluster_client am'"
    and "ledgers server_pool s = records c"
  shows "cluster_inv (am', c\<lparr>cl_srv := s\<rparr>)"
  by (rule pools_inv [OF assms(1-4)]) (simp add: recorded_for_def assms(5))

lemma inv_pools:
  assumes "cluster_inv (am, c)"
  shows "sound_pools (cl_srv c)" and "ranges_ok (cl_srv c)" and "allocators_ok cluster_cache cluster_client am"
    and "\<forall>n. store_inv cluster_cache cluster_pool cluster_good n c"
  using assms unfolding cluster_sound_iff by (simp_all add: cluster_inv_def pools_in_order_def)

lemma pool_side_simps: "pool_side h \<Longrightarrow> ph_ipPoolCache h = cluster_cache \<and> ph_ipPoolClient h = cluster_client \<and> ph_lbs h = cluster_ops"
  by (simp add: pool_side_def)

lemma updateStatus_pools_only:
  assumes "pool_side h" and "pc_Get server_cache n (cl_srv c) = Inr p" and "pool_updateStatus h p tot c = (x, c')"
  shows "pools_only c c'"
  using assms pool_side_simps [OF assms(1)]
  by (auto simp: pool_updateStatus_def Let_def pools_only_refl split: sum.splits prod.splits if_splits intro: update_pools_only)

lemma pool_changed_inv:
  assumes inv: "cluster_inv (am, c)" and h: "pool_side h" and p: "pc_Get cluster_cache n c = Inr p"
    and step: "pool_OnChange h (Some p) am c = (res, am', c')"
  shows "cluster_inv (am', c')"
proof (cases "am' = am \<and> c' = c")
  case True
  then show ?thesis using inv by simp
next
  case False
  note ok = inv_pools [OF inv] and sides = pool_side_simps [OF h]
  obtain a x where a: "NewAllocator (ph_sha256 h) (pool_Name p) (ps_Ranges (pool_Spec p)) cluster_cache cluster_client = Inr a"
    and up: "am' = sam_AddOrUpdate (pool_Name p) a am" "pool_updateStatus h p (al_total a) c = (x, c')"
    using step False sides by (auto simp: pool_OnChange_def Let_def split: if_splits sum.splits prod.splits)
  have get: "pc_Get server_cache n (cl_srv c) = Inr p" using p by simp
  have name: "pool_Name p = n" using cl.get_name [OF _ p] ok(4) by (simp add: store_inv_def)
  obtain rs where rs: "LBRangesToAllocatorRangeSet (ps_Ranges (pool_Spec p)) = Inr rs" "rangeset_ok rs"
    using ok(2) get unfolding cache_Get ranges_ok_def by blast
  have "ia_rangeset (al_IPAllocator a) = rs" using NewAllocator_Inr [OF a] rs(1) by (metis sum.inject(2))
  then have am': "allocators_ok cluster_cache cluster_client am'"
    using allocators_ok_add [OF ok(3) a] rs(2) up(1) by simp
  have "pc_Get cluster_cache (pool_Name p) c = Inr p" using p name by simp
  note out = cl.updateStatus_outcome [OF ok(4) this _ up(2)]
  obtain s where s: "c' = c\<lparr>cl_srv := s\<rparr>" "ranges_ok s"
    using updateStatus_pools_only [OF h get up(2)] ok(2) by (auto simp: pools_only_def)
  have "\<forall>n. store_inv cluster_cache cluster_pool cluster_good n c'" "ledgers cluster_pool c' = ledgers cluster_pool c"
    using out sides by simp_all
  then have "sound_pools s" "ledgers server_pool s = records c"
    unfolding cluster_sound_iff cluster_ledgers using s(1) by simp_all
  then show ?thesis unfolding s(1) using pools_inv_same [OF inv _ s(2) am'] by simp
qed

lemma pool_removed_inv:
  assumes "cluster_inv (am, c)"
  shows "cluster_inv (snd (pool_OnRemove po am), c)"
proof -
  have "allocators_ok cluster_cache cluster_client (snd (pool_OnRemove po am))"
    using inv_pools(3) [OF assms] unfolding allocators_ok_def
    by (auto simp: pool_OnRemove_def sam_Get_def sam_Delete_def m_get_del split: option.splits)
  then show ?thesis using assms by (simp add: cluster_inv_def pools_in_order_def)
qed

text \<open>Releasing whatever an applicant has of one pool.\<close>

lemma Release_in_cluster:
  assumes inv: "cluster_inv (am, c)" and a: "sam_Get n am = Some a" and rel: "IPAllocator_Release (al_IPAllocator a) i f c = (x, c')"
  shows "sound_pools (cl_srv c') \<and> gives_back n i (records c) (records c') \<and> pools_only c c'"
proof -
  note ok = inv_pools [OF inv]
  obtain sha ranges where al: "NewAllocator sha n ranges cluster_cache cluster_client = Inr a"
    using ok(3) a unfolding allocators_ok_def by blast
  have out: "\<forall>n. store_inv cluster_cache cluster_pool cluster_good n c'"
    "gives_back n i (ledgers cluster_pool c) (ledgers cluster_pool c')"
    using cl.Release_outcome [OF ok(4) al rel] by blast+
  have "pools_only c c'"
    using rel allocators_ok_store [OF ok(3) a] ReleaseByID_pools_only
    by (simp add: IPAllocator_Release_def store_backend_def)
  then show ?thesis using out unfolding cluster_sound_iff cluster_ledgers by blast
qed

lemma gives_back_others: "gives_back n i l l' \<Longrightarrow> j \<noteq> i \<Longrightarrow> l m k = Some j \<Longrightarrow> l' m k = Some j"
  by (auto elim!: gives_back.cases)

text \<open>An applicant that is no live load balancer gives an address back.\<close>

lemma given_back_inv:
  assumes inv: "cluster_inv (am, c)" and "pools_only c c'" and "sound_pools (cl_srv c')"
    and gives: "gives_back n i (records c) (records c')"
    and other: "\<And>k lb. m_get (cl_lbs c) k = Some lb \<Longrightarrow> live_pool_lb lb \<Longrightarrow> lb_id lb \<noteq> i"
  shows "cluster_inv (am, c')"
proof -
  obtain s where s: "c' = c\<lparr>cl_srv := s\<rparr>" "ranges_ok s"
    using assms(2) inv_pools(2) [OF inv] by (auto simp: pools_only_def)
  have "sound_pools s" using assms(3) s(1) by simp
  then show ?thesis unfolding s(1)
  proof (rule pools_inv [OF inv _ s(2) inv_pools(3) [OF inv]])
    fix k lb
    assume "m_get (cl_lbs c) k = Some lb" "live_pool_lb lb" "recorded_for c lb"
    then show "recorded_for (c\<lparr>cl_srv := s\<rparr>) lb"
      using gives_back_others [OF gives other] s(1) by (simp add: recorded_for_def)
  qed
qed

lemma OnRemove_cluster:
  assumes "manager_frame mgr" and "lb_OnRemove (lb_handler mgr now) am (Some lb) c = ((o', err), c')"
  obtains c1 r where "c' = c1\<lparr>cl_rest := r\<rparr>" and "c1 = c \<or> (\<exists>x. releaseIP am lb c = (x, c1))"
proof -
  obtain rel c1 where r: "(if lbs_IPAM (lb_Spec lb) = PoolIPAM \<and> aa_IPPool (lb_address lb) \<noteq> '''' then releaseIP am lb c
      else (Inr (), c)) = (rel, c1)" by fastforce
  then have c1: "c1 = c \<or> (\<exists>x. releaseIP am lb c = (x, c1))" by (auto split: if_splits)
  obtain y c2 where d: "lm_DeleteLoadBalancer mgr lb c1 = (y, c2)" by fastforce
  have m: "lh_lbManager (lb_handler mgr now) = mgr" by (simp add: lb_handler_def)
  obtain q where q: "c2 = c1\<lparr>cl_rest := q\<rparr>" using assms(1) d unfolding manager_frame_def by (metis snd_conv)
  have "c' = c1 \<or> c' = c2"
    using assms(2) r d m by (auto simp: lb_OnRemove_def Let_def split: sum.splits if_splits)
  then show thesis using that [where ?c1.0 = c1 and r = "cl_rest c1"] that [where ?c1.0 = c1 and r = q] c1 q by auto
qed

text \<open>What a handler does to the rest of the cluster does not matter, and a terminating object may go.\<close>

lemma rest_inv: "cluster_inv (am, c) \<Longrightarrow> cluster_inv (am, c\<lparr>cl_rest := r\<rparr>)"
  by (simp add: cluster_inv_def pools_in_order_def lbs_named_def addresses_recorded_def addressed_cached_def recorded_for_def)

lemma gone_inv:
  assumes "cluster_inv (am, c)"
  shows "cluster_inv (am, c\<lparr>cl_lbs := m_del k (cl_lbs c)\<rparr>)"
proof -
  have r: "recorded_for (c\<lparr>cl_lbs := m_del k (cl_lbs c)\<rparr>) = recorded_for c" by (simp add: recorded_for_def fun_eq_iff)
  show ?thesis
    using assms unfolding cluster_inv_def pools_in_order_def lbs_named_def addresses_recorded_def addressed_cached_def
    by (auto simp: m_get_del r split: if_splits)
qed

lemma removed_inv:
  assumes mgr: "manager_frame mgr" and inv: "cluster_inv (am, c)" and lb: "m_get (cl_lbcache c) k = Some lb"
    and cur: "m_get (cl_lbs c) k = Some cur" "md_DeletionTimestamp (lb_Meta cur) \<noteq> None"
    and step: "lb_OnRemove (lb_handler mgr now) am (Some lb) c = ((o', err), c')"
  shows "cluster_inv (am, c')"
proof -
  obtain c1 r where c1: "c' = c1\<lparr>cl_rest := r\<rparr>" "c1 = c \<or> (\<exists>x. releaseIP am lb c = (x, c1))"
    using OnRemove_cluster [OF mgr step] by blast
  have key: "key_of lb = k" "CHR ''/'' \<notin> set (lb_Namespace lb)"
    using inv lb unfolding cluster_inv_def lbs_named_def snd_conv by blast+
  have other: "lb_id lb' \<noteq> lb_id lb" if "m_get (cl_lbs c) k' = Some lb'" "live_pool_lb lb'" for k' lb'
  proof
    assume "lb_id lb' = lb_id lb"
    then have "k' = k" using lb_id_inj inv_stored(1,2) [OF inv that(1)] key by metis
    then show False using that cur by (simp add: live_pool_lb_def)
  qed
  have "cluster_inv (am, c1)"
  proof (cases "c1 = c")
    case False
    then obtain x a where "sam_Get (aa_IPPool (lb_address lb)) am = Some a"
      "IPAllocator_Release (al_IPAllocator a) (lb_id lb) '''' c = (x, c1)"
      using c1(2) by (auto simp: releaseIP_def split: option.splits)
    then have "sound_pools (cl_srv c1)" "gives_back (aa_IPPool (lb_address lb)) (lb_id lb) (records c) (records c1)" "pools_only c c1"
      using Release_in_cluster [OF inv] by blast+
    then show ?thesis using given_back_inv [OF inv] other by blast
  qed (use inv in simp)
  then show ?thesis unfolding c1(1) by (rule rest_inv)
qed

text \<open>The removal of an annotation writes the object the cache had, so it never undoes an allocation.\<close>

lemma annotation_in_cluster:
  assumes inv: "cluster_inv (am, c)" and h: "pool_side h" and p: "m_get (srv_cache (cl_srv c)) n = Some p"
    and step: "removeAnnotationKeyManuallyReleaseIP h p c = (res, c')"
  shows "cluster_inv (am, c')"
proof -
  let ?p = "p\<lparr>pool_Meta := (pool_Meta p)\<lparr>md_Annotations :=
      map_option (m_del AnnotationKeyManuallyReleaseIP) (md_Annotations (pool_Meta p))\<rparr>\<rparr>"
  note ok = inv_pools [OF inv]
  obtain x where up: "pcl_Update cluster_client ?p c = (x, c')"
    using step pool_side_simps [OF h] by (auto simp: removeAnnotationKeyManuallyReleaseIP_def split: prod.splits sum.splits)
  obtain s where srv: "srv_Update ?p (cl_srv c) = (x, s)" and c': "c' = c\<lparr>cl_srv := s\<rparr>"
    using up by (auto simp: cluster_Update server_client_def)
  have "\<exists>rs. LBRangesToAllocatorRangeSet (ps_Ranges (pool_Spec ?p)) = Inr rs \<and> rangeset_ok rs"
    using ok(2) p unfolding ranges_ok_def by auto
  then have "ranges_ok (cl_srv c')" using write_pools_only [OF up] ok(2) by (auto simp: pools_only_def)
  then have s: "ranges_ok s" using c' by simp
  have good: "server_good (cl_srv c)" and pinv: "pool_inv p" using ok(1) p unfolding sound_pools_iff by blast+
  have cur: "q = p" if "m_get (srv_pools (cl_srv c)) (pool_Name p) = Some q" "pool_rv q = pool_rv p" for q
    using good p that unfolding server_good_def by metis
  have "sound_pools s \<and> ledgers server_pool s = records c"
  proof (cases "s = cl_srv c")
    case False
    then have sv: "m_get (srv_pools (cl_srv c)) (pool_Name p) = Some p"
      "s = (cl_srv c)\<lparr>srv_pools := m_set (pool_Name p) (stamp (srv_next (cl_srv c)) ?p) (srv_pools (cl_srv c)),
         srv_next := Suc (srv_next (cl_srv c))\<rparr>"
      using srv cur by (auto simp: srv_Update_def Let_def split: option.splits if_splits)
    have "sound_pools s" unfolding sv(2) using write_sound [OF ok(1), of ?p "pool_Name p"] pinv by simp
    moreover have "ledgers server_pool s = records c"
      unfolding sv(2) using sv(1) by (auto simp: ledgers_def store_alloc_def server_pool_def m_get_set fun_eq_iff)
    ultimately show ?thesis by blast
  qed (use ok(1) in simp)
  then show ?thesis unfolding c' using pools_inv_same [OF inv _ s ok(3)] by blast
qed

lemma record_namespace:
  assumes "SplitIPAllocatedString r = Inr (ip, namespace, name)"
  shows "CHR ''/'' \<notin> set namespace"
proof -
  obtain t where "Split (CHR ''/'') t = [namespace, name]"
    using assms by (auto simp: SplitIPAllocatedString_def Let_def split: list.splits)
  then show ?thesis using Split_pieces_no_sep [of namespace "CHR ''/''" t] by simp
qed

lemma ip_released_inv:
  assumes inv: "cluster_inv (am, c)" and h: "pool_side h" and p: "pc_Get cluster_cache n c = Inr p"
    and step: "OnChangeToReleaseAnIP h am (Some p) c = (res, c')"
  shows "cluster_inv (am, c')"
proof -
  have m: "m_get (srv_cache (cl_srv c)) n = Some p" using p by (simp add: cache_Get)
  show ?thesis
  proof (cases "c' = c \<or> removeAnnotationKeyManuallyReleaseIP h p c = (res, c')")
    case True
    then show ?thesis using inv annotation_in_cluster [OF inv h m] by blast
  next
    case False
    let ?rec = "str_get (md_Annotations (pool_Meta p)) AnnotationKeyManuallyReleaseIP"
    obtain ip ns name e a where sp: "SplitIPAllocatedString ?rec = Inr (ip, ns, name)" "lb_lookup ns name c = Inl e"
      and a: "sam_Get (pool_Name p) am = Some a" and st: "OnChangeToReleaseAnIP h am (Some p) c =
        (case IPAllocator_Release (al_IPAllocator a) (ns @ ''/'' @ name) '''' c of
           (Inl e', w1) \<Rightarrow> ((Some p, Some (wrapf (''IP Pool '' @ pool_Name p @
              '' has a manual IP release request '' @ ?rec @ '', fail to release, error:'') e')), w1)
         | (Inr _, w1) \<Rightarrow> removeAnnotationKeyManuallyReleaseIP h p w1)"
      using step False pool_side_simps [OF h]
      by (auto simp: OnChangeToReleaseAnIP_def Let_def cluster_ops_def split: if_splits sum.splits option.splits)
    obtain x c1 where r: "IPAllocator_Release (al_IPAllocator a) (ns @ ''/'' @ name) '''' c = (x, c1)" by fastforce
    have released: "CHR ''/'' \<notin> set ns" "m_get (cl_lbcache c) (ns, name) = None"
      using record_namespace [OF sp(1)] sp(2) by (auto simp: lb_lookup_def split: option.splits)
    have next_step: "c' = c1 \<or> removeAnnotationKeyManuallyReleaseIP h p c1 = (res, c')"
      using step st r by (cases x) auto
    note rel = Release_in_cluster [OF inv a r]
    have "lb_id lb \<noteq> ns @ ''/'' @ name" if lb: "m_get (cl_lbs c) k = Some lb" "live_pool_lb lb" for k lb
    proof
      note st = inv_stored [OF inv lb(1)]
      assume "lb_id lb = ns @ ''/'' @ name"
      then have "key_of lb = (ns, name)"
        using first_sep_inj [of "CHR ''/''" "lb_Namespace lb" ns "lb_Name lb" name] st(2) released(1)
        by (simp add: lb_id_def key_of_def)
      then show False using st(1,4) lb(2) released(2) by (auto simp: live_pool_lb_def)
    qed
    then have c1: "cluster_inv (am, c1)" using given_back_inv [OF inv] rel by blast
    have "m_get (srv_cache (cl_srv c1)) n = Some p" using rel m by (auto simp: pools_only_def)
    then show ?thesis using c1 annotation_in_cluster [OF c1 h] next_step by blast
  qed
qed

lemma cluster_step_inv:
  assumes "manager_frame mgr" and "cluster_step mgr s s'" and "cluster_inv s"
  shows "cluster_inv s'"
  using assms(2,3)
proof (induction rule: cluster_step.induct)
  case (lb_created lb c vms am)
  then show ?case
    by (intro written_inv) (auto simp: live_pool_lb_def empty_lb_status_def empty_address_def)
next
  case (removed c k lb cur now am o' err c' c2)
  have "cluster_inv (am, c')" using removed_inv [OF assms(1) removed.prems removed.hyps(1-4)] .
  then show ?case using gone_inv removed.hyps(5) by blast
next
  case (pools c s am)
  note ok = inv_pools [OF pools.prems]
  show ?case
    using pool_step_sound [OF pools.hyps ok(1)] pool_step_ranges [OF pools.hyps ok(2)] pool_step_ledgers [OF pools.hyps ok(1)]
    by (intro pools_inv_same [OF pools.prems _ _ ok(3)])
next
  case (reconciled c k lb now am res c')
  show ?case using reconciled_inv [OF assms(1) reconciled.prems reconciled.hyps(2,1,3,4)] .
next
  case (pool_changed h n c p am res' am' c')
  show ?case using pool_changed_inv [OF pool_changed.prems pool_changed.hyps] .
next
  case (ip_released h n c p am res' c')
  show ?case using ip_released_inv [OF ip_released.prems ip_released.hyps] .
qed (simp_all add: changed_inv marked_inv synced_inv pool_removed_inv)

lemma reachable_inv:
  assumes "manager_frame mgr"
  shows "cluster_reachable mgr s \<Longrightarrow> cluster_inv s"
proof (induction rule: cluster_reachable.induct)
  case (start r)
  have "sound_pools (cl_srv (empty_cluster r))"
    unfolding sound_pools_iff by (simp add: empty_cluster_def server_good_def)
  then show ?case
    by (simp add: cluster_inv_def pools_in_order_def lbs_named_def addresses_recorded_def addressed_cached_def
        ranges_ok_def allocators_ok_def sam_Get_def empty_cluster_def)
qed (use cluster_step_inv [OF assms] in blast)

end
