(* ===== verification/ClusterProps.thy ===== *)
theory ClusterProps
  imports ClusterRuns
begin

text \<open>
  What holds in every state the cluster can reach, with runs of a small cluster: one pool with two
  addresses and load balancers that ask for them. The runs are computed by \<open>plays\<close>, whose moves are
  steps of the cluster; the loops of the allocator run with fuel there.
\<close>

section \<open>Runs with fuel\<close>

primrec next_fuel :: "nat \<Rightarrow> RangeIter \<Rightarrow> (RangeIter \<times> (IPNet \<times> ip) option) res option" where
  "next_fuel 0 i = None"
| "next_fuel (Suc k) i =
     (case next_step i of
        Inl e \<Rightarrow> Some (Inl e)
      | Inr (i', out) \<Rightarrow>
          (case out of
             Exhausted \<Rightarrow> Some (Inr (i', None))
           | AtGateway \<Rightarrow> next_fuel k i'
           | Yielded n g \<Rightarrow> Some (Inr (i', Some (n, g)))))"

primrec reserve_fuel ::
  "nat \<Rightarrow> 'w BackendStore \<Rightarrow> string \<Rightarrow> string \<Rightarrow> string \<Rightarrow> RangeIter \<Rightarrow> 'w \<Rightarrow> ((IPNet \<times> ip) option res \<times> 'w) option" where
  "reserve_fuel 0 bs i ifname rangeID iter w = None"
| "reserve_fuel (Suc k) bs i ifname rangeID iter w =
     (case next_fuel (Suc k) iter of
        None \<Rightarrow> None
      | Some (Inl e) \<Rightarrow> Some (Inl e, w)
      | Some (Inr (iter', None)) \<Rightarrow> Some (Inr None, w)
      | Some (Inr (iter', Some (reservedIP, gw))) \<Rightarrow>
          (case bs_Reserve bs i ifname (net_IP reservedIP) rangeID w of
             (Inl e, w') \<Rightarrow> Some (Inl e, w')
           | (Inr reserved, w') \<Rightarrow>
               if reserved then Some (Inr (Some (reservedIP, gw)), w')
               else reserve_fuel k bs i ifname rangeID iter' w'))"

lemma next_fuel_eq: "next_fuel k i = Some r \<Longrightarrow> iter_Next i = Some r"
  by (induction k arbitrary: i) (simp, subst iter_Next.simps, auto split: sum.splits iter_out.splits)

lemma reserve_fuel_eq: "reserve_fuel k bs i f r iter w = Some x \<Longrightarrow> reserve_loop bs i f r iter w = Some x"
proof (induction k arbitrary: iter w)
  case (Suc k)
  then obtain nx where "next_fuel (Suc k) iter = Some nx" by (auto split: option.splits)
  moreover from this have "iter_Next iter = Some nx" by (rule next_fuel_eq)
  ultimately show ?case
    using Suc by (subst reserve_loop.simps) (auto split: sum.splits option.splits prod.splits if_splits)
qed simp

definition get_fuel :: "nat \<Rightarrow> 'w Allocator \<Rightarrow> string \<Rightarrow> 'w \<Rightarrow> (IPConfig res \<times> 'w) option" where
  "get_fuel k a i w =
     (case pc_Get (al_cache a) (al_name a) w of
        Inl e \<Rightarrow> None
      | Inr pool \<Rightarrow>
          (case find_applicant i (entries (pool_History pool)) of
             Some (x, v) \<Rightarrow> None
           | None \<Rightarrow>
               let ia = al_IPAllocator a in
               (case find (\<lambda>x. rangeset_Contains (ia_rangeset ia) x) (bs_GetByID (ia_store ia) i '''' w) of
                  Some x \<Rightarrow> Some (Inl (duplicate_error x i), w)
                | None \<Rightarrow>
                    (case GetIter ia w of
                       Inl e \<Rightarrow> None
                     | Inr iter \<Rightarrow>
                         (case reserve_fuel k (ia_store ia) i '''' (ia_rangeID ia) iter w of
                            Some (Inr (Some (n, gw)), w') \<Rightarrow> Some (Inr \<lparr>ipc_Address = n, ipc_Gateway = gw\<rparr>, w')
                          | _ \<Rightarrow> None)))))"

lemma get_fuel_eq: "get_fuel k a i w = Some r \<Longrightarrow> Allocator_Get a i w = Some r"
  by (auto simp: get_fuel_def Allocator_Get_def IPAllocator_Get_def Get_any_def Let_def dest!: reserve_fuel_eq
      split: sum.splits option.splits prod.splits)

text \<open>A reconciliation of a load balancer of a guest cluster that names its pool and has no address yet.\<close>

definition asks_pool :: "LoadBalancer \<Rightarrow> bool" where
  "asks_pool lb \<longleftrightarrow> md_DeletionTimestamp (lb_Meta lb) = None \<and> lb_APIVersion lb = SchemeGroupVersion \<and>
     lbs_IPAM (lb_Spec lb) \<noteq> DHCP \<and> lbs_IPPool (lb_Spec lb) \<noteq> '''' \<and> aa_IPPool (lb_address lb) = '''' \<and>
     lbs_WorkloadType (lb_Spec lb) = Cluster"

text \<open>A reconciliation whose allocator loops run with fuel; \<open>None\<close> when the fuel or the cases covered do not suffice.\<close>

definition request_fuel ::
  "nat \<Rightarrow> 'w SafeAllocatorMap \<Rightarrow> LoadBalancer \<Rightarrow> string \<Rightarrow> 'w \<Rightarrow> (AllocatedAddress res \<times> 'w) option" where
  "request_fuel k am lb pool w =
     (case sam_Get pool am of
        None \<Rightarrow> Some (Inl (no_allocator pool), w)
      | Some a \<Rightarrow>
          (case get_fuel k a (lb_id lb) w of
             None \<Rightarrow> None
           | Some (Inl e, w1) \<Rightarrow> Some (Inl (wrapf (''fail to get ip from pool '' @ pool @ '', error: '') e), w1)
           | Some (Inr c, w1) \<Rightarrow> Some (Inr \<lparr>aa_IPPool = pool, aa_IP = ip_String (net_IP (ipc_Address c)),
               aa_Mask = ip_String (net_Mask (ipc_Address c)), aa_Gateway = ip_String (ipc_Gateway c)\<rparr>, w1)))"

definition address_fuel ::
  "nat \<Rightarrow> 'w LBHandler \<Rightarrow> 'w SafeAllocatorMap \<Rightarrow> LoadBalancer \<Rightarrow> 'w \<Rightarrow> 'w step_res option" where
  "address_fuel k h am lb w =
     (if lbs_IPAM (lb_Spec lb) = DHCP \<or> lbs_IPPool (lb_Spec lb) = '''' then None
      else if aa_IPPool (lb_address lb) = '''' then
        (case request_fuel k am lb (lbs_IPPool (lb_Spec lb)) w of
           None \<Rightarrow> None
         | Some (Inr ip, w1) \<Rightarrow> Some (None, set_address lb ip, w1)
         | Some (Inl e, w1) \<Rightarrow>
             Some (Some e, lb, if Contains (err_text e) DuplicateAllocationKeyWord
                               then snd (tryReleaseDuplicatedIPToPool h am lb w1) else w1))
      else if aa_IPPool (lb_address lb) = lbs_IPPool (lb_Spec lb) then Some (None, lb, w)
      else (case releaseIP am lb w of
          (Inl e, w1) \<Rightarrow> None
        | (Inr _, w1) \<Rightarrow> Some (None, set_address lb empty_address, w1)))"

definition reconcile_fuel ::
  "nat \<Rightarrow> 'w LBHandler \<Rightarrow> 'w SafeAllocatorMap \<Rightarrow> LoadBalancer \<Rightarrow> 'w \<Rightarrow> (hres \<times> 'w) option" where
  "reconcile_fuel k h am lb w =
     (if md_DeletionTimestamp (lb_Meta lb) \<noteq> None \<or> lb_APIVersion lb \<noteq> SchemeGroupVersion then None
      else (case address_fuel k h am lb w of
          None \<Rightarrow> None
        | Some (Some e, lbCopy, w1) \<Rightarrow> Some (handleError h lbCopy lb e w1)
        | Some (None, lbCopy, w1) \<Rightarrow>
            if lbs_WorkloadType (lb_Spec lb) = VM \<or> lbs_WorkloadType (lb_Spec lb) = '''' then
              Some (case ensureVMLoadBalancer h lbCopy lb w1 of
                  (Some e, lbCopy2, w2) \<Rightarrow> handleError h lbCopy2 lb e w2
                | (None, lbCopy2, w2) \<Rightarrow> lb_updateStatus h lbCopy2 lb None w2)
            else Some (lb_updateStatus h lbCopy lb None w1)))"

lemma request_fuel_eq:
  assumes "request_fuel k am lb pool w = Some r"
  shows "requestIP am lb pool w = Some r"
proof (cases "sam_Get pool am")
  case None
  then show ?thesis using assms by (simp add: request_fuel_def requestIP_def)
next
  case (Some a)
  then obtain x w1 where g: "get_fuel k a (lb_id lb) w = Some (x, w1)"
    using assms by (auto simp: request_fuel_def split: option.splits)
  show ?thesis using assms Some g get_fuel_eq [OF g] by (cases x) (simp_all add: request_fuel_def requestIP_def)
qed

lemma address_fuel_eq:
  assumes "address_fuel k h am lb w = Some r"
  shows "ensureAllocatedAddress h am lb lb w = Some r"
proof (cases "aa_IPPool (lb_address lb) = ''''")
  case True
  have n: "lbs_IPAM (lb_Spec lb) \<noteq> DHCP" "lbs_IPPool (lb_Spec lb) \<noteq> ''''"
    using assms by (auto simp: address_fuel_def split: if_splits)
  then obtain x w1 where g: "request_fuel k am lb (lbs_IPPool (lb_Spec lb)) w = Some (x, w1)"
    using assms True by (auto simp: address_fuel_def split: option.splits)
  show ?thesis
    using assms True n g request_fuel_eq [OF g]
    by (cases x) (simp_all add: address_fuel_def ensureAllocatedAddress_def ensureAllocatedAddressPool_def
        allocateIPFromPool_def split: if_splits)
next
  case False
  then show ?thesis
    using assms by (auto simp: address_fuel_def ensureAllocatedAddress_def ensureAllocatedAddressPool_def
        split: if_splits sum.splits prod.splits)
qed

lemma reconcile_fuel_eq:
  assumes "reconcile_fuel k h am lb w = Some r"
  shows "lb_OnChange h am (Some lb) w = Some r"
proof -
  obtain err lbCopy w1 where a: "address_fuel k h am lb w = Some (err, lbCopy, w1)"
    and l: "md_DeletionTimestamp (lb_Meta lb) = None" "lb_APIVersion lb = SchemeGroupVersion"
    using assms by (auto simp: reconcile_fuel_def split: if_splits option.splits)
  show ?thesis
    using assms a l address_fuel_eq [OF a]
    by (cases err) (auto simp: reconcile_fuel_def lb_OnChange_def split: if_splits)
qed

section \<open>Moves\<close>

type_synonym 'r run_state = "'r Cluster SafeAllocatorMap \<times> 'r Cluster"

abbreviation run_handler :: "'r Cluster LBManager \<Rightarrow> 'r Cluster LBHandler" where
  "run_handler mgr \<equiv> lb_handler mgr ''t0''"

definition run_pools :: "'r Cluster PoolHandler" where
  "run_pools = \<lparr>ph_ipPoolCache = cluster_cache, ph_ipPoolClient = cluster_client, ph_lbs = cluster_ops,
     ph_configMaps = \<lparr>cmo_Get = (\<lambda>ns n w. Inl (not_found n)), cmo_List = (\<lambda>w. Inr []), cmo_Update = (\<lambda>cm w. (Inr cm, w))\<rparr>,
     ph_sha256 = id, ph_unmarshal = (\<lambda>s. Inr []), ph_now = ''t0''\<rparr>"

datatype move = CreatePool IPPool | SyncPool string | ServePool string | CreateLB LoadBalancer | ChangeLB lbkey LoadBalancerSpec | SyncLB lbkey | Reconcile lbkey
  | DeleteLB lbkey | RemoveLB lbkey | DeletePool string | PoolGone IPPool

fun play :: "'r Cluster LBManager \<Rightarrow> move \<Rightarrow> 'r run_state \<Rightarrow> 'r run_state option" where
  "play mgr (CreatePool p) (am, c) =
     (if admitted_ranges (cl_srv c) p \<and> pool_Status p = fresh_status then
        (case srv_Create p (cl_srv c) of (Inr q, s) \<Rightarrow> Some (am, c\<lparr>cl_srv := s\<rparr>) | (Inl e, s) \<Rightarrow> None)
      else None)"
| "play mgr (SyncPool n) (am, c) = Some (am, c\<lparr>cl_srv := srv_sync n (cl_srv c)\<rparr>)"
| "play mgr (ServePool n) (am, c) =
     (case pc_Get cluster_cache n c of Inr p \<Rightarrow> Some (snd (pool_OnChange run_pools (Some p) am c)) | Inl e \<Rightarrow> None)"
| "play mgr (CreateLB lb) (am, c) =
     (if CHR ''/'' \<notin> set (lb_Namespace lb) \<and> m_get (cl_lbs c) (key_of lb) = None \<and> lb_Status lb = empty_lb_status \<and>
         lb_validator_Create (\<lambda>ns sel w. Inr []) lb c = Inr () then Some (am, lb_write lb c) else None)"
| "play mgr (ChangeLB k spec) (am, c) =
     (case m_get (cl_lbs c) k of
        None \<Rightarrow> None
      | Some lb \<Rightarrow>
          if lb_validator_Update lb (lb\<lparr>lb_Spec := spec\<rparr>) = Inr () then Some (am, lb_write (lb\<lparr>lb_Spec := spec\<rparr>) c) else None)"
| "play mgr (SyncLB k) (am, c) = Some (am, lb_sync k c)"
| "play mgr (Reconcile k) (am, c) =
     (case m_get (cl_lbcache c) k of
        None \<Rightarrow> None
      | Some lb \<Rightarrow>
          if m_get (cl_lbs c) k = Some lb
          then (case reconcile_fuel 9 (run_handler mgr) am lb c of
              Some (r, c') \<Rightarrow> if panicked r then None else Some (am, c') | None \<Rightarrow> None)
          else None)"
| "play mgr (DeleteLB k) (am, c) = Some (am, snd (lb_mark_deleted k c))"
| "play mgr (RemoveLB k) (am, c) =
     (case (m_get (cl_lbcache c) k, m_get (cl_lbs c) k) of
        (Some lb, Some cur) \<Rightarrow>
          if md_DeletionTimestamp (lb_Meta cur) \<noteq> None
          then Some (am, snd (lb_OnRemove (run_handler mgr) am (Some lb) c)) else None
      | _ \<Rightarrow> None)"
| "play mgr (DeletePool n) (am, c) =
     (case server_pool (cl_srv c) n of
        None \<Rightarrow> None
      | Some p \<Rightarrow> if pool_validator_Delete p = Inr () then Some (am, c\<lparr>cl_srv := srv_Delete n (cl_srv c)\<rparr>) else None)"
| "play mgr (PoolGone p) (am, c) = Some (snd (pool_OnRemove (Some p) am), c)"

text \<open>\<open>RemoveLB\<close> runs the handler while the finalizer stays, as when its removal meets a conflict.\<close>

fun plays :: "'r Cluster LBManager \<Rightarrow> move list \<Rightarrow> 'r run_state \<Rightarrow> 'r run_state option" where
  "plays mgr [] s = Some s"
| "plays mgr (m # ms) s = (case play mgr m s of None \<Rightarrow> None | Some s' \<Rightarrow> plays mgr ms s')"

lemma plain_manager_frame: "manager_frame (plain_manager :: unit Cluster LBManager)"
proof -
  have "\<exists>r. c = c\<lparr>cl_rest := r\<rparr>" for c :: "unit Cluster" by (rule exI [of _ "cl_rest c"]) simp
  then show ?thesis by (simp add: manager_frame_def plain_manager_def)
qed

lemma play_step: "play mgr m (am, c) = Some s' \<Longrightarrow> cluster_step mgr (am, c) s'"
proof (cases m)
  case (CreatePool p)
  assume "play mgr m (am, c) = Some s'"
  then obtain q s where s: "admitted_ranges (cl_srv c) p" "pool_Status p = fresh_status" "srv_Create p (cl_srv c) = (Inr q, s)"
    "s' = (am, c\<lparr>cl_srv := s\<rparr>)"
    by (auto simp: CreatePool split: if_splits prod.splits sum.splits)
  show ?thesis unfolding s(4) by (rule cluster_step.pools [OF pool_step.created [OF s(1-3)]])
next
  case (ServePool n)
  assume a: "play mgr m (am, c) = Some s'"
  then obtain p where p: "pc_Get cluster_cache n c = Inr p" by (auto simp: ServePool split: sum.splits)
  obtain r am' c' where o: "pool_OnChange run_pools (Some p) am c = (r, am', c')" by (metis prod.collapse)
  have h: "pool_side run_pools" by (simp add: pool_side_def run_pools_def)
  have "s' = (am', c')" using a p o by (simp add: ServePool)
  then show ?thesis using cluster_step.pool_changed [OF h p o] by blast
next
  case (Reconcile k)
  assume "play mgr m (am, c) = Some s'"
  then obtain lb r c' where l: "m_get (cl_lbcache c) k = Some lb" "m_get (cl_lbs c) k = Some lb"
    "reconcile_fuel 9 (run_handler mgr) am lb c = Some (r, c')" "s' = (am, c')" "\<not> panicked r"
    by (auto simp: Reconcile split: option.splits if_splits)
  show ?thesis unfolding l(4)
    by (rule cluster_step.reconciled [OF l(1,2) reconcile_fuel_eq [OF l(3)] l(5)])
next
  case (RemoveLB k)
  assume "play mgr m (am, c) = Some s'"
  then obtain lb cur where l: "m_get (cl_lbcache c) k = Some lb" "m_get (cl_lbs c) k = Some cur"
    "md_DeletionTimestamp (lb_Meta cur) \<noteq> None" "s' = (am, snd (lb_OnRemove (lb_handler mgr ''t0'') am (Some lb) c))"
    by (auto simp: RemoveLB split: option.splits if_splits)
  obtain o' err c' where r: "lb_OnRemove (lb_handler mgr ''t0'') am (Some lb) c = ((o', err), c')" by (metis prod.collapse)
  show ?thesis unfolding l(4) r snd_conv by (rule cluster_step.removed [OF l(1-3) r]) simp
next
  case (DeletePool n)
  assume "play mgr m (am, c) = Some s'"
  then obtain p where p: "server_pool (cl_srv c) n = Some p" "pool_validator_Delete p = Inr ()"
    "s' = (am, c\<lparr>cl_srv := srv_Delete n (cl_srv c)\<rparr>)"
    by (auto simp: DeletePool split: option.splits if_splits)
  show ?thesis unfolding p(3) by (rule cluster_step.pools [OF pool_step.deleted [OF p(1,2)]])
qed (auto split: if_splits option.splits intro: cluster_step.lb_changed cluster_step.lb_deleted cluster_step.pool_removed cluster_step.lb_created cluster_step.lb_synced cluster_step.pools pool_step.synced)

lemma plays_reachable:
  "plays mgr ms s = Some s' \<Longrightarrow> cluster_reachable mgr s \<Longrightarrow> cluster_reachable mgr s'"
  by (induction mgr ms s rule: plays.induct)
    (auto split: option.splits dest!: play_step intro: cluster_reachable.step)


section \<open>Addresses are exclusive\<close>

definition run_pool :: IPPool where
  "run_pool = demo_pool\<lparr>pool_Status := fresh_status\<rparr>"

definition run_lb :: "string \<Rightarrow> LoadBalancer" where
  "run_lb name = cluster_lb\<lparr>lb_Meta := empty_meta\<lparr>md_Name := name, md_Namespace := ''default''\<rparr>\<rparr>"

definition get_address :: "string \<Rightarrow> move list" where
  "get_address name = [CreateLB (run_lb name), SyncLB (''default'', name), Reconcile (''default'', name), SyncPool ''demo'']"

definition two_addresses :: "move list" where
  "two_addresses = [CreatePool run_pool, SyncPool ''demo'', ServePool ''demo'', SyncPool ''demo''] @
     get_address ''lb1'' @ get_address ''lb2''"

definition address_at :: "string \<Rightarrow> unit run_state option \<Rightarrow> (string \<times> string) option" where
  "address_at name so = (case so of
     None \<Rightarrow> None
   | Some (am, c) \<Rightarrow> map_option (\<lambda>lb. (aa_IPPool (lb_address lb), aa_IP (lb_address lb))) (m_get (cl_lbs c) (''default'', name)))"

lemma two_addresses_run:
  "address_at ''lb1'' (plays plain_manager two_addresses ([], empty_cluster ())) = Some (''demo'', ''10.0.0.2'')"
  by code_simp


lemma inv_exclusive:
  assumes "cluster_inv (am, c)" and "m_get (cl_lbs c) k = Some lb" and "m_get (cl_lbs c) k' = Some lb'" and "k \<noteq> k'"
    and "live_pool_lb lb" and "live_pool_lb lb'"
  shows "(aa_IPPool (lb_address lb), aa_IP (lb_address lb)) \<noteq> (aa_IPPool (lb_address lb'), aa_IP (lb_address lb'))"
proof
  assume "(aa_IPPool (lb_address lb), aa_IP (lb_address lb)) = (aa_IPPool (lb_address lb'), aa_IP (lb_address lb'))"
  moreover note st = inv_stored [OF assms(1,2)] inv_stored [OF assms(1,3)]
  ultimately have "lb_id lb = lb_id lb'" using assms(5,6) by (simp add: recorded_for_def)
  then show False using lb_id_inj [OF st(2,6)] st(1,5) assms(4) by simp
qed

text \<open>
  \<^bold>\<open>C1.\<close> The pools, the load balancers, the webhooks, the caches and the handlers of both
  controllers together, from an empty cluster and in any order, provided that a load balancer is reconciled only when the
  cache holds its stored version, that no reconciliation panics, and that the manager of the services leaves
  pools and load balancers alone: in every state that can be reached, the address of every live load
  balancer is recorded for it in the pool it came from, and two live load balancers never have the same
  address of the same pool. The caches of pools may lag, and so may the cache of load balancers when one is removed.
\<close>

theorem addresses_exclusive:
  assumes "manager_frame mgr" and "cluster_reachable mgr (am, c)"
    and "m_get (cl_lbs c) k = Some lb" and "m_get (cl_lbs c) k' = Some lb'" and "k \<noteq> k'"
    and "live_pool_lb lb" and "live_pool_lb lb'"
  shows "recorded_for c lb \<and>
    (aa_IPPool (lb_address lb), aa_IP (lb_address lb)) \<noteq> (aa_IPPool (lb_address lb'), aa_IP (lb_address lb'))"
proof -
  note inv = reachable_inv [OF assms(1,2)]
  show ?thesis using inv_stored(3) [OF inv assms(3,6)] inv_exclusive [OF inv assms(3-7)] by blast
qed

text \<open>Both load balancers of the run are live and have an address.\<close>

definition live_at :: "string \<Rightarrow> unit run_state option \<Rightarrow> bool" where
  "live_at name so = (case so of
     None \<Rightarrow> False
   | Some (am, c) \<Rightarrow> (case m_get (cl_lbs c) (''default'', name) of None \<Rightarrow> False | Some lb \<Rightarrow> live_pool_lb lb))"

lemma live_atE:
  assumes "live_at name so"
  obtains am c lb where "so = Some (am, c)" and "m_get (cl_lbs c) (''default'', name) = Some lb" and "live_pool_lb lb"
  using assms by (auto simp: live_at_def split: option.splits)

lemma two_addresses_live:
  "live_at ''lb1'' (plays plain_manager two_addresses ([], empty_cluster ()))" "live_at ''lb2'' (plays plain_manager two_addresses ([], empty_cluster ()))"
  by code_simp+

theorem addresses_exclusive_witness:
  "\<exists>am c lb1 lb2. cluster_reachable plain_manager (am, c :: unit Cluster) \<and>
     m_get (cl_lbs c) (''default'', ''lb1'') = Some lb1 \<and> m_get (cl_lbs c) (''default'', ''lb2'') = Some lb2 \<and>
     live_pool_lb lb1 \<and> live_pool_lb lb2 \<and> recorded_for c lb1 \<and>
     (aa_IPPool (lb_address lb1), aa_IP (lb_address lb1)) \<noteq> (aa_IPPool (lb_address lb2), aa_IP (lb_address lb2))"
proof -
  obtain am c lb1 where r: "plays plain_manager two_addresses ([], empty_cluster ()) = Some (am, c)"
    and l1: "m_get (cl_lbs c) (''default'', ''lb1'') = Some lb1" "live_pool_lb lb1"
    using two_addresses_live(1) by (rule live_atE)
  obtain lb2 where l2: "m_get (cl_lbs c) (''default'', ''lb2'') = Some lb2" "live_pool_lb lb2"
    using two_addresses_live(2) r by (auto simp: live_at_def split: option.splits)
  have reach: "cluster_reachable plain_manager (am, c)" by (rule plays_reachable [OF r cluster_reachable.start])
  have "(''default'', ''lb1'') \<noteq> (''default'', ''lb2'')" by simp
  from addresses_exclusive [OF plain_manager_frame reach l1(1) l2(1) this l1(2) l2(2)]
  show ?thesis using reach l1 l2 by blast
qed

section \<open>A reconciliation from a stale cache\<close>

text \<open>
  The cache of load balancers may lag behind the cache of pools. The handler is then given the object
  without the address it has just been allocated, takes the record of the pool for a leftover and
  gives the address back, although the stored object has it.
\<close>

definition stale_reconcile :: "lbkey \<Rightarrow> unit run_state option \<Rightarrow> unit run_state option" where
  "stale_reconcile k so =
     (case so of
        None \<Rightarrow> None
      | Some (am, c) \<Rightarrow>
          (case m_get (cl_lbcache c) k of
             None \<Rightarrow> None
           | Some lb \<Rightarrow> map_option (\<lambda>(r, c'). (am, c')) (reconcile_fuel 9 (run_handler plain_manager) am lb c)))"

definition after_stale :: "move list" where
  "after_stale = SyncPool ''demo'' # get_address ''lb3''"

definition stale_state :: "unit run_state option" where
  "stale_state = stale_reconcile (''default'', ''lb1'') (plays plain_manager two_addresses ([], empty_cluster ()))"

definition final_state :: "unit run_state option" where
  "final_state = (case stale_state of None \<Rightarrow> None | Some s \<Rightarrow> plays plain_manager after_stale s)"

lemma final_live: "live_at ''lb1'' final_state" "live_at ''lb3'' final_state"
  by code_simp+

lemma final_address:
  "address_at ''lb1'' final_state = Some (''demo'', ''10.0.0.2'')" "address_at ''lb3'' final_state = Some (''demo'', ''10.0.0.2'')"
  by code_simp+

lemma plays_steps: "plays mgr ms s = Some s' \<Longrightarrow> (cluster_step mgr)\<^sup>*\<^sup>* s s'"
  by (induction mgr ms s rule: plays.induct)
    (auto split: option.splits dest!: play_step intro: converse_rtranclp_into_rtranclp)


lemma stale_stateE:
  assumes "stale_reconcile k (Some (am, c)) = Some s"
  obtains lb r c' where "m_get (cl_lbcache c) k = Some lb" and "lb_OnChange (run_handler plain_manager) am (Some lb) c = Some (r, c')" and "s = (am, c')"
  using assms reconcile_fuel_eq by (fastforce simp: stale_reconcile_def split: option.splits)

text \<open>
  \<^bold>\<open>C9.\<close> Without the hypothesis that a reconciliation sees the stored version the addresses are not
  exclusive: there is a reachable state in which the cache holds the load balancer without its
  address, its reconciliation gives the address back to the pool, and later steps give the same
  address to another load balancer while the first, live, still has it.
\<close>

theorem stale_cache_duplicates_address:
  "\<exists>am c lb r c' am2 c2 lb1 lb3.
     cluster_reachable plain_manager (am, c :: unit Cluster) \<and> m_get (cl_lbcache c) (''default'', ''lb1'') = Some lb \<and>
     lb_OnChange (run_handler plain_manager) am (Some lb) c = Some (r, c') \<and> (cluster_step plain_manager)\<^sup>*\<^sup>* (am, c') (am2, c2) \<and>
     m_get (cl_lbs c2) (''default'', ''lb1'') = Some lb1 \<and> m_get (cl_lbs c2) (''default'', ''lb3'') = Some lb3 \<and>
     live_pool_lb lb1 \<and> live_pool_lb lb3 \<and>
     (aa_IPPool (lb_address lb1), aa_IP (lb_address lb1)) = (aa_IPPool (lb_address lb3), aa_IP (lb_address lb3))"
proof -
  obtain am2 c2 lb1 where f: "final_state = Some (am2, c2)"
    and l1: "m_get (cl_lbs c2) (''default'', ''lb1'') = Some lb1" "live_pool_lb lb1"
    using final_live(1) by (rule live_atE)
  obtain lb3 where l3: "m_get (cl_lbs c2) (''default'', ''lb3'') = Some lb3" "live_pool_lb lb3"
    using final_live(2) unfolding f live_at_def by (auto split: option.splits)
  obtain s where s: "stale_state = Some s" "plays plain_manager after_stale s = Some (am2, c2)"
    using f by (auto simp: final_state_def split: option.splits)
  then obtain am c where r: "plays plain_manager two_addresses ([], empty_cluster ()) = Some (am, c)"
    by (cases "plays plain_manager two_addresses ([], empty_cluster ())") (auto simp: stale_state_def stale_reconcile_def)
  then have "stale_reconcile (''default'', ''lb1'') (Some (am, c)) = Some s" using s(1) by (simp add: stale_state_def)
  then obtain lb x c' where st: "m_get (cl_lbcache c) (''default'', ''lb1'') = Some lb"
    "lb_OnChange (run_handler plain_manager) am (Some lb) c = Some (x, c')" "s = (am, c')" by (rule stale_stateE)
  have "cluster_reachable plain_manager (am, c)" by (rule plays_reachable [OF r cluster_reachable.start])
  moreover have "(cluster_step plain_manager)\<^sup>*\<^sup>* (am, c') (am2, c2)" using plays_steps [OF s(2)] st(3) by simp
  moreover have "(aa_IPPool (lb_address lb1), aa_IP (lb_address lb1)) = (aa_IPPool (lb_address lb3), aa_IP (lb_address lb3))"
    using final_address l1(1) l3(1) unfolding f address_at_def by simp
  ultimately show ?thesis using st(1,2) l1 l3 by blast
qed

end
