(* ===== verification/ClusterProgress.thy ===== *)
theory ClusterProgress
  imports ClusterProps
begin

text \<open>
  Progress: when the caches are up to date and the pool has a free address, one reconciliation gives
  it to the load balancer. The search of the allocator can then end neither in an error of
  the store nor without an address. At the end, a run in which progress is lost for good: a load
  balancer cannot be removed any more once its pool is gone.
\<close>

section \<open>The search with a store that answers\<close>

context backend_store
begin

lemma try_cands_answers:
  assumes "inv w" and "\<And>ip. \<exists>b w'. bs_Reserve bs i f ip r w = (Inr b, w')"
  shows "\<exists>y w'. try_cands bs i f r cs w = (Inr y, w')"
proof (induction cs)
  case (Cons c cs)
  obtain n g where c: "c = (n, g)" by (cases c)
  obtain b v where b: "bs_Reserve bs i f (net_IP n) r w = (Inr b, v)" using assms(2) by blast
  show ?case
  proof (cases b)
    case False
    then have "v = w"
      using reserve_free [OF assms(1) _ b] reserve_taken [OF assms(1), of "net_IP n" _ i f r] b
      by (cases "view w (ip_String (net_IP n))") fastforce+
    then show ?thesis using Cons.IH b c False by simp
  qed (use b c in simp)
qed simp

lemma Get_any_finds:
  assumes ok: "rangeset_ok (ia_rangeset a)" and bs: "ia_store a = bs" and inv: "inv w"
    and res: "\<And>ip. \<exists>b w'. bs_Reserve bs i f ip (ia_rangeID a) w = (Inr b, w')"
    and free: "served (ia_rangeset a) x" "view w (ip_String x) = None" and nodup: "\<And>k. view w k \<noteq> Some i"
  shows "\<exists>c w'. IPAllocator_Get a i f [] w = Some (Inr c, w')"
proof -
  let ?rs = "ia_rangeset a"
  have "bs_GetByID bs i f w = []" using get_by_id [OF inv, of i f] nodup by simp
  moreover obtain iter ps cs where it: "GetIter a w = Inr iter" "ring_order ?rs ps"
    "list_all2 (cand ?rs) (filter (\<lambda>p. \<not> gw_pos ?rs p) ps) cs"
    "\<And>v. reserve_loop bs i f (ia_rangeID a) iter v = Some (try_cands bs i f (ia_rangeID a) cs v)"
    using Get_candidates [OF ok] by blast
  moreover obtain y w' where y: "try_cands bs i f (ia_rangeID a) cs w = (Inr y, w')"
    using try_cands_answers [OF inv res] by blast
  moreover have "y \<noteq> None"
  proof
    assume "y = None"
    then have taken: "\<forall>c \<in> set cs. view w (ip_String (net_IP (fst c))) \<noteq> None" using try_cands_spec [OF inv y] by simp
    obtain p where p: "at_pos ?rs p x" "\<not> gw_pos ?rs p" "p \<in> set (positions ?rs)" using served_pos [OF ok free(1)] .
    then have "p \<in> set (filter (\<lambda>p. \<not> gw_pos ?rs p) ps)" using it(2) by (simp add: ring_order_def)
    then obtain c where "c \<in> set cs" "cand ?rs p c" using list_all2_mem_left [OF it(3)] by blast
    then show False using taken free(2) at_pos_String [OF ok _ p(1)] by (auto simp: cand_def)
  qed
  ultimately show ?thesis using bs by (cases y) (auto simp: IPAllocator_Get_def Get_any_def)
qed

end

section \<open>A reconciliation with caches that are up to date\<close>

lemma fresh_Reserve:
  assumes "m_get (srv_cache (cl_srv c)) n = Some p" and "m_get (srv_pools (cl_srv c)) n = Some p" and "pool_Name p = n"
  shows "\<exists>b c'. bs_Reserve (store_backend (store_New n cluster_cache cluster_client)) i f ip r c = (Inr b, c')"
proof -
  have "pc_Get cluster_cache n c = Inr p" using assms(1) by (simp add: cache_Get)
  moreover obtain q c' where "pcl_Update cluster_client (p\<lparr>pool_Status := status_reserve (ip_String ip) i (pool_Status p)\<rparr>) c = (Inr q, c')"
    using assms(2,3) by (simp add: cluster_client_def on_pools_def srv_Update_def Let_def)
  ultimately show ?thesis
    by (cases "allocation p (ip_String ip)") (auto simp: store_backend_def Store_Reserve_def store_New_def Let_def)
qed

text \<open>The pool has an allocator, is up to date in the cache, has a free address and nothing of the applicant.\<close>

definition can_serve :: "'r Cluster SafeAllocatorMap \<Rightarrow> 'r Cluster \<Rightarrow> string \<Rightarrow> string \<Rightarrow> bool" where
  "can_serve am c n i \<longleftrightarrow>
     (\<exists>a p x. sam_Get n am = Some a \<and> m_get (srv_cache (cl_srv c)) n = Some p \<and> m_get (srv_pools (cl_srv c)) n = Some p \<and>
        served (ia_rangeset (al_IPAllocator a)) x \<and> allocation p (ip_String x) = None \<and>
        (\<forall>k. allocation p k \<noteq> Some i) \<and> i \<notin> snd ` set (entries (pool_History p)))"

lemma served_Get:
  assumes inv: "cluster_inv (am, c)" and "can_serve am c n i"
  shows "\<exists>a cfg c'. sam_Get n am = Some a \<and> Allocator_Get a i c = Some (Inr cfg, c')"
proof -
  obtain a p x where a: "sam_Get n am = Some a" and p: "m_get (srv_cache (cl_srv c)) n = Some p" "m_get (srv_pools (cl_srv c)) n = Some p"
    and x: "served (ia_rangeset (al_IPAllocator a)) x" "allocation p (ip_String x) = None"
    and i: "\<forall>k. allocation p k \<noteq> Some i" "i \<notin> snd ` set (entries (pool_History p))"
    using assms(2) unfolding can_serve_def by blast
  note ok = inv_pools [OF inv]
  obtain sha ranges where al: "NewAllocator sha n ranges cluster_cache cluster_client = Inr a"
    and rs: "rangeset_ok (ia_rangeset (al_IPAllocator a))" using ok(3) a unfolding allocators_ok_def by blast
  have st: "ia_store (al_IPAllocator a) = store_backend (store_New n cluster_cache cluster_client)" "al_cache a = cluster_cache" "al_name a = n"
    using NewAllocator_Inr [OF al] by metis+
  have get: "pc_Get cluster_cache n c = Inr p" using p(1) by (simp add: cache_Get)
  have view: "store_view cluster_cache n c = allocation p" using cl.store_view_pool [OF get] by simp
  have name: "pool_Name p = n" using ok(1) p(1) unfolding sound_pools_iff server_good_def by blast
  have inv_n: "store_inv cluster_cache cluster_pool cluster_good n c" using ok(4) by blast
  have "\<exists>cfg c'. IPAllocator_Get (al_IPAllocator a) i '''' [] c = Some (Inr cfg, c')"
    using cl.st.Get_any_finds [OF rs st(1) inv_n fresh_Reserve [OF p name] x(1)] x(2) i(1) view by simp
  then show ?thesis using a st(2,3) get i(2) by (simp add: Allocator_Get_def find_applicant_None [symmetric])
qed


lemma status_changed:
  assumes "aa_IPPool ad \<noteq> aa_IPPool (lb_address lb)"
  shows "lb_Status (set_ready now b msg (set_address lb ad)) \<noteq> lb_Status lb"
proof
  assume "lb_Status (set_ready now b msg (set_address lb ad)) = lb_Status lb"
  moreover have "lb_address (set_ready now b msg (set_address lb ad)) = ad" by simp
  ultimately show False using assms by simp
qed

lemma asks_pool_simps:
  assumes "asks_pool lb"
  shows "md_DeletionTimestamp (lb_Meta lb) = None" and "lb_APIVersion lb = SchemeGroupVersion" and "lbs_IPAM (lb_Spec lb) \<noteq> DHCP"
    and "lbs_IPPool (lb_Spec lb) \<noteq> ''''" and "aa_IPPool (lb_address lb) = ''''" and "lbs_WorkloadType (lb_Spec lb) = Cluster"
  using assms by (simp_all add: asks_pool_def)

lemma asked_OnChange:
  assumes "asks_pool lb" and "sam_Get (lbs_IPPool (lb_Spec lb)) am = Some a" and "Allocator_Get a (lb_id lb) c = Some (Inr cfg, c1)"
  shows "lb_OnChange h am (Some lb) c = Some (lb_updateStatus h (set_address lb \<lparr>aa_IPPool = lbs_IPPool (lb_Spec lb),
      aa_IP = ip_String (net_IP (ipc_Address cfg)), aa_Mask = ip_String (net_Mask (ipc_Address cfg)),
      aa_Gateway = ip_String (ipc_Gateway cfg)\<rparr>) lb None c1)"
proof -
  have "Cluster \<noteq> VM" "Cluster \<noteq> ''''" by (simp_all add: Cluster_def VM_def)
  then show ?thesis
    using asks_pool_simps [OF assms(1)] assms(2,3)
    by (simp add: lb_OnChange_def ensureAllocatedAddress_def ensureAllocatedAddressPool_def allocateIPFromPool_def requestIP_def)
qed

text \<open>
  \<^bold>\<open>C8.\<close> Progress: in a reachable state, a live load balancer of a guest cluster that names its pool
  and has no address, when the cached load balancer and the cached pool are the stored ones, the pool has an allocator and a
  free address, and neither its allocations nor its history have an entry of the load balancer,
  is given an address by one reconciliation. The stored object then has an address of that
  pool, recorded for it, and is ready.
\<close>

theorem address_obtained:
  assumes "manager_frame mgr" and "cluster_reachable mgr (am, c)"
    and "m_get (cl_lbcache c) k = Some lb" and "m_get (cl_lbs c) k = Some lb" and "asks_pool lb"
    and "can_serve am c (lbs_IPPool (lb_Spec lb)) (lb_id lb)"
  shows "\<exists>res c' lb'. lb_OnChange (lb_handler mgr now) am (Some lb) c = Some (res, c') \<and> snd res = None \<and>
    m_get (cl_lbs c') k = Some lb' \<and> live_pool_lb lb' \<and> aa_IPPool (lb_address lb') = lbs_IPPool (lb_Spec lb) \<and> recorded_for c' lb' \<and>
    cond_getStatus LoadBalancerReady (lbst_Conditions (lb_Status lb')) = ''True''"
proof -
  note inv = reachable_inv [OF assms(1,2)] and asks = asks_pool_simps [OF assms(5)]
  obtain a cfg c1 where g: "sam_Get (lbs_IPPool (lb_Spec lb)) am = Some a" "Allocator_Get a (lb_id lb) c = Some (Inr cfg, c1)"
    using served_Get [OF inv assms(6)] by blast
  let ?ad = "\<lparr>aa_IPPool = lbs_IPPool (lb_Spec lb), aa_IP = ip_String (net_IP (ipc_Address cfg)),
      aa_Mask = ip_String (net_Mask (ipc_Address cfg)), aa_Gateway = ip_String (ipc_Gateway cfg)\<rparr>"
  let ?lb = "set_ready now True '''' (set_address lb ?ad)"
  have key: "key_of lb = k" using inv_stored(1) [OF inv assms(4)] .
  have "ensureAllocatedAddress (lb_handler mgr now) am lb lb c = Some (None, set_address lb ?ad, c1)"
    using asks g by (simp add: ensureAllocatedAddress_def ensureAllocatedAddressPool_def allocateIPFromPool_def requestIP_def)
  then obtain s where s: "c1 = c\<lparr>cl_srv := s\<rparr>"
    using address_pools_only inv_pools(3) [OF inv] by (fastforce simp: pools_only_def)
  have meta: "lb_Meta ?lb = lb_Meta lb" by simp
  have wr: "lb_Update ?lb c1 = (Inr (lb_stamp (cl_next c1) ?lb), lb_write ?lb c1)"
    using assms(4) key lb_id_key [OF meta] meta s by (simp add: lb_Update_def)
  have ne: "lb_Status ?lb \<noteq> lb_Status lb" using status_changed [of ?ad lb now True "''''"] asks(4,5) by simp
  have "lb_updateStatus (lb_handler mgr now) (set_address lb ?ad) lb None c1 =
      ((Some (lb_stamp (cl_next c1) ?lb), None), lb_write ?lb c1)"
    using wr ne by (simp add: lb_updateStatus_def lb_handler_def cluster_ops_def Let_def)
  then have st: "lb_OnChange (lb_handler mgr now) am (Some lb) c =
      Some ((Some (lb_stamp (cl_next c1) ?lb), None), lb_write ?lb c1)"
    using asked_OnChange [OF assms(5) g] by simp
  have got: "m_get (cl_lbs (lb_write ?lb c1)) k = Some (lb_stamp (cl_next c1) ?lb)" using key lb_id_key [OF meta] by simp
  have live: "live_pool_lb (lb_stamp (cl_next c1) ?lb)" using asks by (simp add: live_pool_lb_def)
  have "cluster_inv (am, lb_write ?lb c1)" by (rule reconciled_inv [OF assms(1) inv assms(4,3) st]) (simp add: panicked_def)
  then have rec: "recorded_for (lb_write ?lb c1) (lb_stamp (cl_next c1) ?lb)" using inv_stored(3) [OF _ got live] by blast
  have ready: "cond_getStatus LoadBalancerReady (lbst_Conditions (lb_Status (lb_stamp (cl_next c1) ?lb))) = ''True''"
    by (simp add: lb_stamp_def)
  have "aa_IPPool (lb_address (lb_stamp (cl_next c1) ?lb)) = lbs_IPPool (lb_Spec lb)" by simp
  from st snd_conv got live this rec ready show ?thesis by (intro exI conjI)
qed


definition asking_moves :: "move list" where
  "asking_moves = [CreatePool run_pool, SyncPool ''demo'', ServePool ''demo'', SyncPool ''demo'',
     CreateLB (run_lb ''lb1''), SyncLB (''default'', ''lb1'')]"

definition asking_ok :: "unit run_state \<Rightarrow> bool" where
  "asking_ok s = (case s of (am, c) \<Rightarrow>
     (case (sam_Get ''demo'' am, m_get (srv_cache (cl_srv c)) ''demo'', m_get (srv_pools (cl_srv c)) ''demo'',
            m_get (cl_lbcache c) (''default'', ''lb1''), m_get (cl_lbs c) (''default'', ''lb1'')) of
        (Some a, Some p, Some q, Some lb, Some lb') \<Rightarrow>
          p = q \<and> lb = lb' \<and> ia_rangeset (al_IPAllocator a) = [demo_arange] \<and> entries (pool_Allocated p) = [] \<and>
          entries (pool_History p) = [] \<and> asks_pool lb \<and> lbs_IPPool (lb_Spec lb) = ''demo''
      | _ \<Rightarrow> False))"

lemma asking_run: "case plays plain_manager asking_moves ([], empty_cluster ()) of None \<Rightarrow> False | Some s \<Rightarrow> asking_ok s"
  by code_simp

theorem address_obtained_witness:
  "\<exists>am c lb res c' lb'. cluster_reachable plain_manager (am, c :: unit Cluster) \<and>
     m_get (cl_lbs c) (''default'', ''lb1'') = Some lb \<and> aa_IPPool (lb_address lb) = '''' \<and>
     lb_OnChange (lb_handler plain_manager ''t1'') am (Some lb) c = Some (res, c') \<and>
     m_get (cl_lbs c') (''default'', ''lb1'') = Some lb' \<and> aa_IPPool (lb_address lb') = ''demo'' \<and> recorded_for c' lb'"
proof -
  obtain am c where r: "plays plain_manager asking_moves ([], empty_cluster ()) = Some (am, c)" "asking_ok (am, c)"
    using asking_run by (auto split: option.splits)
  obtain a p lb where g: "sam_Get ''demo'' am = Some a" "m_get (srv_cache (cl_srv c)) ''demo'' = Some p"
    "m_get (srv_pools (cl_srv c)) ''demo'' = Some p"
    and lb: "m_get (cl_lbcache c) (''default'', ''lb1'') = Some lb" "m_get (cl_lbs c) (''default'', ''lb1'') = Some lb"
      "asks_pool lb" "lbs_IPPool (lb_Spec lb) = ''demo''"
    and ok: "ia_rangeset (al_IPAllocator a) = [demo_arange]" "entries (pool_Allocated p) = []" "entries (pool_History p) = []"
    using r(2) by (auto simp: asking_ok_def split: option.splits)
  have reach: "cluster_reachable plain_manager (am, c)" by (rule plays_reachable [OF r(1) cluster_reachable.start])
  have "served [demo_arange] (ParseIP ''10.0.0.2'')" by code_simp
  then have "can_serve am c (lbs_IPPool (lb_Spec lb)) (lb_id lb)"
    using g lb(4) ok unfolding can_serve_def by (intro exI [of _ a] exI [of _ p] exI [of _ "ParseIP ''10.0.0.2''"]) simp
  from address_obtained [where now = "''t1''", OF plain_manager_frame reach lb(1-3) this]
  show ?thesis using reach lb asks_pool_simps(5) [OF lb(3)] by metis
qed

section \<open>A removal that can never finish\<close>

text \<open>
  The address of a load balancer is released before its service is deleted and its finalizer removed. When one
  of these fails after the release, the pool has no allocation left and may be deleted. The retried
  removal then finds no allocator for the pool and fails, each time.
\<close>

definition orphan_moves :: "move list" where
  "orphan_moves = asking_moves @ [Reconcile (''default'', ''lb1''), SyncLB (''default'', ''lb1''), SyncPool ''demo'',
     DeleteLB (''default'', ''lb1''), SyncLB (''default'', ''lb1''), RemoveLB (''default'', ''lb1''),
     DeletePool ''demo'', PoolGone run_pool]"

definition orphan_ok :: "unit run_state \<Rightarrow> bool" where
  "orphan_ok s = (case s of (am, c) \<Rightarrow> sam_Get ''demo'' am = None \<and>
     (case m_get (cl_lbcache c) (''default'', ''lb1'') of
        None \<Rightarrow> False
      | Some lb \<Rightarrow> m_get (cl_lbs c) (''default'', ''lb1'') = Some lb \<and> md_DeletionTimestamp (lb_Meta lb) \<noteq> None \<and>
          lbs_IPAM (lb_Spec lb) = PoolIPAM \<and> aa_IPPool (lb_address lb) = ''demo''))"

lemma orphan_run: "case plays plain_manager orphan_moves ([], empty_cluster ()) of None \<Rightarrow> False | Some s \<Rightarrow> orphan_ok s"
  by code_simp

theorem removal_blocked_by_deleted_pool:
  "\<exists>am c lb. cluster_reachable plain_manager (am, c :: unit Cluster) \<and> m_get (cl_lbs c) (''default'', ''lb1'') = Some lb \<and>
     m_get (cl_lbcache c) (''default'', ''lb1'') = Some lb \<and> md_DeletionTimestamp (lb_Meta lb) \<noteq> None \<and>
     (\<forall>now c'. \<exists>e. lb_OnRemove (lb_handler plain_manager now) am (Some lb) c' = ((None, Some e), c'))"
proof -
  obtain am c where r: "plays plain_manager orphan_moves ([], empty_cluster ()) = Some (am, c)" "orphan_ok (am, c)"
    using orphan_run by (auto split: option.splits)
  obtain lb where lb: "m_get (cl_lbs c) (''default'', ''lb1'') = Some lb" "m_get (cl_lbcache c) (''default'', ''lb1'') = Some lb"
    "md_DeletionTimestamp (lb_Meta lb) \<noteq> None" "lbs_IPAM (lb_Spec lb) = PoolIPAM" "aa_IPPool (lb_address lb) = ''demo''"
    and none: "sam_Get ''demo'' am = None"
    using r(2) by (auto simp: orphan_ok_def split: option.splits)
  have "\<exists>e. lb_OnRemove (lb_handler plain_manager now) am (Some lb) c' = ((None, Some e), c')" for now and c' :: "unit Cluster"
    using lb(4,5) none by (simp add: lb_OnRemove_def releaseIP_def)
  then show ?thesis using plays_reachable [OF r(1) cluster_reachable.start] lb(1-3) by blast
qed

end
