(* ===== verification/ClusterServices.thy ===== *)
theory ClusterServices
  imports ClusterProgress
begin

text \<open>
  The cluster with the manager of \<open>ServiceLB\<close>: the rest of the cluster holds the services, the
  endpoint slices and the instances of virtual machines, and the state of the prober manager. The
  manager never touches the pools and the load balancers, so what is shown of the addresses in
  \<open>ClusterProps\<close> and \<open>ClusterProgress\<close> holds with it. The interface to the services is the locale
  \<open>service_api\<close>: what the client promises of its writes, and nothing of how far the cache from which a service is
  read lags behind. It is interpreted on an API server of services.
\<close>

section \<open>The manager of the services in the cluster\<close>

definition on_rest :: "'r LBManager \<Rightarrow> 'r Cluster LBManager" where
  "on_rest m = \<lparr>
     lm_EnsureLoadBalancer = (\<lambda>lb c. case lm_EnsureLoadBalancer m lb (cl_rest c) of (x, r) \<Rightarrow> (x, c\<lparr>cl_rest := r\<rparr>)),
     lm_DeleteLoadBalancer = (\<lambda>lb c. case lm_DeleteLoadBalancer m lb (cl_rest c) of (x, r) \<Rightarrow> (x, c\<lparr>cl_rest := r\<rparr>)),
     lm_EnsureLoadBalancerServiceIP = (\<lambda>lb c. lm_EnsureLoadBalancerServiceIP m lb (cl_rest c)),
     lm_EnsureBackendServers = (\<lambda>lb c. case lm_EnsureBackendServers m lb (cl_rest c) of (x, r) \<Rightarrow> (x, c\<lparr>cl_rest := r\<rparr>)),
     lm_GetProbeReadyBackendServerCount = (\<lambda>lb c. lm_GetProbeReadyBackendServerCount m lb (cl_rest c))\<rparr>"

lemma on_rest_frame: "manager_frame (on_rest m)"
  unfolding manager_frame_def on_rest_def by (simp add: case_prod_beta) blast

abbreviation vm_handler :: "'w SvcManager \<Rightarrow> string \<Rightarrow> 'w mstate Cluster LBHandler" where
  "vm_handler m now \<equiv> lb_handler (on_rest (servicelb_manager m)) now"

abbreviation services_of :: "('w \<Rightarrow> lbkey \<Rightarrow> Service option) \<Rightarrow> 'w mstate Cluster \<Rightarrow> lbkey \<Rightarrow> Service option" where
  "services_of service c \<equiv> service (snd (cl_rest c))"

section \<open>Services\<close>

definition svc_key :: "Service \<Rightarrow> lbkey" where
  "svc_key s = (md_Namespace (svc_Meta s), md_Name (svc_Meta s))"

text \<open>The address a service asks for, as \<open>constructService\<close> sets it.\<close>

definition wanted_ip :: "LoadBalancer \<Rightarrow> string" where
  "wanted_ip lb = (if lbs_IPAM (lb_Spec lb) = DHCP then Address4AskDHCP else aa_IP (lb_address lb))"

definition serves :: "LoadBalancer \<Rightarrow> Service \<Rightarrow> bool" where
  "serves lb s \<longleftrightarrow> svc_LoadBalancerIP s = wanted_ip lb \<and>
     (\<exists>ports. svc_Ports s = Some ports \<and> map sp_Port ports = map l_Port (lbs_Listeners (lb_Spec lb)) \<and>
        map sp_TargetPort ports = map l_BackendPort (lbs_Listeners (lb_Spec lb)))"

lemma constructService_serves: "serves lb (constructService cur lb)"
  by (simp add: serves_def constructService_def wanted_ip_def Let_def comp_def)

lemma constructService_key:
  "svc_key (constructService cur lb) = (case cur of None \<Rightarrow> key_of lb | Some s \<Rightarrow> svc_key s)"
  by (auto simp: constructService_def svc_key_def key_of_def Let_def split: option.split)

locale service_api =
  fixes m :: "'w SvcManager" and service :: "'w \<Rightarrow> lbkey \<Rightarrow> Service option"
  assumes get_key: "svo_Get (sm_services m) ns n w = Inr s \<Longrightarrow> svc_key s = (ns, n)"
    and update_ok: "svo_Update (sm_services m) s w = (Inr s', w') \<Longrightarrow>
      (\<forall>lb. serves lb s \<longrightarrow> serves lb s') \<and> service w' = (service w)(svc_key s \<mapsto> s')"
    and create_ok: "svo_Create (sm_services m) s w = (Inr s', w') \<Longrightarrow>
      (\<forall>lb. serves lb s \<longrightarrow> serves lb s') \<and> service w' = (service w)(svc_key s \<mapsto> s')"
    and create_taken: "svo_Create (sm_services m) s w = (Inl e, w') \<Longrightarrow> errors_Is e AlreadyExists \<Longrightarrow> service w (svc_key s) \<noteq> None"
    and slices_keep: "eso_Update (sm_endpointSlices m) eps w = (r, w') \<Longrightarrow> service w' = service w"
    and slices_keep': "eso_Create (sm_endpointSlices m) eps w = (r, w') \<Longrightarrow> service w' = service w"
begin

lemma getService_key: "getService m lb w = Inr (Some s) \<Longrightarrow> svc_key s = key_of lb"
  using get_key by (auto simp: getService_def key_of_def split: sum.splits if_splits)

text \<open>With a cache that has the stored service, the stored service serves the load balancer afterwards.\<close>

lemma ensureService_stored:
  assumes "ensureService m lb w = (Inr u, w')" and current: "getService m lb w = Inr (service w (key_of lb))"
  shows "\<exists>s. service w' (key_of lb) = Some s \<and> serves lb s"
proof (cases "service w (key_of lb)")
  case None
  then have g: "getService m lb w = Inr None" using current by simp
  have key: "svc_key (constructService None lb) = key_of lb" by (simp add: constructService_key)
  obtain r v where c: "svo_Create (sm_services m) (constructService None lb) w = (r, v)" by fastforce
  show ?thesis
  proof (cases r)
    case (Inl e)
    then show ?thesis using assms(1) g None c create_taken [OF c [unfolded Inl]] key
      by (auto simp: ensureService_def split: if_splits)
  next
    case (Inr s')
    have "w' = v" using assms(1) g c Inr by (simp add: ensureService_def)
    then show ?thesis using create_ok [OF c [unfolded Inr]] constructService_serves [of lb None] key by simp
  qed
next
  case (Some s)
  then have g: "getService m lb w = Inr (Some s)" using current by simp
  note con = constructService_serves [of lb "Some s"]
  have key: "svc_key (constructService (Some s) lb) = key_of lb" using getService_key [OF g] by (simp add: constructService_key)
  show ?thesis
  proof (cases "s = constructService (Some s) lb")
    case True
    then have "w' = w" using assms(1) g by (auto simp: ensureService_def split: if_splits)
    then show ?thesis using Some con True by simp
  next
    case False
    then obtain s' where "svo_Update (sm_services m) (constructService (Some s) lb) w = (Inr s', w')"
      using assms(1) g by (auto simp: ensureService_def split: sum.splits prod.splits)
    from update_ok [OF this] show ?thesis using con key by simp
  qed
qed

lemma store_slice_keeps: "store_slice m cur eps w = (r, w') \<Longrightarrow> service w' = service w"
  by (auto simp: store_slice_def split: option.splits if_splits prod.splits sum.splits
      dest: slices_keep slices_keep')

lemma ensureProbes_keeps: "ensureProbes m lb eps s = (r, s') \<Longrightarrow> service (snd s') = service (snd s)"
  by (auto simp: ensureProbes_def updateAllConditions_def Let_def dest: slices_keep
      split: option.splits if_splits prod.splits sum.splits)

lemma ensureDummyEndpoint_keeps: "ensureDummyEndpoint m lb eps w = (r, w') \<Longrightarrow> service w' = service w"
  by (auto simp: ensureDummyEndpoint_def dest: slices_keep split: if_splits prod.splits sum.splits)

lemma EnsureBackendServers_keeps:
  assumes "EnsureBackendServers m lb s = (r, s')"
  shows "service (snd s') = service (snd s)"
proof -
  have sl: "store_slice m cur epsNew (snd s) = (x, w1) \<Longrightarrow> service w1 = service (snd s)" for cur epsNew x w1
    by (rule store_slice_keeps)
  have pr: "ensureProbes m lb eps (fst s, w1) = (x, s2) \<Longrightarrow> service (snd s2) = service w1" for eps w1 x s2
    using ensureProbes_keeps [of lb eps "(fst s, w1)"] by simp
  show ?thesis
    using assms unfolding EnsureBackendServers_def
    by (auto split: sum.splits option.splits if_splits prod.splits dest!: sl pr ensureDummyEndpoint_keeps)
qed

end

section \<open>A ready load balancer has its service\<close>

text \<open>
  The address of the status is the first one of the service that the cache gives after \<^verbatim>\<open>EnsureLoadBalancer\<close>.
\<close>

definition given_ip :: "'w SvcManager \<Rightarrow> LoadBalancer \<Rightarrow> 'w \<Rightarrow> string \<Rightarrow> bool" where
  "given_ip m lb w ip \<longleftrightarrow> (\<exists>u v svc ips. ensureService m lb w = (Inr u, v) \<and> getService m lb v = Inr (Some svc) \<and> svc_Ingress svc = ip # ips)"

lemma ensureVM_ok:
  assumes "service_api m service" and "ensureVMLoadBalancer (vm_handler m now) lbCopy lb c = (None, lbCopy', c')"
    and "getService m lb (snd (cl_rest c)) = Inr (services_of service c (key_of lb))"
  shows "\<exists>svc ip adrs. services_of service c' (key_of lb) = Some svc \<and> serves lb svc \<and> given_ip m lb (snd (cl_rest c)) ip \<and>
    adrs \<noteq> [] \<and> lbCopy' = lbCopy\<lparr>lb_Status := (lb_Status lbCopy)\<lparr>lbst_Address := ip, lbst_BackendServers := Some adrs\<rparr>\<rparr>"
proof -
  have h: "lh_lbManager (vm_handler m now) = on_rest (servicelb_manager m)" by (simp add: lb_handler_def)
  obtain u v where e: "ensureService m lb (snd (cl_rest c)) = (u, v)" by fastforce
  let ?c1 = "c\<lparr>cl_rest := (fst (cl_rest c), v)\<rparr>"
  have e1: "lm_EnsureLoadBalancer (on_rest (servicelb_manager m)) lb c = (u, ?c1)"
    using e by (simp add: on_rest_def servicelb_manager_def EnsureLoadBalancer_def)
  obtain ip where ip: "u = Inr ()" "EnsureLoadBalancerServiceIP m lb v = Inr ip"
    using assms(2) e1 unfolding ensureVMLoadBalancer_def Let_def h
    by (auto simp: on_rest_def servicelb_manager_def split: sum.splits)
  obtain svc where s: "service v (key_of lb) = Some svc" "serves lb svc"
    using service_api.ensureService_stored [OF assms(1) e [unfolded ip(1)] assms(3)] by blast
  have g: "given_ip m lb (snd (cl_rest c)) ip"
    using ip e unfolding given_ip_def
    by (auto simp: EnsureLoadBalancerServiceIP_def split: sum.splits option.splits list.splits)
  obtain x s2 where b: "EnsureBackendServers m lb (fst (cl_rest c), v) = (x, s2)" by (metis prod.collapse)
  note keep = service_api.EnsureBackendServers_keeps [OF assms(1) b]
  have b1: "lm_EnsureBackendServers (on_rest (servicelb_manager m)) lb ?c1 = (x, c\<lparr>cl_rest := s2\<rparr>)"
    and i1: "lm_EnsureLoadBalancerServiceIP (on_rest (servicelb_manager m)) lb ?c1 = Inr ip"
    using b ip(2) by (simp_all add: on_rest_def servicelb_manager_def)
  obtain servers where srv: "x = Inr servers" using assms(2) e1 ip(1) i1 b1 h
    by (cases x) (auto simp: ensureVMLoadBalancer_def Let_def)
  let ?adrs = "getServerAddress (GetBackendServers servers)"
  have n: "?adrs \<noteq> None \<and> ?adrs \<noteq> Some []"
    and r: "c' = c\<lparr>cl_rest := s2\<rparr>" "lbCopy' = lbCopy\<lparr>lb_Status := (lb_Status lbCopy)\<lparr>lbst_Address := ip, lbst_BackendServers := ?adrs\<rparr>\<rparr>"
    using assms(2) e1 ip(1) i1 b1 h srv
    by (auto simp: ensureVMLoadBalancer_def Let_def split: if_splits option.splits sum.splits)
  from n obtain adrs where "?adrs = Some adrs" "adrs \<noteq> []" by auto
  then show ?thesis using r s g keep by auto
qed

lemma cluster_ops_echo: "update_echoes (lh_lbs (lb_handler mgr now))"
  unfolding update_echoes_def
  by (auto simp: lb_handler_def cluster_ops_def lb_Update_def lb_stamp_def split: option.splits if_splits)

text \<open>A reconciliation of a virtual machine load balancer that ends ready has gone through the manager.\<close>

lemma vm_ready_steps:
  assumes "lb_OnChange (lb_handler mgr now) am (Some lb) c = Some ((Some lb1, None), c')"
    and "lbs_WorkloadType (lb_Spec lb) = VM" and "cond_getStatus LoadBalancerReady (lbst_Conditions (lb_Status lb1)) = ''True''"
  obtains lbCopy c1 lbCopy2 c2 where "ensureAllocatedAddress (lb_handler mgr now) am lb lb c = Some (None, lbCopy, c1)"
    and "ensureVMLoadBalancer (lb_handler mgr now) lbCopy lb c1 = (None, lbCopy2, c2)"
    and "lb_updateStatus (lb_handler mgr now) lbCopy2 lb None c2 = ((Some lb1, None), c')"
proof -
  let ?h = "lb_handler mgr now"
  have failed: False if "handleError ?h x lb e w = ((Some lb1, None), c')" for x e w
    using handleError_not_ready [OF that cluster_ops_echo] assms(3) by simp
  obtain err lbCopy c1 where a: "ensureAllocatedAddress ?h am lb lb c = Some (err, lbCopy, c1)"
    using assms(1) by (auto simp: lb_OnChange_def split: if_splits)
  obtain err2 lbCopy2 c2 where v: "ensureVMLoadBalancer ?h lbCopy lb c1 = (err2, lbCopy2, c2)" by (metis prod.collapse)
  have n: "err = None" "err2 = None"
    using assms(1,2) a v failed by (auto simp: lb_OnChange_def split: if_splits option.splits)
  show thesis
    by (rule that [OF a [unfolded n] v [unfolded n]]) (use assms(1,2) a v n in \<open>auto simp: lb_OnChange_def split: if_splits\<close>)
qed

text \<open>
  \<^bold>\<open>C16.\<close> A virtual machine load balancer without DHCP that already has an address of the pool its spec
  asks for, or of any pool when it asks for none, and that a reconciliation reports ready, has a stored service that asks for this
  address, which the load balancer keeps, and forwards its listeners, provided that the cache had the stored service
  when the reconciliation began; the address in the status is the first one of the service that the cache gives after
  the service has been ensured, and there is a backend server.
\<close>

theorem vm_ready_service:
  assumes "service_api m service" and "lb_OnChange (vm_handler m now) am (Some lb) c = Some ((Some lb1, None), c')"
    and "lbs_WorkloadType (lb_Spec lb) = VM" and "cond_getStatus LoadBalancerReady (lbst_Conditions (lb_Status lb1)) = ''True''"
    and "lbs_IPAM (lb_Spec lb) \<noteq> DHCP" and "aa_IPPool (lb_address lb) \<noteq> ''''"
    and "lbs_IPPool (lb_Spec lb) \<in> {'''', aa_IPPool (lb_address lb)}"
    and "getService m lb (snd (cl_rest c)) = Inr (services_of service c (key_of lb))"
  shows "\<exists>svc adrs. services_of service c' (key_of lb) = Some svc \<and> serves lb svc \<and>
    lb_address lb1 = lb_address lb \<and> svc_LoadBalancerIP svc = aa_IP (lb_address lb1) \<and>
    given_ip m lb (snd (cl_rest c)) (lbst_Address (lb_Status lb1)) \<and>
    lbst_BackendServers (lb_Status lb1) = Some adrs \<and> adrs \<noteq> []"
proof -
  obtain lbCopy c1 lbCopy2 c2 where a: "ensureAllocatedAddress (vm_handler m now) am lb lb c = Some (None, lbCopy, c1)"
    and v: "ensureVMLoadBalancer (vm_handler m now) lbCopy lb c1 = (None, lbCopy2, c2)"
    and u: "lb_updateStatus (vm_handler m now) lbCopy2 lb None c2 = ((Some lb1, None), c')"
    using vm_ready_steps [OF assms(2-4)] by blast
  have lbc: "lbCopy = lb" "c1 = c" using a assms(5-7) by (auto simp: ensureAllocatedAddress_def ensureAllocatedAddressPool_def)
  obtain svc ip adrs where s: "services_of service c2 (key_of lb) = Some svc" "serves lb svc" "given_ip m lb (snd (cl_rest c)) ip"
    "adrs \<noteq> []" "lbCopy2 = lb\<lparr>lb_Status := (lb_Status lb)\<lparr>lbst_Address := ip, lbst_BackendServers := Some adrs\<rparr>\<rparr>"
    using ensureVM_ok [OF assms(1) v] assms(8) unfolding lbc by blast
  have st: "lb_Status lb1 = lb_Status (set_ready now True '''' lbCopy2)"
    using updateStatus_ready [OF u cluster_ops_echo] by (simp add: lb_handler_def)
  have rest: "cl_rest c' = cl_rest c2"
    using u by (auto simp: lb_updateStatus_def lb_handler_def cluster_ops_def lb_Update_def lb_write_def Let_def
        split: if_splits option.splits)
  have "svc_LoadBalancerIP svc = aa_IP (lb_address lb)" using s(2) assms(5) by (simp add: serves_def wanted_ip_def)
  moreover have "lb_address lb1 = lb_address lb" using st s(5) by simp
  moreover have "lbst_Address (lb_Status lb1) = ip" "lbst_BackendServers (lb_Status lb1) = Some adrs"
    using st s(5) by (simp_all add: set_ready_def)
  ultimately show ?thesis using s(1-4) rest by auto
qed

section \<open>An API server of services\<close>

record VmWorld =
  vw_services :: "Service list"
  vw_slices :: "(lbkey, EndpointSlice) gomap"
  vw_vmis :: "VirtualMachineInstance list"

definition slice_key :: "EndpointSlice \<Rightarrow> lbkey" where
  "slice_key s = (md_Namespace (eps_Meta s), md_Name (eps_Meta s))"

abbreviation vm_service :: "VmWorld \<Rightarrow> lbkey \<Rightarrow> Service option" where
  "vm_service \<equiv> \<lambda>w k. find (\<lambda>s. svc_key s = k) (vw_services w)"

definition put_service :: "Service \<Rightarrow> VmWorld \<Rightarrow> VmWorld" where
  "put_service s w = w\<lparr>vw_services := s # filter (\<lambda>x. svc_key x \<noteq> svc_key s) (vw_services w)\<rparr>"

definition vm_services :: "VmWorld ServiceOps" where
  "vm_services = \<lparr>
     svo_Get = (\<lambda>ns n w. case vm_service w (ns, n) of Some s \<Rightarrow> Inr s | None \<Rightarrow> Inl (not_found n)),
     svo_Update = (\<lambda>s w. if vm_service w (svc_key s) = None then (Inl (not_found (md_Name (svc_Meta s))), w)
       else (Inr s, put_service s w)),
     svo_Create = (\<lambda>s w. if vm_service w (svc_key s) \<noteq> None
       then (Inl (Error (md_Name (svc_Meta s) @ '' already exists'') [AlreadyExists]), w)
       else (Inr s, put_service s w))\<rparr>"

definition vm_slices :: "VmWorld EndpointSliceOps" where
  "vm_slices = \<lparr>
     eso_Get = (\<lambda>ns n w. case m_get (vw_slices w) (ns, n) of Some s \<Rightarrow> Inr s | None \<Rightarrow> Inl (not_found n)),
     eso_Update = (\<lambda>s w. (Inr s, w\<lparr>vw_slices := m_set (slice_key s) s (vw_slices w)\<rparr>)),
     eso_Create = (\<lambda>s w. (Inr s, w\<lparr>vw_slices := m_set (slice_key s) s (vw_slices w)\<rparr>))\<rparr>"

definition vm_manager :: "VmWorld SvcManager" where
  "vm_manager = \<lparr>sm_services = vm_services, sm_endpointSlices = vm_slices,
     sm_vmiList = (\<lambda>ns sel w. Inr (filter (\<lambda>v. md_Namespace (vmi_Meta v) = ns \<and> selector_Matches sel (md_Labels (vmi_Meta v)))
       (vw_vmis w))),
     sm_newRequirement = (\<lambda>k vs. Inr ()), sm_healthHandler = Some (\<lambda>ns n w. (Inr (), w))\<rparr>"

lemma find_filter_key: "find P (filter Q xs) = find (\<lambda>x. P x \<and> Q x) xs"
  by (induction xs) auto

lemma put_service_stored: "vm_service (put_service s w) = (vm_service w)(svc_key s \<mapsto> s)"
proof
  fix k
  have "find (\<lambda>x. svc_key x = k \<and> svc_key x \<noteq> svc_key s) xs = find (\<lambda>x. svc_key x = k) xs" if "k \<noteq> svc_key s" for xs
    using that by (induction xs) auto
  then show "vm_service (put_service s w) k = ((vm_service w)(svc_key s \<mapsto> s)) k"
    by (auto simp: put_service_def find_filter_key)
qed

interpretation vm: service_api vm_manager vm_service
  by unfold_locales
    (auto simp: vm_manager_def vm_services_def vm_slices_def put_service_stored not_found_def errors_Is_def find_Some_iff
      split: option.splits if_splits)

section \<open>A service that keeps a freed address\<close>

text \<open>
  A virtual machine load balancer has its address and its service; then its pool is changed to one
  without an allocator.
\<close>

abbreviation vm_rest :: "VmWorld mstate LBManager" where
  "vm_rest \<equiv> servicelb_manager vm_manager"

definition web_lb :: "string \<Rightarrow> LoadBalancer" where
  "web_lb pool = (run_lb ''lb1'')\<lparr>lb_Spec := (lb_Spec (run_lb ''lb1''))\<lparr>lbs_WorkloadType := VM, lbs_IPPool := pool,
     lbs_Listeners := [\<lparr>l_Name = ''web'', l_Port = 80, l_Protocol = ''TCP'', l_BackendPort = 8080\<rparr>]\<rparr>\<rparr>"

definition at_lb1 :: "move list" where
  "at_lb1 = [SyncLB (''default'', ''lb1''), Reconcile (''default'', ''lb1''), SyncPool ''demo'']"

definition moved_away :: "move list" where
  "moved_away = [CreatePool run_pool, SyncPool ''demo'', ServePool ''demo'', SyncPool ''demo'', CreateLB (web_lb ''demo'')] @
     at_lb1 @ at_lb1 @ [ChangeLB (''default'', ''lb1'') (lb_Spec (web_lb ''other''))] @ at_lb1 @
     get_address ''lb2'' @ get_address ''lb3'' @ at_lb1"

definition no_services :: "VmWorld mstate" where
  "no_services = (NewProbeManager, \<lparr>vw_services = [], vw_slices = [], vw_vmis = []\<rparr>)"


definition moved_ok :: "VmWorld mstate run_state \<Rightarrow> bool" where
  "moved_ok s = (case s of (am, c) \<Rightarrow>
     (case (m_get (cl_lbs c) (''default'', ''lb1''), m_get (cl_lbs c) (''default'', ''lb3''), vm_service (snd (cl_rest c)) (''default'', ''lb1'')) of
        (Some lb1, Some lb3, Some svc) \<Rightarrow>
          sam_Get ''other'' am = None \<and> lb_Spec lb1 = lb_Spec (web_lb ''other'') \<and> aa_IPPool (lb_address lb1) = '''' \<and>
          lb_APIVersion lb1 = SchemeGroupVersion \<and> md_DeletionTimestamp (lb_Meta lb1) = None \<and>
          live_pool_lb lb3 \<and> svc_LoadBalancerIP svc = ''10.0.0.2'' \<and> aa_IP (lb_address lb3) = ''10.0.0.2''
      | _ \<Rightarrow> False))"

lemma moved_run: "case plays (on_rest vm_rest) moved_away ([], empty_cluster no_services) of None \<Rightarrow> False | Some s \<Rightarrow> moved_ok s"
  by code_simp

lemma handleError_rest: "cl_rest (snd (handleError (lb_handler mgr now) lbCopy lb e c)) = cl_rest c"
proof (cases "is_panic e")
  case True then show ?thesis by (simp add: handleError_def)
next
  case False
  then have "status_written lbCopy lb c (snd (handleError (lb_handler mgr now) lbCopy lb e c))"
    by (simp add: handleError_def lb_handler_def cluster_ops_def NotReturnError_written [unfolded lb_handler_def cluster_ops_def]
        updateStatus_written [unfolded lb_handler_def cluster_ops_def])
  then show ?thesis by (auto simp: status_written_def lb_Update_def lb_write_def split: if_splits option.splits)
qed

lemma no_allocator_rest:
  assumes "sam_Get (lbs_IPPool (lb_Spec lb)) am = None" and "lbs_IPPool (lb_Spec lb) \<noteq> ''''" and "lbs_IPAM (lb_Spec lb) \<noteq> DHCP"
    and "aa_IPPool (lb_address lb) = ''''" and "md_DeletionTimestamp (lb_Meta lb) = None" and "lb_APIVersion lb = SchemeGroupVersion"
  shows "map_option (\<lambda>(r, c'). cl_rest c') (lb_OnChange (lb_handler mgr now) am (Some lb) c) = Some (cl_rest c)"
  using assms handleError_rest [of mgr now lb lb _ c]
  by (simp add: lb_OnChange_def ensureAllocatedAddress_def ensureAllocatedAddressPool_def allocateIPFromPool_def requestIP_def
      tryReleaseDuplicatedIPToPool_def case_prod_beta)

text \<open>
  \<^bold>\<open>C10.\<close> The addresses of the load balancers are exclusive, those of the services are not: a
  reconciliation hands to the manager the load balancer as it was before its address was released. There is a reachable
  state in which the service of a load balancer that changed its pool still asks for the
  address it gave back, that address is recorded for another live load balancer, and no
  reconciliation of the first one changes its service while its new pool has no allocator.
\<close>

theorem freed_address_kept_by_service:
  "\<exists>am c lb1 lb3 svc. cluster_reachable (on_rest vm_rest) (am, c) \<and>
     m_get (cl_lbs c) (''default'', ''lb1'') = Some lb1 \<and> m_get (cl_lbs c) (''default'', ''lb3'') = Some lb3 \<and>
     live_pool_lb lb3 \<and> recorded_for c lb3 \<and> services_of vm_service c (''default'', ''lb1'') = Some svc \<and>
     svc_LoadBalancerIP svc = aa_IP (lb_address lb3) \<and>
     (\<forall>now. map_option (\<lambda>(r, c'). cl_rest c') (lb_OnChange (vm_handler vm_manager now) am (Some lb1) c) = Some (cl_rest c))"
proof -
  obtain am c where r: "plays (on_rest vm_rest) moved_away ([], empty_cluster no_services) = Some (am, c)" "moved_ok (am, c)"
    using moved_run by (auto split: option.splits)
  obtain lb1 lb3 svc where l: "m_get (cl_lbs c) (''default'', ''lb1'') = Some lb1" "m_get (cl_lbs c) (''default'', ''lb3'') = Some lb3"
    "services_of vm_service c (''default'', ''lb1'') = Some svc"
    and o: "sam_Get ''other'' am = None" "lb_Spec lb1 = lb_Spec (web_lb ''other'')" "aa_IPPool (lb_address lb1) = ''''"
      "lb_APIVersion lb1 = SchemeGroupVersion" "md_DeletionTimestamp (lb_Meta lb1) = None" "live_pool_lb lb3"
      "svc_LoadBalancerIP svc = aa_IP (lb_address lb3)"
    using r(2) by (auto simp: moved_ok_def split: option.splits)
  have reach: "cluster_reachable (on_rest vm_rest) (am, c)" by (rule plays_reachable [OF r(1) cluster_reachable.start])
  have "recorded_for c lb3" using inv_stored(3) [OF reachable_inv [OF on_rest_frame reach] l(2) o(6)] .
  moreover have "\<forall>now. map_option (\<lambda>(r, c'). cl_rest c') (lb_OnChange (vm_handler vm_manager now) am (Some lb1) c) = Some (cl_rest c)"
    using o(1-5) by (intro allI no_allocator_rest) (simp_all add: web_lb_def run_lb_def cluster_lb_def PoolIPAM_def DHCP_def)
  ultimately show ?thesis using reach l o(6,7) by blast
qed

section \<open>A ready load balancer of the run\<close>

definition web_ready :: LoadBalancer where
  "web_ready = (let lb = set_address (web_lb ''demo'') \<lparr>aa_IPPool = ''demo'', aa_IP = ''10.0.0.2'', aa_Mask = '''', aa_Gateway = ''''\<rparr>
     in lb\<lparr>lb_Spec := (lb_Spec lb)\<lparr>lbs_BackendServerSelector := [(''app'', [''web''])]\<rparr>\<rparr>)"

definition web_vmi :: VirtualMachineInstance where
  "web_vmi = \<lparr>vmi_Meta = empty_meta\<lparr>md_Name := ''vm1'', md_Namespace := ''default'', md_Labels := Some [(''app'', ''web'')]\<rparr>,
     vmi_Interfaces = [''10.0.0.7''], vmi_Networks = []\<rparr>"

definition web_cluster :: "VmWorld mstate Cluster" where
  "web_cluster = lb_write web_ready (empty_cluster (NewProbeManager, \<lparr>vw_services = [(constructService None web_ready)\<lparr>svc_Ingress := [''10.0.0.2'']\<rparr>],
     vw_slices = [], vw_vmis = [web_vmi]\<rparr>))"

definition web_stored :: LoadBalancer where
  "web_stored = lb_stamp 0 web_ready"

definition ready_run :: "(LoadBalancer \<times> VmWorld mstate Cluster) option" where
  "ready_run = (case reconcile_fuel 1 (vm_handler vm_manager ''t0'') [] web_stored web_cluster of
     Some ((Some lb1, None), c') \<Rightarrow>
       if cond_getStatus LoadBalancerReady (lbst_Conditions (lb_Status lb1)) = ''True'' then Some (lb1, c') else None
   | _ \<Rightarrow> None)"

lemma ready_runs: "ready_run \<noteq> None"
  by code_simp

lemma ready_runE:
  obtains lb1 c' where "lb_OnChange (vm_handler vm_manager ''t0'') [] (Some web_stored) web_cluster = Some ((Some lb1, None), c')"
    and "cond_getStatus LoadBalancerReady (lbst_Conditions (lb_Status lb1)) = ''True''"
  using ready_runs reconcile_fuel_eq [of 1 "vm_handler vm_manager ''t0''" "[]" web_stored web_cluster]
  by (auto simp: ready_run_def split: option.splits if_splits)

theorem vm_ready_service_witness:
  "\<exists>lb1 c' svc. lb_OnChange (vm_handler vm_manager ''t0'') [] (Some web_stored) web_cluster = Some ((Some lb1, None), c') \<and>
     services_of vm_service c' (key_of web_stored) = Some svc \<and> svc_LoadBalancerIP svc = aa_IP (lb_address lb1)"
proof -
  obtain lb1 c' where r: "lb_OnChange (vm_handler vm_manager ''t0'') [] (Some web_stored) web_cluster = Some ((Some lb1, None), c')"
    "cond_getStatus LoadBalancerReady (lbst_Conditions (lb_Status lb1)) = ''True''" by (rule ready_runE)
  have "lbs_WorkloadType (lb_Spec web_stored) = VM" "lbs_IPAM (lb_Spec web_stored) \<noteq> DHCP" "aa_IPPool (lb_address web_stored) \<noteq> ''''"
    "lbs_IPPool (lb_Spec web_stored) \<in> {'''', aa_IPPool (lb_address web_stored)}"
    by (simp_all add: web_stored_def web_ready_def web_lb_def run_lb_def cluster_lb_def Let_def PoolIPAM_def DHCP_def)
  moreover have "getService vm_manager web_stored (snd (cl_rest web_cluster)) = Inr (services_of vm_service web_cluster (key_of web_stored))"
    by code_simp
  ultimately have "\<exists>svc adrs. services_of vm_service c' (key_of web_stored) = Some svc \<and> serves web_stored svc \<and>
      lb_address lb1 = lb_address web_stored \<and> svc_LoadBalancerIP svc = aa_IP (lb_address lb1) \<and>
      given_ip vm_manager web_stored (snd (cl_rest web_cluster)) (lbst_Address (lb_Status lb1)) \<and>
      lbst_BackendServers (lb_Status lb1) = Some adrs \<and> adrs \<noteq> []"
    by (intro vm_ready_service [OF vm.service_api_axioms r(1) _ r(2)])
  then show ?thesis using r(1) by blast
qed

end
