(* ===== verification/GoHeap.thy ===== *)
theory GoHeap
  imports Prelude "HOL-Library.Monad_Syntax"
begin

text \<open>
  Go's memory as far as copies are concerned: cells at addresses, allocated one after the other. A
  pointer or a map is an address or nil; a slice is a window of an array cell. A struct is a value
  that lies in a cell, in an array or in another struct.

  A generated \<^verbatim>\<open>DeepCopyInto\<close> assigns the struct and then replaces every field that holds a
  reference by a copy of what it refers to. The functions below are the forms such a replacement
  takes: a pointer by \<^verbatim>\<open>new\<close>, a slice by \<^verbatim>\<open>make\<close> and \<^verbatim>\<open>copy\<close> or by a loop over the elements, a
  map by \<^verbatim>\<open>make\<close> and a loop over the entries. A copy is \<open>None\<close> when a reference leads to no cell of
  its type, which Go excludes.

  The locale \<open>copier\<close> says what a copy promises: it reads as the original, lies in new cells and
  leaves every old cell alone. The rules \<open>copier_intros\<close> build a copier from those of the parts.
\<close>

named_theorems copier_intros \<open>rules that build a copier from copiers of the parts\<close>

section \<open>Cells\<close>

type_synonym addr = nat

record 'c heap =
  hp_next :: addr
  hp_cells :: "addr \<Rightarrow> 'c option"

text \<open>A type of cells: how a value of the type is put into a cell and taken out of it.\<close>

record ('c, 'a) kind =
  k_con :: "'a \<Rightarrow> 'c"
  k_get :: "'c \<Rightarrow> 'a option"

record slice =
  sl_arr :: addr
  sl_off :: nat
  sl_len :: nat
  sl_cap :: nat

definition kind_ok :: "('c, 'a) kind \<Rightarrow> bool" where
  "kind_ok k \<longleftrightarrow> (\<forall>x. k_get k (k_con k x) = Some x)"

definition heap_ok :: "'c heap \<Rightarrow> bool" where
  "heap_ok h \<longleftrightarrow> (\<forall>a. hp_cells h a \<noteq> None \<longrightarrow> a < hp_next h)"

definition h_new :: "'c \<Rightarrow> 'c heap \<Rightarrow> addr \<times> 'c heap" where
  "h_new c h = (hp_next h, \<lparr>hp_next = Suc (hp_next h), hp_cells = (hp_cells h)(hp_next h \<mapsto> c)\<rparr>)"

definition h_set :: "addr \<Rightarrow> 'c \<Rightarrow> 'c heap \<Rightarrow> 'c heap" where
  "h_set a c h = h\<lparr>hp_cells := (hp_cells h)(a \<mapsto> c)\<rparr>"

definition h_read :: "('c, 'a) kind \<Rightarrow> 'c heap \<Rightarrow> addr \<Rightarrow> 'a option" where
  "h_read k h a = Option.bind (hp_cells h a) (k_get k)"

text \<open>The heap \<open>h'\<close> has every cell of \<open>h\<close> unchanged.\<close>

definition extends :: "'c heap \<Rightarrow> 'c heap \<Rightarrow> bool" where
  "extends h h' \<longleftrightarrow> hp_next h \<le> hp_next h' \<and> (\<forall>a < hp_next h. hp_cells h' a = hp_cells h a)"

lemma extends_refl [simp]: "extends h h"
  by (simp add: extends_def)

lemma extends_trans [trans]: "extends g h \<Longrightarrow> extends h k \<Longrightarrow> extends g k"
  by (simp add: extends_def)

lemma extends_new: "h_new c h = (b, h') \<Longrightarrow> extends h h'"
  by (auto simp: h_new_def extends_def)

lemma extends_set: "extends g h \<Longrightarrow> hp_next g \<le> b \<Longrightarrow> extends g (h_set b c h)"
  by (auto simp: h_set_def extends_def)

lemma heap_ok_new: "heap_ok h \<Longrightarrow> h_new c h = (b, h') \<Longrightarrow> heap_ok h'"
  by (auto simp: heap_ok_def h_new_def less_Suc_eq)

lemma heap_ok_set: "heap_ok h \<Longrightarrow> a < hp_next h \<Longrightarrow> heap_ok (h_set a c h)"
  by (auto simp: heap_ok_def h_set_def)

lemma h_set_simps [simp]:
  "hp_next (h_set a c h) = hp_next h" "hp_cells (h_set a c h) b = (if b = a then Some c else hp_cells h b)"
  by (simp_all add: h_set_def)

lemma h_new_simps:
  assumes "h_new c h = (b, h')"
  shows "b = hp_next h" "hp_next h' = Suc (hp_next h)" "hp_cells h' a = (if a = b then Some c else hp_cells h a)"
  using assms by (auto simp: h_new_def)

lemma h_read_cells: "hp_cells h' a = hp_cells h a \<Longrightarrow> h_read k h' a = h_read k h a"
  by (simp add: h_read_def)

lemma h_read_alloc: "h_read k h a = Some x \<Longrightarrow> hp_cells h a \<noteq> None"
  by (auto simp: h_read_def bind_eq_Some_conv)

lemma h_read_set [simp]: "kind_ok k \<Longrightarrow> h_read k (h_set a (k_con k x) h) a = Some x"
  by (simp add: h_read_def kind_ok_def)

lemma h_read_new: "kind_ok k \<Longrightarrow> h_new (k_con k x) h = (b, h') \<Longrightarrow> h_read k h' b = Some x"
  by (simp add: h_read_def kind_ok_def h_new_simps(3))

lemma h_read_extends:
  assumes "heap_ok h" and "h_read k h a = Some x" and "extends h h'"
  shows "h_read k h' a = Some x"
proof -
  have "a < hp_next h" using assms(1) h_read_alloc [OF assms(2)] by (simp add: heap_ok_def)
  then show ?thesis using assms(2,3) h_read_cells [of h' a h k] by (simp add: extends_def)
qed

section \<open>The contract of a copy\<close>

locale copier =
  fixes copy :: "'a \<Rightarrow> 'c heap \<Rightarrow> ('a \<times> 'c heap) option"
    and view :: "'c heap \<Rightarrow> 'a \<Rightarrow> 'v option"
    and foot :: "'c heap \<Rightarrow> 'a \<Rightarrow> addr set"
  assumes copy_ok: "heap_ok h \<Longrightarrow> view h x = Some v \<Longrightarrow> \<exists>y h'. copy x h = Some (y, h') \<and> heap_ok h' \<and> extends h h' \<and>
      view h' y = Some v \<and> foot h' y \<subseteq> {hp_next h ..< hp_next h'}"
    and view_frame: "view h x = Some v \<Longrightarrow> (\<forall>a \<in> foot h x. hp_cells h' a = hp_cells h a) \<Longrightarrow>
      view h' x = Some v \<and> foot h' x = foot h x"
    and foot_alloc: "view h x = Some v \<Longrightarrow> a \<in> foot h x \<Longrightarrow> hp_cells h a \<noteq> None"
begin

lemma foot_old: "heap_ok h \<Longrightarrow> view h x = Some v \<Longrightarrow> a \<in> foot h x \<Longrightarrow> a < hp_next h"
  using foot_alloc by (auto simp: heap_ok_def)

lemma view_extends:
  assumes "heap_ok h" and "view h x = Some v" and "extends h h'"
  shows "view h' x = Some v" and "foot h' x = foot h x"
proof -
  have "\<forall>a \<in> foot h x. hp_cells h' a = hp_cells h a" using foot_old [OF assms(1,2)] assms(3) by (simp add: extends_def)
  from view_frame [OF assms(2) this] show "view h' x = Some v" "foot h' x = foot h x" by simp_all
qed

lemma view_outside:
  assumes "view h x = Some v" and "a \<notin> foot h x"
  shows "view (h_set a c h) x = Some v" and "foot (h_set a c h) x = foot h x"
  using view_frame [OF assms(1), of "h_set a c h"] assms(2) by auto

lemma view_kept:
  assumes "heap_ok h" and "view h x = Some v" and "foot h x \<subseteq> S" and "extends h h'" and "b \<notin> S"
  shows "view (h_set b c h') x = Some v \<and> foot (h_set b c h') x \<subseteq> S"
proof -
  note v = view_extends [OF assms(1,2,4)]
  have "b \<notin> foot h' x" using v(2) assms(3,5) by auto
  from view_outside [OF v(1) this, of c] show ?thesis using v(2) assms(3) by simp
qed

lemma copyE:
  assumes "heap_ok h" and "view h x = Some v"
  obtains y h' where "copy x h = Some (y, h')" and "heap_ok h'" and "extends h h'" and "view h' y = Some v"
    and "foot h' y \<subseteq> {hp_next h ..< hp_next h'}"
  using copy_ok [OF assms] by blast

text \<open>What a caller has of a copy: nothing written through one of the two is seen through the other.\<close>

lemma copy_independent:
  assumes "heap_ok h" and "view h x = Some v"
  shows "\<exists>y h'. copy x h = Some (y, h') \<and> heap_ok h' \<and> extends h h' \<and> view h' y = Some v \<and> view h' x = Some v \<and>
    foot h' x \<inter> foot h' y = {} \<and>
    (\<forall>a c. (a \<notin> foot h' x \<longrightarrow> view (h_set a c h') x = Some v) \<and> (a \<notin> foot h' y \<longrightarrow> view (h_set a c h') y = Some v))"
proof -
  obtain y h' where c: "copy x h = Some (y, h')" "heap_ok h'" "extends h h'" "view h' y = Some v"
    "foot h' y \<subseteq> {hp_next h ..< hp_next h'}" using copyE [OF assms] .
  note x = view_extends [OF assms c(3)]
  have "foot h' x \<inter> foot h' y = {}" using foot_old [OF assms] x(2) c(5) by fastforce
  then show ?thesis using c x view_outside by blast
qed

end

section \<open>Values, pairs and structs\<close>

definition copy_plain :: "'a \<Rightarrow> 'c heap \<Rightarrow> ('a \<times> 'c heap) option" where
  "copy_plain x h = Some (x, h)"

definition view_plain :: "'c heap \<Rightarrow> 'a \<Rightarrow> 'a option" where
  "view_plain h x = Some x"

definition foot_plain :: "'c heap \<Rightarrow> 'a \<Rightarrow> addr set" where
  "foot_plain h x = {}"

lemma copier_plain [copier_intros]: "copier copy_plain view_plain foot_plain"
  by unfold_locales (auto simp: copy_plain_def view_plain_def foot_plain_def)

definition copy_pair where
  "copy_pair c1 c2 p h = do { (a, h1) \<leftarrow> c1 (fst p) h; (b, h2) \<leftarrow> c2 (snd p) h1; Some ((a, b), h2) }"

definition view_pair where
  "view_pair v1 v2 h p = do { a \<leftarrow> v1 h (fst p); b \<leftarrow> v2 h (snd p); Some (a, b) }"

definition foot_pair where
  "foot_pair f1 f2 h p = f1 h (fst p) \<union> f2 h (snd p)"

lemma copier_pair [copier_intros]:
  fixes c1 :: "'a \<Rightarrow> 'c heap \<Rightarrow> ('a \<times> 'c heap) option"
  assumes "copier c1 v1 f1" and "copier c2 v2 f2"
  shows "copier (copy_pair c1 c2) (view_pair v1 v2) (foot_pair f1 f2)"
proof
  fix h p v
  assume h: "heap_ok h" and v: "view_pair v1 v2 h p = Some v"
  then obtain a b where ab: "v1 h (fst p) = Some a" "v2 h (snd p) = Some b" "v = (a, b)"
    by (auto simp: view_pair_def bind_eq_Some_conv)
  obtain x h1 where x: "c1 (fst p) h = Some (x, h1)" "heap_ok h1" "extends h h1" "v1 h1 x = Some a" "f1 h1 x \<subseteq> {hp_next h ..< hp_next h1}"
    using copier.copyE [OF assms(1) h ab(1)] .
  note s = copier.view_extends [OF assms(2) h ab(2) x(3)]
  obtain y h2 where y: "c2 (snd p) h1 = Some (y, h2)" "heap_ok h2" "extends h1 h2" "v2 h2 y = Some b" "f2 h2 y \<subseteq> {hp_next h1 ..< hp_next h2}"
    using copier.copyE [OF assms(2) x(2) s(1)] .
  note x' = copier.view_extends [OF assms(1) x(2,4) y(3)]
  have "f1 h2 x \<union> f2 h2 y \<subseteq> {hp_next h ..< hp_next h2}"
    using x(3,5) x'(2) y(3,5) by (auto simp: extends_def)
  then show "\<exists>y h'. copy_pair c1 c2 p h = Some (y, h') \<and> heap_ok h' \<and> extends h h' \<and> view_pair v1 v2 h' y = Some v \<and>
      foot_pair f1 f2 h' y \<subseteq> {hp_next h ..< hp_next h'}"
    using x(1,3) y ab(3) x'(1) extends_trans by (auto simp: copy_pair_def view_pair_def foot_pair_def)
next
  fix h h' :: "'c heap" and p v
  assume w: "view_pair v1 v2 h p = Some v" and eq: "\<forall>a \<in> foot_pair f1 f2 h p. hp_cells h' a = hp_cells h a"
  obtain a b where ab: "v1 h (fst p) = Some a" "v2 h (snd p) = Some b" "v = (a, b)"
    using w by (auto simp: view_pair_def bind_eq_Some_conv)
  have "\<forall>a \<in> f1 h (fst p). hp_cells h' a = hp_cells h a" "\<forall>a \<in> f2 h (snd p). hp_cells h' a = hp_cells h a"
    using eq by (simp_all add: foot_pair_def)
  from copier.view_frame [OF assms(1) ab(1) this(1)] copier.view_frame [OF assms(2) ab(2) this(2)]
  show "view_pair v1 v2 h' p = Some v \<and> foot_pair f1 f2 h' p = foot_pair f1 f2 h p"
    using ab(3) by (simp add: view_pair_def foot_pair_def)
next
  fix h p v a
  assume "view_pair v1 v2 h p = Some v" "a \<in> foot_pair f1 f2 h p"
  then show "hp_cells h a \<noteq> None"
    using copier.foot_alloc [OF assms(1)] copier.foot_alloc [OF assms(2)]
    by (auto simp: view_pair_def foot_pair_def bind_eq_Some_conv)
qed

text \<open>
  A struct of which the part \<open>get\<close> holds the references: \<^verbatim>\<open>*out = *in\<close>, then the part is replaced.
  It reads as the struct with a zero part, and the part.
\<close>

definition lens_ok :: "('s \<Rightarrow> 'a) \<Rightarrow> ('a \<Rightarrow> 's \<Rightarrow> 's) \<Rightarrow> bool" where
  "lens_ok get put \<longleftrightarrow> (\<forall>x y z. get (put y x) = y \<and> put z (put y x) = put z x)"

definition copy_struct ::
  "('s \<Rightarrow> 'a) \<Rightarrow> ('a \<Rightarrow> 's \<Rightarrow> 's) \<Rightarrow> ('a \<Rightarrow> 'c heap \<Rightarrow> ('a \<times> 'c heap) option) \<Rightarrow> 's \<Rightarrow> 'c heap \<Rightarrow> ('s \<times> 'c heap) option" where
  "copy_struct get put c x h = do { (y, h') \<leftarrow> c (get x) h; Some (put y x, h') }"

definition view_struct where
  "view_struct get put zero v h x = map_option (\<lambda>w. (put (get zero) x, w)) (v h (get x))"

definition foot_struct where
  "foot_struct get f h x = f h (get x)"

lemma copier_struct [copier_intros]:
  fixes c :: "'a \<Rightarrow> 'c heap \<Rightarrow> ('a \<times> 'c heap) option"
  assumes "lens_ok get put" and "copier c v f"
  shows "copier (copy_struct get put c) (view_struct get put zero v) (foot_struct get f)"
proof
  fix h x w
  assume h: "heap_ok h" and "view_struct get put zero v h x = Some w"
  then obtain u where u: "v h (get x) = Some u" "w = (put (get zero) x, u)" by (auto simp: view_struct_def)
  obtain y h' where "c (get x) h = Some (y, h')" "heap_ok h'" "extends h h'" "v h' y = Some u" "f h' y \<subseteq> {hp_next h ..< hp_next h'}"
    using copier.copyE [OF assms(2) h u(1)] .
  then show "\<exists>y h'. copy_struct get put c x h = Some (y, h') \<and> heap_ok h' \<and> extends h h' \<and>
      view_struct get put zero v h' y = Some w \<and> foot_struct get f h' y \<subseteq> {hp_next h ..< hp_next h'}"
    using assms(1) u(2) by (auto simp: copy_struct_def view_struct_def foot_struct_def lens_ok_def)
next
  fix h h' :: "'c heap" and x w
  assume w: "view_struct get put zero v h x = Some w" and eq: "\<forall>a \<in> foot_struct get f h x. hp_cells h' a = hp_cells h a"
  obtain u where u: "v h (get x) = Some u" "w = (put (get zero) x, u)" using w by (auto simp: view_struct_def)
  from copier.view_frame [OF assms(2) u(1) eq [unfolded foot_struct_def]]
  show "view_struct get put zero v h' x = Some w \<and> foot_struct get f h' x = foot_struct get f h x"
    using u(2) by (simp add: view_struct_def foot_struct_def)
next
  fix h x w a
  assume "view_struct get put zero v h x = Some w" "a \<in> foot_struct get f h x"
  then show "hp_cells h a \<noteq> None"
    using copier.foot_alloc [OF assms(2)] by (auto simp: view_struct_def foot_struct_def)
qed

section \<open>Pointers\<close>

text \<open>\<^verbatim>\<open>if in != nil { out = new(T); in.DeepCopyInto(out) }\<close>\<close>

definition copy_ptr ::
  "('c, 'a) kind \<Rightarrow> 'a \<Rightarrow> ('a \<Rightarrow> 'c heap \<Rightarrow> ('a \<times> 'c heap) option) \<Rightarrow> addr option \<Rightarrow> 'c heap \<Rightarrow> (addr option \<times> 'c heap) option" where
  "copy_ptr k zero into p h =
     (case p of
        None \<Rightarrow> Some (None, h)
      | Some a \<Rightarrow>
          (case h_new (k_con k zero) h of
             (b, h1) \<Rightarrow> do { x \<leftarrow> h_read k h1 a; (y, h2) \<leftarrow> into x h1; Some (Some b, h_set b (k_con k y) h2) }))"

definition view_ptr where
  "view_ptr k v h p = (case p of None \<Rightarrow> Some None | Some a \<Rightarrow> map_option Some (Option.bind (h_read k h a) (v h)))"

definition foot_ptr where
  "foot_ptr k f h p = (case p of
     None \<Rightarrow> {} | Some a \<Rightarrow> insert a (case h_read k h a of None \<Rightarrow> {} | Some x \<Rightarrow> f h x))"

lemma view_ptr_Some: "view_ptr k v h (Some a) = Some w \<longleftrightarrow> (\<exists>x u. h_read k h a = Some x \<and> v h x = Some u \<and> w = Some u)"
  by (auto simp: view_ptr_def bind_eq_Some_conv)

lemma copier_ptr [copier_intros]:
  fixes into :: "'a \<Rightarrow> 'c heap \<Rightarrow> ('a \<times> 'c heap) option"
  assumes k: "kind_ok k" and cp: "copier into v f"
  shows "copier (copy_ptr k zero into) (view_ptr k v) (foot_ptr k f)"
proof
  fix h p w
  assume h: "heap_ok h" and w: "view_ptr k v h p = Some w"
  show "\<exists>y h'. copy_ptr k zero into p h = Some (y, h') \<and> heap_ok h' \<and> extends h h' \<and>
      view_ptr k v h' y = Some w \<and> foot_ptr k f h' y \<subseteq> {hp_next h ..< hp_next h'}"
  proof (cases p)
    case None
    then show ?thesis using h w by (simp add: copy_ptr_def view_ptr_def foot_ptr_def)
  next
    case (Some a)
    then obtain x u where x: "h_read k h a = Some x" "v h x = Some u" "w = Some u" using w by (auto simp: view_ptr_Some)
    obtain b h1 where n: "h_new (k_con k zero) h = (b, h1)" by fastforce
    note ext = extends_new [OF n] and s = h_new_simps [OF n]
    note r = h_read_extends [OF h x(1) ext]
    obtain y h2 where y: "into x h1 = Some (y, h2)" "heap_ok h2" "extends h1 h2" "v h2 y = Some u" "f h2 y \<subseteq> {hp_next h1 ..< hp_next h2}"
      using copier.copyE [OF cp heap_ok_new [OF h n] copier.view_extends(1) [OF cp h x(2) ext]] .
    have b: "b \<notin> f h2 y" "b < hp_next h2" using y(3,5) s by (auto simp: extends_def)
    note out = copier.view_outside [OF cp y(4) b(1)]
    let ?h = "h_set b (k_con k y) h2"
    have "copy_ptr k zero into p h = Some (Some b, ?h)" using Some n r y(1) by (simp add: copy_ptr_def)
    moreover have "heap_ok ?h" using heap_ok_set [OF y(2) b(2)] .
    moreover have "extends h ?h" by (rule extends_set [OF extends_trans [OF ext y(3)]]) (simp add: s(1))
    moreover have "view_ptr k v ?h (Some b) = Some w" using k out(1) x(3) by (simp add: view_ptr_Some)
    moreover have "foot_ptr k f ?h (Some b) \<subseteq> {hp_next h ..< hp_next ?h}"
      using k out(2) y(5) b s by (auto simp: foot_ptr_def)
    ultimately show ?thesis by blast
  qed
next
  fix h h' :: "'c heap" and p w
  assume w: "view_ptr k v h p = Some w" "\<forall>a \<in> foot_ptr k f h p. hp_cells h' a = hp_cells h a"
  show "view_ptr k v h' p = Some w \<and> foot_ptr k f h' p = foot_ptr k f h p"
  proof (cases p)
    case None
    then show ?thesis using w by (simp add: view_ptr_def foot_ptr_def)
  next
    case (Some a)
    then obtain x u where x: "h_read k h a = Some x" "v h x = Some u" "w = Some u" using w(1) by (auto simp: view_ptr_Some)
    have "h_read k h' a = Some x" using w(2) Some x(1) by (simp add: foot_ptr_def h_read_def)
    then show ?thesis using copier.view_frame [OF cp x(2), of h'] w(2) Some x by (auto simp: foot_ptr_def view_ptr_Some)
  qed
next
  fix h p w a
  assume "view_ptr k v h p = Some w" "a \<in> foot_ptr k f h p"
  then show "hp_cells h a \<noteq> None"
    using copier.foot_alloc [OF cp] h_read_alloc [of k h a]
    by (cases p) (auto simp: foot_ptr_def view_ptr_Some)
qed

section \<open>Lists of copies\<close>

primrec opt_map :: "('a \<Rightarrow> 'b option) \<Rightarrow> 'a list \<Rightarrow> 'b list option" where
  "opt_map f [] = Some []"
| "opt_map f (x # xs) = do { y \<leftarrow> f x; ys \<leftarrow> opt_map f xs; Some (y # ys) }"

lemma opt_map_iff: "opt_map f xs = Some ys \<longleftrightarrow> list_all2 (\<lambda>x y. f x = Some y) xs ys"
  by (induction xs arbitrary: ys) (auto simp: bind_eq_Some_conv list_all2_Cons1)

text \<open>The values \<open>ys\<close> read as \<open>us\<close> and lie in the cells from \<open>lo\<close> on.\<close>

definition copies ::
  "('c heap \<Rightarrow> 'a \<Rightarrow> 'v option) \<Rightarrow> ('c heap \<Rightarrow> 'a \<Rightarrow> addr set) \<Rightarrow> addr \<Rightarrow> 'c heap \<Rightarrow> 'a list \<Rightarrow> 'v list \<Rightarrow> bool" where
  "copies v f lo h ys us \<longleftrightarrow> list_all2 (\<lambda>y u. v h y = Some u \<and> f h y \<subseteq> {lo ..< hp_next h}) ys us"

context copier
begin

lemma copies_extends: "copies view foot lo h ys us \<Longrightarrow> heap_ok h \<Longrightarrow> extends h h' \<Longrightarrow> copies view foot lo h' ys us"
  unfolding copies_def
proof (erule list_all2_mono)
  fix y u
  assume h: "heap_ok h" and e: "extends h h'" and y: "view h y = Some u \<and> foot h y \<subseteq> {lo ..< hp_next h}"
  have "hp_next h \<le> hp_next h'" using e by (simp add: extends_def)
  then show "view h' y = Some u \<and> foot h' y \<subseteq> {lo ..< hp_next h'}"
    using y view_extends [OF h conjunct1 [OF y] e] by auto
qed

lemma copies_set: "copies view foot lo h ys us \<Longrightarrow> b < lo \<Longrightarrow> copies view foot lo (h_set b c h) ys us"
  unfolding copies_def
proof (erule list_all2_mono)
  fix y u
  assume b: "b < lo" and y: "view h y = Some u \<and> foot h y \<subseteq> {lo ..< hp_next h}"
  then have "b \<notin> foot h y" by auto
  from view_outside [OF conjunct1 [OF y] this, of c] y
  show "view (h_set b c h) y = Some u \<and> foot (h_set b c h) y \<subseteq> {lo ..< hp_next (h_set b c h)}" by simp
qed

lemma copies_snoc:
  assumes "copies view foot lo h ys us" and "heap_ok h" and "extends h h'" and "view h' y = Some u"
    and "foot h' y \<subseteq> {hp_next h ..< hp_next h'}" and "lo \<le> hp_next h" and "b < lo"
  shows "copies view foot lo (h_set b c h') (ys @ [y]) (us @ [u])"
proof -
  have "foot h' y \<subseteq> {lo ..< hp_next h'}" using assms(5,6) by auto
  then have "copies view foot lo h' (ys @ [y]) (us @ [u])"
    using copies_extends [OF assms(1-3)] assms(4) by (simp add: copies_def list_all2_appendI)
  then show ?thesis using copies_set assms(7) by blast
qed

lemma copies_view: "copies view foot lo h ys us \<Longrightarrow> opt_map (view h) ys = Some us"
  unfolding copies_def opt_map_iff by (erule list_all2_mono) simp

lemma copies_foot: "copies view foot lo h ys us \<Longrightarrow> y \<in> set ys \<Longrightarrow> foot h y \<subseteq> {lo ..< hp_next h}"
  unfolding copies_def by (auto dest: list_all2_mem_left)

end

section \<open>Slices\<close>

definition sl_window :: "slice \<Rightarrow> 'a list \<Rightarrow> 'a list option" where
  "sl_window s xs = (if sl_off s + sl_len s \<le> length xs then Some (take (sl_len s) (drop (sl_off s) xs)) else None)"

definition whole :: "addr \<Rightarrow> nat \<Rightarrow> slice" where
  "whole a n = \<lparr>sl_arr = a, sl_off = 0, sl_len = n, sl_cap = n\<rparr>"

lemma whole_simps [simp]:
  "sl_arr (whole a n) = a" "sl_len (whole a n) = n" "sl_window (whole a n) xs = (if n \<le> length xs then Some (take n xs) else None)"
  by (simp_all add: whole_def sl_window_def)

lemma sl_window_length: "sl_window s xs = Some ws \<Longrightarrow> length ws = sl_len s"
  by (auto simp: sl_window_def split: if_splits)

text \<open>\<^verbatim>\<open>copy(dst, src)\<close> overwrites as many elements as both have.\<close>

definition go_copy :: "'a list \<Rightarrow> 'a list \<Rightarrow> 'a list" where
  "go_copy dst src = take (length dst) src @ drop (length src) dst"

definition copy_slice :: "('c, 'a list) kind \<Rightarrow> 'a \<Rightarrow> slice option \<Rightarrow> 'c heap \<Rightarrow> (slice option \<times> 'c heap) option" where
  "copy_slice k zero so h =
     (case so of
        None \<Rightarrow> Some (None, h)
      | Some s \<Rightarrow>
          (case h_new (k_con k (replicate (sl_len s) zero)) h of
             (b, h1) \<Rightarrow> do {
               xs \<leftarrow> h_read k h1 (sl_arr s); ws \<leftarrow> sl_window s xs; ys \<leftarrow> h_read k h1 b;
               Some (Some (whole b (sl_len s)), h_set b (k_con k (go_copy ys ws)) h1) }))"

text \<open>\<^verbatim>\<open>for i := range *in { (*in)[i].DeepCopyInto(&(*out)[i]) }\<close>\<close>

primrec elem_loop ::
  "('c, 'a list) kind \<Rightarrow> ('a \<Rightarrow> 'c heap \<Rightarrow> ('a \<times> 'c heap) option) \<Rightarrow> slice \<Rightarrow> addr \<Rightarrow> nat list \<Rightarrow> 'c heap \<Rightarrow> 'c heap option" where
  "elem_loop k into s b [] h = Some h"
| "elem_loop k into s b (i # is) h = do {
     xs \<leftarrow> h_read k h (sl_arr s); ws \<leftarrow> sl_window s xs;
     (y, h1) \<leftarrow> into (ws ! i) h; ys \<leftarrow> h_read k h1 b;
     elem_loop k into s b is (h_set b (k_con k (ys[i := y])) h1) }"

definition copy_elems ::
  "('c, 'a list) kind \<Rightarrow> 'a \<Rightarrow> ('a \<Rightarrow> 'c heap \<Rightarrow> ('a \<times> 'c heap) option) \<Rightarrow> slice option \<Rightarrow> 'c heap \<Rightarrow> (slice option \<times> 'c heap) option" where
  "copy_elems k zero into so h =
     (case so of
        None \<Rightarrow> Some (None, h)
      | Some s \<Rightarrow>
          (case h_new (k_con k (replicate (sl_len s) zero)) h of
             (b, h1) \<Rightarrow> map_option (\<lambda>h2. (Some (whole b (sl_len s)), h2)) (elem_loop k into s b [0 ..< sl_len s] h1)))"

definition slice_elems :: "('c, 'a list) kind \<Rightarrow> 'c heap \<Rightarrow> slice \<Rightarrow> 'a list option" where
  "slice_elems k h s = Option.bind (h_read k h (sl_arr s)) (sl_window s)"

definition view_elems where
  "view_elems k v h so = (case so of
     None \<Rightarrow> Some None | Some s \<Rightarrow> map_option Some (Option.bind (slice_elems k h s) (opt_map (v h))))"

definition foot_elems where
  "foot_elems k f h so = (case so of
     None \<Rightarrow> {} | Some s \<Rightarrow> insert (sl_arr s) (case slice_elems k h s of None \<Rightarrow> {} | Some ws \<Rightarrow> \<Union> (f h ` set ws)))"

lemma view_elems_Some:
  "view_elems k v h (Some s) = Some w \<longleftrightarrow>
     (\<exists>ws us. slice_elems k h s = Some ws \<and> list_all2 (\<lambda>x u. v h x = Some u) ws us \<and> w = Some us)"
  by (auto simp: view_elems_def bind_eq_Some_conv opt_map_iff)

lemma slice_elems_alloc: "slice_elems k h s = Some ws \<Longrightarrow> hp_cells h (sl_arr s) \<noteq> None"
  by (auto simp: slice_elems_def bind_eq_Some_conv h_read_def)

lemma slice_elems_extends:
  "heap_ok h \<Longrightarrow> slice_elems k h s = Some ws \<Longrightarrow> extends h h' \<Longrightarrow> slice_elems k h' s = Some ws"
  by (auto simp: slice_elems_def bind_eq_Some_conv dest: h_read_extends)

context copier
begin

lemma elems_frame:
  assumes "view_elems k view h so = Some w" and "\<forall>a \<in> foot_elems k foot h so. hp_cells h' a = hp_cells h a"
  shows "view_elems k view h' so = Some w \<and> foot_elems k foot h' so = foot_elems k foot h so"
proof (cases so)
  case None
  then show ?thesis using assms(1) by (simp add: view_elems_def foot_elems_def)
next
  case (Some s)
  then obtain ws us where w: "slice_elems k h s = Some ws" "list_all2 (\<lambda>x u. view h x = Some u) ws us" "w = Some us"
    using assms(1) by (auto simp: view_elems_Some)
  have eq: "\<forall>x \<in> set ws. \<forall>a \<in> foot h x. hp_cells h' a = hp_cells h a" "hp_cells h' (sl_arr s) = hp_cells h (sl_arr s)"
    using assms(2) w(1) Some by (auto simp: foot_elems_def)
  have e: "slice_elems k h' s = Some ws" using w(1) h_read_cells [OF eq(2), of k] by (simp add: slice_elems_def)
  have each: "view h' x = Some u \<and> foot h' x = foot h x" if "x \<in> set ws" "view h x = Some u" for x u
    by (rule view_frame [OF that(2)]) (use eq(1) that(1) in blast)
  have "list_all2 (\<lambda>x u. view h' x = Some u) ws us"
    by (rule list.rel_mono_strong [OF w(2)]) (use each in simp)
  moreover have "foot h' ` set ws = foot h ` set ws"
    by (rule image_cong) (use each list_all2_mem_left [OF w(2)] in blast)+
  ultimately show ?thesis using Some w(1,3) e by (simp add: view_elems_Some foot_elems_def)
qed

lemma elems_alloc:
  assumes "view_elems k view h so = Some w" and "a \<in> foot_elems k foot h so"
  shows "hp_cells h a \<noteq> None"
proof (cases so)
  case None
  then show ?thesis using assms(2) by (simp add: foot_elems_def)
next
  case (Some s)
  then obtain ws us where w: "slice_elems k h s = Some ws" "list_all2 (\<lambda>x u. view h x = Some u) ws us"
    using assms(1) by (auto simp: view_elems_Some)
  then show ?thesis
    using assms(2) Some slice_elems_alloc [OF w(1)] foot_alloc list_all2_mem_left [OF w(2)] by (fastforce simp: foot_elems_def)
qed

end

lemma copier_slice [copier_intros]:
  fixes k :: "('c, 'a list) kind"
  assumes k: "kind_ok k"
  shows "copier (copy_slice k zero) (view_elems k view_plain) (foot_elems k foot_plain)"
proof
  fix h :: "'c heap" and so w
  assume h: "heap_ok h" and w: "view_elems k view_plain h so = Some w"
  show "\<exists>y h'. copy_slice k zero so h = Some (y, h') \<and> heap_ok h' \<and> extends h h' \<and>
      view_elems k view_plain h' y = Some w \<and> foot_elems k foot_plain h' y \<subseteq> {hp_next h ..< hp_next h'}"
  proof (cases so)
    case None
    then show ?thesis using h w by (simp add: copy_slice_def view_elems_def foot_elems_def)
  next
    case (Some s)
    then obtain ws us where ws: "slice_elems k h s = Some ws" "list_all2 (\<lambda>x u. view_plain h x = Some u) ws us" "w = Some us"
      using w by (auto simp: view_elems_Some)
    have us: "us = ws" using ws(2) by (induction rule: list_all2_induct) (simp_all add: view_plain_def)
    obtain b h1 where n: "h_new (k_con k (replicate (sl_len s) zero)) h = (b, h1)" by fastforce
    note ext = extends_new [OF n] and sm = h_new_simps [OF n]
    obtain xs where xs: "h_read k h1 (sl_arr s) = Some xs" "sl_window s xs = Some ws"
      using slice_elems_extends [OF h ws(1) ext] by (auto simp: slice_elems_def bind_eq_Some_conv)
    note len = sl_window_length [OF xs(2)]
    let ?h = "h_set b (k_con k ws) h1"
    have "go_copy (replicate (sl_len s) zero) ws = ws" using len by (simp add: go_copy_def)
    then have "copy_slice k zero so h = Some (Some (whole b (sl_len s)), ?h)"
      using Some n xs h_read_new [OF k n] by (simp add: copy_slice_def)
    moreover have "heap_ok ?h" by (rule heap_ok_set [OF heap_ok_new [OF h n]]) (simp add: sm(1,2))
    moreover have "extends h ?h" by (rule extends_set [OF ext]) (simp add: sm(1))
    moreover have el: "slice_elems k ?h (whole b (sl_len s)) = Some ws" using k len by (simp add: slice_elems_def)
    moreover have "list_all2 (\<lambda>x u. view_plain ?h x = Some u) ws ws" by (simp add: view_plain_def list_all2_same)
    ultimately show ?thesis
      using ws(3) us sm by (auto simp: view_elems_Some foot_elems_def foot_plain_def)
  qed
next
  fix h h' :: "'c heap" and so w
  assume "view_elems k view_plain h so = Some w" "\<forall>a \<in> foot_elems k foot_plain h so. hp_cells h' a = hp_cells h a"
  then show "view_elems k view_plain h' so = Some w \<and> foot_elems k foot_plain h' so = foot_elems k foot_plain h so"
    by (rule copier.elems_frame [OF copier_plain])
next
  fix h :: "'c heap" and so w a
  assume "view_elems k view_plain h so = Some w" "a \<in> foot_elems k foot_plain h so"
  then show "hp_cells h a \<noteq> None" by (rule copier.elems_alloc [OF copier_plain])
qed

text \<open>The loop over the elements: the first ones are copies, the rest of the new array is still zero.\<close>

context copier
begin

lemma elem_loop_ok:
  assumes "kind_ok k" and g: "heap_ok g" "slice_elems k g s = Some ws" "list_all2 (\<lambda>x u. view g x = Some u) ws us"
    and "heap_ok h" and "extends g h" and "hp_next g \<le> b" and "b < hp_next h" and "h_read k h b = Some (ys @ zs)"
    and "copies view foot (Suc b) h ys (take (length ys) us)" and "length ys + length zs = length ws"
  shows "\<exists>h' ys'. elem_loop k copy s b [length ys ..< length ws] h = Some h' \<and> heap_ok h' \<and> extends g h' \<and> b < hp_next h' \<and>
    h_read k h' b = Some ys' \<and> copies view foot (Suc b) h' ys' us"
  using assms(5-)
proof (induction zs arbitrary: h ys)
  case Nil
  have "length us = length ws" using g(3) by (simp add: list_all2_lengthD)
  then show ?case using Nil by auto
next
  case (Cons z zs)
  let ?i = "length ys"
  have i: "?i < length ws" using Cons.prems by simp
  have v: "view g (ws ! ?i) = Some (us ! ?i)" using g(3) i by (simp add: list_all2_conv_all_nth)
  obtain xs where xs: "h_read k h (sl_arr s) = Some xs" "sl_window s xs = Some ws"
    using slice_elems_extends [OF g(1,2) Cons.prems(2)] by (auto simp: slice_elems_def bind_eq_Some_conv)
  obtain y h1 where y: "copy (ws ! ?i) h = Some (y, h1)" "heap_ok h1" "extends h h1" "view h1 y = Some (us ! ?i)"
    "foot h1 y \<subseteq> {hp_next h ..< hp_next h1}"
    using copyE [OF Cons.prems(1) view_extends(1) [OF g(1) v Cons.prems(2)]] .
  let ?ys = "ys @ [y]" let ?h = "h_set b (k_con k (?ys @ zs)) h1"
  have b: "b < hp_next h1" using y(3) Cons.prems(4) by (simp add: extends_def)
  have step: "elem_loop k copy s b (?i # [Suc ?i ..< length ws]) h = elem_loop k copy s b [length ?ys ..< length ws] ?h"
    using xs y(1) h_read_extends [OF Cons.prems(1,5) y(3)] by simp
  have len: "length us = length ws" using g(3) by (simp add: list_all2_lengthD)
  have "copies view foot (Suc b) ?h ?ys (take (length ys) us @ [us ! ?i])"
    by (rule copies_snoc [OF Cons.prems(6,1) y(3-5)]) (use Cons.prems(4) in simp_all)
  then have c: "copies view foot (Suc b) ?h ?ys (take (length ?ys) us)"
    using i len by (simp add: take_Suc_conv_app_nth)
  have e: "extends g ?h" by (rule extends_set [OF extends_trans [OF Cons.prems(2) y(3)] Cons.prems(3)])
  have "\<exists>h' ys'. elem_loop k copy s b [length ?ys ..< length ws] ?h = Some h' \<and> heap_ok h' \<and> extends g h' \<and> b < hp_next h' \<and>
      h_read k h' b = Some ys' \<and> copies view foot (Suc b) h' ys' us"
    by (rule Cons.IH [OF heap_ok_set [OF y(2) b] e Cons.prems(3) _ _ c]) (use b assms(1) Cons.prems(7) in simp_all)
  then show ?case using step i by (simp add: upt_conv_Cons)
qed

end

lemma copier_elems [copier_intros]:
  fixes into :: "'a \<Rightarrow> 'c heap \<Rightarrow> ('a \<times> 'c heap) option"
  assumes k: "kind_ok k" and cp: "copier into v f"
  shows "copier (copy_elems k zero into) (view_elems k v) (foot_elems k f)"
proof
  fix h :: "'c heap" and so w
  assume h: "heap_ok h" and w: "view_elems k v h so = Some w"
  show "\<exists>y h'. copy_elems k zero into so h = Some (y, h') \<and> heap_ok h' \<and> extends h h' \<and>
      view_elems k v h' y = Some w \<and> foot_elems k f h' y \<subseteq> {hp_next h ..< hp_next h'}"
  proof (cases so)
    case None
    then show ?thesis using h w by (simp add: copy_elems_def view_elems_def foot_elems_def)
  next
    case (Some s)
    then obtain ws us where ws: "slice_elems k h s = Some ws" "list_all2 (\<lambda>x u. v h x = Some u) ws us" "w = Some us"
      using w by (auto simp: view_elems_Some)
    have len: "length ws = sl_len s" using ws(1) by (auto simp: slice_elems_def bind_eq_Some_conv dest: sl_window_length)
    obtain b h1 where n: "h_new (k_con k (replicate (sl_len s) zero)) h = (b, h1)" by fastforce
    note sm = h_new_simps [OF n]
    have r: "h_read k h1 b = Some ([] @ replicate (sl_len s) zero)" using h_read_new [OF k n] by simp
    obtain h2 ys where l: "elem_loop k into s b [0 ..< sl_len s] h1 = Some h2" "heap_ok h2" "extends h h2" "b < hp_next h2"
      "h_read k h2 b = Some ys" "copies v f (Suc b) h2 ys us"
      using copier.elem_loop_ok [OF cp k h ws(1,2) heap_ok_new [OF h n] extends_new [OF n] _ _ r] sm len
      by (auto simp: copies_def)
    have lys: "length ys = sl_len s" using l(6) ws(2) len by (simp add: copies_def list_all2_lengthD)
    have el: "slice_elems k h2 (whole b (sl_len s)) = Some ys" using l(5) lys by (simp add: slice_elems_def)
    have "view_elems k v h2 (Some (whole b (sl_len s))) = Some w"
      using el copier.copies_view [OF cp l(6)] ws(3) by (simp add: view_elems_def)
    moreover have "foot_elems k f h2 (Some (whole b (sl_len s))) \<subseteq> {hp_next h ..< hp_next h2}"
      using el copier.copies_foot [OF cp l(6)] l(4) sm(1) by (fastforce simp: foot_elems_def)
    ultimately show ?thesis using Some n l(1-3) by (simp add: copy_elems_def)
  qed
next
  fix h h' :: "'c heap" and so w
  assume "view_elems k v h so = Some w" "\<forall>a \<in> foot_elems k f h so. hp_cells h' a = hp_cells h a"
  then show "view_elems k v h' so = Some w \<and> foot_elems k f h' so = foot_elems k f h so" by (rule copier.elems_frame [OF cp])
next
  fix h :: "'c heap" and so w a
  assume "view_elems k v h so = Some w" "a \<in> foot_elems k f h so"
  then show "hp_cells h a \<noteq> None" by (rule copier.elems_alloc [OF cp])
qed

section \<open>Maps\<close>

text \<open>
  \<^verbatim>\<open>for key, val := range *in { ...; (*out)[key] = outVal }\<close>. The loop runs over the entries of
  the source, which it does not change; the keys of a map are distinct.
\<close>

primrec entry_loop ::
  "('c, ('k, 'a) gomap) kind \<Rightarrow> ('a \<Rightarrow> 'c heap \<Rightarrow> ('a \<times> 'c heap) option) \<Rightarrow> addr \<Rightarrow> ('k, 'a) gomap \<Rightarrow> 'c heap \<Rightarrow> 'c heap option" where
  "entry_loop k into b [] h = Some h"
| "entry_loop k into b (e # es) h = do {
     (y, h1) \<leftarrow> into (snd e) h; m \<leftarrow> h_read k h1 b;
     entry_loop k into b es (h_set b (k_con k (m_set (fst e) y m)) h1) }"

definition copy_map ::
  "('c, ('k, 'a) gomap) kind \<Rightarrow> ('a \<Rightarrow> 'c heap \<Rightarrow> ('a \<times> 'c heap) option) \<Rightarrow> addr option \<Rightarrow> 'c heap \<Rightarrow> (addr option \<times> 'c heap) option" where
  "copy_map k into p h =
     (case p of
        None \<Rightarrow> Some (None, h)
      | Some a \<Rightarrow>
          (case h_new (k_con k []) h of
             (b, h1) \<Rightarrow> do { es \<leftarrow> h_read k h1 a; h2 \<leftarrow> entry_loop k into b es h1; Some (Some b, h2) }))"

definition map_entries :: "('c, ('k, 'a) gomap) kind \<Rightarrow> 'c heap \<Rightarrow> addr \<Rightarrow> ('k, 'a) gomap option" where
  "map_entries k h a = (case h_read k h a of None \<Rightarrow> None | Some es \<Rightarrow> if m_wf es then Some es else None)"

definition view_map where
  "view_map k v h p = (case p of
     None \<Rightarrow> Some None
   | Some a \<Rightarrow> do { es \<leftarrow> map_entries k h a; us \<leftarrow> opt_map (v h) (map snd es); Some (Some (zip (map fst es) us)) })"

definition foot_map where
  "foot_map k f h p = (case p of
     None \<Rightarrow> {} | Some a \<Rightarrow> insert a (case map_entries k h a of None \<Rightarrow> {} | Some es \<Rightarrow> \<Union> (f h ` snd ` set es)))"

lemma view_map_Some:
  "view_map k v h (Some a) = Some w \<longleftrightarrow>
     (\<exists>es us. h_read k h a = Some es \<and> m_wf es \<and> list_all2 (\<lambda>x u. v h x = Some u) (map snd es) us \<and> w = Some (zip (map fst es) us))"
  by (auto simp: view_map_def bind_eq_Some_conv opt_map_iff map_entries_def split: option.splits if_splits)

lemma m_set_fresh: "key \<notin> fst ` set m \<Longrightarrow> m_set key y m = m @ [(key, y)]"
  by (induction m) auto

lemma view_map_plain: "view_map k view_plain h p = (case p of None \<Rightarrow> Some None | Some a \<Rightarrow> map_option Some (map_entries k h a))"
proof -
  have "opt_map (view_plain h) xs = Some xs" for xs :: "'b list" by (induction xs) (simp_all add: view_plain_def)
  moreover have "zip (map fst es) (map snd es) = es" for es :: "('a \<times> 'b) list" by (induction es) auto
  ultimately show ?thesis by (cases p; cases "map_entries k h (the p)") (simp_all add: view_map_def)
qed

lemma foot_map_plain: "foot_map k foot_plain h p = set_option p"
  by (auto simp: foot_map_def foot_plain_def split: option.splits)

context copier
begin

lemma entry_loop_ok:
  assumes "kind_ok k" and g: "heap_ok g" "list_all2 (\<lambda>x u. view g x = Some u) (map snd es) us"
    and "heap_ok h" and "extends g h" and "hp_next g \<le> b" and "b < hp_next h" and "h_read k h b = Some m"
    and "copies view foot (Suc b) h (map snd m) ds" and "m_wf (m @ es)"
  shows "\<exists>h' m'. entry_loop k copy b es h = Some h' \<and> heap_ok h' \<and> extends g h' \<and> b < hp_next h' \<and>
    h_read k h' b = Some m' \<and> copies view foot (Suc b) h' (map snd m') (ds @ us) \<and> map fst m' = map fst (m @ es)"
  using assms(3-)
proof (induction es arbitrary: h m ds us)
  case Nil
  then show ?case by auto
next
  case (Cons e es)
  obtain u us' where us: "us = u # us'" "view g (snd e) = Some u" "list_all2 (\<lambda>x u. view g x = Some u) (map snd es) us'"
    using Cons.prems(1) by (auto simp: list_all2_Cons1)
  obtain y h1 where y: "copy (snd e) h = Some (y, h1)" "heap_ok h1" "extends h h1" "view h1 y = Some u"
    "foot h1 y \<subseteq> {hp_next h ..< hp_next h1}"
    using copyE [OF Cons.prems(2) view_extends(1) [OF g(1) us(2) Cons.prems(3)]] .
  let ?m = "m @ [(fst e, y)]" let ?h = "h_set b (k_con k ?m) h1"
  have b: "b < hp_next h1" using y(3) Cons.prems(5) by (simp add: extends_def)
  have fr: "m_set (fst e) y m = ?m" using Cons.prems(8) by (intro m_set_fresh) (auto simp: m_wf_def)
  have step: "entry_loop k copy b (e # es) h = entry_loop k copy b es ?h"
    using y(1) h_read_extends [OF Cons.prems(2,6) y(3)] fr by simp
  have "copies view foot (Suc b) ?h (map snd m @ [y]) (ds @ [u])"
    by (rule copies_snoc [OF Cons.prems(7,2) y(3-5)]) (use Cons.prems(5) in simp_all)
  then have c: "copies view foot (Suc b) ?h (map snd ?m) (ds @ [u])" by simp
  have e: "extends g ?h" by (rule extends_set [OF extends_trans [OF Cons.prems(3) y(3)] Cons.prems(4)])
  have "m_wf (?m @ es)" using Cons.prems(8) by (simp add: m_wf_def)
  then have "\<exists>h' m'. entry_loop k copy b es ?h = Some h' \<and> heap_ok h' \<and> extends g h' \<and> b < hp_next h' \<and>
      h_read k h' b = Some m' \<and> copies view foot (Suc b) h' (map snd m') ((ds @ [u]) @ us') \<and> map fst m' = map fst (?m @ es)"
    by (rule Cons.IH [OF us(3) heap_ok_set [OF y(2) b] e Cons.prems(4) _ _ c, rotated -1]) (use b assms(1) in simp_all)
  then show ?case using step us(1) by simp
qed

lemma map_frame:
  assumes "view_map k view h p = Some w" and "\<forall>a \<in> foot_map k foot h p. hp_cells h' a = hp_cells h a"
  shows "view_map k view h' p = Some w \<and> foot_map k foot h' p = foot_map k foot h p"
proof (cases p)
  case None
  then show ?thesis using assms(1) by (simp add: view_map_def foot_map_def)
next
  case (Some a)
  then obtain es us where w: "h_read k h a = Some es" "m_wf es" "list_all2 (\<lambda>x u. view h x = Some u) (map snd es) us"
    "w = Some (zip (map fst es) us)"
    using assms(1) by (auto simp: view_map_Some)
  have eq: "\<forall>x \<in> snd ` set es. \<forall>a \<in> foot h x. hp_cells h' a = hp_cells h a" "hp_cells h' a = hp_cells h a"
    using assms(2) w(1,2) Some by (auto simp: foot_map_def map_entries_def)
  have e: "h_read k h' a = Some es" using w(1) h_read_cells [OF eq(2), of k] by simp
  have each: "view h' x = Some u \<and> foot h' x = foot h x" if "x \<in> snd ` set es" "view h x = Some u" for x u
    by (rule view_frame [OF that(2)]) (use eq(1) that(1) in blast)
  have "list_all2 (\<lambda>x u. view h' x = Some u) (map snd es) us"
    by (rule list.rel_mono_strong [OF w(3)]) (use each in simp)
  moreover have "foot h' ` snd ` set es = foot h ` snd ` set es"
  proof (rule image_cong)
    fix x
    assume x: "x \<in> snd ` set es"
    then obtain u where "view h x = Some u" using list_all2_mem_left [OF w(3), of x] by auto
    then show "foot h' x = foot h x" using each [OF x] by blast
  qed simp
  ultimately show ?thesis using Some w e by (auto simp: view_map_Some foot_map_def map_entries_def)
qed

lemma map_alloc:
  assumes "view_map k view h p = Some w" and "a \<in> foot_map k foot h p"
  shows "hp_cells h a \<noteq> None"
proof (cases p)
  case None
  then show ?thesis using assms(2) by (simp add: foot_map_def)
next
  case (Some a')
  then obtain es us where w: "h_read k h a' = Some es" "m_wf es" "list_all2 (\<lambda>x u. view h x = Some u) (map snd es) us"
    using assms(1) by (auto simp: view_map_Some)
  then show ?thesis
    using assms(2) Some h_read_alloc [OF w(1)] foot_alloc list_all2_mem_left [OF w(3)]
    by (fastforce simp: foot_map_def map_entries_def)
qed

end

lemma copier_map [copier_intros]:
  fixes into :: "'a \<Rightarrow> 'c heap \<Rightarrow> ('a \<times> 'c heap) option"
  assumes k: "kind_ok k" and cp: "copier into v f"
  shows "copier (copy_map k into) (view_map k v) (foot_map k f)"
proof
  fix h :: "'c heap" and p w
  assume h: "heap_ok h" and w: "view_map k v h p = Some w"
  show "\<exists>y h'. copy_map k into p h = Some (y, h') \<and> heap_ok h' \<and> extends h h' \<and>
      view_map k v h' y = Some w \<and> foot_map k f h' y \<subseteq> {hp_next h ..< hp_next h'}"
  proof (cases p)
    case None
    then show ?thesis using h w by (simp add: copy_map_def view_map_def foot_map_def)
  next
    case (Some a)
    then obtain es us where es: "h_read k h a = Some es" "m_wf es" "list_all2 (\<lambda>x u. v h x = Some u) (map snd es) us"
      "w = Some (zip (map fst es) us)"
      using w by (auto simp: view_map_Some)
    obtain b h1 where n: "h_new (k_con k []) h = (b, h1)" by fastforce
    note sm = h_new_simps [OF n] and ext = extends_new [OF n]
    have c: "copies v f (Suc b) h1 (map snd []) []" by (simp add: copies_def)
    obtain h2 m where l: "entry_loop k into b es h1 = Some h2" "heap_ok h2" "extends h h2" "b < hp_next h2"
      "h_read k h2 b = Some m" "copies v f (Suc b) h2 (map snd m) us" "map fst m = map fst es"
      using copier.entry_loop_ok [OF cp k h es(3) heap_ok_new [OF h n] ext _ _ h_read_new [OF k n] c] sm es(2) by auto
    have wf: "m_wf m" using l(7) es(2) by (simp add: m_wf_def)
    have e: "map_entries k h2 b = Some m" using l(5) wf by (simp add: map_entries_def)
    have "copy_map k into p h = Some (Some b, h2)"
      using Some n l(1) h_read_extends [OF h es(1) ext] by (simp add: copy_map_def)
    moreover have "view_map k v h2 (Some b) = Some w"
      using e copier.copies_view [OF cp l(6)] es(4) l(7) by (simp add: view_map_def)
    moreover have "foot_map k f h2 (Some b) \<subseteq> {hp_next h ..< hp_next h2}"
      using e copier.copies_foot [OF cp l(6)] l(4) sm(1) by (fastforce simp: foot_map_def)
    ultimately show ?thesis using l(2,3) by blast
  qed
next
  fix h h' :: "'c heap" and p w
  assume "view_map k v h p = Some w" "\<forall>a \<in> foot_map k f h p. hp_cells h' a = hp_cells h a"
  then show "view_map k v h' p = Some w \<and> foot_map k f h' p = foot_map k f h p" by (rule copier.map_frame [OF cp])
next
  fix h :: "'c heap" and p w a
  assume "view_map k v h p = Some w" "a \<in> foot_map k f h p"
  then show "hp_cells h a \<noteq> None" by (rule copier.map_alloc [OF cp])
qed

end
