(* ===== verification/ApiHeap.thy ===== *)
theory ApiHeap
  imports GoHeap LBV1alpha1
begin

text \<open>
  The API objects as they lie in Go's memory. Every struct has the fields of the Go type; a pointer,
  a slice or a map is a reference into the heap, a nested struct is part of the outer one. The
  metadata has all the fields of the vendored \<^verbatim>\<open>metav1.ObjectMeta\<close>. A time is immutable and
  stands as a string, as in the records of \<open>ApiTypes\<close>. The structs without references are the
  records of \<open>ApiTypes\<close> and \<open>LBV1alpha1\<close>; the two versions have the same conditions.
\<close>

section \<open>Metadata\<close>

record TypeMeta =
  tm_Kind :: string
  tm_APIVersion :: string

record HOwnerReference =
  ow_APIVersion :: string
  ow_Kind :: string
  ow_Name :: string
  ow_UID :: string
  ow_Controller :: "addr option"
  ow_BlockOwnerDeletion :: "addr option"

record HFieldsV1 =
  fv_Raw :: "slice option"

record HManagedFieldsEntry =
  mf_Manager :: string
  mf_Operation :: string
  mf_APIVersion :: string
  mf_Time :: "addr option"
  mf_FieldsType :: string
  mf_FieldsV1 :: "addr option"
  mf_Subresource :: string

record HObjectMeta =
  hm_Name :: string
  hm_GenerateName :: string
  hm_Namespace :: string
  hm_SelfLink :: string
  hm_UID :: string
  hm_ResourceVersion :: string
  hm_Generation :: int64
  hm_CreationTimestamp :: string
  hm_DeletionTimestamp :: "addr option"
  hm_DeletionGracePeriodSeconds :: "addr option"
  hm_Labels :: "addr option"
  hm_Annotations :: "addr option"
  hm_OwnerReferences :: "slice option"
  hm_Finalizers :: "slice option"
  hm_ManagedFields :: "slice option"

record HListMeta =
  lm_SelfLink :: string
  lm_ResourceVersion :: string
  lm_Continue :: string
  lm_RemainingItemCount :: "addr option"

section \<open>IP pools\<close>

record HSelector =
  hsel_Priority :: uint32
  hsel_Network :: string
  hsel_Scope :: "slice option"

record HIPPoolSpec =
  hps_Description :: string
  hps_Ranges :: "slice option"
  hps_Selector :: HSelector

record HIPPoolStatus =
  hst_Total :: int64
  hst_Available :: int64
  hst_LastAllocated :: string
  hst_Allocated :: "addr option"
  hst_AllocatedHistory :: "addr option"
  hst_Conditions :: "slice option"

record HIPPool =
  hpool_TypeMeta :: TypeMeta
  hpool_Meta :: HObjectMeta
  hpool_Spec :: HIPPoolSpec
  hpool_Status :: HIPPoolStatus

record HIPPoolList =
  hpl_TypeMeta :: TypeMeta
  hpl_ListMeta :: HListMeta
  hpl_Items :: "slice option"

section \<open>Load balancers\<close>

record HLoadBalancerSpec =
  hlbs_Description :: string
  hlbs_WorkloadType :: string
  hlbs_IPAM :: string
  hlbs_IPPool :: string
  hlbs_Listeners :: "slice option"
  hlbs_BackendServerSelector :: "addr option"
  hlbs_HealthCheck :: "addr option"

record HLoadBalancerStatus =
  hlbst_BackendServers :: "slice option"
  hlbst_AllocatedAddress :: AllocatedAddress
  hlbst_Address :: string
  hlbst_Conditions :: "slice option"

record HLoadBalancer =
  hlb_TypeMeta :: TypeMeta
  hlb_Meta :: HObjectMeta
  hlb_Spec :: HLoadBalancerSpec
  hlb_Status :: HLoadBalancerStatus

record HLoadBalancerList =
  hlbl_TypeMeta :: TypeMeta
  hlbl_ListMeta :: HListMeta
  hlbl_Items :: "slice option"

section \<open>Load balancers of v1alpha1\<close>

record HLoadBalancerSpecV1 =
  hs1_Description :: string
  hs1_IPAM :: string
  hs1_Listeners :: "slice option"
  hs1_BackendServers :: "slice option"
  hs1_HeathCheck :: "addr option"

record HLoadBalancerStatusV1 =
  hst1_Address :: string
  hst1_Conditions :: "slice option"

record HLoadBalancerV1 =
  hlb1_TypeMeta :: TypeMeta
  hlb1_Meta :: HObjectMeta
  hlb1_Spec :: HLoadBalancerSpecV1
  hlb1_Status :: HLoadBalancerStatusV1

record HLoadBalancerListV1 =
  hlbl1_TypeMeta :: TypeMeta
  hlbl1_ListMeta :: HListMeta
  hlbl1_Items :: "slice option"

section \<open>Cells\<close>

text \<open>The types of the values that lie in a cell of their own: the targets of pointers, the arrays of slices, the maps.\<close>

datatype cell =
    CTime string | CInt64 int64 | CBool bool | CBytes "8 word list" | CStrs "string list" | CStrMap strmap
  | CFieldsV1 HFieldsV1 | COwners "HOwnerReference list" | CManaged "HManagedFieldsEntry list" | CTuple Tuple
  | CTuples "Tuple list" | CRange LBRange | CRanges "LBRange list" | CSelector HSelector
  | CPoolSpec HIPPoolSpec | CPoolStatus HIPPoolStatus | CPool HIPPool | CPools "HIPPool list"
  | CPoolList HIPPoolList | CCond Condition | CConds "Condition list" | CListener Listener
  | CListeners "Listener list" | CHealth HealthCheck | CAddress AllocatedAddress
  | CSliceMap "(string, slice option) gomap" | CLBSpec HLoadBalancerSpec | CLBStatus HLoadBalancerStatus
  | CLB HLoadBalancer | CLBs "HLoadBalancer list" | CLBList HLoadBalancerList | CListener1 ListenerV1
  | CListenerPtrs "addr option list" | CHealth1 HeathCheckV1 | CLBSpec1 HLoadBalancerSpecV1
  | CLBStatus1 HLoadBalancerStatusV1 | CLB1 HLoadBalancerV1 | CLBs1 "HLoadBalancerV1 list"
  | CLBList1 HLoadBalancerListV1

definition k_time :: "(cell, string) kind" where
  "k_time = \<lparr>k_con = CTime, k_get = (\<lambda>c. case c of CTime x \<Rightarrow> Some x | _ \<Rightarrow> None)\<rparr>"

definition k_int64 :: "(cell, int64) kind" where
  "k_int64 = \<lparr>k_con = CInt64, k_get = (\<lambda>c. case c of CInt64 x \<Rightarrow> Some x | _ \<Rightarrow> None)\<rparr>"

definition k_bool :: "(cell, bool) kind" where
  "k_bool = \<lparr>k_con = CBool, k_get = (\<lambda>c. case c of CBool x \<Rightarrow> Some x | _ \<Rightarrow> None)\<rparr>"

definition k_bytes :: "(cell, 8 word list) kind" where
  "k_bytes = \<lparr>k_con = CBytes, k_get = (\<lambda>c. case c of CBytes x \<Rightarrow> Some x | _ \<Rightarrow> None)\<rparr>"

definition k_strs :: "(cell, string list) kind" where
  "k_strs = \<lparr>k_con = CStrs, k_get = (\<lambda>c. case c of CStrs x \<Rightarrow> Some x | _ \<Rightarrow> None)\<rparr>"

definition k_strmap :: "(cell, strmap) kind" where
  "k_strmap = \<lparr>k_con = CStrMap, k_get = (\<lambda>c. case c of CStrMap x \<Rightarrow> Some x | _ \<Rightarrow> None)\<rparr>"

definition k_fields :: "(cell, HFieldsV1) kind" where
  "k_fields = \<lparr>k_con = CFieldsV1, k_get = (\<lambda>c. case c of CFieldsV1 x \<Rightarrow> Some x | _ \<Rightarrow> None)\<rparr>"

definition k_owners :: "(cell, HOwnerReference list) kind" where
  "k_owners = \<lparr>k_con = COwners, k_get = (\<lambda>c. case c of COwners x \<Rightarrow> Some x | _ \<Rightarrow> None)\<rparr>"

definition k_managed :: "(cell, HManagedFieldsEntry list) kind" where
  "k_managed = \<lparr>k_con = CManaged, k_get = (\<lambda>c. case c of CManaged x \<Rightarrow> Some x | _ \<Rightarrow> None)\<rparr>"

definition k_tuple :: "(cell, Tuple) kind" where
  "k_tuple = \<lparr>k_con = CTuple, k_get = (\<lambda>c. case c of CTuple x \<Rightarrow> Some x | _ \<Rightarrow> None)\<rparr>"

definition k_tuples :: "(cell, Tuple list) kind" where
  "k_tuples = \<lparr>k_con = CTuples, k_get = (\<lambda>c. case c of CTuples x \<Rightarrow> Some x | _ \<Rightarrow> None)\<rparr>"

definition k_range :: "(cell, LBRange) kind" where
  "k_range = \<lparr>k_con = CRange, k_get = (\<lambda>c. case c of CRange x \<Rightarrow> Some x | _ \<Rightarrow> None)\<rparr>"

definition k_ranges :: "(cell, LBRange list) kind" where
  "k_ranges = \<lparr>k_con = CRanges, k_get = (\<lambda>c. case c of CRanges x \<Rightarrow> Some x | _ \<Rightarrow> None)\<rparr>"

definition k_selector :: "(cell, HSelector) kind" where
  "k_selector = \<lparr>k_con = CSelector, k_get = (\<lambda>c. case c of CSelector x \<Rightarrow> Some x | _ \<Rightarrow> None)\<rparr>"

definition k_poolspec :: "(cell, HIPPoolSpec) kind" where
  "k_poolspec = \<lparr>k_con = CPoolSpec, k_get = (\<lambda>c. case c of CPoolSpec x \<Rightarrow> Some x | _ \<Rightarrow> None)\<rparr>"

definition k_poolstatus :: "(cell, HIPPoolStatus) kind" where
  "k_poolstatus = \<lparr>k_con = CPoolStatus, k_get = (\<lambda>c. case c of CPoolStatus x \<Rightarrow> Some x | _ \<Rightarrow> None)\<rparr>"

definition k_pool :: "(cell, HIPPool) kind" where
  "k_pool = \<lparr>k_con = CPool, k_get = (\<lambda>c. case c of CPool x \<Rightarrow> Some x | _ \<Rightarrow> None)\<rparr>"

definition k_pools :: "(cell, HIPPool list) kind" where
  "k_pools = \<lparr>k_con = CPools, k_get = (\<lambda>c. case c of CPools x \<Rightarrow> Some x | _ \<Rightarrow> None)\<rparr>"

definition k_poollist :: "(cell, HIPPoolList) kind" where
  "k_poollist = \<lparr>k_con = CPoolList, k_get = (\<lambda>c. case c of CPoolList x \<Rightarrow> Some x | _ \<Rightarrow> None)\<rparr>"

definition k_cond :: "(cell, Condition) kind" where
  "k_cond = \<lparr>k_con = CCond, k_get = (\<lambda>c. case c of CCond x \<Rightarrow> Some x | _ \<Rightarrow> None)\<rparr>"

definition k_conds :: "(cell, Condition list) kind" where
  "k_conds = \<lparr>k_con = CConds, k_get = (\<lambda>c. case c of CConds x \<Rightarrow> Some x | _ \<Rightarrow> None)\<rparr>"

definition k_listener :: "(cell, Listener) kind" where
  "k_listener = \<lparr>k_con = CListener, k_get = (\<lambda>c. case c of CListener x \<Rightarrow> Some x | _ \<Rightarrow> None)\<rparr>"

definition k_listeners :: "(cell, Listener list) kind" where
  "k_listeners = \<lparr>k_con = CListeners, k_get = (\<lambda>c. case c of CListeners x \<Rightarrow> Some x | _ \<Rightarrow> None)\<rparr>"

definition k_health :: "(cell, HealthCheck) kind" where
  "k_health = \<lparr>k_con = CHealth, k_get = (\<lambda>c. case c of CHealth x \<Rightarrow> Some x | _ \<Rightarrow> None)\<rparr>"

definition k_address :: "(cell, AllocatedAddress) kind" where
  "k_address = \<lparr>k_con = CAddress, k_get = (\<lambda>c. case c of CAddress x \<Rightarrow> Some x | _ \<Rightarrow> None)\<rparr>"

definition k_slicemap :: "(cell, (string, slice option) gomap) kind" where
  "k_slicemap = \<lparr>k_con = CSliceMap, k_get = (\<lambda>c. case c of CSliceMap x \<Rightarrow> Some x | _ \<Rightarrow> None)\<rparr>"

definition k_lbspec :: "(cell, HLoadBalancerSpec) kind" where
  "k_lbspec = \<lparr>k_con = CLBSpec, k_get = (\<lambda>c. case c of CLBSpec x \<Rightarrow> Some x | _ \<Rightarrow> None)\<rparr>"

definition k_lbstatus :: "(cell, HLoadBalancerStatus) kind" where
  "k_lbstatus = \<lparr>k_con = CLBStatus, k_get = (\<lambda>c. case c of CLBStatus x \<Rightarrow> Some x | _ \<Rightarrow> None)\<rparr>"

definition k_lb :: "(cell, HLoadBalancer) kind" where
  "k_lb = \<lparr>k_con = CLB, k_get = (\<lambda>c. case c of CLB x \<Rightarrow> Some x | _ \<Rightarrow> None)\<rparr>"

definition k_lbs :: "(cell, HLoadBalancer list) kind" where
  "k_lbs = \<lparr>k_con = CLBs, k_get = (\<lambda>c. case c of CLBs x \<Rightarrow> Some x | _ \<Rightarrow> None)\<rparr>"

definition k_lblist :: "(cell, HLoadBalancerList) kind" where
  "k_lblist = \<lparr>k_con = CLBList, k_get = (\<lambda>c. case c of CLBList x \<Rightarrow> Some x | _ \<Rightarrow> None)\<rparr>"

definition k_listener1 :: "(cell, ListenerV1) kind" where
  "k_listener1 = \<lparr>k_con = CListener1, k_get = (\<lambda>c. case c of CListener1 x \<Rightarrow> Some x | _ \<Rightarrow> None)\<rparr>"

definition k_listenerptrs :: "(cell, addr option list) kind" where
  "k_listenerptrs = \<lparr>k_con = CListenerPtrs, k_get = (\<lambda>c. case c of CListenerPtrs x \<Rightarrow> Some x | _ \<Rightarrow> None)\<rparr>"

definition k_health1 :: "(cell, HeathCheckV1) kind" where
  "k_health1 = \<lparr>k_con = CHealth1, k_get = (\<lambda>c. case c of CHealth1 x \<Rightarrow> Some x | _ \<Rightarrow> None)\<rparr>"

definition k_lbspec1 :: "(cell, HLoadBalancerSpecV1) kind" where
  "k_lbspec1 = \<lparr>k_con = CLBSpec1, k_get = (\<lambda>c. case c of CLBSpec1 x \<Rightarrow> Some x | _ \<Rightarrow> None)\<rparr>"

definition k_lbstatus1 :: "(cell, HLoadBalancerStatusV1) kind" where
  "k_lbstatus1 = \<lparr>k_con = CLBStatus1, k_get = (\<lambda>c. case c of CLBStatus1 x \<Rightarrow> Some x | _ \<Rightarrow> None)\<rparr>"

definition k_lb1 :: "(cell, HLoadBalancerV1) kind" where
  "k_lb1 = \<lparr>k_con = CLB1, k_get = (\<lambda>c. case c of CLB1 x \<Rightarrow> Some x | _ \<Rightarrow> None)\<rparr>"

definition k_lbs1 :: "(cell, HLoadBalancerV1 list) kind" where
  "k_lbs1 = \<lparr>k_con = CLBs1, k_get = (\<lambda>c. case c of CLBs1 x \<Rightarrow> Some x | _ \<Rightarrow> None)\<rparr>"

definition k_lblist1 :: "(cell, HLoadBalancerListV1) kind" where
  "k_lblist1 = \<lparr>k_con = CLBList1, k_get = (\<lambda>c. case c of CLBList1 x \<Rightarrow> Some x | _ \<Rightarrow> None)\<rparr>"

lemma kinds_ok [copier_intros]:
  "kind_ok k_time" "kind_ok k_int64" "kind_ok k_bool" "kind_ok k_bytes" "kind_ok k_strs" "kind_ok k_strmap"
  "kind_ok k_fields" "kind_ok k_owners" "kind_ok k_managed" "kind_ok k_tuple" "kind_ok k_tuples"
  "kind_ok k_range" "kind_ok k_ranges" "kind_ok k_selector" "kind_ok k_poolspec" "kind_ok k_poolstatus"
  "kind_ok k_pool" "kind_ok k_pools" "kind_ok k_poollist" "kind_ok k_cond" "kind_ok k_conds"
  "kind_ok k_listener" "kind_ok k_listeners" "kind_ok k_health" "kind_ok k_address" "kind_ok k_slicemap"
  "kind_ok k_lbspec" "kind_ok k_lbstatus" "kind_ok k_lb" "kind_ok k_lbs" "kind_ok k_lblist"
  "kind_ok k_listener1" "kind_ok k_listenerptrs" "kind_ok k_health1" "kind_ok k_lbspec1" "kind_ok k_lbstatus1"
  "kind_ok k_lb1" "kind_ok k_lbs1" "kind_ok k_lblist1"
  by (simp_all add: kind_ok_def k_time_def k_int64_def k_bool_def k_bytes_def k_strs_def k_strmap_def k_fields_def k_owners_def k_managed_def k_tuple_def k_tuples_def k_range_def k_ranges_def k_selector_def k_poolspec_def k_poolstatus_def k_pool_def k_pools_def k_poollist_def k_cond_def k_conds_def k_listener_def k_listeners_def k_health_def k_address_def k_slicemap_def k_lbspec_def k_lbstatus_def k_lb_def k_lbs_def k_lblist_def k_listener1_def k_listenerptrs_def k_health1_def k_lbspec1_def k_lbstatus1_def k_lb1_def k_lbs1_def k_lblist1_def)

end
