(* ===== verification/DeepCopy.thy ===== *)
theory DeepCopy
  imports ApiHeap
begin

text \<open>
  The generated copies of the API objects,
       \<^verbatim>\<open>zz_generated_deepcopy.go\<close> of v1beta1 and v1alpha1,
  with those of the vendored metadata. For every struct, \<open>refs_T\<close> is the tuple of the fields that
  hold references and \<open>with_T\<close> replaces them; \<open>T_DeepCopyInto\<close> assigns the struct and replaces
  these fields, in the order of the code, each by its copy; \<open>T_DeepCopy\<close> allocates a zero struct
  and copies into it, nil for nil. A struct without references is only assigned. \<open>T_view\<close> is what a
  struct reads as and \<open>T_foot\<close> the cells it reaches; each copy is a \<open>copier\<close> with them.
\<close>

section \<open>Zero values\<close>

definition zero_owner :: HOwnerReference where
  "zero_owner = \<lparr>ow_APIVersion = '''', ow_Kind = '''', ow_Name = '''', ow_UID = '''',
       ow_Controller = None, ow_BlockOwnerDeletion = None\<rparr>"

definition zero_fields :: HFieldsV1 where
  "zero_fields = \<lparr>fv_Raw = None\<rparr>"

definition zero_managed :: HManagedFieldsEntry where
  "zero_managed = \<lparr>mf_Manager = '''', mf_Operation = '''', mf_APIVersion = '''', mf_Time = None,
       mf_FieldsType = '''', mf_FieldsV1 = None, mf_Subresource = ''''\<rparr>"

definition zero_meta :: HObjectMeta where
  "zero_meta = \<lparr>hm_Name = '''', hm_GenerateName = '''', hm_Namespace = '''', hm_SelfLink = '''',
       hm_UID = '''', hm_ResourceVersion = '''', hm_Generation = 0, hm_CreationTimestamp = '''',
       hm_DeletionTimestamp = None, hm_DeletionGracePeriodSeconds = None, hm_Labels = None,
       hm_Annotations = None, hm_OwnerReferences = None, hm_Finalizers = None, hm_ManagedFields = None\<rparr>"

definition zero_listmeta :: HListMeta where
  "zero_listmeta = \<lparr>lm_SelfLink = '''', lm_ResourceVersion = '''', lm_Continue = '''',
       lm_RemainingItemCount = None\<rparr>"

definition zero_type :: TypeMeta where
  "zero_type = \<lparr>tm_Kind = '''', tm_APIVersion = ''''\<rparr>"

definition zero_tuple :: Tuple where
  "zero_tuple = \<lparr>t_Project = '''', t_Namespace = '''', t_GuestCluster = ''''\<rparr>"

definition zero_range :: LBRange where
  "zero_range = \<lparr>lb_RangeStart = '''', lb_RangeEnd = '''', lb_Subnet = '''', lb_Gateway = ''''\<rparr>"

definition zero_cond :: Condition where
  "zero_cond = \<lparr>cond_Type = '''', cond_Status = '''', cond_LastUpdateTime = '''',
       cond_LastTransitionTime = '''', cond_Reason = '''', cond_Message = ''''\<rparr>"

definition zero_listener :: Listener where
  "zero_listener = \<lparr>l_Name = '''', l_Port = 0, l_Protocol = '''', l_BackendPort = 0\<rparr>"

definition zero_health :: HealthCheck where
  "zero_health = \<lparr>hc_Port = 0, hc_SuccessThreshold = 0, hc_FailureThreshold = 0, hc_PeriodSeconds = 0,
       hc_TimeoutSeconds = 0\<rparr>"

definition zero_selector :: HSelector where
  "zero_selector = \<lparr>hsel_Priority = 0, hsel_Network = '''', hsel_Scope = None\<rparr>"

definition zero_poolspec :: HIPPoolSpec where
  "zero_poolspec = \<lparr>hps_Description = '''', hps_Ranges = None, hps_Selector = zero_selector\<rparr>"

definition zero_poolstatus :: HIPPoolStatus where
  "zero_poolstatus = \<lparr>hst_Total = 0, hst_Available = 0, hst_LastAllocated = '''', hst_Allocated = None,
       hst_AllocatedHistory = None, hst_Conditions = None\<rparr>"

definition zero_pool :: HIPPool where
  "zero_pool = \<lparr>hpool_TypeMeta = zero_type, hpool_Meta = zero_meta, hpool_Spec = zero_poolspec,
       hpool_Status = zero_poolstatus\<rparr>"

definition zero_poollist :: HIPPoolList where
  "zero_poollist = \<lparr>hpl_TypeMeta = zero_type, hpl_ListMeta = zero_listmeta, hpl_Items = None\<rparr>"

definition zero_lbspec :: HLoadBalancerSpec where
  "zero_lbspec = \<lparr>hlbs_Description = '''', hlbs_WorkloadType = '''', hlbs_IPAM = '''', hlbs_IPPool = '''',
       hlbs_Listeners = None, hlbs_BackendServerSelector = None, hlbs_HealthCheck = None\<rparr>"

definition zero_lbstatus :: HLoadBalancerStatus where
  "zero_lbstatus = \<lparr>hlbst_BackendServers = None, hlbst_AllocatedAddress = empty_address,
       hlbst_Address = '''', hlbst_Conditions = None\<rparr>"

definition zero_lb :: HLoadBalancer where
  "zero_lb = \<lparr>hlb_TypeMeta = zero_type, hlb_Meta = zero_meta, hlb_Spec = zero_lbspec,
       hlb_Status = zero_lbstatus\<rparr>"

definition zero_lblist :: HLoadBalancerList where
  "zero_lblist = \<lparr>hlbl_TypeMeta = zero_type, hlbl_ListMeta = zero_listmeta, hlbl_Items = None\<rparr>"

definition zero_listener1 :: ListenerV1 where
  "zero_listener1 = \<lparr>l1_Name = '''', l1_Port = 0, l1_Protocol = '''', l1_BackendPort = 0\<rparr>"

definition zero_health1 :: HeathCheckV1 where
  "zero_health1 = \<lparr>h1_Port = 0, h1_SuccessThreshold = 0, h1_FailureThreshold = 0, h1_PeriodSeconds = 0,
       h1_TimeoutSeconds = 0\<rparr>"

definition zero_lbspec1 :: HLoadBalancerSpecV1 where
  "zero_lbspec1 = \<lparr>hs1_Description = '''', hs1_IPAM = '''', hs1_Listeners = None,
       hs1_BackendServers = None, hs1_HeathCheck = None\<rparr>"

definition zero_lbstatus1 :: HLoadBalancerStatusV1 where
  "zero_lbstatus1 = \<lparr>hst1_Address = '''', hst1_Conditions = None\<rparr>"

definition zero_lb1 :: HLoadBalancerV1 where
  "zero_lb1 = \<lparr>hlb1_TypeMeta = zero_type, hlb1_Meta = zero_meta, hlb1_Spec = zero_lbspec1,
       hlb1_Status = zero_lbstatus1\<rparr>"

definition zero_lblist1 :: HLoadBalancerListV1 where
  "zero_lblist1 = \<lparr>hlbl1_TypeMeta = zero_type, hlbl1_ListMeta = zero_listmeta, hlbl1_Items = None\<rparr>"

section \<open>Metadata\<close>

definition refs_OwnerReference where
  "refs_OwnerReference x = (ow_Controller x, ow_BlockOwnerDeletion x)"

definition with_OwnerReference where
  "with_OwnerReference r x = (case r of (a, b) \<Rightarrow> x\<lparr>ow_Controller := a,
       ow_BlockOwnerDeletion := b\<rparr>)"

lemma lens_OwnerReference [copier_intros]: "lens_ok refs_OwnerReference with_OwnerReference"
  by (auto simp: lens_ok_def refs_OwnerReference_def with_OwnerReference_def)

definition OwnerReference_DeepCopyInto ::
  "HOwnerReference \<Rightarrow> cell heap \<Rightarrow> (HOwnerReference \<times> cell heap) option" where
  "OwnerReference_DeepCopyInto = copy_struct refs_OwnerReference with_OwnerReference
     (copy_pair (copy_ptr k_bool False copy_plain) (copy_ptr k_bool False copy_plain))"

definition OwnerReference_view where
  "OwnerReference_view = view_struct refs_OwnerReference with_OwnerReference zero_owner
     (view_pair (view_ptr k_bool view_plain) (view_ptr k_bool view_plain))"

definition OwnerReference_foot where
  "OwnerReference_foot = foot_struct refs_OwnerReference
     (foot_pair (foot_ptr k_bool foot_plain) (foot_ptr k_bool foot_plain))"

lemma copier_OwnerReference [copier_intros]:
  "copier OwnerReference_DeepCopyInto OwnerReference_view OwnerReference_foot"
  unfolding OwnerReference_DeepCopyInto_def OwnerReference_view_def OwnerReference_foot_def by (intro copier_intros)

definition refs_FieldsV1 where
  "refs_FieldsV1 x = fv_Raw x"

definition with_FieldsV1 where
  "with_FieldsV1 a x = x\<lparr>fv_Raw := a\<rparr>"

lemma lens_FieldsV1 [copier_intros]: "lens_ok refs_FieldsV1 with_FieldsV1"
  by (auto simp: lens_ok_def refs_FieldsV1_def with_FieldsV1_def)

definition FieldsV1_DeepCopyInto ::
  "HFieldsV1 \<Rightarrow> cell heap \<Rightarrow> (HFieldsV1 \<times> cell heap) option" where
  "FieldsV1_DeepCopyInto = copy_struct refs_FieldsV1 with_FieldsV1
     (copy_slice k_bytes 0)"

definition FieldsV1_view where
  "FieldsV1_view = view_struct refs_FieldsV1 with_FieldsV1 zero_fields
     (view_elems k_bytes view_plain)"

definition FieldsV1_foot where
  "FieldsV1_foot = foot_struct refs_FieldsV1
     (foot_elems k_bytes foot_plain)"

lemma copier_FieldsV1 [copier_intros]: "copier FieldsV1_DeepCopyInto FieldsV1_view FieldsV1_foot"
  unfolding FieldsV1_DeepCopyInto_def FieldsV1_view_def FieldsV1_foot_def by (intro copier_intros)

definition refs_ManagedFieldsEntry where
  "refs_ManagedFieldsEntry x = (mf_Time x, mf_FieldsV1 x)"

definition with_ManagedFieldsEntry where
  "with_ManagedFieldsEntry r x = (case r of (a, b) \<Rightarrow> x\<lparr>mf_Time := a, mf_FieldsV1 := b\<rparr>)"

lemma lens_ManagedFieldsEntry [copier_intros]: "lens_ok refs_ManagedFieldsEntry with_ManagedFieldsEntry"
  by (auto simp: lens_ok_def refs_ManagedFieldsEntry_def with_ManagedFieldsEntry_def)

definition ManagedFieldsEntry_DeepCopyInto ::
  "HManagedFieldsEntry \<Rightarrow> cell heap \<Rightarrow> (HManagedFieldsEntry \<times> cell heap) option" where
  "ManagedFieldsEntry_DeepCopyInto = copy_struct refs_ManagedFieldsEntry with_ManagedFieldsEntry
     (copy_pair (copy_ptr k_time '''' copy_plain) (copy_ptr k_fields zero_fields FieldsV1_DeepCopyInto))"

definition ManagedFieldsEntry_view where
  "ManagedFieldsEntry_view = view_struct refs_ManagedFieldsEntry with_ManagedFieldsEntry zero_managed
     (view_pair (view_ptr k_time view_plain) (view_ptr k_fields FieldsV1_view))"

definition ManagedFieldsEntry_foot where
  "ManagedFieldsEntry_foot = foot_struct refs_ManagedFieldsEntry
     (foot_pair (foot_ptr k_time foot_plain) (foot_ptr k_fields FieldsV1_foot))"

lemma copier_ManagedFieldsEntry [copier_intros]:
  "copier ManagedFieldsEntry_DeepCopyInto ManagedFieldsEntry_view ManagedFieldsEntry_foot"
  unfolding ManagedFieldsEntry_DeepCopyInto_def ManagedFieldsEntry_view_def ManagedFieldsEntry_foot_def
  by (intro copier_intros)

definition refs_ObjectMeta where
  "refs_ObjectMeta x = (hm_DeletionTimestamp x, hm_DeletionGracePeriodSeconds x, hm_Labels x, hm_Annotations x,
       hm_OwnerReferences x, hm_Finalizers x, hm_ManagedFields x)"

definition with_ObjectMeta where
  "with_ObjectMeta r x = (case r of (a, b, c, d, e, f, g) \<Rightarrow> x\<lparr>hm_DeletionTimestamp := a,
       hm_DeletionGracePeriodSeconds := b, hm_Labels := c, hm_Annotations := d, hm_OwnerReferences := e,
       hm_Finalizers := f, hm_ManagedFields := g\<rparr>)"

lemma lens_ObjectMeta [copier_intros]: "lens_ok refs_ObjectMeta with_ObjectMeta"
  by (auto simp: lens_ok_def refs_ObjectMeta_def with_ObjectMeta_def)

definition ObjectMeta_DeepCopyInto ::
  "HObjectMeta \<Rightarrow> cell heap \<Rightarrow> (HObjectMeta \<times> cell heap) option" where
  "ObjectMeta_DeepCopyInto = copy_struct refs_ObjectMeta with_ObjectMeta
     (copy_pair (copy_ptr k_time '''' copy_plain) (copy_pair (copy_ptr k_int64 0 copy_plain) (copy_pair
       (copy_map k_strmap copy_plain) (copy_pair (copy_map k_strmap copy_plain) (copy_pair
       (copy_elems k_owners zero_owner OwnerReference_DeepCopyInto) (copy_pair (copy_slice k_strs '''')
       (copy_elems k_managed zero_managed ManagedFieldsEntry_DeepCopyInto)))))))"

definition ObjectMeta_view where
  "ObjectMeta_view = view_struct refs_ObjectMeta with_ObjectMeta zero_meta
     (view_pair (view_ptr k_time view_plain) (view_pair (view_ptr k_int64 view_plain) (view_pair
       (view_map k_strmap view_plain) (view_pair (view_map k_strmap view_plain) (view_pair
       (view_elems k_owners OwnerReference_view) (view_pair (view_elems k_strs view_plain)
       (view_elems k_managed ManagedFieldsEntry_view)))))))"

definition ObjectMeta_foot where
  "ObjectMeta_foot = foot_struct refs_ObjectMeta
     (foot_pair (foot_ptr k_time foot_plain) (foot_pair (foot_ptr k_int64 foot_plain) (foot_pair
       (foot_map k_strmap foot_plain) (foot_pair (foot_map k_strmap foot_plain) (foot_pair
       (foot_elems k_owners OwnerReference_foot) (foot_pair (foot_elems k_strs foot_plain)
       (foot_elems k_managed ManagedFieldsEntry_foot)))))))"

lemma copier_ObjectMeta [copier_intros]: "copier ObjectMeta_DeepCopyInto ObjectMeta_view ObjectMeta_foot"
  unfolding ObjectMeta_DeepCopyInto_def ObjectMeta_view_def ObjectMeta_foot_def by (intro copier_intros)

definition refs_ListMeta where
  "refs_ListMeta x = lm_RemainingItemCount x"

definition with_ListMeta where
  "with_ListMeta a x = x\<lparr>lm_RemainingItemCount := a\<rparr>"

lemma lens_ListMeta [copier_intros]: "lens_ok refs_ListMeta with_ListMeta"
  by (auto simp: lens_ok_def refs_ListMeta_def with_ListMeta_def)

definition ListMeta_DeepCopyInto ::
  "HListMeta \<Rightarrow> cell heap \<Rightarrow> (HListMeta \<times> cell heap) option" where
  "ListMeta_DeepCopyInto = copy_struct refs_ListMeta with_ListMeta
     (copy_ptr k_int64 0 copy_plain)"

definition ListMeta_view where
  "ListMeta_view = view_struct refs_ListMeta with_ListMeta zero_listmeta
     (view_ptr k_int64 view_plain)"

definition ListMeta_foot where
  "ListMeta_foot = foot_struct refs_ListMeta
     (foot_ptr k_int64 foot_plain)"

lemma copier_ListMeta [copier_intros]: "copier ListMeta_DeepCopyInto ListMeta_view ListMeta_foot"
  unfolding ListMeta_DeepCopyInto_def ListMeta_view_def ListMeta_foot_def by (intro copier_intros)

section \<open>IP pools\<close>

definition Tuple_DeepCopyInto ::
  "Tuple \<Rightarrow> cell heap \<Rightarrow> (Tuple \<times> cell heap) option" where
  "Tuple_DeepCopyInto = copy_plain"

definition Range_DeepCopyInto ::
  "LBRange \<Rightarrow> cell heap \<Rightarrow> (LBRange \<times> cell heap) option" where
  "Range_DeepCopyInto = copy_plain"

definition Condition_DeepCopyInto ::
  "Condition \<Rightarrow> cell heap \<Rightarrow> (Condition \<times> cell heap) option" where
  "Condition_DeepCopyInto = copy_plain"

definition refs_Selector where
  "refs_Selector x = hsel_Scope x"

definition with_Selector where
  "with_Selector a x = x\<lparr>hsel_Scope := a\<rparr>"

lemma lens_Selector [copier_intros]: "lens_ok refs_Selector with_Selector"
  by (auto simp: lens_ok_def refs_Selector_def with_Selector_def)

definition Selector_DeepCopyInto ::
  "HSelector \<Rightarrow> cell heap \<Rightarrow> (HSelector \<times> cell heap) option" where
  "Selector_DeepCopyInto = copy_struct refs_Selector with_Selector
     (copy_slice k_tuples zero_tuple)"

definition Selector_view where
  "Selector_view = view_struct refs_Selector with_Selector zero_selector
     (view_elems k_tuples view_plain)"

definition Selector_foot where
  "Selector_foot = foot_struct refs_Selector
     (foot_elems k_tuples foot_plain)"

lemma copier_Selector [copier_intros]: "copier Selector_DeepCopyInto Selector_view Selector_foot"
  unfolding Selector_DeepCopyInto_def Selector_view_def Selector_foot_def by (intro copier_intros)

definition refs_IPPoolSpec where
  "refs_IPPoolSpec x = (hps_Ranges x, hps_Selector x)"

definition with_IPPoolSpec where
  "with_IPPoolSpec r x = (case r of (a, b) \<Rightarrow> x\<lparr>hps_Ranges := a, hps_Selector := b\<rparr>)"

lemma lens_IPPoolSpec [copier_intros]: "lens_ok refs_IPPoolSpec with_IPPoolSpec"
  by (auto simp: lens_ok_def refs_IPPoolSpec_def with_IPPoolSpec_def)

definition IPPoolSpec_DeepCopyInto ::
  "HIPPoolSpec \<Rightarrow> cell heap \<Rightarrow> (HIPPoolSpec \<times> cell heap) option" where
  "IPPoolSpec_DeepCopyInto = copy_struct refs_IPPoolSpec with_IPPoolSpec
     (copy_pair (copy_slice k_ranges zero_range) Selector_DeepCopyInto)"

definition IPPoolSpec_view where
  "IPPoolSpec_view = view_struct refs_IPPoolSpec with_IPPoolSpec zero_poolspec
     (view_pair (view_elems k_ranges view_plain) Selector_view)"

definition IPPoolSpec_foot where
  "IPPoolSpec_foot = foot_struct refs_IPPoolSpec
     (foot_pair (foot_elems k_ranges foot_plain) Selector_foot)"

lemma copier_IPPoolSpec [copier_intros]: "copier IPPoolSpec_DeepCopyInto IPPoolSpec_view IPPoolSpec_foot"
  unfolding IPPoolSpec_DeepCopyInto_def IPPoolSpec_view_def IPPoolSpec_foot_def by (intro copier_intros)

definition refs_IPPoolStatus where
  "refs_IPPoolStatus x = (hst_Allocated x, hst_AllocatedHistory x, hst_Conditions x)"

definition with_IPPoolStatus where
  "with_IPPoolStatus r x = (case r of (a, b, c) \<Rightarrow> x\<lparr>hst_Allocated := a,
       hst_AllocatedHistory := b, hst_Conditions := c\<rparr>)"

lemma lens_IPPoolStatus [copier_intros]: "lens_ok refs_IPPoolStatus with_IPPoolStatus"
  by (auto simp: lens_ok_def refs_IPPoolStatus_def with_IPPoolStatus_def)

definition IPPoolStatus_DeepCopyInto ::
  "HIPPoolStatus \<Rightarrow> cell heap \<Rightarrow> (HIPPoolStatus \<times> cell heap) option" where
  "IPPoolStatus_DeepCopyInto = copy_struct refs_IPPoolStatus with_IPPoolStatus
     (copy_pair (copy_map k_strmap copy_plain) (copy_pair (copy_map k_strmap copy_plain)
       (copy_slice k_conds zero_cond)))"

definition IPPoolStatus_view where
  "IPPoolStatus_view = view_struct refs_IPPoolStatus with_IPPoolStatus zero_poolstatus
     (view_pair (view_map k_strmap view_plain) (view_pair (view_map k_strmap view_plain)
       (view_elems k_conds view_plain)))"

definition IPPoolStatus_foot where
  "IPPoolStatus_foot = foot_struct refs_IPPoolStatus
     (foot_pair (foot_map k_strmap foot_plain) (foot_pair (foot_map k_strmap foot_plain)
       (foot_elems k_conds foot_plain)))"

lemma copier_IPPoolStatus [copier_intros]: "copier IPPoolStatus_DeepCopyInto IPPoolStatus_view IPPoolStatus_foot"
  unfolding IPPoolStatus_DeepCopyInto_def IPPoolStatus_view_def IPPoolStatus_foot_def by (intro copier_intros)

definition refs_IPPool where
  "refs_IPPool x = (hpool_Meta x, hpool_Spec x, hpool_Status x)"

definition with_IPPool where
  "with_IPPool r x = (case r of (a, b, c) \<Rightarrow> x\<lparr>hpool_Meta := a, hpool_Spec := b,
       hpool_Status := c\<rparr>)"

lemma lens_IPPool [copier_intros]: "lens_ok refs_IPPool with_IPPool"
  by (auto simp: lens_ok_def refs_IPPool_def with_IPPool_def)

definition IPPool_DeepCopyInto ::
  "HIPPool \<Rightarrow> cell heap \<Rightarrow> (HIPPool \<times> cell heap) option" where
  "IPPool_DeepCopyInto = copy_struct refs_IPPool with_IPPool
     (copy_pair ObjectMeta_DeepCopyInto (copy_pair IPPoolSpec_DeepCopyInto IPPoolStatus_DeepCopyInto))"

definition IPPool_view where
  "IPPool_view = view_struct refs_IPPool with_IPPool zero_pool
     (view_pair ObjectMeta_view (view_pair IPPoolSpec_view IPPoolStatus_view))"

definition IPPool_foot where
  "IPPool_foot = foot_struct refs_IPPool
     (foot_pair ObjectMeta_foot (foot_pair IPPoolSpec_foot IPPoolStatus_foot))"

lemma copier_IPPool [copier_intros]: "copier IPPool_DeepCopyInto IPPool_view IPPool_foot"
  unfolding IPPool_DeepCopyInto_def IPPool_view_def IPPool_foot_def by (intro copier_intros)

definition refs_IPPoolList where
  "refs_IPPoolList x = (hpl_ListMeta x, hpl_Items x)"

definition with_IPPoolList where
  "with_IPPoolList r x = (case r of (a, b) \<Rightarrow> x\<lparr>hpl_ListMeta := a, hpl_Items := b\<rparr>)"

lemma lens_IPPoolList [copier_intros]: "lens_ok refs_IPPoolList with_IPPoolList"
  by (auto simp: lens_ok_def refs_IPPoolList_def with_IPPoolList_def)

definition IPPoolList_DeepCopyInto ::
  "HIPPoolList \<Rightarrow> cell heap \<Rightarrow> (HIPPoolList \<times> cell heap) option" where
  "IPPoolList_DeepCopyInto = copy_struct refs_IPPoolList with_IPPoolList
     (copy_pair ListMeta_DeepCopyInto (copy_elems k_pools zero_pool IPPool_DeepCopyInto))"

definition IPPoolList_view where
  "IPPoolList_view = view_struct refs_IPPoolList with_IPPoolList zero_poollist
     (view_pair ListMeta_view (view_elems k_pools IPPool_view))"

definition IPPoolList_foot where
  "IPPoolList_foot = foot_struct refs_IPPoolList
     (foot_pair ListMeta_foot (foot_elems k_pools IPPool_foot))"

lemma copier_IPPoolList [copier_intros]: "copier IPPoolList_DeepCopyInto IPPoolList_view IPPoolList_foot"
  unfolding IPPoolList_DeepCopyInto_def IPPoolList_view_def IPPoolList_foot_def by (intro copier_intros)

section \<open>Load balancers\<close>

definition AllocatedAddress_DeepCopyInto ::
  "AllocatedAddress \<Rightarrow> cell heap \<Rightarrow> (AllocatedAddress \<times> cell heap) option" where
  "AllocatedAddress_DeepCopyInto = copy_plain"

definition HealthCheck_DeepCopyInto ::
  "HealthCheck \<Rightarrow> cell heap \<Rightarrow> (HealthCheck \<times> cell heap) option" where
  "HealthCheck_DeepCopyInto = copy_plain"

definition Listener_DeepCopyInto ::
  "Listener \<Rightarrow> cell heap \<Rightarrow> (Listener \<times> cell heap) option" where
  "Listener_DeepCopyInto = copy_plain"

definition refs_LoadBalancerSpec where
  "refs_LoadBalancerSpec x = (hlbs_Listeners x, hlbs_BackendServerSelector x, hlbs_HealthCheck x)"

definition with_LoadBalancerSpec where
  "with_LoadBalancerSpec r x = (case r of (a, b, c) \<Rightarrow> x\<lparr>hlbs_Listeners := a,
       hlbs_BackendServerSelector := b, hlbs_HealthCheck := c\<rparr>)"

lemma lens_LoadBalancerSpec [copier_intros]: "lens_ok refs_LoadBalancerSpec with_LoadBalancerSpec"
  by (auto simp: lens_ok_def refs_LoadBalancerSpec_def with_LoadBalancerSpec_def)

text \<open>A value of the map of selectors that is nil is set to nil, another one is copied.\<close>

definition LoadBalancerSpec_DeepCopyInto ::
  "HLoadBalancerSpec \<Rightarrow> cell heap \<Rightarrow> (HLoadBalancerSpec \<times> cell heap) option" where
  "LoadBalancerSpec_DeepCopyInto = copy_struct refs_LoadBalancerSpec with_LoadBalancerSpec
     (copy_pair (copy_slice k_listeners zero_listener) (copy_pair (copy_map k_slicemap
       (copy_slice k_strs '''')) (copy_ptr k_health zero_health copy_plain)))"

definition LoadBalancerSpec_view where
  "LoadBalancerSpec_view = view_struct refs_LoadBalancerSpec with_LoadBalancerSpec zero_lbspec
     (view_pair (view_elems k_listeners view_plain) (view_pair (view_map k_slicemap
       (view_elems k_strs view_plain)) (view_ptr k_health view_plain)))"

definition LoadBalancerSpec_foot where
  "LoadBalancerSpec_foot = foot_struct refs_LoadBalancerSpec
     (foot_pair (foot_elems k_listeners foot_plain) (foot_pair (foot_map k_slicemap
       (foot_elems k_strs foot_plain)) (foot_ptr k_health foot_plain)))"

lemma copier_LoadBalancerSpec [copier_intros]:
  "copier LoadBalancerSpec_DeepCopyInto LoadBalancerSpec_view LoadBalancerSpec_foot"
  unfolding LoadBalancerSpec_DeepCopyInto_def LoadBalancerSpec_view_def LoadBalancerSpec_foot_def
  by (intro copier_intros)

definition refs_LoadBalancerStatus where
  "refs_LoadBalancerStatus x = (hlbst_BackendServers x, hlbst_Conditions x)"

definition with_LoadBalancerStatus where
  "with_LoadBalancerStatus r x = (case r of (a, b) \<Rightarrow> x\<lparr>hlbst_BackendServers := a,
       hlbst_Conditions := b\<rparr>)"

lemma lens_LoadBalancerStatus [copier_intros]: "lens_ok refs_LoadBalancerStatus with_LoadBalancerStatus"
  by (auto simp: lens_ok_def refs_LoadBalancerStatus_def with_LoadBalancerStatus_def)

definition LoadBalancerStatus_DeepCopyInto ::
  "HLoadBalancerStatus \<Rightarrow> cell heap \<Rightarrow> (HLoadBalancerStatus \<times> cell heap) option" where
  "LoadBalancerStatus_DeepCopyInto = copy_struct refs_LoadBalancerStatus with_LoadBalancerStatus
     (copy_pair (copy_slice k_strs '''') (copy_slice k_conds zero_cond))"

definition LoadBalancerStatus_view where
  "LoadBalancerStatus_view = view_struct refs_LoadBalancerStatus with_LoadBalancerStatus zero_lbstatus
     (view_pair (view_elems k_strs view_plain) (view_elems k_conds view_plain))"

definition LoadBalancerStatus_foot where
  "LoadBalancerStatus_foot = foot_struct refs_LoadBalancerStatus
     (foot_pair (foot_elems k_strs foot_plain) (foot_elems k_conds foot_plain))"

lemma copier_LoadBalancerStatus [copier_intros]:
  "copier LoadBalancerStatus_DeepCopyInto LoadBalancerStatus_view LoadBalancerStatus_foot"
  unfolding LoadBalancerStatus_DeepCopyInto_def LoadBalancerStatus_view_def LoadBalancerStatus_foot_def
  by (intro copier_intros)

definition refs_LoadBalancer where
  "refs_LoadBalancer x = (hlb_Meta x, hlb_Spec x, hlb_Status x)"

definition with_LoadBalancer where
  "with_LoadBalancer r x = (case r of (a, b, c) \<Rightarrow> x\<lparr>hlb_Meta := a, hlb_Spec := b,
       hlb_Status := c\<rparr>)"

lemma lens_LoadBalancer [copier_intros]: "lens_ok refs_LoadBalancer with_LoadBalancer"
  by (auto simp: lens_ok_def refs_LoadBalancer_def with_LoadBalancer_def)

definition LoadBalancer_DeepCopyInto ::
  "HLoadBalancer \<Rightarrow> cell heap \<Rightarrow> (HLoadBalancer \<times> cell heap) option" where
  "LoadBalancer_DeepCopyInto = copy_struct refs_LoadBalancer with_LoadBalancer
     (copy_pair ObjectMeta_DeepCopyInto (copy_pair LoadBalancerSpec_DeepCopyInto LoadBalancerStatus_DeepCopyInto))"

definition LoadBalancer_view where
  "LoadBalancer_view = view_struct refs_LoadBalancer with_LoadBalancer zero_lb
     (view_pair ObjectMeta_view (view_pair LoadBalancerSpec_view LoadBalancerStatus_view))"

definition LoadBalancer_foot where
  "LoadBalancer_foot = foot_struct refs_LoadBalancer
     (foot_pair ObjectMeta_foot (foot_pair LoadBalancerSpec_foot LoadBalancerStatus_foot))"

lemma copier_LoadBalancer [copier_intros]: "copier LoadBalancer_DeepCopyInto LoadBalancer_view LoadBalancer_foot"
  unfolding LoadBalancer_DeepCopyInto_def LoadBalancer_view_def LoadBalancer_foot_def by (intro copier_intros)

definition refs_LoadBalancerList where
  "refs_LoadBalancerList x = (hlbl_ListMeta x, hlbl_Items x)"

definition with_LoadBalancerList where
  "with_LoadBalancerList r x = (case r of (a, b) \<Rightarrow> x\<lparr>hlbl_ListMeta := a,
       hlbl_Items := b\<rparr>)"

lemma lens_LoadBalancerList [copier_intros]: "lens_ok refs_LoadBalancerList with_LoadBalancerList"
  by (auto simp: lens_ok_def refs_LoadBalancerList_def with_LoadBalancerList_def)

definition LoadBalancerList_DeepCopyInto ::
  "HLoadBalancerList \<Rightarrow> cell heap \<Rightarrow> (HLoadBalancerList \<times> cell heap) option" where
  "LoadBalancerList_DeepCopyInto = copy_struct refs_LoadBalancerList with_LoadBalancerList
     (copy_pair ListMeta_DeepCopyInto (copy_elems k_lbs zero_lb LoadBalancer_DeepCopyInto))"

definition LoadBalancerList_view where
  "LoadBalancerList_view = view_struct refs_LoadBalancerList with_LoadBalancerList zero_lblist
     (view_pair ListMeta_view (view_elems k_lbs LoadBalancer_view))"

definition LoadBalancerList_foot where
  "LoadBalancerList_foot = foot_struct refs_LoadBalancerList
     (foot_pair ListMeta_foot (foot_elems k_lbs LoadBalancer_foot))"

lemma copier_LoadBalancerList [copier_intros]:
  "copier LoadBalancerList_DeepCopyInto LoadBalancerList_view LoadBalancerList_foot"
  unfolding LoadBalancerList_DeepCopyInto_def LoadBalancerList_view_def LoadBalancerList_foot_def
  by (intro copier_intros)

section \<open>Load balancers of v1alpha1\<close>

definition HeathCheckV1_DeepCopyInto ::
  "HeathCheckV1 \<Rightarrow> cell heap \<Rightarrow> (HeathCheckV1 \<times> cell heap) option" where
  "HeathCheckV1_DeepCopyInto = copy_plain"

definition ListenerV1_DeepCopyInto ::
  "ListenerV1 \<Rightarrow> cell heap \<Rightarrow> (ListenerV1 \<times> cell heap) option" where
  "ListenerV1_DeepCopyInto = copy_plain"

definition ConditionV1_DeepCopyInto ::
  "Condition \<Rightarrow> cell heap \<Rightarrow> (Condition \<times> cell heap) option" where
  "ConditionV1_DeepCopyInto = copy_plain"

definition refs_LoadBalancerSpecV1 where
  "refs_LoadBalancerSpecV1 x = (hs1_Listeners x, hs1_BackendServers x, hs1_HeathCheck x)"

definition with_LoadBalancerSpecV1 where
  "with_LoadBalancerSpecV1 r x = (case r of (a, b, c) \<Rightarrow> x\<lparr>hs1_Listeners := a,
       hs1_BackendServers := b, hs1_HeathCheck := c\<rparr>)"

lemma lens_LoadBalancerSpecV1 [copier_intros]: "lens_ok refs_LoadBalancerSpecV1 with_LoadBalancerSpecV1"
  by (auto simp: lens_ok_def refs_LoadBalancerSpecV1_def with_LoadBalancerSpecV1_def)

text \<open>The elements of the list of listeners are pointers; a nil one stays nil.\<close>

definition LoadBalancerSpecV1_DeepCopyInto ::
  "HLoadBalancerSpecV1 \<Rightarrow> cell heap \<Rightarrow> (HLoadBalancerSpecV1 \<times> cell heap) option" where
  "LoadBalancerSpecV1_DeepCopyInto = copy_struct refs_LoadBalancerSpecV1 with_LoadBalancerSpecV1
     (copy_pair (copy_elems k_listenerptrs None (copy_ptr k_listener1 zero_listener1 copy_plain)) (copy_pair
       (copy_slice k_strs '''') (copy_ptr k_health1 zero_health1 copy_plain)))"

definition LoadBalancerSpecV1_view where
  "LoadBalancerSpecV1_view = view_struct refs_LoadBalancerSpecV1 with_LoadBalancerSpecV1 zero_lbspec1
     (view_pair (view_elems k_listenerptrs (view_ptr k_listener1 view_plain)) (view_pair
       (view_elems k_strs view_plain) (view_ptr k_health1 view_plain)))"

definition LoadBalancerSpecV1_foot where
  "LoadBalancerSpecV1_foot = foot_struct refs_LoadBalancerSpecV1
     (foot_pair (foot_elems k_listenerptrs (foot_ptr k_listener1 foot_plain)) (foot_pair
       (foot_elems k_strs foot_plain) (foot_ptr k_health1 foot_plain)))"

lemma copier_LoadBalancerSpecV1 [copier_intros]:
  "copier LoadBalancerSpecV1_DeepCopyInto LoadBalancerSpecV1_view LoadBalancerSpecV1_foot"
  unfolding LoadBalancerSpecV1_DeepCopyInto_def LoadBalancerSpecV1_view_def LoadBalancerSpecV1_foot_def
  by (intro copier_intros)

definition refs_LoadBalancerStatusV1 where
  "refs_LoadBalancerStatusV1 x = hst1_Conditions x"

definition with_LoadBalancerStatusV1 where
  "with_LoadBalancerStatusV1 a x = x\<lparr>hst1_Conditions := a\<rparr>"

lemma lens_LoadBalancerStatusV1 [copier_intros]: "lens_ok refs_LoadBalancerStatusV1 with_LoadBalancerStatusV1"
  by (auto simp: lens_ok_def refs_LoadBalancerStatusV1_def with_LoadBalancerStatusV1_def)

definition LoadBalancerStatusV1_DeepCopyInto ::
  "HLoadBalancerStatusV1 \<Rightarrow> cell heap \<Rightarrow> (HLoadBalancerStatusV1 \<times> cell heap) option" where
  "LoadBalancerStatusV1_DeepCopyInto = copy_struct refs_LoadBalancerStatusV1 with_LoadBalancerStatusV1
     (copy_slice k_conds zero_cond)"

definition LoadBalancerStatusV1_view where
  "LoadBalancerStatusV1_view = view_struct refs_LoadBalancerStatusV1 with_LoadBalancerStatusV1 zero_lbstatus1
     (view_elems k_conds view_plain)"

definition LoadBalancerStatusV1_foot where
  "LoadBalancerStatusV1_foot = foot_struct refs_LoadBalancerStatusV1
     (foot_elems k_conds foot_plain)"

lemma copier_LoadBalancerStatusV1 [copier_intros]:
  "copier LoadBalancerStatusV1_DeepCopyInto LoadBalancerStatusV1_view LoadBalancerStatusV1_foot"
  unfolding LoadBalancerStatusV1_DeepCopyInto_def LoadBalancerStatusV1_view_def LoadBalancerStatusV1_foot_def
  by (intro copier_intros)

definition refs_LoadBalancerV1 where
  "refs_LoadBalancerV1 x = (hlb1_Meta x, hlb1_Spec x, hlb1_Status x)"

definition with_LoadBalancerV1 where
  "with_LoadBalancerV1 r x = (case r of (a, b, c) \<Rightarrow> x\<lparr>hlb1_Meta := a, hlb1_Spec := b,
       hlb1_Status := c\<rparr>)"

lemma lens_LoadBalancerV1 [copier_intros]: "lens_ok refs_LoadBalancerV1 with_LoadBalancerV1"
  by (auto simp: lens_ok_def refs_LoadBalancerV1_def with_LoadBalancerV1_def)

definition LoadBalancerV1_DeepCopyInto ::
  "HLoadBalancerV1 \<Rightarrow> cell heap \<Rightarrow> (HLoadBalancerV1 \<times> cell heap) option" where
  "LoadBalancerV1_DeepCopyInto = copy_struct refs_LoadBalancerV1 with_LoadBalancerV1
     (copy_pair ObjectMeta_DeepCopyInto
       (copy_pair LoadBalancerSpecV1_DeepCopyInto LoadBalancerStatusV1_DeepCopyInto))"

definition LoadBalancerV1_view where
  "LoadBalancerV1_view = view_struct refs_LoadBalancerV1 with_LoadBalancerV1 zero_lb1
     (view_pair ObjectMeta_view (view_pair LoadBalancerSpecV1_view LoadBalancerStatusV1_view))"

definition LoadBalancerV1_foot where
  "LoadBalancerV1_foot = foot_struct refs_LoadBalancerV1
     (foot_pair ObjectMeta_foot (foot_pair LoadBalancerSpecV1_foot LoadBalancerStatusV1_foot))"

lemma copier_LoadBalancerV1 [copier_intros]:
  "copier LoadBalancerV1_DeepCopyInto LoadBalancerV1_view LoadBalancerV1_foot"
  unfolding LoadBalancerV1_DeepCopyInto_def LoadBalancerV1_view_def LoadBalancerV1_foot_def by (intro copier_intros)

definition refs_LoadBalancerListV1 where
  "refs_LoadBalancerListV1 x = (hlbl1_ListMeta x, hlbl1_Items x)"

definition with_LoadBalancerListV1 where
  "with_LoadBalancerListV1 r x = (case r of (a, b) \<Rightarrow> x\<lparr>hlbl1_ListMeta := a,
       hlbl1_Items := b\<rparr>)"

lemma lens_LoadBalancerListV1 [copier_intros]: "lens_ok refs_LoadBalancerListV1 with_LoadBalancerListV1"
  by (auto simp: lens_ok_def refs_LoadBalancerListV1_def with_LoadBalancerListV1_def)

definition LoadBalancerListV1_DeepCopyInto ::
  "HLoadBalancerListV1 \<Rightarrow> cell heap \<Rightarrow> (HLoadBalancerListV1 \<times> cell heap) option" where
  "LoadBalancerListV1_DeepCopyInto = copy_struct refs_LoadBalancerListV1 with_LoadBalancerListV1
     (copy_pair ListMeta_DeepCopyInto (copy_elems k_lbs1 zero_lb1 LoadBalancerV1_DeepCopyInto))"

definition LoadBalancerListV1_view where
  "LoadBalancerListV1_view = view_struct refs_LoadBalancerListV1 with_LoadBalancerListV1 zero_lblist1
     (view_pair ListMeta_view (view_elems k_lbs1 LoadBalancerV1_view))"

definition LoadBalancerListV1_foot where
  "LoadBalancerListV1_foot = foot_struct refs_LoadBalancerListV1
     (foot_pair ListMeta_foot (foot_elems k_lbs1 LoadBalancerV1_foot))"

lemma copier_LoadBalancerListV1 [copier_intros]:
  "copier LoadBalancerListV1_DeepCopyInto LoadBalancerListV1_view LoadBalancerListV1_foot"
  unfolding LoadBalancerListV1_DeepCopyInto_def LoadBalancerListV1_view_def LoadBalancerListV1_foot_def
  by (intro copier_intros)

section \<open>Copies behind pointers\<close>

definition Tuple_DeepCopy ::
  "addr option \<Rightarrow> cell heap \<Rightarrow> (addr option \<times> cell heap) option" where
  "Tuple_DeepCopy = copy_ptr k_tuple zero_tuple Tuple_DeepCopyInto"

definition Range_DeepCopy ::
  "addr option \<Rightarrow> cell heap \<Rightarrow> (addr option \<times> cell heap) option" where
  "Range_DeepCopy = copy_ptr k_range zero_range Range_DeepCopyInto"

definition Condition_DeepCopy ::
  "addr option \<Rightarrow> cell heap \<Rightarrow> (addr option \<times> cell heap) option" where
  "Condition_DeepCopy = copy_ptr k_cond zero_cond Condition_DeepCopyInto"

definition Selector_DeepCopy ::
  "addr option \<Rightarrow> cell heap \<Rightarrow> (addr option \<times> cell heap) option" where
  "Selector_DeepCopy = copy_ptr k_selector zero_selector Selector_DeepCopyInto"

definition IPPoolSpec_DeepCopy ::
  "addr option \<Rightarrow> cell heap \<Rightarrow> (addr option \<times> cell heap) option" where
  "IPPoolSpec_DeepCopy = copy_ptr k_poolspec zero_poolspec IPPoolSpec_DeepCopyInto"

definition IPPoolStatus_DeepCopy ::
  "addr option \<Rightarrow> cell heap \<Rightarrow> (addr option \<times> cell heap) option" where
  "IPPoolStatus_DeepCopy = copy_ptr k_poolstatus zero_poolstatus IPPoolStatus_DeepCopyInto"

definition IPPool_DeepCopy ::
  "addr option \<Rightarrow> cell heap \<Rightarrow> (addr option \<times> cell heap) option" where
  "IPPool_DeepCopy = copy_ptr k_pool zero_pool IPPool_DeepCopyInto"

definition IPPoolList_DeepCopy ::
  "addr option \<Rightarrow> cell heap \<Rightarrow> (addr option \<times> cell heap) option" where
  "IPPoolList_DeepCopy = copy_ptr k_poollist zero_poollist IPPoolList_DeepCopyInto"

definition AllocatedAddress_DeepCopy ::
  "addr option \<Rightarrow> cell heap \<Rightarrow> (addr option \<times> cell heap) option" where
  "AllocatedAddress_DeepCopy = copy_ptr k_address empty_address AllocatedAddress_DeepCopyInto"

definition HealthCheck_DeepCopy ::
  "addr option \<Rightarrow> cell heap \<Rightarrow> (addr option \<times> cell heap) option" where
  "HealthCheck_DeepCopy = copy_ptr k_health zero_health HealthCheck_DeepCopyInto"

definition Listener_DeepCopy ::
  "addr option \<Rightarrow> cell heap \<Rightarrow> (addr option \<times> cell heap) option" where
  "Listener_DeepCopy = copy_ptr k_listener zero_listener Listener_DeepCopyInto"

definition LoadBalancerSpec_DeepCopy ::
  "addr option \<Rightarrow> cell heap \<Rightarrow> (addr option \<times> cell heap) option" where
  "LoadBalancerSpec_DeepCopy = copy_ptr k_lbspec zero_lbspec LoadBalancerSpec_DeepCopyInto"

definition LoadBalancerStatus_DeepCopy ::
  "addr option \<Rightarrow> cell heap \<Rightarrow> (addr option \<times> cell heap) option" where
  "LoadBalancerStatus_DeepCopy = copy_ptr k_lbstatus zero_lbstatus LoadBalancerStatus_DeepCopyInto"

definition LoadBalancer_DeepCopy ::
  "addr option \<Rightarrow> cell heap \<Rightarrow> (addr option \<times> cell heap) option" where
  "LoadBalancer_DeepCopy = copy_ptr k_lb zero_lb LoadBalancer_DeepCopyInto"

definition LoadBalancerList_DeepCopy ::
  "addr option \<Rightarrow> cell heap \<Rightarrow> (addr option \<times> cell heap) option" where
  "LoadBalancerList_DeepCopy = copy_ptr k_lblist zero_lblist LoadBalancerList_DeepCopyInto"

definition HeathCheckV1_DeepCopy ::
  "addr option \<Rightarrow> cell heap \<Rightarrow> (addr option \<times> cell heap) option" where
  "HeathCheckV1_DeepCopy = copy_ptr k_health1 zero_health1 HeathCheckV1_DeepCopyInto"

definition ListenerV1_DeepCopy ::
  "addr option \<Rightarrow> cell heap \<Rightarrow> (addr option \<times> cell heap) option" where
  "ListenerV1_DeepCopy = copy_ptr k_listener1 zero_listener1 ListenerV1_DeepCopyInto"

definition ConditionV1_DeepCopy ::
  "addr option \<Rightarrow> cell heap \<Rightarrow> (addr option \<times> cell heap) option" where
  "ConditionV1_DeepCopy = copy_ptr k_cond zero_cond ConditionV1_DeepCopyInto"

definition LoadBalancerSpecV1_DeepCopy ::
  "addr option \<Rightarrow> cell heap \<Rightarrow> (addr option \<times> cell heap) option" where
  "LoadBalancerSpecV1_DeepCopy = copy_ptr k_lbspec1 zero_lbspec1 LoadBalancerSpecV1_DeepCopyInto"

definition LoadBalancerStatusV1_DeepCopy ::
  "addr option \<Rightarrow> cell heap \<Rightarrow> (addr option \<times> cell heap) option" where
  "LoadBalancerStatusV1_DeepCopy = copy_ptr k_lbstatus1 zero_lbstatus1 LoadBalancerStatusV1_DeepCopyInto"

definition LoadBalancerV1_DeepCopy ::
  "addr option \<Rightarrow> cell heap \<Rightarrow> (addr option \<times> cell heap) option" where
  "LoadBalancerV1_DeepCopy = copy_ptr k_lb1 zero_lb1 LoadBalancerV1_DeepCopyInto"

definition LoadBalancerListV1_DeepCopy ::
  "addr option \<Rightarrow> cell heap \<Rightarrow> (addr option \<times> cell heap) option" where
  "LoadBalancerListV1_DeepCopy = copy_ptr k_lblist1 zero_lblist1 LoadBalancerListV1_DeepCopyInto"

text \<open>\<^verbatim>\<open>DeepCopyObject\<close> gives a \<^verbatim>\<open>runtime.Object\<close>: the type and the pointer, and the nil interface for a nil pointer.\<close>

datatype RuntimeObject = PoolObject addr | PoolListObject addr | LBObject addr | LBListObject addr | LB1Object addr | LB1ListObject addr

definition IPPool_DeepCopyObject ::
  "addr option \<Rightarrow> cell heap \<Rightarrow> (RuntimeObject option \<times> cell heap) option" where
  "IPPool_DeepCopyObject p h = map_option (\<lambda>(c,
       h'). (case c of None \<Rightarrow> None | Some a \<Rightarrow> Some (PoolObject a),
       h')) (IPPool_DeepCopy p h)"

definition IPPoolList_DeepCopyObject ::
  "addr option \<Rightarrow> cell heap \<Rightarrow> (RuntimeObject option \<times> cell heap) option" where
  "IPPoolList_DeepCopyObject p h = map_option (\<lambda>(c,
       h'). (case c of None \<Rightarrow> None | Some a \<Rightarrow> Some (PoolListObject a),
       h')) (IPPoolList_DeepCopy p h)"

definition LoadBalancer_DeepCopyObject ::
  "addr option \<Rightarrow> cell heap \<Rightarrow> (RuntimeObject option \<times> cell heap) option" where
  "LoadBalancer_DeepCopyObject p h = map_option (\<lambda>(c,
       h'). (case c of None \<Rightarrow> None | Some a \<Rightarrow> Some (LBObject a),
       h')) (LoadBalancer_DeepCopy p h)"

definition LoadBalancerList_DeepCopyObject ::
  "addr option \<Rightarrow> cell heap \<Rightarrow> (RuntimeObject option \<times> cell heap) option" where
  "LoadBalancerList_DeepCopyObject p h = map_option (\<lambda>(c,
       h'). (case c of None \<Rightarrow> None | Some a \<Rightarrow> Some (LBListObject a),
       h')) (LoadBalancerList_DeepCopy p h)"

definition LoadBalancerV1_DeepCopyObject ::
  "addr option \<Rightarrow> cell heap \<Rightarrow> (RuntimeObject option \<times> cell heap) option" where
  "LoadBalancerV1_DeepCopyObject p h = map_option (\<lambda>(c,
       h'). (case c of None \<Rightarrow> None | Some a \<Rightarrow> Some (LB1Object a),
       h')) (LoadBalancerV1_DeepCopy p h)"

definition LoadBalancerListV1_DeepCopyObject ::
  "addr option \<Rightarrow> cell heap \<Rightarrow> (RuntimeObject option \<times> cell heap) option" where
  "LoadBalancerListV1_DeepCopyObject p h = map_option (\<lambda>(c,
       h'). (case c of None \<Rightarrow> None | Some a \<Rightarrow> Some (LB1ListObject a),
       h')) (LoadBalancerListV1_DeepCopy p h)"

interpretation pool_dc: copier IPPool_DeepCopy "view_ptr k_pool IPPool_view" "foot_ptr k_pool IPPool_foot"
  unfolding IPPool_DeepCopy_def by (intro copier_intros)

interpretation pools_dc: copier IPPoolList_DeepCopy "view_ptr k_poollist IPPoolList_view" "foot_ptr k_poollist IPPoolList_foot"
  unfolding IPPoolList_DeepCopy_def by (intro copier_intros)

interpretation lb_dc: copier LoadBalancer_DeepCopy "view_ptr k_lb LoadBalancer_view" "foot_ptr k_lb LoadBalancer_foot"
  unfolding LoadBalancer_DeepCopy_def by (intro copier_intros)

interpretation lbs_dc: copier LoadBalancerList_DeepCopy "view_ptr k_lblist LoadBalancerList_view" "foot_ptr k_lblist LoadBalancerList_foot"
  unfolding LoadBalancerList_DeepCopy_def by (intro copier_intros)

interpretation lb1_dc: copier LoadBalancerV1_DeepCopy "view_ptr k_lb1 LoadBalancerV1_view" "foot_ptr k_lb1 LoadBalancerV1_foot"
  unfolding LoadBalancerV1_DeepCopy_def by (intro copier_intros)

interpretation lbs1_dc: copier LoadBalancerListV1_DeepCopy "view_ptr k_lblist1 LoadBalancerListV1_view" "foot_ptr k_lblist1 LoadBalancerListV1_foot"
  unfolding LoadBalancerListV1_DeepCopy_def by (intro copier_intros)

end
