(* ===== verification/DeepCopyUse.thy ===== *)
theory DeepCopyUse
  imports DeepCopy
begin

text \<open>
  What the copies are for. A handler takes an object from the cache of an informer, which is shared
  and must not be written, and changes a deep copy of it; the components model the change as an update of the
  record. Here the changes of \<^verbatim>\<open>pkg/ipam/store/store.go\<close> run on the heap, write by write, and
  are shown to be the record updates of \<open>Store\<close>, while the cached object stays as it was.
\<close>

section \<open>Objects read from the heap\<close>

definition elems :: "'a list option \<Rightarrow> 'a list" where
  "elems xs = (case xs of None \<Rightarrow> [] | Some ys \<Rightarrow> ys)"

definition owner_of_view where
  "owner_of_view v = (case v of (r, controller, blocking) \<Rightarrow> \<lparr>own_APIVersion = ow_APIVersion r, own_Kind = ow_Kind r, own_Name = ow_Name r, own_UID = ow_UID r\<rparr>)"

definition meta_of_view where
  "meta_of_view v = (case v of (m, del, grace, labels, annotations, owners, finalizers, managed) \<Rightarrow>
     \<lparr>md_Name = hm_Name m, md_Namespace = hm_Namespace m, md_UID = hm_UID m, md_ResourceVersion = hm_ResourceVersion m,
      md_DeletionTimestamp = del, md_Labels = labels, md_Annotations = annotations,
      md_OwnerReferences = map owner_of_view (elems owners)\<rparr>)"

definition selector_of_view where
  "selector_of_view v = (case v of (s, scope) \<Rightarrow>
     \<lparr>sel_Priority = hsel_Priority s, sel_Network = hsel_Network s, sel_Scope = elems scope\<rparr>)"

definition spec_of_view where
  "spec_of_view v = (case v of (s, ranges, selector) \<Rightarrow>
     \<lparr>ps_Description = hps_Description s, ps_Ranges = elems ranges, ps_Selector = selector_of_view selector\<rparr>)"

definition status_of_view where
  "status_of_view v = (case v of (s, allocated, allocatedHistory, conditions) \<Rightarrow>
     \<lparr>st_Total = hst_Total s, st_Available = hst_Available s, st_LastAllocated = hst_LastAllocated s,
      st_Allocated = allocated, st_AllocatedHistory = allocatedHistory, st_Conditions = elems conditions\<rparr>)"

definition pool_of_view where
  "pool_of_view v = (case v of (p, meta, spec, status) \<Rightarrow>
     \<lparr>pool_Meta = meta_of_view meta, pool_Spec = spec_of_view spec, pool_Status = status_of_view status\<rparr>)"

text \<open>The record a pointer to a pool stands for in the model.\<close>

definition read_pool :: "cell heap \<Rightarrow> addr option \<Rightarrow> IPPool option" where
  "read_pool h p = Option.bind (view_ptr k_pool IPPool_view h p) (map_option pool_of_view)"

section \<open>The changes of the store\<close>

definition h_mod :: "('c, 'a) kind \<Rightarrow> addr \<Rightarrow> ('a \<Rightarrow> 'a) \<Rightarrow> 'c heap \<Rightarrow> 'c heap option" where
  "h_mod k a f h = do { x \<leftarrow> h_read k h a; Some (h_set a (k_con k (f x)) h) }"

abbreviation on_status :: "(HIPPoolStatus \<Rightarrow> HIPPoolStatus) \<Rightarrow> HIPPool \<Rightarrow> HIPPool" where
  "on_status f p \<equiv> p\<lparr>hpool_Status := f (hpool_Status p)\<rparr>"

text \<open>\<^verbatim>\<open>delete(m, k)\<close> and \<^verbatim>\<open>m[k] = v\<close>; the first does nothing on a nil map, the second panics.\<close>

definition map_delete :: "string \<Rightarrow> addr option \<Rightarrow> cell heap \<Rightarrow> cell heap option" where
  "map_delete key m h = (case m of None \<Rightarrow> Some h | Some a \<Rightarrow> h_mod k_strmap a (m_del key) h)"

definition map_assign :: "string \<Rightarrow> string \<Rightarrow> addr option \<Rightarrow> cell heap \<Rightarrow> cell heap option" where
  "map_assign key v m h = (case m of None \<Rightarrow> None | Some a \<Rightarrow> h_mod k_strmap a (m_set key v) h)"

definition field_of_pool :: "(HIPPoolStatus \<Rightarrow> 'x) \<Rightarrow> addr \<Rightarrow> cell heap \<Rightarrow> 'x option" where
  "field_of_pool f a h = map_option (\<lambda>p. f (hpool_Status p)) (h_read k_pool h a)"

text \<open>
  What \<^verbatim>\<open>Reserve\<close> does to the copy when the address is not allocated, and \<^verbatim>\<open>ReleaseByID\<close> for the entry
  at which its loop over the allocations stops (\<open>find_applicant\<close> of \<open>Store\<close>); whether the history is nil is asked of the
  cached pool there, not of the copy.
\<close>

definition reserve_copy :: "string \<Rightarrow> string \<Rightarrow> addr option \<Rightarrow> cell heap \<Rightarrow> (addr \<times> cell heap) option" where
  "reserve_copy ipStr applicantID ipPool h = do {
     (ipPoolCopy, h) \<leftarrow> IPPool_DeepCopy ipPool h;
     a \<leftarrow> ipPoolCopy;
     hist \<leftarrow> field_of_pool hst_AllocatedHistory a h;
     h \<leftarrow> (if hist \<noteq> None then map_delete ipStr hist h else Some h);
     allocd \<leftarrow> field_of_pool hst_Allocated a h;
     h \<leftarrow> (if allocd = None then (case h_new (CStrMap []) h of (b, h) \<Rightarrow> h_mod k_pool a (on_status (\<lambda>s. s\<lparr>hst_Allocated := Some b\<rparr>)) h)
          else Some h);
     allocd \<leftarrow> field_of_pool hst_Allocated a h;
     h \<leftarrow> map_assign ipStr applicantID allocd h;
     h \<leftarrow> h_mod k_pool a (on_status (\<lambda>s. s\<lparr>hst_LastAllocated := ipStr\<rparr>)) h;
     h \<leftarrow> h_mod k_pool a (on_status (\<lambda>s. s\<lparr>hst_Available := hst_Available s - 1\<rparr>)) h;
     Some (a, h) }"

text \<open>The body of the loop of \<^verbatim>\<open>ReleaseByID\<close>, for the address found in the cached object.\<close>

definition release_copy :: "string \<Rightarrow> string \<Rightarrow> addr option \<Rightarrow> cell heap \<Rightarrow> (addr \<times> cell heap) option" where
  "release_copy ipStr applicant ipPool h = do {
     (ipPoolCopy, h) \<leftarrow> IPPool_DeepCopy ipPool h;
     a \<leftarrow> ipPoolCopy;
     orig \<leftarrow> ipPool;
     hist \<leftarrow> field_of_pool hst_AllocatedHistory orig h;
     h \<leftarrow> (if hist = None then (case h_new (CStrMap []) h of (b, h) \<Rightarrow> h_mod k_pool a (on_status (\<lambda>s. s\<lparr>hst_AllocatedHistory := Some b\<rparr>)) h)
          else Some h);
     hist \<leftarrow> field_of_pool hst_AllocatedHistory a h;
     h \<leftarrow> map_assign ipStr applicant hist h;
     allocd \<leftarrow> field_of_pool hst_Allocated a h;
     h \<leftarrow> map_delete ipStr allocd h;
     h \<leftarrow> h_mod k_pool a (on_status (\<lambda>s. s\<lparr>hst_Available := hst_Available s + 1\<rparr>)) h;
     Some (a, h) }"

section \<open>A pool of one's own\<close>

text \<open>
  A pool at \<open>a\<close> all of whose cells are newer than the heap \<open>g\<close>, whose two maps are separate cells and separate from
  the rest, and what its parts read as.
\<close>

definition rest_foot :: "cell heap \<Rightarrow> HIPPool \<Rightarrow> addr set" where
  "rest_foot h p = ObjectMeta_foot h (hpool_Meta p) \<union> IPPoolSpec_foot h (hpool_Spec p) \<union>
     foot_elems k_conds foot_plain h (hst_Conditions (hpool_Status p))"

definition rest_view where
  "rest_view h p = do { m \<leftarrow> ObjectMeta_view h (hpool_Meta p); s \<leftarrow> IPPoolSpec_view h (hpool_Spec p);
     c \<leftarrow> view_elems k_conds view_plain h (hst_Conditions (hpool_Status p)); Some (m, s, c) }"

definition own_pool where
  "own_pool g h a p r al hi \<longleftrightarrow>
     heap_ok h \<and> extends g h \<and> hp_next g \<le> a \<and> a < hp_next h \<and> h_read k_pool h a = Some p \<and> rest_view h p = Some r \<and>
     view_map k_strmap view_plain h (hst_Allocated (hpool_Status p)) = Some al \<and>
     view_map k_strmap view_plain h (hst_AllocatedHistory (hpool_Status p)) = Some hi \<and>
     (let A = set_option (hst_Allocated (hpool_Status p)); H = set_option (hst_AllocatedHistory (hpool_Status p)) in
      a \<notin> A \<union> H \<union> rest_foot h p \<and> A \<inter> H = {} \<and> (A \<union> H) \<inter> rest_foot h p = {} \<and> A \<union> H \<subseteq> {hp_next g ..< hp_next h})"

text \<open>The part of a pool that the store does not change, as a copier of its own.\<close>

lemma rest_outside:
  assumes "rest_view h p = Some r" and "x \<notin> rest_foot h p"
  shows "rest_view (h_set x c h) p = Some r" and "rest_foot (h_set x c h) p = rest_foot h p"
proof -
  obtain m s co where r: "ObjectMeta_view h (hpool_Meta p) = Some m" "IPPoolSpec_view h (hpool_Spec p) = Some s"
    "view_elems k_conds view_plain h (hst_Conditions (hpool_Status p)) = Some co" "r = (m, s, co)"
    using assms(1) by (auto simp: rest_view_def bind_eq_Some_conv)
  have x: "x \<notin> ObjectMeta_foot h (hpool_Meta p)" "x \<notin> IPPoolSpec_foot h (hpool_Spec p)"
    "x \<notin> foot_elems k_conds foot_plain h (hst_Conditions (hpool_Status p))"
    using assms(2) by (auto simp: rest_foot_def)
  note m = copier.view_outside [OF copier_ObjectMeta r(1) x(1), of c]
    and s = copier.view_outside [OF copier_IPPoolSpec r(2) x(2), of c]
    and co = copier.view_outside [OF copier_slice [OF kinds_ok(21)] r(3) x(3), of c]
  show "rest_view (h_set x c h) p = Some r" using m(1) s(1) co(1) r(4) by (simp add: rest_view_def)
  show "rest_foot (h_set x c h) p = rest_foot h p" using m(2) s(2) co(2) by (simp add: rest_foot_def)
qed

lemma strmap_outside:
  assumes "view_map k_strmap view_plain h q = Some w" and "x \<notin> set_option q"
  shows "view_map k_strmap view_plain (h_set x c h) q = Some w"
  using assms by (cases q) (auto simp: view_map_plain map_entries_def h_read_def)

lemma strmap_inside:
  assumes "m_wf es"
  shows "view_map k_strmap view_plain (h_set x (CStrMap es) h) (Some x) = Some (Some es)"
  using assms by (simp add: view_map_plain map_entries_def h_read_def k_strmap_def)

lemma read_pool_other: "x \<noteq> a \<Longrightarrow> h_read k (h_set x c h) a = h_read k h a"
  by (simp add: h_read_def)

text \<open>Writes into such a pool: into one of its maps, into the struct, and a new map.\<close>

lemma own_write_allocated:
  assumes "own_pool g h a p r al hi" and "hst_Allocated (hpool_Status p) = Some x" and "m_wf es"
  shows "own_pool g (h_set x (CStrMap es) h) a p r (Some es) hi"
proof -
  have x: "x \<noteq> a" "x \<notin> rest_foot h p" "x < hp_next h" "hp_next g \<le> x" "x \<notin> set_option (hst_AllocatedHistory (hpool_Status p))"
    using assms(1,2) by (auto simp: own_pool_def Let_def)
  have o: "heap_ok h" "extends g h" "rest_view h p = Some r"
    "view_map k_strmap view_plain h (hst_AllocatedHistory (hpool_Status p)) = Some hi"
    using assms(1) by (auto simp: own_pool_def)
  from heap_ok_set [OF o(1) x(3)] extends_set [OF o(2) x(4)] rest_outside [OF o(3) x(2)] strmap_outside [OF o(4) x(5)]
    strmap_inside [OF assms(3)] read_pool_other [OF x(1), of k_pool] show ?thesis
    using assms(1,2) by (simp add: own_pool_def Let_def)
qed

lemma own_write_history:
  assumes "own_pool g h a p r al hi" and "hst_AllocatedHistory (hpool_Status p) = Some x" and "m_wf es"
  shows "own_pool g (h_set x (CStrMap es) h) a p r al (Some es)"
proof -
  have x: "x \<noteq> a" "x \<notin> rest_foot h p" "x < hp_next h" "hp_next g \<le> x" "x \<notin> set_option (hst_Allocated (hpool_Status p))"
    using assms(1,2) by (auto simp: own_pool_def Let_def)
  have o: "heap_ok h" "extends g h" "rest_view h p = Some r"
    "view_map k_strmap view_plain h (hst_Allocated (hpool_Status p)) = Some al"
    using assms(1) by (auto simp: own_pool_def)
  from heap_ok_set [OF o(1) x(3)] extends_set [OF o(2) x(4)] rest_outside [OF o(3) x(2)] strmap_outside [OF o(4) x(5)]
    strmap_inside [OF assms(3)] read_pool_other [OF x(1), of k_pool] show ?thesis
    using assms(1,2) by (simp add: own_pool_def Let_def)
qed

definition same_refs :: "HIPPool \<Rightarrow> HIPPool \<Rightarrow> bool" where
  "same_refs p p' \<longleftrightarrow> hpool_Meta p' = hpool_Meta p \<and> hpool_Spec p' = hpool_Spec p \<and>
     hst_Conditions (hpool_Status p') = hst_Conditions (hpool_Status p)"

lemma same_refs_rest: "same_refs p p' \<Longrightarrow> rest_view h p' = rest_view h p \<and> rest_foot h p' = rest_foot h p"
  by (simp add: same_refs_def rest_view_def rest_foot_def)

lemma own_set_refs:
  assumes "own_pool g h a p r al hi" and "same_refs p p'"
    and "view_map k_strmap view_plain h (hst_Allocated (hpool_Status p')) = Some al'"
    and "view_map k_strmap view_plain h (hst_AllocatedHistory (hpool_Status p')) = Some hi'"
    and "let A = set_option (hst_Allocated (hpool_Status p')); H = set_option (hst_AllocatedHistory (hpool_Status p')) in
      a \<notin> A \<union> H \<union> rest_foot h p \<and> A \<inter> H = {} \<and> (A \<union> H) \<inter> rest_foot h p = {} \<and> A \<union> H \<subseteq> {hp_next g ..< hp_next h}"
  shows "own_pool g (h_set a (CPool p') h) a p' r al' hi'"
proof -
  have x: "a \<notin> rest_foot h p" "a < hp_next h" "hp_next g \<le> a" "a \<notin> set_option (hst_Allocated (hpool_Status p'))"
    "a \<notin> set_option (hst_AllocatedHistory (hpool_Status p'))"
    using assms(1,5) by (auto simp: own_pool_def Let_def)
  have o: "heap_ok h" "extends g h" "rest_view h p = Some r" using assms(1) by (auto simp: own_pool_def)
  have "h_read k_pool (h_set a (CPool p') h) a = Some p'" by (simp add: h_read_def k_pool_def)
  with heap_ok_set [OF o(1) x(2)] extends_set [OF o(2) x(3)] rest_outside [OF o(3) x(1)] strmap_outside [OF assms(3) x(4)]
    strmap_outside [OF assms(4) x(5)] same_refs_rest [OF assms(2)] show ?thesis
    using assms(5) x(2,3) by (simp add: own_pool_def Let_def)
qed

lemma own_write_struct:
  assumes "own_pool g h a p r al hi" and "same_refs p p'" and "hst_Allocated (hpool_Status p') = hst_Allocated (hpool_Status p)"
    and "hst_AllocatedHistory (hpool_Status p') = hst_AllocatedHistory (hpool_Status p)"
  shows "own_pool g (h_set a (CPool p') h) a p' r al hi"
  by (rule own_set_refs [OF assms(1,2)]) (use assms(1) in \<open>simp_all add: assms(3,4) own_pool_def\<close>)

lemma rest_extends:
  assumes "heap_ok h" and "rest_view h p = Some r" and "extends h h'"
  shows "rest_view h' p = Some r" and "rest_foot h' p = rest_foot h p" and "x \<in> rest_foot h p \<Longrightarrow> x < hp_next h"
proof -
  obtain m s co where r: "ObjectMeta_view h (hpool_Meta p) = Some m" "IPPoolSpec_view h (hpool_Spec p) = Some s"
    "view_elems k_conds view_plain h (hst_Conditions (hpool_Status p)) = Some co" "r = (m, s, co)"
    using assms(2) by (auto simp: rest_view_def bind_eq_Some_conv)
  note m = copier.view_extends [OF copier_ObjectMeta assms(1) r(1) assms(3)] copier.foot_old [OF copier_ObjectMeta assms(1) r(1)]
    and s = copier.view_extends [OF copier_IPPoolSpec assms(1) r(2) assms(3)] copier.foot_old [OF copier_IPPoolSpec assms(1) r(2)]
    and co = copier.view_extends [OF copier_slice [OF kinds_ok(21)] assms(1) r(3) assms(3)]
      copier.foot_old [OF copier_slice [OF kinds_ok(21)] assms(1) r(3)]
  show "rest_view h' p = Some r" using m(1) s(1) co(1) r(4) by (simp add: rest_view_def)
  show "rest_foot h' p = rest_foot h p" using m(2) s(2) co(2) by (simp add: rest_foot_def)
  show "x < hp_next h" if "x \<in> rest_foot h p" using that m(3) s(3) co(3) by (auto simp: rest_foot_def)
qed

lemma own_new:
  assumes "own_pool g h a p r al hi" and "h_new c h = (b, h')"
  shows "own_pool g h' a p r al hi" and "b \<notin> insert a (rest_foot h' p)" and "hp_next g \<le> b" and "b < hp_next h'"
    and "b \<notin> set_option (hst_Allocated (hpool_Status p)) \<union> set_option (hst_AllocatedHistory (hpool_Status p))"
proof -
  have o: "heap_ok h" "extends g h" "rest_view h p = Some r" "a < hp_next h" "h_read k_pool h a = Some p"
    "view_map k_strmap view_plain h (hst_Allocated (hpool_Status p)) = Some al"
    "view_map k_strmap view_plain h (hst_AllocatedHistory (hpool_Status p)) = Some hi"
    "set_option (hst_Allocated (hpool_Status p)) \<union> set_option (hst_AllocatedHistory (hpool_Status p)) \<subseteq> {hp_next g ..< hp_next h}"
    using assms(1) by (auto simp: own_pool_def Let_def)
  note n = h_new_simps(1,2) [OF assms(2)] and e = extends_new [OF assms(2)]
  note ok = heap_ok_new [OF o(1) assms(2)] and rest = rest_extends [OF o(1,3) e]
  note maps = copier.view_extends(1) [OF copier_map [OF kinds_ok(6) copier_plain] o(1) o(6) e]
    copier.view_extends(1) [OF copier_map [OF kinds_ok(6) copier_plain] o(1) o(7) e]
  show "own_pool g h' a p r al hi"
    using assms(1) ok extends_trans [OF o(2) e] rest(1,2) maps h_read_extends [OF o(1,5) e] n
    by (fastforce simp: own_pool_def Let_def)
  show "b \<notin> insert a (rest_foot h' p)" using rest(2,3) n o(4) by auto
  show "hp_next g \<le> b" "b < hp_next h'" using n o(2) by (simp_all add: extends_def)
  show "b \<notin> set_option (hst_Allocated (hpool_Status p)) \<union> set_option (hst_AllocatedHistory (hpool_Status p))"
    using o(8) n by auto
qed

lemma new_strmap: "h_new (CStrMap []) h = (b, h') \<Longrightarrow> view_map k_strmap view_plain h' (Some b) = Some (Some [])"
  by (simp add: view_map_plain map_entries_def h_read_def h_new_simps(3) k_strmap_def)

lemma own_make_allocated:
  assumes "own_pool g h a p r al hi" and "h_new (CStrMap []) h = (b, h')"
  shows "own_pool g (h_set a (CPool (on_status (\<lambda>s. s\<lparr>hst_Allocated := Some b\<rparr>) p)) h') a
    (on_status (\<lambda>s. s\<lparr>hst_Allocated := Some b\<rparr>) p) r (Some []) hi"
  by (rule own_set_refs [OF own_new(1) [OF assms]])
    (use own_new [OF assms] new_strmap [OF assms(2)] in \<open>auto simp: same_refs_def own_pool_def Let_def\<close>)

lemma own_make_history:
  assumes "own_pool g h a p r al hi" and "h_new (CStrMap []) h = (b, h')"
  shows "own_pool g (h_set a (CPool (on_status (\<lambda>s. s\<lparr>hst_AllocatedHistory := Some b\<rparr>) p)) h') a
    (on_status (\<lambda>s. s\<lparr>hst_AllocatedHistory := Some b\<rparr>) p) r al (Some [])"
  by (rule own_set_refs [OF own_new(1) [OF assms]])
    (use own_new [OF assms] new_strmap [OF assms(2)] in \<open>auto simp: same_refs_def own_pool_def Let_def\<close>)

section \<open>The copy of a pool\<close>

definition own_record where
  "own_record p r al hi = (case r of (m, s, co) \<Rightarrow>
     \<lparr>pool_Meta = meta_of_view m, pool_Spec = spec_of_view s, pool_Status =
        \<lparr>st_Total = hst_Total (hpool_Status p), st_Available = hst_Available (hpool_Status p),
         st_LastAllocated = hst_LastAllocated (hpool_Status p), st_Allocated = al, st_AllocatedHistory = hi,
         st_Conditions = elems co\<rparr>\<rparr>)"

lemma IPPool_view_parts:
  "IPPool_view h p = Some v \<longleftrightarrow> (\<exists>m s al hi co. ObjectMeta_view h (hpool_Meta p) = Some m \<and>
     IPPoolSpec_view h (hpool_Spec p) = Some s \<and>
     view_map k_strmap view_plain h (hst_Allocated (hpool_Status p)) = Some al \<and>
     view_map k_strmap view_plain h (hst_AllocatedHistory (hpool_Status p)) = Some hi \<and>
     view_elems k_conds view_plain h (hst_Conditions (hpool_Status p)) = Some co \<and>
     v = (with_IPPool (refs_IPPool zero_pool) p, m, s, with_IPPoolStatus (refs_IPPoolStatus zero_poolstatus) (hpool_Status p), al, hi, co))"
  by (auto simp: IPPool_view_def IPPoolStatus_view_def view_struct_def view_pair_def bind_eq_Some_conv
      refs_IPPool_def refs_IPPoolStatus_def)

lemma own_read: "own_pool g h a p r al hi \<Longrightarrow> read_pool h (Some a) = Some (own_record p r al hi)"
  by (auto simp: own_pool_def rest_view_def bind_eq_Some_conv read_pool_def view_ptr_Some IPPool_view_parts own_record_def
      pool_of_view_def status_of_view_def with_IPPoolStatus_def refs_IPPoolStatus_def)

lemma read_pool_parts:
  assumes "read_pool h (Some a) = Some ipPool"
  obtains p m s al hi co where "h_read k_pool h a = Some p" and "ObjectMeta_view h (hpool_Meta p) = Some m"
    and "IPPoolSpec_view h (hpool_Spec p) = Some s"
    and "view_map k_strmap view_plain h (hst_Allocated (hpool_Status p)) = Some al"
    and "view_map k_strmap view_plain h (hst_AllocatedHistory (hpool_Status p)) = Some hi"
    and "view_elems k_conds view_plain h (hst_Conditions (hpool_Status p)) = Some co"
    and "ipPool = own_record p (m, s, co) al hi"
  using assms
  by (auto simp: read_pool_def view_ptr_Some bind_eq_Some_conv IPPool_view_parts own_record_def
      pool_of_view_def status_of_view_def with_IPPoolStatus_def refs_IPPoolStatus_def)

abbreviation copy_strmap :: "addr option \<Rightarrow> cell heap \<Rightarrow> (addr option \<times> cell heap) option" where
  "copy_strmap \<equiv> copy_map k_strmap copy_plain"

abbreviation copy_conds :: "slice option \<Rightarrow> cell heap \<Rightarrow> (slice option \<times> cell heap) option" where
  "copy_conds \<equiv> copy_slice k_conds zero_cond"

lemmas copier_strmap = copier_map [OF kinds_ok(6) copier_plain]
  and copier_conds = copier_slice [OF kinds_ok(21), of zero_cond]

text \<open>The copy of the status: the parts lie in three consecutive stretches of new cells.\<close>

lemma status_copyE:
  assumes h: "heap_ok h" and v: "view_map k_strmap view_plain h (hst_Allocated x) = Some al"
    "view_map k_strmap view_plain h (hst_AllocatedHistory x) = Some hi" "view_elems k_conds view_plain h (hst_Conditions x) = Some co"
  obtains y h' n1 n2 where "IPPoolStatus_DeepCopyInto x h = Some (y, h')" and "heap_ok h'" and "extends h h'"
    and "y = x\<lparr>hst_Allocated := hst_Allocated y, hst_AllocatedHistory := hst_AllocatedHistory y, hst_Conditions := hst_Conditions y\<rparr>"
    and "hp_next h \<le> n1" and "n1 \<le> n2" and "n2 \<le> hp_next h'"
    and "view_map k_strmap view_plain h' (hst_Allocated y) = Some al" and "set_option (hst_Allocated y) \<subseteq> {hp_next h ..< n1}"
    and "view_map k_strmap view_plain h' (hst_AllocatedHistory y) = Some hi" and "set_option (hst_AllocatedHistory y) \<subseteq> {n1 ..< n2}"
    and "view_elems k_conds view_plain h' (hst_Conditions y) = Some co"
    and "foot_elems k_conds foot_plain h' (hst_Conditions y) \<subseteq> {n2 ..< hp_next h'}"
proof -
  obtain q1 h1 where q1: "copy_strmap (hst_Allocated x) h = Some (q1, h1)" "heap_ok h1" "extends h h1"
    "view_map k_strmap view_plain h1 q1 = Some al" "foot_map k_strmap foot_plain h1 q1 \<subseteq> {hp_next h ..< hp_next h1}"
    using copier.copyE [OF copier_strmap h v(1)] .
  obtain q2 h2 where q2: "copy_strmap (hst_AllocatedHistory x) h1 = Some (q2, h2)" "heap_ok h2" "extends h1 h2"
    "view_map k_strmap view_plain h2 q2 = Some hi" "foot_map k_strmap foot_plain h2 q2 \<subseteq> {hp_next h1 ..< hp_next h2}"
    using copier.copyE [OF copier_strmap q1(2) copier.view_extends(1) [OF copier_strmap h v(2) q1(3)]] .
  note e2 = extends_trans [OF q1(3) q2(3)]
  obtain q3 h3 where q3: "copy_conds (hst_Conditions x) h2 = Some (q3, h3)" "heap_ok h3" "extends h2 h3"
    "view_elems k_conds view_plain h3 q3 = Some co" "foot_elems k_conds foot_plain h3 q3 \<subseteq> {hp_next h2 ..< hp_next h3}"
    using copier.copyE [OF copier_conds q2(2) copier.view_extends(1) [OF copier_conds h v(3) e2]] .
  let ?y = "x\<lparr>hst_Allocated := q1, hst_AllocatedHistory := q2, hst_Conditions := q3\<rparr>"
  have "IPPoolStatus_DeepCopyInto x h = Some (?y, h3)"
    using q1(1) q2(1) q3(1)
    by (simp add: IPPoolStatus_DeepCopyInto_def copy_struct_def copy_pair_def refs_IPPoolStatus_def with_IPPoolStatus_def)
  then show thesis
  proof (rule that)
    show "view_map k_strmap view_plain h3 (hst_Allocated ?y) = Some al"
      using copier.view_extends(1) [OF copier_strmap q1(2,4) extends_trans [OF q2(3) q3(3)]] by simp
    show "view_map k_strmap view_plain h3 (hst_AllocatedHistory ?y) = Some hi"
      using copier.view_extends(1) [OF copier_strmap q2(2,4) q3(3)] by simp
    show "set_option (hst_Allocated ?y) \<subseteq> {hp_next h ..< hp_next h1}" "set_option (hst_AllocatedHistory ?y) \<subseteq> {hp_next h1 ..< hp_next h2}"
      using q1(5) q2(5) by (simp_all add: foot_map_plain)
  qed (use q1(3) q2(3) q3 extends_trans [OF e2 q3(3)] in \<open>simp_all add: extends_def\<close>)
qed

lemma pool_copyE:
  assumes h: "heap_ok h" and v: "ObjectMeta_view h (hpool_Meta x) = Some m" "IPPoolSpec_view h (hpool_Spec x) = Some s"
    "view_map k_strmap view_plain h (hst_Allocated (hpool_Status x)) = Some al"
    "view_map k_strmap view_plain h (hst_AllocatedHistory (hpool_Status x)) = Some hi"
    "view_elems k_conds view_plain h (hst_Conditions (hpool_Status x)) = Some co"
  obtains y h' n0 n1 n2 where "IPPool_DeepCopyInto x h = Some (y, h')" and "heap_ok h'" and "extends h h'"
    and "hpool_Status y = (hpool_Status x)\<lparr>hst_Allocated := hst_Allocated (hpool_Status y),
      hst_AllocatedHistory := hst_AllocatedHistory (hpool_Status y), hst_Conditions := hst_Conditions (hpool_Status y)\<rparr>"
    and "hp_next h \<le> n0" and "n0 \<le> n1" and "n1 \<le> n2" and "n2 \<le> hp_next h'" and "rest_view h' y = Some (m, s, co)"
    and "rest_foot h' y \<subseteq> {hp_next h ..< n0} \<union> {n2 ..< hp_next h'}"
    and "view_map k_strmap view_plain h' (hst_Allocated (hpool_Status y)) = Some al"
    and "set_option (hst_Allocated (hpool_Status y)) \<subseteq> {n0 ..< n1}"
    and "view_map k_strmap view_plain h' (hst_AllocatedHistory (hpool_Status y)) = Some hi"
    and "set_option (hst_AllocatedHistory (hpool_Status y)) \<subseteq> {n1 ..< n2}"
proof -
  obtain y1 h1 where y1: "ObjectMeta_DeepCopyInto (hpool_Meta x) h = Some (y1, h1)" "heap_ok h1" "extends h h1"
    "ObjectMeta_view h1 y1 = Some m" "ObjectMeta_foot h1 y1 \<subseteq> {hp_next h ..< hp_next h1}"
    using copier.copyE [OF copier_ObjectMeta h v(1)] .
  obtain y2 h2 where y2: "IPPoolSpec_DeepCopyInto (hpool_Spec x) h1 = Some (y2, h2)" "heap_ok h2" "extends h1 h2"
    "IPPoolSpec_view h2 y2 = Some s" "IPPoolSpec_foot h2 y2 \<subseteq> {hp_next h1 ..< hp_next h2}"
    using copier.copyE [OF copier_IPPoolSpec y1(2) copier.view_extends(1) [OF copier_IPPoolSpec h v(2) y1(3)]] .
  note e2 = extends_trans [OF y1(3) y2(3)]
  obtain y3 h3 n1 n2 where y3: "IPPoolStatus_DeepCopyInto (hpool_Status x) h2 = Some (y3, h3)" "heap_ok h3" "extends h2 h3"
    and st: "y3 = (hpool_Status x)\<lparr>hst_Allocated := hst_Allocated y3, hst_AllocatedHistory := hst_AllocatedHistory y3,
      hst_Conditions := hst_Conditions y3\<rparr>"
    and le: "hp_next h2 \<le> n1" "n1 \<le> n2" "n2 \<le> hp_next h3"
    and al: "view_map k_strmap view_plain h3 (hst_Allocated y3) = Some al" "set_option (hst_Allocated y3) \<subseteq> {hp_next h2 ..< n1}"
    and hi: "view_map k_strmap view_plain h3 (hst_AllocatedHistory y3) = Some hi" "set_option (hst_AllocatedHistory y3) \<subseteq> {n1 ..< n2}"
    and co: "view_elems k_conds view_plain h3 (hst_Conditions y3) = Some co"
      "foot_elems k_conds foot_plain h3 (hst_Conditions y3) \<subseteq> {n2 ..< hp_next h3}"
    using status_copyE [OF y2(2) copier.view_extends(1) [OF copier_strmap h v(3) e2] copier.view_extends(1) [OF copier_strmap h v(4) e2]
        copier.view_extends(1) [OF copier_conds h v(5) e2]] .
  let ?y = "x\<lparr>hpool_Meta := y1, hpool_Spec := y2, hpool_Status := y3\<rparr>"
  note m' = copier.view_extends [OF copier_ObjectMeta y1(2,4) extends_trans [OF y2(3) y3(3)]]
    and s' = copier.view_extends [OF copier_IPPoolSpec y2(2,4) y3(3)]
  have "IPPool_DeepCopyInto x h = Some (?y, h3)"
    using y1(1) y2(1) y3(1) by (simp add: IPPool_DeepCopyInto_def copy_struct_def copy_pair_def refs_IPPool_def with_IPPool_def)
  then show thesis
  proof (rule that)
    show "rest_view h3 ?y = Some (m, s, co)" using m'(1) s'(1) co(1) by (simp add: rest_view_def)
    have "hp_next h \<le> hp_next h1" "hp_next h1 \<le> hp_next h2" using y1(3) y2(3) by (simp_all add: extends_def)
    then show "rest_foot h3 ?y \<subseteq> {hp_next h ..< hp_next h2} \<union> {n2 ..< hp_next h3}" "hp_next h \<le> hp_next h2"
      using m'(2) s'(2) y1(5) y2(5) co(2) by (fastforce simp: rest_foot_def)+
  qed (use y3(2) extends_trans [OF e2 y3(3)] st le al hi in simp_all)
qed

lemma DeepCopy_owned:
  assumes g: "heap_ok g" and read: "read_pool g (Some a0) = Some ipPool"
  obtains a h p r al hi where "IPPool_DeepCopy (Some a0) g = Some (Some a, h)" and "own_pool g h a p r al hi"
    and "ipPool = own_record p r al hi"
proof -
  obtain x m s al hi co where x: "h_read k_pool g a0 = Some x" and v: "ObjectMeta_view g (hpool_Meta x) = Some m"
    "IPPoolSpec_view g (hpool_Spec x) = Some s" "view_map k_strmap view_plain g (hst_Allocated (hpool_Status x)) = Some al"
    "view_map k_strmap view_plain g (hst_AllocatedHistory (hpool_Status x)) = Some hi"
    "view_elems k_conds view_plain g (hst_Conditions (hpool_Status x)) = Some co" and rec: "ipPool = own_record x (m, s, co) al hi"
    using read_pool_parts [OF read] .
  obtain b h0 where n: "h_new (k_con k_pool zero_pool) g = (b, h0)" by fastforce
  note e = extends_new [OF n] and sm = h_new_simps(1,2) [OF n]
  obtain y h' n0 n1 n2 where y: "IPPool_DeepCopyInto x h0 = Some (y, h')" "heap_ok h'" "extends h0 h'"
    and st: "hpool_Status y = (hpool_Status x)\<lparr>hst_Allocated := hst_Allocated (hpool_Status y),
      hst_AllocatedHistory := hst_AllocatedHistory (hpool_Status y), hst_Conditions := hst_Conditions (hpool_Status y)\<rparr>"
    and le: "hp_next h0 \<le> n0" "n0 \<le> n1" "n1 \<le> n2" "n2 \<le> hp_next h'"
    and rest: "rest_view h' y = Some (m, s, co)" "rest_foot h' y \<subseteq> {hp_next h0 ..< n0} \<union> {n2 ..< hp_next h'}"
    and A: "view_map k_strmap view_plain h' (hst_Allocated (hpool_Status y)) = Some al" "set_option (hst_Allocated (hpool_Status y)) \<subseteq> {n0 ..< n1}"
    and H: "view_map k_strmap view_plain h' (hst_AllocatedHistory (hpool_Status y)) = Some hi" "set_option (hst_AllocatedHistory (hpool_Status y)) \<subseteq> {n1 ..< n2}"
    using pool_copyE [OF heap_ok_new [OF g n] copier.view_extends(1) [OF copier_ObjectMeta g v(1) e]
        copier.view_extends(1) [OF copier_IPPoolSpec g v(2) e] copier.view_extends(1) [OF copier_strmap g v(3) e]
        copier.view_extends(1) [OF copier_strmap g v(4) e] copier.view_extends(1) [OF copier_conds g v(5) e]] .
  let ?h = "h_set b (CPool y) h'"
  have copy: "IPPool_DeepCopy (Some a0) g = Some (Some b, ?h)"
    using n h_read_extends [OF g x e] y(1) by (simp add: IPPool_DeepCopy_def copy_ptr_def k_pool_def)
  have b: "b = hp_next g" "b < hp_next h0" using sm by simp_all
  have nb: "b \<notin> rest_foot h' y" "b \<notin> set_option (hst_Allocated (hpool_Status y))" "b \<notin> set_option (hst_AllocatedHistory (hpool_Status y))"
    using rest(2) A(2) H(2) b le by fastforce+
  have sep: "set_option (hst_Allocated (hpool_Status y)) \<inter> set_option (hst_AllocatedHistory (hpool_Status y)) = {}"
    "(set_option (hst_Allocated (hpool_Status y)) \<union> set_option (hst_AllocatedHistory (hpool_Status y))) \<inter> rest_foot h' y = {}"
    "set_option (hst_Allocated (hpool_Status y)) \<union> set_option (hst_AllocatedHistory (hpool_Status y)) \<subseteq> {hp_next g ..< hp_next h'}"
    using A(2) H(2) rest(2) b le by fastforce+
  have "own_pool g ?h b y (m, s, co) al hi"
    using rest_outside [OF rest(1) nb(1)] strmap_outside [OF A(1) nb(2)] strmap_outside [OF H(1) nb(3)] sep nb b le
      heap_ok_set [OF y(2)] extends_set [OF extends_trans [OF e y(3)]]
    by (simp add: own_pool_def h_read_def k_pool_def)
  moreover have "hst_Total (hpool_Status y) = hst_Total (hpool_Status x)" "hst_Available (hpool_Status y) = hst_Available (hpool_Status x)"
    "hst_LastAllocated (hpool_Status y) = hst_LastAllocated (hpool_Status x)" by (subst st, simp)+
  then have "ipPool = own_record y (m, s, co) al hi" using rec by (simp add: own_record_def)
  ultimately show thesis using that [OF copy] by blast
qed

section \<open>The store on the heap\<close>

lemma own_field: "own_pool g h a p r al hi \<Longrightarrow> field_of_pool f a h = Some (f (hpool_Status p))"
  by (simp add: own_pool_def field_of_pool_def)

lemma own_mod:
  assumes "own_pool g h a p r al hi" and "same_refs p (f p)" and "hst_Allocated (hpool_Status (f p)) = hst_Allocated (hpool_Status p)"
    and "hst_AllocatedHistory (hpool_Status (f p)) = hst_AllocatedHistory (hpool_Status p)"
  obtains h' where "h_mod k_pool a f h = Some h'" and "own_pool g h' a (f p) r al hi"
  using own_write_struct [OF assms] assms(1) by (simp add: own_pool_def h_mod_def k_pool_def)

lemma strmap_view:
  assumes "view_map k_strmap view_plain h q = Some w"
  shows "(q = None) = (w = None)" and "w = Some es \<Longrightarrow> m_wf es \<and> h_read k_strmap h (the q) = Some es"
proof -
  show "(q = None) = (w = None)" using assms by (cases q) (auto simp: view_map_plain)
  show "m_wf es \<and> h_read k_strmap h (the q) = Some es" if "w = Some es"
    using assms that by (cases q) (auto simp: view_map_plain map_entries_def split: option.splits if_splits)
qed

lemma own_map:
  assumes "own_pool g h a p r al hi"
  shows "(hst_Allocated (hpool_Status p) = None) = (al = None)" and "(hst_AllocatedHistory (hpool_Status p) = None) = (hi = None)"
    and "al = Some es \<Longrightarrow> m_wf es \<and> h_read k_strmap h (the (hst_Allocated (hpool_Status p))) = Some es"
    and "hi = Some es \<Longrightarrow> m_wf es \<and> h_read k_strmap h (the (hst_AllocatedHistory (hpool_Status p))) = Some es"
proof -
  have v: "view_map k_strmap view_plain h (hst_Allocated (hpool_Status p)) = Some al"
    "view_map k_strmap view_plain h (hst_AllocatedHistory (hpool_Status p)) = Some hi"
    using assms by (simp_all add: own_pool_def)
  show "(hst_Allocated (hpool_Status p) = None) = (al = None)" "(hst_AllocatedHistory (hpool_Status p) = None) = (hi = None)"
    by (rule strmap_view(1) [OF v(1)], rule strmap_view(1) [OF v(2)])
  show "al = Some es \<Longrightarrow> m_wf es \<and> h_read k_strmap h (the (hst_Allocated (hpool_Status p))) = Some es"
    "hi = Some es \<Longrightarrow> m_wf es \<and> h_read k_strmap h (the (hst_AllocatedHistory (hpool_Status p))) = Some es"
    by (rule strmap_view(2) [OF v(1)], assumption) (rule strmap_view(2) [OF v(2)])
qed

text \<open>\<^verbatim>\<open>delete\<close> and assignment on either map.\<close>

lemma own_mod_allocated:
  assumes "own_pool g h a p r (Some es) hi" and "m_wf (f es)"
  obtains x h' where "hst_Allocated (hpool_Status p) = Some x" and "h_mod k_strmap x f h = Some h'" and "own_pool g h' a p r (Some (f es)) hi"
  using own_map(1,3) [OF assms(1)] own_write_allocated [OF assms(1) _ assms(2)]
  by (cases "hst_Allocated (hpool_Status p)") (auto simp: h_mod_def k_strmap_def)

lemma own_mod_history:
  assumes "own_pool g h a p r al (Some es)" and "m_wf (f es)"
  obtains x h' where "hst_AllocatedHistory (hpool_Status p) = Some x" and "h_mod k_strmap x f h = Some h'" and "own_pool g h' a p r al (Some (f es))"
  using own_map(2,4) [OF assms(1)] own_write_history [OF assms(1) _ assms(2)]
  by (cases "hst_AllocatedHistory (hpool_Status p)") (auto simp: h_mod_def k_strmap_def)

lemma own_delete_history:
  assumes "own_pool g h a p r al hi"
  obtains h' where "map_delete key (hst_AllocatedHistory (hpool_Status p)) h = Some h'" and "own_pool g h' a p r al (map_option (m_del key) hi)"
proof (cases hi)
  case None
  then show thesis using assms own_map(2) [OF assms] that [of h] by (simp add: map_delete_def)
next
  case (Some es)
  then have wf: "m_wf (m_del key es)" using own_map(4) [OF assms Some] by blast
  obtain x h' where "hst_AllocatedHistory (hpool_Status p) = Some x" "h_mod k_strmap x (m_del key) h = Some h'"
    "own_pool g h' a p r al (Some (m_del key es))" by (rule own_mod_history [where f = "m_del key", OF assms [unfolded Some] wf])
  then show thesis using that [of h'] Some by (simp add: map_delete_def)
qed

lemma own_delete_allocated:
  assumes "own_pool g h a p r al hi"
  obtains h' where "map_delete key (hst_Allocated (hpool_Status p)) h = Some h'" and "own_pool g h' a p r (map_option (m_del key) al) hi"
proof (cases al)
  case None
  then show thesis using assms own_map(1) [OF assms] that [of h] by (simp add: map_delete_def)
next
  case (Some es)
  then have wf: "m_wf (m_del key es)" using own_map(3) [OF assms Some] by blast
  obtain x h' where "hst_Allocated (hpool_Status p) = Some x" "h_mod k_strmap x (m_del key) h = Some h'"
    "own_pool g h' a p r (Some (m_del key es)) hi" by (rule own_mod_allocated [where f = "m_del key", OF assms [unfolded Some] wf])
  then show thesis using that [of h'] Some by (simp add: map_delete_def)
qed

lemma own_assign_allocated:
  assumes "own_pool g h a p r (Some es) hi"
  obtains h' where "map_assign key v (hst_Allocated (hpool_Status p)) h = Some h'" and "own_pool g h' a p r (Some (m_set key v es)) hi"
proof -
  have wf: "m_wf (m_set key v es)" using own_map(3) [OF assms] by blast
  obtain x h' where "hst_Allocated (hpool_Status p) = Some x" "h_mod k_strmap x (m_set key v) h = Some h'"
    "own_pool g h' a p r (Some (m_set key v es)) hi" by (rule own_mod_allocated [where f = "m_set key v", OF assms wf])
  then show thesis using that [of h'] by (simp add: map_assign_def)
qed

lemma own_assign_history:
  assumes "own_pool g h a p r al (Some es)"
  obtains h' where "map_assign key v (hst_AllocatedHistory (hpool_Status p)) h = Some h'" and "own_pool g h' a p r al (Some (m_set key v es))"
proof -
  have wf: "m_wf (m_set key v es)" using own_map(4) [OF assms] by blast
  obtain x h' where "hst_AllocatedHistory (hpool_Status p) = Some x" "h_mod k_strmap x (m_set key v) h = Some h'"
    "own_pool g h' a p r al (Some (m_set key v es))" by (rule own_mod_history [where f = "m_set key v", OF assms wf])
  then show thesis using that [of h'] by (simp add: map_assign_def)
qed

abbreviation make_allocated :: "addr \<Rightarrow> cell heap \<Rightarrow> cell heap option" where
  "make_allocated a h \<equiv> (case h_new (CStrMap []) h of (b, h) \<Rightarrow> h_mod k_pool a (on_status (\<lambda>s. s\<lparr>hst_Allocated := Some b\<rparr>)) h)"

abbreviation make_history :: "addr \<Rightarrow> cell heap \<Rightarrow> cell heap option" where
  "make_history a h \<equiv> (case h_new (CStrMap []) h of (b, h) \<Rightarrow> h_mod k_pool a (on_status (\<lambda>s. s\<lparr>hst_AllocatedHistory := Some b\<rparr>)) h)"

text \<open>The numbers and the last address of a status.\<close>

definition plain_status :: "HIPPool \<Rightarrow> int64 \<times> int64 \<times> string" where
  "plain_status p = (hst_Total (hpool_Status p), hst_Available (hpool_Status p), hst_LastAllocated (hpool_Status p))"

lemma own_ensure_allocated:
  assumes "own_pool g h a p r al hi"
  obtains h' p' where "(if hst_Allocated (hpool_Status p) = None then make_allocated a h else Some h) = Some h'"
    and "own_pool g h' a p' r (Some (entries al)) hi" and "plain_status p' = plain_status p"
proof (cases al)
  case None
  obtain b h1 where n: "h_new (CStrMap []) h = (b, h1)" by fastforce
  have "h_read k_pool h1 a = Some p" using own_new(1) [OF assms n] by (simp add: own_pool_def)
  then have "make_allocated a h = Some (h_set a (CPool (on_status (\<lambda>s. s\<lparr>hst_Allocated := Some b\<rparr>) p)) h1)"
    using n by (simp add: h_mod_def k_pool_def)
  then show thesis using that [OF _ own_make_allocated [OF assms n, folded entries_simps(1), folded None]] None own_map(1) [OF assms]
    by (simp add: plain_status_def)
next
  case (Some es)
  then show thesis using that [of h p] assms own_map(1) [OF assms] by simp
qed

lemma own_ensure_history:
  assumes "own_pool g h a p r al hi"
  obtains h' p' where "(if hst_AllocatedHistory (hpool_Status p) = None then make_history a h else Some h) = Some h'"
    and "own_pool g h' a p' r al (Some (entries hi))" and "plain_status p' = plain_status p"
proof (cases hi)
  case None
  obtain b h1 where n: "h_new (CStrMap []) h = (b, h1)" by fastforce
  have "h_read k_pool h1 a = Some p" using own_new(1) [OF assms n] by (simp add: own_pool_def)
  then have "make_history a h = Some (h_set a (CPool (on_status (\<lambda>s. s\<lparr>hst_AllocatedHistory := Some b\<rparr>) p)) h1)"
    using n by (simp add: h_mod_def k_pool_def)
  then show thesis using that [OF _ own_make_history [OF assms n, folded entries_simps(1), folded None]] None own_map(2) [OF assms]
    by (simp add: plain_status_def)
next
  case (Some es)
  then show thesis using that [of h p] assms own_map(2) [OF assms] by simp
qed

lemma read_pool_kept:
  assumes "heap_ok g" and "read_pool g p = Some ipPool" and "extends g h"
  shows "read_pool h p = Some ipPool"
proof -
  obtain v where "view_ptr k_pool IPPool_view g p = Some v" using assms(2) by (auto simp: read_pool_def bind_eq_Some_conv)
  with pool_dc.view_extends(1) [OF assms(1) this assms(3)] show ?thesis using assms(2) by (simp add: read_pool_def)
qed

lemma read_poolE: "read_pool h p = Some ipPool \<Longrightarrow> \<exists>a. p = Some a"
  by (cases p) (auto simp: read_pool_def view_ptr_def)

lemma own_record_reserved:
  assumes "own_record p r al hi = ipPool" and "plain_status p' = (fst (plain_status p), fst (snd (plain_status p)) - 1, ipStr)"
  shows "own_record p' r (Some (m_set ipStr i (entries al))) (map_option (m_del ipStr) hi) =
    ipPool\<lparr>pool_Status := status_reserve ipStr i (pool_Status ipPool)\<rparr>"
  using assms by (auto simp: own_record_def plain_status_def status_reserve_def split: prod.splits)

lemma own_record_released:
  assumes "own_record p r al hi = ipPool" and "plain_status p' = (fst (plain_status p), fst (snd (plain_status p)) + 1, snd (snd (plain_status p)))"
  shows "own_record p' r (map_option (m_del ipStr) al) (Some (m_set ipStr i (entries hi))) =
    ipPool\<lparr>pool_Status := status_release ipStr i (pool_Status ipPool)\<rparr>"
  using assms by (auto simp: own_record_def plain_status_def status_release_def split: prod.splits)

lemma reserve_copy_owned:
  assumes "heap_ok g" and "read_pool g (Some a0) = Some ipPool"
  obtains a h p r al hi where "reserve_copy ipStr i (Some a0) g = Some (a, h)" and "own_pool g h a p r al hi"
    and "own_record p r al hi = ipPool\<lparr>pool_Status := status_reserve ipStr i (pool_Status ipPool)\<rparr>"
proof -
  obtain a h1 p r al hi where c: "IPPool_DeepCopy (Some a0) g = Some (Some a, h1)" and o1: "own_pool g h1 a p r al hi"
    and rec: "ipPool = own_record p r al hi" using DeepCopy_owned [OF assms] .
  obtain h2 where h2: "map_delete ipStr (hst_AllocatedHistory (hpool_Status p)) h1 = Some h2"
    and o2: "own_pool g h2 a p r al (map_option (m_del ipStr) hi)" using own_delete_history [OF o1] .
  obtain h3 p3 where h3: "(if hst_Allocated (hpool_Status p) = None then make_allocated a h2 else Some h2) = Some h3"
    and o3: "own_pool g h3 a p3 r (Some (entries al)) (map_option (m_del ipStr) hi)" and p3: "plain_status p3 = plain_status p"
    using own_ensure_allocated [OF o2] .
  obtain h4 where h4: "map_assign ipStr i (hst_Allocated (hpool_Status p3)) h3 = Some h4"
    and o4: "own_pool g h4 a p3 r (Some (m_set ipStr i (entries al))) (map_option (m_del ipStr) hi)" using own_assign_allocated [OF o3] .
  let ?f5 = "on_status (\<lambda>s. s\<lparr>hst_LastAllocated := ipStr\<rparr>)" and ?f6 = "on_status (\<lambda>s. s\<lparr>hst_Available := hst_Available s - 1\<rparr>)"
  obtain h5 where h5: "h_mod k_pool a ?f5 h4 = Some h5"
    and o5: "own_pool g h5 a (?f5 p3) r (Some (m_set ipStr i (entries al))) (map_option (m_del ipStr) hi)"
    by (rule own_mod [OF o4, of ?f5]) (simp_all add: same_refs_def)
  obtain h6 where h6: "h_mod k_pool a ?f6 h5 = Some h6"
    and o6: "own_pool g h6 a (?f6 (?f5 p3)) r (Some (m_set ipStr i (entries al))) (map_option (m_del ipStr) hi)"
    by (rule own_mod [OF o5, of ?f6]) (simp_all add: same_refs_def)
  have d: "(if hst_AllocatedHistory (hpool_Status p) \<noteq> None then map_delete ipStr (hst_AllocatedHistory (hpool_Status p)) h1 else Some h1) = Some h2"
    using h2 by (auto simp: map_delete_def)
  have "reserve_copy ipStr i (Some a0) g = Some (a, h6)"
    unfolding reserve_copy_def using c own_field [OF o1, of hst_AllocatedHistory] d own_field [OF o2, of hst_Allocated] h3 own_field [OF o3, of hst_Allocated] h4 h5 h6
    by simp
  moreover have "plain_status (?f6 (?f5 p3)) = (fst (plain_status p), fst (snd (plain_status p)) - 1, ipStr)"
    using p3 by (simp add: plain_status_def)
  ultimately show thesis using that [OF _ o6 own_record_reserved [OF rec [symmetric]]] by blast
qed

lemma release_copy_owned:
  assumes "heap_ok g" and "read_pool g (Some a0) = Some ipPool"
  obtains a h p r al hi where "release_copy ipStr i (Some a0) g = Some (a, h)" and "own_pool g h a p r al hi"
    and "own_record p r al hi = ipPool\<lparr>pool_Status := status_release ipStr i (pool_Status ipPool)\<rparr>"
proof -
  obtain a h1 p r al hi where c: "IPPool_DeepCopy (Some a0) g = Some (Some a, h1)" and o1: "own_pool g h1 a p r al hi"
    and rec: "ipPool = own_record p r al hi" using DeepCopy_owned [OF assms] .
  have e: "extends g h1" using o1 by (simp add: own_pool_def)
  obtain x m s al' hi' co where r0: "h_read k_pool h1 a0 = Some x" and "ObjectMeta_view h1 (hpool_Meta x) = Some m"
    "IPPoolSpec_view h1 (hpool_Spec x) = Some s" "view_map k_strmap view_plain h1 (hst_Allocated (hpool_Status x)) = Some al'"
    and hi': "view_map k_strmap view_plain h1 (hst_AllocatedHistory (hpool_Status x)) = Some hi'"
    and "view_elems k_conds view_plain h1 (hst_Conditions (hpool_Status x)) = Some co"
    and rec': "ipPool = own_record x (m, s, co) al' hi'"
    using read_pool_parts [OF read_pool_kept [OF assms e]] .
  have "hi' = hi" using rec' rec by (auto simp: own_record_def split: prod.splits)
  then have x: "field_of_pool hst_AllocatedHistory a0 h1 = Some (hst_AllocatedHistory (hpool_Status x))"
    "(hst_AllocatedHistory (hpool_Status x) = None) = (hst_AllocatedHistory (hpool_Status p) = None)"
    using own_map(2) [OF o1] strmap_view(1) [OF hi'] r0 by (simp_all add: field_of_pool_def)
  obtain h2 p2 where h2: "(if hst_AllocatedHistory (hpool_Status p) = None then make_history a h1 else Some h1) = Some h2"
    and o2: "own_pool g h2 a p2 r al (Some (entries hi))" and p2: "plain_status p2 = plain_status p" using own_ensure_history [OF o1] .
  obtain h3 where h3: "map_assign ipStr i (hst_AllocatedHistory (hpool_Status p2)) h2 = Some h3"
    and o3: "own_pool g h3 a p2 r al (Some (m_set ipStr i (entries hi)))" using own_assign_history [OF o2] .
  obtain h4 where h4: "map_delete ipStr (hst_Allocated (hpool_Status p2)) h3 = Some h4"
    and o4: "own_pool g h4 a p2 r (map_option (m_del ipStr) al) (Some (m_set ipStr i (entries hi)))" using own_delete_allocated [OF o3] .
  let ?f = "on_status (\<lambda>s. s\<lparr>hst_Available := hst_Available s + 1\<rparr>)"
  obtain h5 where h5: "h_mod k_pool a ?f h4 = Some h5"
    and o5: "own_pool g h5 a (?f p2) r (map_option (m_del ipStr) al) (Some (m_set ipStr i (entries hi)))"
    by (rule own_mod [OF o4, of ?f]) (simp_all add: same_refs_def)
  have "release_copy ipStr i (Some a0) g = Some (a, h5)"
    unfolding release_copy_def using c x h2 own_field [OF o2, of hst_AllocatedHistory] own_field [OF o3, of hst_Allocated] h3 h4 h5 by simp
  moreover have "plain_status (?f p2) = (fst (plain_status p), fst (snd (plain_status p)) + 1, snd (snd (plain_status p)))"
    using p2 by (simp add: plain_status_def)
  ultimately show thesis using that [OF _ o5 own_record_released [OF rec [symmetric]]] by blast
qed

text \<open>
  \<^bold>\<open>C11.\<close> The store changes a deep copy of the cached pool, map by map and field by field. On any heap
  that is the change of the record that the model of the store makes, for \<^verbatim>\<open>Reserve\<close> and for
  \<^verbatim>\<open>ReleaseByID\<close>: the copy then reads as the changed pool, the cached pool reads as
  before, and no cell that existed before is written.
\<close>

theorem store_writes_refine:
  assumes "heap_ok g" and "read_pool g p = Some ipPool"
  shows "(\<exists>a h. reserve_copy ipStr i p g = Some (a, h) \<and> heap_ok h \<and> extends g h \<and> read_pool h p = Some ipPool \<and>
      read_pool h (Some a) = Some (ipPool\<lparr>pool_Status := status_reserve ipStr i (pool_Status ipPool)\<rparr>)) \<and>
    (\<exists>a h. release_copy ipStr i p g = Some (a, h) \<and> heap_ok h \<and> extends g h \<and> read_pool h p = Some ipPool \<and>
      read_pool h (Some a) = Some (ipPool\<lparr>pool_Status := status_release ipStr i (pool_Status ipPool)\<rparr>))"
proof
  obtain a0 where a0: "p = Some a0" using read_poolE [OF assms(2)] by blast
  note rd = assms(2) [unfolded a0]
  have own: "heap_ok h \<and> extends g h \<and> read_pool h p = Some ipPool \<and> read_pool h (Some a) = Some (own_record q r al hi)"
    if "own_pool g h a q r al hi" for h a q r al hi
    using that own_read [OF that] read_pool_kept [OF assms, of h] by (simp add: own_pool_def)
  show "\<exists>a h. reserve_copy ipStr i p g = Some (a, h) \<and> heap_ok h \<and> extends g h \<and> read_pool h p = Some ipPool \<and>
      read_pool h (Some a) = Some (ipPool\<lparr>pool_Status := status_reserve ipStr i (pool_Status ipPool)\<rparr>)"
    using reserve_copy_owned [OF assms(1) rd, of ipStr i] own a0 by metis
  show "\<exists>a h. release_copy ipStr i p g = Some (a, h) \<and> heap_ok h \<and> extends g h \<and> read_pool h p = Some ipPool \<and>
      read_pool h (Some a) = Some (ipPool\<lparr>pool_Status := status_release ipStr i (pool_Status ipPool)\<rparr>)"
    using release_copy_owned [OF assms(1) rd, of ipStr i] own a0 by metis
qed

section \<open>Deep copies of all objects\<close>

text \<open>
  The object \<open>q\<close> is a copy of \<open>p\<close> made in the heap \<open>h\<close>: both read as \<open>p\<close> did, no old cell has changed, they share no
  cell, and whatever is then written into a cell of one is not seen through the other.
\<close>

definition deep_copied ::
  "('c heap \<Rightarrow> 'a \<Rightarrow> 'v option) \<Rightarrow> ('c heap \<Rightarrow> 'a \<Rightarrow> addr set) \<Rightarrow> 'c heap \<Rightarrow> 'a \<Rightarrow> 'a \<Rightarrow> 'c heap \<Rightarrow> bool" where
  "deep_copied view foot h p q h' \<longleftrightarrow> heap_ok h' \<and> extends h h' \<and> view h' q = view h p \<and> view h' p = view h p \<and>
     foot h' p \<inter> foot h' q = {} \<and>
     (\<forall>c. \<forall>a \<in> foot h' q. view (h_set a c h') p = view h p) \<and> (\<forall>c. \<forall>a \<in> foot h' p. view (h_set a c h') q = view h p)"

context copier
begin

lemma copy_deep:
  assumes "heap_ok h" and "view h x \<noteq> None"
  shows "\<exists>y h'. copy x h = Some (y, h') \<and> deep_copied view foot h x y h'"
proof -
  obtain v where v: "view h x = Some v" using assms(2) by blast
  obtain y h' where c: "copy x h = Some (y, h')" "heap_ok h'" "extends h h'" "view h' y = Some v" "view h' x = Some v"
    "foot h' x \<inter> foot h' y = {}"
    and w: "\<forall>a c. (a \<notin> foot h' x \<longrightarrow> view (h_set a c h') x = Some v) \<and> (a \<notin> foot h' y \<longrightarrow> view (h_set a c h') y = Some v)"
    using copy_independent [OF assms(1) v] by blast
  have "view (h_set a c h') x = Some v" if "a \<in> foot h' y" for a c using w c(6) that by blast
  moreover have "view (h_set a c h') y = Some v" if "a \<in> foot h' x" for a c using w c(6) that by blast
  ultimately show ?thesis using c v by (auto simp: deep_copied_def)
qed

end

text \<open>
  \<^bold>\<open>C17.\<close> The generated \<^verbatim>\<open>DeepCopy\<close> of a pool, a load balancer, a list of either, and a load balancer
  of v1alpha1 and a list of them: whatever the object holds, with any sharing between its parts and with
  other objects, the copy always returns, reads as the original and shares no memory with it. A nil pointer is copied to nil and its
  \<^verbatim>\<open>DeepCopyObject\<close> is the nil interface.
\<close>

theorem deep_copy_independent:
  assumes "heap_ok h"
  shows "(view_ptr k_pool IPPool_view h p \<noteq> None \<longrightarrow> (\<exists>q h'. IPPool_DeepCopy p h = Some (q, h') \<and>
      deep_copied (view_ptr k_pool IPPool_view) (foot_ptr k_pool IPPool_foot) h p q h')) \<and>
    (view_ptr k_poollist IPPoolList_view h p \<noteq> None \<longrightarrow> (\<exists>q h'. IPPoolList_DeepCopy p h = Some (q, h') \<and>
      deep_copied (view_ptr k_poollist IPPoolList_view) (foot_ptr k_poollist IPPoolList_foot) h p q h')) \<and>
    (view_ptr k_lb LoadBalancer_view h p \<noteq> None \<longrightarrow> (\<exists>q h'. LoadBalancer_DeepCopy p h = Some (q, h') \<and>
      deep_copied (view_ptr k_lb LoadBalancer_view) (foot_ptr k_lb LoadBalancer_foot) h p q h')) \<and>
    (view_ptr k_lblist LoadBalancerList_view h p \<noteq> None \<longrightarrow> (\<exists>q h'. LoadBalancerList_DeepCopy p h = Some (q, h') \<and>
      deep_copied (view_ptr k_lblist LoadBalancerList_view) (foot_ptr k_lblist LoadBalancerList_foot) h p q h')) \<and>
    (view_ptr k_lb1 LoadBalancerV1_view h p \<noteq> None \<longrightarrow> (\<exists>q h'. LoadBalancerV1_DeepCopy p h = Some (q, h') \<and>
      deep_copied (view_ptr k_lb1 LoadBalancerV1_view) (foot_ptr k_lb1 LoadBalancerV1_foot) h p q h')) \<and>
    (view_ptr k_lblist1 LoadBalancerListV1_view h p \<noteq> None \<longrightarrow> (\<exists>q h'. LoadBalancerListV1_DeepCopy p h = Some (q, h') \<and>
      deep_copied (view_ptr k_lblist1 LoadBalancerListV1_view) (foot_ptr k_lblist1 LoadBalancerListV1_foot) h p q h')) \<and>
    IPPool_DeepCopyObject None h = Some (None, h) \<and> LoadBalancer_DeepCopyObject None h = Some (None, h)"
proof -
  have nil: "IPPool_DeepCopyObject None h = Some (None, h) \<and> LoadBalancer_DeepCopyObject None h = Some (None, h)"
    by (simp add: IPPool_DeepCopyObject_def LoadBalancer_DeepCopyObject_def IPPool_DeepCopy_def LoadBalancer_DeepCopy_def copy_ptr_def)
  show ?thesis
    by (intro conjI impI nil pool_dc.copy_deep pools_dc.copy_deep lb_dc.copy_deep lbs_dc.copy_deep lb1_dc.copy_deep
        lbs1_dc.copy_deep assms nil [THEN conjunct1] nil [THEN conjunct2])
qed

section \<open>A pool on a heap\<close>

text \<open>A cached pool with one allocation; its metadata shares the map of labels with its annotations.\<close>

definition small_pool :: HIPPool where
  "small_pool = zero_pool\<lparr>hpool_Meta := zero_meta\<lparr>hm_Name := ''demo'', hm_Labels := Some 2, hm_Annotations := Some 2\<rparr>,
     hpool_Status := zero_poolstatus\<lparr>hst_Total := 4, hst_Available := 3, hst_Allocated := Some 1\<rparr>\<rparr>"

definition small_heap :: "cell heap" where
  "small_heap = \<lparr>hp_next = 3, hp_cells = (\<lambda>_. None)(0 := Some (CPool small_pool), 1 := Some (CStrMap [(''10.0.0.2'', ''default/lb1'')]),
     2 := Some (CStrMap [(''app'', ''web'')]))\<rparr>"

lemma small_heap_ok: "heap_ok small_heap"
  by (simp add: heap_ok_def small_heap_def)

lemma small_view: "view_ptr k_pool IPPool_view small_heap (Some 0) \<noteq> None"
  by code_simp

theorem deep_copy_independent_witness:
  "\<exists>q h'. IPPool_DeepCopy (Some 0) small_heap = Some (q, h') \<and>
     deep_copied (view_ptr k_pool IPPool_view) (foot_ptr k_pool IPPool_foot) small_heap (Some 0) q h'"
  using deep_copy_independent [OF small_heap_ok, of "Some 0"] small_view by blast

theorem store_writes_refine_witness:
  "\<exists>ipPool a h. read_pool small_heap (Some 0) = Some ipPool \<and> reserve_copy ''10.0.0.3'' ''default/lb2'' (Some 0) small_heap = Some (a, h) \<and>
     read_pool h (Some 0) = Some ipPool \<and>
     read_pool h (Some a) = Some (ipPool\<lparr>pool_Status := status_reserve ''10.0.0.3'' ''default/lb2'' (pool_Status ipPool)\<rparr>)"
proof -
  have "read_pool small_heap (Some 0) \<noteq> None" by code_simp
  then obtain ipPool where p: "read_pool small_heap (Some 0) = Some ipPool" by blast
  show ?thesis using store_writes_refine [OF small_heap_ok p, of "''10.0.0.3''" "''default/lb2''"] p by blast
qed

end
