(* ===== verification/FileHelpers.thy ===== *)
theory FileHelpers
  imports Prelude
begin

text \<open>
  The helpers that read test data from files: \<^verbatim>\<open>pkg/utils/subdirectory.go\<close> and
  \<^verbatim>\<open>pkg/utils/yaml.go\<close>.

  A file tree is what \<^verbatim>\<open>filepath.Walk\<close> of the standard library sees of the file system: a file, a
  directory with its entries in lexical order and perhaps an error of reading it, or an entry whose
  \<^verbatim>\<open>Lstat\<close> fails. A path is the list of the names below the root; the root has the empty path, so
  \<^verbatim>\<open>path != root\<close> says that the list is not empty.

  The reader of the documents of a file and the decoder of the scheme are parameters: a step of the
  reader gives a document, the end of the file or an error, and a new state.
\<close>

section \<open>Walking a tree\<close>

datatype fnode = FFile | FDir "error option" fentries | FBad error
and fentries = FNil | FCons string fnode fentries

datatype walk_err = SkipDir | WalkErr error

record FileInfo =
  fi_Name :: string
  fi_IsDir :: bool

type_synonym 's walk_fn = "string list \<Rightarrow> FileInfo option \<Rightarrow> error option \<Rightarrow> 's \<Rightarrow> walk_err option \<times> 's"

text \<open>
  \<^verbatim>\<open>filepath.walk\<close>: the function is called on a directory after its names have been read; an
  error of its own ends the walk of the directory. For an entry, \<^verbatim>\<open>SkipDir\<close> of a directory skips
  just that one, that of another entry ends the directory.
\<close>

fun walk :: "'s walk_fn \<Rightarrow> string list \<Rightarrow> string \<Rightarrow> fnode \<Rightarrow> 's \<Rightarrow> walk_err option \<times> 's"
  and walk_entries :: "'s walk_fn \<Rightarrow> string list \<Rightarrow> fentries \<Rightarrow> 's \<Rightarrow> walk_err option \<times> 's" where
  "walk fn path name FFile s = fn path (Some \<lparr>fi_Name = name, fi_IsDir = False\<rparr>) None s"
| "walk fn path name (FBad e) s = fn path None (Some e) s"
| "walk fn path name (FDir readErr es) s =
     (case fn path (Some \<lparr>fi_Name = name, fi_IsDir = True\<rparr>) readErr s of
        (Some e, s') \<Rightarrow> (Some e, s')
      | (None, s') \<Rightarrow> if readErr \<noteq> None then (None, s') else walk_entries fn path es s')"
| "walk_entries fn path FNil s = (None, s)"
| "walk_entries fn path (FCons name nd es) s =
     (case walk fn (path @ [name]) name nd s of
        (None, s') \<Rightarrow> walk_entries fn path es s'
      | (Some (WalkErr e), s') \<Rightarrow> (Some (WalkErr e), s')
      | (Some SkipDir, s') \<Rightarrow> if nd = FFile then (Some SkipDir, s') else walk_entries fn path es s')"

definition Walk :: "'s walk_fn \<Rightarrow> string \<Rightarrow> fnode \<Rightarrow> 's \<Rightarrow> error option \<times> 's" where
  "Walk fn name root s =
     (case walk fn [] name root s of
        (None, s') \<Rightarrow> (None, s') | (Some SkipDir, s') \<Rightarrow> (None, s') | (Some (WalkErr e), s') \<Rightarrow> (Some e, s'))"

section \<open>Subdirectories\<close>

text \<open>The function that \<^verbatim>\<open>GetSubdirectories\<close> walks with, on the list of names collected so far.\<close>

definition visit :: "string list walk_fn" where
  "visit path info err subdirectories =
     (case err of
        Some e \<Rightarrow> (Some (WalkErr e), subdirectories)
      | None \<Rightarrow>
          (case info of
             None \<Rightarrow> (Some (WalkErr (Panic ''nil pointer dereference'')), subdirectories)
           | Some i \<Rightarrow>
               if fi_IsDir i \<and> path \<noteq> [] then (Some SkipDir, subdirectories @ [fi_Name i])
               else (None, subdirectories)))"

definition GetSubdirectories :: "string \<Rightarrow> fnode \<Rightarrow> string list res" where
  "GetSubdirectories name root =
     (case Walk visit name root [] of (Some e, _) \<Rightarrow> Inl e | (None, subdirectories) \<Rightarrow> Inr subdirectories)"

text \<open>What the walk should find: the names of the entries that are directories, and the first entry it cannot read.\<close>

fun entry_list :: "fentries \<Rightarrow> (string \<times> fnode) list" where
  "entry_list FNil = []"
| "entry_list (FCons n nd es) = (n, nd) # entry_list es"

fun node_err :: "fnode \<Rightarrow> error option" where
  "node_err FFile = None" | "node_err (FDir e es) = e" | "node_err (FBad e) = Some e"

fun is_dir :: "fnode \<Rightarrow> bool" where
  "is_dir FFile = False" | "is_dir (FDir e es) = True" | "is_dir (FBad e) = False"

lemma visit_simps [simp]:
  "visit path info (Some e) ds = (Some (WalkErr e), ds)"
  "visit path (Some i) None ds = (if fi_IsDir i \<and> path \<noteq> [] then (Some SkipDir, ds @ [fi_Name i]) else (None, ds))"
  by (simp_all add: visit_def)

lemma visit_entries:
  "walk_entries visit path es ds =
     (case find (\<lambda>(n, nd). node_err nd \<noteq> None) (entry_list es) of
        None \<Rightarrow> (None, ds @ map fst (filter (\<lambda>e. is_dir (snd e)) (entry_list es)))
      | Some (n, nd) \<Rightarrow>
          (Some (WalkErr (the (node_err nd))),
           ds @ map fst (filter (\<lambda>e. is_dir (snd e)) (takeWhile (\<lambda>(n, nd). node_err nd = None) (entry_list es)))))"
proof (induction es arbitrary: ds rule: entry_list.induct)
  case (2 n nd es)
  show ?case
  proof (cases nd)
    case FFile
    then show ?thesis using 2 by (simp split: option.splits)
  next
    case (FDir e es')
    then show ?thesis using 2 by (cases e) (auto split: option.splits)
  next
    case (FBad e)
    then show ?thesis using 2 by (simp split: option.splits)
  qed
qed simp

text \<open>
  \<^bold>\<open>C39.\<close> The walk ends, and \<^verbatim>\<open>GetSubdirectories\<close> of a directory returns the names of the directories right below it, in
  order, files and deeper directories left out, unless an entry cannot be read: then it returns the error of the
  first such entry, and so it does for a directory below the root that cannot be listed, although its entries are of no interest.
  Of a file it returns no name, of a root it cannot read the error.
\<close>

theorem GetSubdirectories_exact:
  "GetSubdirectories name (FDir None es) =
     (case find (\<lambda>(n, nd). node_err nd \<noteq> None) (entry_list es) of
        None \<Rightarrow> Inr (map fst (filter (\<lambda>e. is_dir (snd e)) (entry_list es)))
      | Some (n, nd) \<Rightarrow> Inl (the (node_err nd))) \<and>
   GetSubdirectories name (FDir (Some e) es) = Inl e \<and> GetSubdirectories name (FBad e) = Inl e \<and> GetSubdirectories name FFile = Inr []"
  by (auto simp: GetSubdirectories_def Walk_def visit_entries split: option.split)

section \<open>Objects of a YAML file\<close>

datatype 'b read_result = ReadDoc 'b | ReadEOF | ReadErr error

text \<open>The loop of \<^verbatim>\<open>ParseFromFile\<close>; it does not return when the reader never ends.\<close>

partial_function (option) parse_loop ::
  "('s \<Rightarrow> 'b read_result \<times> 's) \<Rightarrow> ('b \<Rightarrow> 'o res) \<Rightarrow> 's \<Rightarrow> 'o list \<Rightarrow> 'o list res option" where
  "parse_loop reader decode s objs =
     (case reader s of
        (ReadEOF, s') \<Rightarrow> Some (Inr objs)
      | (ReadErr e, s') \<Rightarrow> Some (Inl (Panic (err_text e)))
      | (ReadDoc buf, s') \<Rightarrow>
          (case decode buf of Inl e \<Rightarrow> Some (Inl e) | Inr obj \<Rightarrow> parse_loop reader decode s' (objs @ [obj])))"

definition ParseFromFile ::
  "(string \<Rightarrow> 'd res) \<Rightarrow> ('d \<Rightarrow> 's) \<Rightarrow> ('s \<Rightarrow> 'b read_result \<times> 's) \<Rightarrow> ('b \<Rightarrow> 'o res) \<Rightarrow> string \<Rightarrow> 'o list res option" where
  "ParseFromFile ReadFile NewYAMLReader Read Decode yamlFilePath =
     (case ReadFile yamlFilePath of
        Inl e \<Rightarrow> Some (Inl e)
      | Inr data \<Rightarrow> parse_loop Read Decode (NewYAMLReader data) [])"

text \<open>A reader that gives the documents \<open>ds\<close> and then ends with \<open>r\<close>.\<close>

fun reads :: "('s \<Rightarrow> 'b read_result \<times> 's) \<Rightarrow> 's \<Rightarrow> 'b list \<Rightarrow> 'b read_result \<Rightarrow> bool" where
  "reads rd s [] r = (fst (rd s) = r)"
| "reads rd s (d # ds) r = (fst (rd s) = ReadDoc d \<and> reads rd (snd (rd s)) ds r)"

lemma parse_loop_reads:
  assumes "reads rd s ds r" and "r = ReadEOF \<or> (\<exists>e. r = ReadErr e)"
  shows "parse_loop rd dec s objs = Some (case res_map dec ds of
     Inl e \<Rightarrow> Inl e
   | Inr os \<Rightarrow> (case r of ReadErr e \<Rightarrow> Inl (Panic (err_text e)) | _ \<Rightarrow> Inr (objs @ os)))"
  using assms(1)
proof (induction ds arbitrary: s objs)
  case Nil
  then show ?case using assms(2) by (subst parse_loop.simps) (cases "rd s"; auto)
next
  case (Cons d ds)
  then obtain s' where s': "rd s = (ReadDoc d, s')" "reads rd s' ds r" by (cases "rd s") auto
  show ?case
    using s'(1) Cons.IH [OF s'(2)]
    by (subst parse_loop.simps) (cases "dec d"; cases "res_map dec ds"; cases r; auto)
qed

text \<open>
  \<^verbatim>\<open>ParseFromFile\<close> returns whenever the reader comes to an end: the objects of all documents in their
  order, or the error of the first document that does not decode, and a panic when the
  reader fails with anything but the end of the file after documents that all decode.
\<close>

theorem ParseFromFile_exact:
  assumes "ReadFile f = Inr data" and "reads Read (NewYAMLReader data) ds r" and "r = ReadEOF \<or> r = ReadErr e"
  shows "ParseFromFile ReadFile NewYAMLReader Read Decode f = Some (case res_map Decode ds of
     Inl e \<Rightarrow> Inl e
   | Inr os \<Rightarrow> if r = ReadEOF then Inr os else Inl (Panic (err_text e)))"
  using assms parse_loop_reads [OF assms(2), of Decode "[]"]
  by (cases "res_map Decode ds") (auto simp: ParseFromFile_def)

end
