(* ===== verification/StatusSync.thy ===== *)
theory StatusSync
  imports LBV1alpha1
begin

text \<open>
  The status and generating handlers that the controllers generated for the program's own types
  offer (\<^verbatim>\<open>pkg/generated/controllers/loadbalancer.harvesterhci.io\<close>, \<^verbatim>\<open>v1beta1/loadbalancer.go\<close>,
  \<^verbatim>\<open>v1beta1/ippool.go\<close> and \<^verbatim>\<open>v1alpha1/loadbalancer.go\<close>). The three files are one text for three
  types: the operations are written once over a record that describes the type, and each
  file has its instance. The program registers its handlers directly and does not use these.

  The handler of the user, the client and \<^verbatim>\<open>apply.Apply\<close>, configured with the options, the set id and
  the owner, are parameters. A handler is given a copy of the object and may change it. The empty string is the zero time.
\<close>

section \<open>Types with a status\<close>

record ('o, 's) StatusType =
  ty_Status :: "'o \<Rightarrow> 's"
  ty_setStatus :: "'s \<Rightarrow> 'o \<Rightarrow> 'o"
  ty_Conditions :: "'s \<Rightarrow> Condition list"
  ty_setConditions :: "Condition list \<Rightarrow> 's \<Rightarrow> 's"
  ty_DeepEqual :: "'s \<Rightarrow> 's \<Rightarrow> bool"
  ty_Meta :: "'o \<Rightarrow> ObjectMeta"
  ty_empty :: "string \<Rightarrow> string \<Rightarrow> 'o"

text \<open>\<^verbatim>\<open>equality.Semantic.DeepEqual\<close> takes a nil slice and an empty one for equal.\<close>

definition semantic_seq :: "'a list option \<Rightarrow> 'a list" where
  "semantic_seq xs = (case xs of None \<Rightarrow> [] | Some ys \<Rightarrow> ys)"

definition lb_type :: "(LoadBalancer, LoadBalancerStatus) StatusType" where
  "lb_type = \<lparr>ty_Status = lb_Status, ty_setStatus = (\<lambda>s lb. lb\<lparr>lb_Status := s\<rparr>), ty_Conditions = lbst_Conditions,
     ty_setConditions = (\<lambda>cs s. s\<lparr>lbst_Conditions := cs\<rparr>),
     ty_DeepEqual = (\<lambda>s t. semantic_seq (lbst_BackendServers s) = semantic_seq (lbst_BackendServers t) \<and>
       lbst_AllocatedAddress s = lbst_AllocatedAddress t \<and> lbst_Address s = lbst_Address t \<and> lbst_Conditions s = lbst_Conditions t),
     ty_Meta = lb_Meta,
     ty_empty = (\<lambda>ns n. \<lparr>lb_APIVersion = SchemeGroupVersion, lb_Kind = ''LoadBalancer'', lb_Meta = empty_meta\<lparr>md_Namespace := ns, md_Name := n\<rparr>,
       lb_Spec = \<lparr>lbs_Description = '''', lbs_WorkloadType = '''', lbs_IPAM = '''', lbs_IPPool = '''', lbs_Listeners = [],
         lbs_BackendServerSelector = [], lbs_HealthCheck = None\<rparr>,
       lb_Status = \<lparr>lbst_BackendServers = None, lbst_AllocatedAddress = empty_address, lbst_Address = '''', lbst_Conditions = []\<rparr>\<rparr>)\<rparr>"

text \<open>Equal maps have the same value at every key; a nil map equals an empty one.\<close>

definition same_map :: "strmap option \<Rightarrow> strmap option \<Rightarrow> bool" where
  "same_map m m' \<longleftrightarrow> list_all (\<lambda>k. m_get (entries m) k = m_get (entries m') k) (map fst (entries m) @ map fst (entries m'))"

definition pool_type :: "(IPPool, IPPoolStatus) StatusType" where
  "pool_type = \<lparr>ty_Status = pool_Status, ty_setStatus = (\<lambda>s p. p\<lparr>pool_Status := s\<rparr>), ty_Conditions = st_Conditions,
     ty_setConditions = (\<lambda>cs s. s\<lparr>st_Conditions := cs\<rparr>),
     ty_DeepEqual = (\<lambda>s t. st_Total s = st_Total t \<and> st_Available s = st_Available t \<and> st_LastAllocated s = st_LastAllocated t \<and>
       same_map (st_Allocated s) (st_Allocated t) \<and> same_map (st_AllocatedHistory s) (st_AllocatedHistory t) \<and>
       st_Conditions s = st_Conditions t),
     ty_Meta = pool_Meta,
     ty_empty = (\<lambda>ns n. \<lparr>pool_Meta = empty_meta\<lparr>md_Namespace := ns, md_Name := n\<rparr>,
       pool_Spec = \<lparr>ps_Description = '''', ps_Ranges = [], ps_Selector = \<lparr>sel_Priority = 0, sel_Network = '''', sel_Scope = []\<rparr>\<rparr>,
       pool_Status = \<lparr>st_Total = 0, st_Available = 0, st_LastAllocated = '''', st_Allocated = None, st_AllocatedHistory = None,
         st_Conditions = []\<rparr>\<rparr>)\<rparr>"

definition lb1_type :: "(LoadBalancerV1, LoadBalancerStatusV1) StatusType" where
  "lb1_type = \<lparr>ty_Status = lb1_Status, ty_setStatus = (\<lambda>s lb. lb\<lparr>lb1_Status := s\<rparr>), ty_Conditions = st1_Conditions,
     ty_setConditions = (\<lambda>cs s. s\<lparr>st1_Conditions := cs\<rparr>), ty_DeepEqual = (=), ty_Meta = lb1_Meta,
     ty_empty = (\<lambda>ns n. \<lparr>lb1_APIVersion = GroupName @ ''/v1alpha1'', lb1_Kind = ''LoadBalancer'',
       lb1_Meta = empty_meta\<lparr>md_Namespace := ns, md_Name := n\<rparr>,
       lb1_Spec = \<lparr>s1_Description = '''', s1_IPAM = '''', s1_Listeners = [], s1_BackendServers = [], s1_HeathCheck = None\<rparr>,
       lb1_Status = \<lparr>st1_Address = '''', st1_Conditions = []\<rparr>\<rparr>)\<rparr>"

section \<open>Conditions\<close>

definition cond_setReason :: "string \<Rightarrow> string \<Rightarrow> Condition list \<Rightarrow> Condition list" where
  "cond_setReason name v = update_cond name (\<lambda>c. c\<lparr>cond_Reason := v\<rparr>)"

definition cond_LastUpdated :: "string \<Rightarrow> string \<Rightarrow> Condition list \<Rightarrow> Condition list" where
  "cond_LastUpdated name ts = update_cond name (\<lambda>c. c\<lparr>cond_LastUpdateTime := ts\<rparr>)"

text \<open>\<^verbatim>\<open>Cond.SetError\<close>; \<open>skip\<close> recognises \<^verbatim>\<open>generic.ErrSkip\<close>.\<close>

definition cond_SetError :: "(error \<Rightarrow> bool) \<Rightarrow> string \<Rightarrow> string \<Rightarrow> string \<Rightarrow> error option \<Rightarrow> Condition list \<Rightarrow> Condition list" where
  "cond_SetError skip now name reason err cs =
     (case err of
        Some e \<Rightarrow>
          if skip e then cond_setReason name reason (cond_setMessage now name '''' (cond_setStatus now name ''True'' cs))
          else cond_setReason name (if reason = '''' then ''Error'' else reason)
                 (cond_setMessage now name (err_text e) (cond_setStatus now name ''False'' cs))
      | None \<Rightarrow> cond_setReason name reason (cond_setMessage now name '''' (cond_setStatus now name ''True'' cs)))"

section \<open>The status handler\<close>

record ('o, 's, 'w) StatusHandler =
  sh_UpdateStatus :: "'o \<Rightarrow> 'w \<Rightarrow> 'o res \<times> 'w"
  sh_condition :: string
  sh_handler :: "'o \<Rightarrow> 's \<Rightarrow> 'w \<Rightarrow> ('o \<times> 's \<times> error option) \<times> 'w"
  sh_skip :: "error \<Rightarrow> bool"
  sh_now :: string

definition status_sync ::
  "('o, 's) StatusType \<Rightarrow> ('o, 's, 'w) StatusHandler \<Rightarrow> 'o option \<Rightarrow> 'w \<Rightarrow> ('o option \<times> error option) \<times> 'w" where
  "status_sync T a obj0 w =
     (case obj0 of
        None \<Rightarrow> ((None, None), w)
      | Some ob \<Rightarrow>
          let origStatus = ty_Status T ob; ((obj, st, err), w1) = sh_handler a ob origStatus w;
              st1 = (if err \<noteq> None then origStatus else st);
              shown = (case err of None \<Rightarrow> None | Some e \<Rightarrow> if errors_Is e Conflict then None else Some e);
              newStatus = (if sh_condition a \<noteq> ''''
                then ty_setConditions T (cond_SetError (sh_skip a) (sh_now a) (sh_condition a) '''' shown (ty_Conditions T st1)) st1
                else st1) in
          if \<not> ty_DeepEqual T origStatus newStatus then
            let newStatus2 = (if sh_condition a \<noteq> ''''
                  then ty_setConditions T (cond_LastUpdated (sh_condition a) (sh_now a) (ty_Conditions T newStatus)) newStatus
                  else newStatus);
                obj2 = ty_setStatus T newStatus2 obj in
            (case sh_UpdateStatus a obj2 w1 of
               (Inl newErr, w2) \<Rightarrow> ((Some obj2, if err = None then Some newErr else err), w2)
             | (Inr newObj, w2) \<Rightarrow> ((Some newObj, err), w2))
          else ((Some obj, err), w1))"

definition loadBalancer_sync :: "(LoadBalancer, LoadBalancerStatus, 'w) StatusHandler \<Rightarrow> string \<Rightarrow> LoadBalancer option \<Rightarrow> 'w \<Rightarrow>
    (LoadBalancer option \<times> error option) \<times> 'w" where
  "loadBalancer_sync a key = status_sync lb_type a"

definition ipPool_sync :: "(IPPool, IPPoolStatus, 'w) StatusHandler \<Rightarrow> string \<Rightarrow> IPPool option \<Rightarrow> 'w \<Rightarrow>
    (IPPool option \<times> error option) \<times> 'w" where
  "ipPool_sync a key = status_sync pool_type a"

definition loadBalancerV1_sync :: "(LoadBalancerV1, LoadBalancerStatusV1, 'w) StatusHandler \<Rightarrow> string \<Rightarrow> LoadBalancerV1 option \<Rightarrow> 'w \<Rightarrow>
    (LoadBalancerV1 option \<times> error option) \<times> 'w" where
  "loadBalancerV1_sync a key = status_sync lb1_type a"

section \<open>A status handler comes to rest\<close>

text \<open>The condition says what \<^verbatim>\<open>SetError\<close> would make it say.\<close>

definition shows_outcome :: "(error \<Rightarrow> bool) \<Rightarrow> string \<Rightarrow> error option \<Rightarrow> Condition list \<Rightarrow> bool" where
  "shows_outcome skip name err cs \<longleftrightarrow> (\<exists>c. find_cond name cs = Some c \<and>
     (case err of
        Some e \<Rightarrow> if skip e then cond_Status c = ''True'' \<and> cond_Message c = '''' \<and> cond_Reason c = ''''
                   else cond_Status c = ''False'' \<and> cond_Message c = err_text e \<and> cond_Reason c = ''Error''
      | None \<Rightarrow> cond_Status c = ''True'' \<and> cond_Message c = '''' \<and> cond_Reason c = ''''))"

lemma set_triple_find:
  "\<exists>c. find_cond name (cond_setReason name r (cond_setMessage now name m (cond_setStatus now name s cs))) = Some c \<and>
     cond_Status c = s \<and> cond_Message c = m \<and> cond_Reason c = r"
  by (auto simp: cond_setReason_def cond_setMessage_def cond_setStatus_def)

lemma SetError_shows: "shows_outcome skip name err (cond_SetError skip now name '''' err cs)"
  using set_triple_find by (auto simp: shows_outcome_def cond_SetError_def split: option.split)

lemma LastUpdated_shows: "shows_outcome skip name err cs \<Longrightarrow> shows_outcome skip name err (cond_LastUpdated name ts cs)"
  unfolding shows_outcome_def cond_LastUpdated_def
  by (subst find_update_cond) (auto split: option.splits if_splits)

lemma set_triple_idem:
  assumes "find_cond name cs = Some c" and "cond_Status c = s" and "cond_Message c = m" and "cond_Reason c = r"
  shows "cond_setReason name r (cond_setMessage now name m (cond_setStatus now name s cs)) = cs"
proof -
  have c: "c\<lparr>cond_Reason := r\<rparr> = c" using assms(4) by (cases c) simp
  have "cond_setStatus now name s cs = cs" "cond_setMessage now name m cs = cs"
    using assms(1-3) by (simp_all add: cond_setStatus_def cond_setMessage_def update_cond_idem)
  then show ?thesis using assms(1) c by (simp add: cond_setReason_def update_cond_idem)
qed

lemma SetError_idem: "shows_outcome skip name err cs \<Longrightarrow> cond_SetError skip now name '''' err cs = cs"
  using set_triple_idem [of name cs] by (auto simp: shows_outcome_def cond_SetError_def split: option.splits if_splits)

definition shown :: "error option \<Rightarrow> error option" where
  "shown err = (case err of None \<Rightarrow> None | Some e \<Rightarrow> if errors_Is e Conflict then None else Some e)"

locale status_type =
  fixes T :: "('o, 's) StatusType"
  assumes status_set: "ty_Status T (ty_setStatus T s ob) = s"
    and conds_set: "ty_Conditions T (ty_setConditions T cs s) = cs"
    and set_same: "ty_setConditions T (ty_Conditions T s) s = s"
    and equal_refl: "ty_DeepEqual T s s"
    and equal_conds: "ty_DeepEqual T s t \<Longrightarrow> ty_Conditions T s = ty_Conditions T t"
begin

lemma sync_same:
  assumes "sh_handler a ob (ty_Status T ob) w = ((ob, st, err), w1)" and "err = None \<Longrightarrow> st = ty_Status T ob"
    and "sh_condition a = '''' \<or> shows_outcome (sh_skip a) (sh_condition a) (shown err) (ty_Conditions T (ty_Status T ob))"
  shows "status_sync T a (Some ob) w = ((Some ob, err), w1)"
proof -
  have "(if err \<noteq> None then ty_Status T ob else st) = ty_Status T ob" using assms(2) by simp
  then show ?thesis
    using assms(1,3) SetError_idem set_same equal_refl by (auto simp: status_sync_def Let_def shown_def [symmetric])
qed

lemma sync_shows:
  assumes "sh_handler a ob (ty_Status T ob) w = ((ob, st, err), wh)" and "status_sync T a (Some ob) w = ((Some ob1, err'), w1)"
    and "\<forall>x u y v. sh_UpdateStatus a x u = (Inr y, v) \<longrightarrow> ty_Status T y = ty_Status T x" and "sh_condition a \<noteq> ''''"
  shows "shows_outcome (sh_skip a) (sh_condition a) (shown err) (ty_Conditions T (ty_Status T ob1))"
proof -
  let ?st1 = "if err \<noteq> None then ty_Status T ob else st"
  let ?new = "ty_setConditions T (cond_SetError (sh_skip a) (sh_now a) (sh_condition a) '''' (shown err) (ty_Conditions T ?st1)) ?st1"
  let ?new2 = "ty_setConditions T (cond_LastUpdated (sh_condition a) (sh_now a) (ty_Conditions T ?new)) ?new"
  note sh = SetError_shows [of "sh_skip a" "sh_condition a" "shown err" "sh_now a" "ty_Conditions T ?st1"]
  show ?thesis
  proof (cases "ty_DeepEqual T (ty_Status T ob) ?new")
    case True
    then have "ob1 = ob" using assms(1,2,4) by (simp add: status_sync_def Let_def shown_def [symmetric])
    then show ?thesis using equal_conds [OF True] conds_set sh by simp
  next
    case False
    obtain y v where u: "sh_UpdateStatus a (ty_setStatus T ?new2 ob) wh = (y, v)" by fastforce
    have "ty_Status T ob1 = ?new2"
      using assms(1,2,4) False u assms(3) [rule_format, of _ wh] status_set
      by (cases y) (auto simp: status_sync_def Let_def shown_def [symmetric])
    then show ?thesis using conds_set LastUpdated_shows [OF sh] by simp
  qed
qed

lemma sync_settles:
  assumes "sh_handler a ob (ty_Status T ob) w = ((ob, st, err), wh)" and "status_sync T a (Some ob) w = ((Some ob1, err'), w1)"
    and "\<forall>x u y v. sh_UpdateStatus a x u = (Inr y, v) \<longrightarrow> ty_Status T y = ty_Status T x"
    and "sh_handler a ob1 (ty_Status T ob1) w2 = ((ob1, st2, err), w3)" and "err = None \<longrightarrow> st2 = ty_Status T ob1"
  shows "status_sync T (a\<lparr>sh_now := later\<rparr>) (Some ob1) w2 = ((Some ob1, err), w3)"
proof (rule sync_same)
  show "sh_handler (a\<lparr>sh_now := later\<rparr>) ob1 (ty_Status T ob1) w2 = ((ob1, st2, err), w3)" using assms(4) by simp
qed (use assms(5) sync_shows [OF assms(1-3)] in auto)

end

interpretation lb_st: status_type lb_type
  by unfold_locales (auto simp: lb_type_def)

interpretation pool_st: status_type pool_type
  by unfold_locales (auto simp: pool_type_def same_map_def list_all_iff)

interpretation lb1_st: status_type lb1_type
  by unfold_locales (auto simp: lb1_type_def)

text \<open>
  \<^bold>\<open>C38.\<close> A generated status handler comes to rest: after one run, whether the user's handler failed or not and
  whether the write was accepted or not, a second run on the object the first one returned, in which the
  user's handler gives the same outcome, writes nothing and returns the object and that outcome, at any later time. In
  particular the time stamp of the condition does not start a loop of updates.
\<close>

theorem generated_sync_settles:
  assumes "sh_handler a lb (lb_Status lb) w = ((lb, st, err), wh)" and "loadBalancer_sync a key (Some lb) w = ((Some lb1, err'), w1)"
    and "\<forall>x u y v. sh_UpdateStatus a x u = (Inr y, v) \<longrightarrow> lb_Status y = lb_Status x"
    and "sh_handler a lb1 (lb_Status lb1) w2 = ((lb1, st', err), w3)" and "err = None \<longrightarrow> st' = lb_Status lb1"
  shows "loadBalancer_sync (a\<lparr>sh_now := later\<rparr>) key (Some lb1) w2 = ((Some lb1, err), w3)"
proof -
  have T: "ty_Status lb_type = lb_Status" by (simp add: lb_type_def)
  show ?thesis
    using lb_st.sync_settles [of a lb w st err wh lb1 err' w1 w2 st' w3 later] assms unfolding T loadBalancer_sync_def by blast
qed

definition failing_handler :: "(LoadBalancer, LoadBalancerStatus, nat) StatusHandler" where
  "failing_handler = \<lparr>sh_UpdateStatus = (\<lambda>lb n. (Inr lb, Suc n)), sh_condition = ''Ready'',
     sh_handler = (\<lambda>lb s n. ((lb, s, Some (errorf ''no pool'')), n)), sh_skip = (\<lambda>e. False), sh_now = ''t0''\<rparr>"

definition new_lb :: LoadBalancer where
  "new_lb = ty_empty lb_type ''default'' ''lb1''"

definition failed_lb :: LoadBalancer where
  "failed_lb = new_lb\<lparr>lb_Status := (lb_Status new_lb)\<lparr>lbst_Conditions := [\<lparr>cond_Type = ''Ready'', cond_Status = ''False'',
     cond_LastUpdateTime = ''t0'', cond_LastTransitionTime = '''', cond_Reason = ''Error'', cond_Message = ''no pool''\<rparr>]\<rparr>\<rparr>"

lemma failing_run: "loadBalancer_sync failing_handler ''default/lb1'' (Some new_lb) 0 = ((Some failed_lb, Some (errorf ''no pool'')), 1)"
  by code_simp

theorem generated_sync_settles_witness:
  "loadBalancer_sync (failing_handler\<lparr>sh_now := ''t1''\<rparr>) ''default/lb1'' (Some failed_lb) 7 = ((Some failed_lb, Some (errorf ''no pool'')), 7)"
  by (rule generated_sync_settles [where st = "lb_Status new_lb" and wh = 0 and st' = "lb_Status failed_lb", OF _ failing_run])
    (simp_all add: failing_handler_def)

section \<open>The generating handler\<close>

text \<open>
  The resource versions already applied are a map from \<open>namespace/name\<close>, kept beside the rest of the
  world. \<open>gh_apply\<close> stands for the configured \<^verbatim>\<open>apply.Apply\<close> with the object as owner.
\<close>

record ('o, 's, 'c, 'w) GeneratingHandler =
  gh_handler :: "'o \<Rightarrow> 's \<Rightarrow> 'w \<Rightarrow> ('c list \<times> 's \<times> error option) \<times> 'w"
  gh_apply :: "'o \<Rightarrow> 'c list \<Rightarrow> 'w \<Rightarrow> error option \<times> 'w"
  gh_UniqueApply :: bool

type_synonym 'w seen = "(string, string) gomap \<times> 'w"

definition gen_key :: "('o, 's) StatusType \<Rightarrow> 'o \<Rightarrow> string" where
  "gen_key T ob = md_Namespace (ty_Meta T ob) @ ''/'' @ md_Name (ty_Meta T ob)"

definition isNewResourceVersion ::
  "('o, 's) StatusType \<Rightarrow> ('o, 's, 'c, 'w) GeneratingHandler \<Rightarrow> 'o \<Rightarrow> 'w seen \<Rightarrow> bool" where
  "isNewResourceVersion T a ob w =
     (if \<not> gh_UniqueApply a then True
      else (case m_get (fst w) (gen_key T ob) of None \<Rightarrow> True | Some previous \<Rightarrow> previous \<noteq> md_ResourceVersion (ty_Meta T ob)))"

definition storeResourceVersion ::
  "('o, 's) StatusType \<Rightarrow> ('o, 's, 'c, 'w) GeneratingHandler \<Rightarrow> 'o \<Rightarrow> 'w seen \<Rightarrow> 'w seen" where
  "storeResourceVersion T a ob w =
     (if \<not> gh_UniqueApply a then w else (m_set (gen_key T ob) (md_ResourceVersion (ty_Meta T ob)) (fst w), snd w))"

definition time_IsZero :: "string option \<Rightarrow> bool" where
  "time_IsZero t \<longleftrightarrow> t = None \<or> t = Some ''''"

definition gen_Handle ::
  "('o, 's) StatusType \<Rightarrow> ('o, 's, 'c, 'w) GeneratingHandler \<Rightarrow> 'o \<Rightarrow> 's \<Rightarrow> 'w seen \<Rightarrow> ('s \<times> error option) \<times> 'w seen" where
  "gen_Handle T a ob st w =
     (if \<not> time_IsZero (md_DeletionTimestamp (ty_Meta T ob)) then ((st, None), w)
      else
        let ((objs, newStatus, err), v) = gh_handler a ob st (snd w); w1 = (fst w, v) in
        if err \<noteq> None then ((newStatus, err), w1)
        else if \<not> isNewResourceVersion T a ob w1 then ((newStatus, None), w1)
        else (case gh_apply a ob objs v of
            (Some e, v2) \<Rightarrow> ((newStatus, Some e), (fst w, v2))
          | (None, v2) \<Rightarrow> ((newStatus, None), storeResourceVersion T a ob (fst w, v2))))"

text \<open>\<^verbatim>\<open>kv.RSplit(key, "/")\<close>: the parts before and after the first slash, without white space around them.\<close>

fun split_first :: "char \<Rightarrow> string \<Rightarrow> string \<times> string option" where
  "split_first c [] = ([], None)"
| "split_first c (x # xs) = (if x = c then ([], Some xs) else (case split_first c xs of (a, b) \<Rightarrow> (x # a, b)))"

definition RSplit :: "string \<Rightarrow> string \<times> string" where
  "RSplit key = (case split_first (CHR ''/'') key of
     (a, None) \<Rightarrow> ('''', Trim_space a) | (a, Some b) \<Rightarrow> (Trim_space a, Trim_space b))"

definition gen_Remove ::
  "('o, 's) StatusType \<Rightarrow> ('o, 's, 'c, 'w) GeneratingHandler \<Rightarrow> string \<Rightarrow> 'o option \<Rightarrow> 'w seen \<Rightarrow> ('o option \<times> error option) \<times> 'w seen" where
  "gen_Remove T a key ob w =
     (case ob of
        Some o' \<Rightarrow> ((Some o', None), w)
      | None \<Rightarrow>
          let (ns, n) = RSplit key; seen = (if gh_UniqueApply a then m_del key (fst w) else fst w);
              (err, v) = gh_apply a (ty_empty T ns n) [] (snd w)
          in ((None, err), (seen, v)))"

definition loadBalancer_Handle :: "(LoadBalancer, LoadBalancerStatus, 'c, 'w) GeneratingHandler \<Rightarrow> LoadBalancer \<Rightarrow> LoadBalancerStatus \<Rightarrow>
    'w seen \<Rightarrow> (LoadBalancerStatus \<times> error option) \<times> 'w seen" where
  "loadBalancer_Handle = gen_Handle lb_type"

definition loadBalancer_Remove :: "(LoadBalancer, LoadBalancerStatus, 'c, 'w) GeneratingHandler \<Rightarrow> string \<Rightarrow> LoadBalancer option \<Rightarrow>
    'w seen \<Rightarrow> (LoadBalancer option \<times> error option) \<times> 'w seen" where
  "loadBalancer_Remove = gen_Remove lb_type"

definition ipPool_Handle :: "(IPPool, IPPoolStatus, 'c, 'w) GeneratingHandler \<Rightarrow> IPPool \<Rightarrow> IPPoolStatus \<Rightarrow>
    'w seen \<Rightarrow> (IPPoolStatus \<times> error option) \<times> 'w seen" where
  "ipPool_Handle = gen_Handle pool_type"

definition ipPool_Remove :: "(IPPool, IPPoolStatus, 'c, 'w) GeneratingHandler \<Rightarrow> string \<Rightarrow> IPPool option \<Rightarrow>
    'w seen \<Rightarrow> (IPPool option \<times> error option) \<times> 'w seen" where
  "ipPool_Remove = gen_Remove pool_type"

definition loadBalancerV1_Handle :: "(LoadBalancerV1, LoadBalancerStatusV1, 'c, 'w) GeneratingHandler \<Rightarrow> LoadBalancerV1 \<Rightarrow>
    LoadBalancerStatusV1 \<Rightarrow> 'w seen \<Rightarrow> (LoadBalancerStatusV1 \<times> error option) \<times> 'w seen" where
  "loadBalancerV1_Handle = gen_Handle lb1_type"

definition loadBalancerV1_Remove :: "(LoadBalancerV1, LoadBalancerStatusV1, 'c, 'w) GeneratingHandler \<Rightarrow> string \<Rightarrow> LoadBalancerV1 option \<Rightarrow>
    'w seen \<Rightarrow> (LoadBalancerV1 option \<times> error option) \<times> 'w seen" where
  "loadBalancerV1_Remove = gen_Remove lb1_type"

text \<open>
  With \<^verbatim>\<open>UniqueApplyForResourceVersion\<close> the children of an object are applied once for each resource
  version: after a run that returned no error, a run on an object of the same name and version does
  nothing but call the user's handler, until the object is removed. A run whose \<^verbatim>\<open>Apply\<close> failed leaves the versions as they were.
\<close>

theorem applied_once_per_version:
  assumes "gh_UniqueApply a" and "time_IsZero (md_DeletionTimestamp (ty_Meta T ob))"
    and "gen_Handle T a ob st (seen, w) = ((st1, err), (seen1, w1))"
  shows "err \<noteq> None \<Longrightarrow> seen1 = seen"
    and "err = None \<Longrightarrow> ty_Meta T ob' = ty_Meta T ob \<Longrightarrow> gh_handler a ob' st' v = ((objs, st2, err2), v2) \<Longrightarrow>
      gen_Handle T a ob' st' (seen1, v) = ((st2, err2), (seen1, v2))"
    and "fst (snd (gen_Remove T a (gen_key T ob) None (seen1, v))) = m_del (gen_key T ob) seen1"
proof -
  obtain objs' sx e' u where h: "gh_handler a ob st w = ((objs', sx, e'), u)" by (metis prod.collapse)
  obtain ae u2 where ap: "gh_apply a ob objs' u = (ae, u2)" by fastforce
  have step: "case e' of
      Some e \<Rightarrow> err = Some e \<and> seen1 = seen
    | None \<Rightarrow>
        if isNewResourceVersion T a ob (seen, u) then
          (case ae of Some e \<Rightarrow> err = Some e \<and> seen1 = seen | None \<Rightarrow> err = None \<and> (seen1, w1) = storeResourceVersion T a ob (seen, u2))
        else err = None \<and> seen1 = seen"
    using assms(2,3) h ap by (auto simp: gen_Handle_def split: option.splits if_splits)
  show "err \<noteq> None \<Longrightarrow> seen1 = seen"
    using step by (auto simp: storeResourceVersion_def split: if_splits option.splits)
  have stored: "m_get seen1 (gen_key T ob) = Some (md_ResourceVersion (ty_Meta T ob))" if "err = None"
    using step assms(1) that
    by (auto simp: storeResourceVersion_def isNewResourceVersion_def m_get_set split: if_splits option.splits)
  show "gen_Handle T a ob' st' (seen1, v) = ((st2, err2), (seen1, v2))"
    if "err = None" "ty_Meta T ob' = ty_Meta T ob" "gh_handler a ob' st' v = ((objs, st2, err2), v2)"
  proof -
    have "\<not> isNewResourceVersion T a ob' (seen1, v2)"
      using stored [OF that(1)] that(2) assms(1) by (simp add: isNewResourceVersion_def gen_key_def)
    then show ?thesis using that(2,3) assms(2) by (auto simp: gen_Handle_def Let_def)
  qed
  show "fst (snd (gen_Remove T a (gen_key T ob) None (seen1, v))) = m_del (gen_key T ob) seen1"
    using assms(1) by (simp add: gen_Remove_def case_prod_beta Let_def)
qed

end
