(* ===== verification/Spec2Isabelle.thy ===== *)
theory Spec2Isabelle
  imports PoolProps ServiceLBProps AllocationRuns LBControllerProps ControllersProps KubeVipProps LBConverterProps
    LBV1alpha1 ProberRuns ClusterServices DeepCopyUse FileHelpers StatusSync
begin

text \<open>
  A verification library of the Harvester load balancer (\<^verbatim>\<open>github.com/harvester/load-balancer-harvester\<close>).

  \<^bold>\<open>The program.\<close> The program gives virtual machines and guest clusters of Harvester load
  balancers. An \<^verbatim>\<open>IPPool\<close> object lists address ranges and says in its selector whom it serves; a
  \<^verbatim>\<open>LoadBalancer\<close> object asks for an address and, for virtual machines, for a Service with
  health-checked endpoints. Two processes work on these objects. The webhook admits, completes and
  converts them. The controller reconciles them: the pool controller keeps an in-memory allocator per pool, the load
  balancer controller obtains an address from an allocator, has the service load balancer maintain
  the Service and its EndpointSlice, and writes the status; the VMI controller wakes up load balancers
  whose backends changed, and the VM controller deletes those of a guest cluster that is removed. The
  allocations of a pool are kept only in the status of the \<^verbatim>\<open>IPPool\<close> object, so they are safe only
  because an update with a stale resource version is refused.

  \<^bold>\<open>Theories.\<close>
  \<^item> \<open>Prelude\<close>: errors (a message and the sentinels \<^verbatim>\<open>errors.Is\<close> finds, or a panic), results
    \<open>error + 'a\<close>, Go maps as association lists, strings (\<^verbatim>\<open>Split\<close>, \<^verbatim>\<open>Trim\<close>, \<^verbatim>\<open>Itoa\<close>).
  \<^item> \<open>NetIP\<close>, \<open>NetIPLemmas\<close>: package \<^verbatim>\<open>net\<close> (addresses as byte lists, parsing and printing, masks) and the
    vendored \<^verbatim>\<open>plugins/pkg/ip/cidr.go\<close>; printing and parsing are inverse.
  \<^item> \<open>Ranges\<close>, \<open>RangesLemmas\<close>: \<^verbatim>\<open>MakeRange\<close>, \<^verbatim>\<open>countIP\<close> and the helpers of \<^verbatim>\<open>pkg/ipam/allocator.go\<close> and
    \<^verbatim>\<open>rangeset.go\<close>, the vendored \<^verbatim>\<open>range.go\<close> and \<^verbatim>\<open>range_set.go\<close>.
  \<^item> \<open>ApiTypes\<close>, \<open>KubeAPI\<close>, \<open>KubeObjects\<close>: the objects as records, the conditions, the listers and
    clients as records of functions, \<^verbatim>\<open>pkg/utils\<close>. The locale \<open>pool_api\<close> states optimistic
    concurrency; it is interpreted on \<open>PoolServer\<close>, a server with a cache that lags behind.
  \<^item> \<open>Store\<close>: \<^verbatim>\<open>pkg/ipam/store\<close>. The locale \<open>backend_store\<close> is the contract of the plugin's store
    interface; it is interpreted on the fake store, and for the store in the object by a sublocale of \<open>pool_api\<close>.
  \<^item> \<open>IPAllocator\<close>, \<open>IPAllocatorLemmas\<close>: the vendored host-local allocator and iterator and
    \<^verbatim>\<open>pkg/ipam/allocator.go\<close>; what \<^verbatim>\<open>Get\<close> does is proved once against \<open>backend_store\<close>.
  \<^item> \<open>PoolSelector\<close>, \<open>PoolWebhook\<close>: \<^verbatim>\<open>pkg/ipam/selector.go\<close> and \<^verbatim>\<open>pkg/webhook/ippool\<close>.
  \<^item> \<open>Prober\<close>, \<open>ProberUse\<close>: \<^verbatim>\<open>pkg/prober\<close>, the registry of workers and the worker loop as steps; the
    locale \<open>prober_registry\<close> is what the service load balancer relies on. \<open>ProberRuns\<close>: the goroutines, the unbuffered
    channels and the lock of the manager one step at a time.
  \<^item> \<open>ServiceLB\<close>, \<open>LBController\<close>, \<open>Controllers\<close>, \<open>KubeVip\<close>: \<^verbatim>\<open>pkg/lb\<close>, \<^verbatim>\<open>pkg/controller/loadbalancer\<close>,
    \<^verbatim>\<open>pkg/controller/ippool\<close>, \<^verbatim>\<open>vm\<close> and \<^verbatim>\<open>vmi\<close>, and the conversion of the kube-vip configuration, whose
    shared pointers are indices into a heap.
  \<^item> \<open>LBWebhook\<close>, \<open>LBConverter\<close>, \<open>LBV1alpha1\<close>: \<^verbatim>\<open>pkg/webhook/loadbalancer\<close>, the converter over unstructured values,
    and the types of v1alpha1 with their JSON form.
  \<^item> \<open>ClusterPools\<close>, \<open>ClusterModel\<close>, \<open>ClusterRuns\<close>, \<open>ClusterProps\<close>, \<open>ClusterProgress\<close>: a cluster in which the pool controller and the load
    balancer controller run. Its state is the stored pools and load balancers and the caches of both; its steps are what users do,
    with the consent of the webhooks, what informers deliver, and the handlers of \<open>Controllers\<close> and
    \<open>LBController\<close>, unchanged. It interprets \<open>pool_api\<close> again, so the results on allocation hold in it. \<open>ClusterServices\<close> adds the
    manager of the services of \<open>ServiceLB\<close> with the program's own state of services, slices and probers; the locale
    \<open>service_api\<close> is what it needs of the Service client.
  \<^item> \<open>GoHeap\<close>, \<open>ApiHeap\<close>, \<open>DeepCopy\<close>, \<open>DeepCopyUse\<close>: a heap of cells with the pointers, slices and maps of Go, the
    objects as they lie in it, the generated deep copies of both API versions, and the store's writes to a copy. The locale \<open>copier\<close> is the
    contract of a copy; it is interpreted on the copies of all objects and their lists.
  \<^item> \<open>StatusSync\<close>: the status and generating handlers of \<^verbatim>\<open>pkg/generated/controllers\<close> for the program's own types. The
    locale \<open>status_type\<close> is what they need of a type.
  \<^item> \<open>FileHelpers\<close>: \<^verbatim>\<open>subdirectory.go\<close> and \<^verbatim>\<open>yaml.go\<close> of \<^verbatim>\<open>pkg/utils\<close>.
  \<^item> \<open>IpamProps\<close>, \<open>PoolProps\<close>, \<open>AllocationRuns\<close>, \<open>LBControllerLemmas\<close>, \<open>LBControllerProps\<close>, \<open>ServiceLBProps\<close>,
    \<open>ControllersProps\<close>, \<open>KubeVipProps\<close>, \<open>LBConverterProps\<close>: the properties and their examples.

  \<^bold>\<open>State and effects.\<close> A function that only reads the cluster takes the world as an argument; one
  that may write returns the new world. The world is a type variable: the model never looks into it,
  it only passes it to the listers and clients. The map of allocators and the prober manager, which the
  program shares between goroutines under a lock, are values passed and returned; an operation under the lock is one
  step. A copy of an object that a handler changes is a changed record, returned by the step that changes it; that the writes
  to a deep copy on the heap amount to that is shown for the store in \<open>DeepCopyUse\<close>. A handler
  returns the object and the error it returns in Go, both of which may be nil. A panic is an error value of its own kind that
  every caller passes on; \<open>handleError\<close> returns it without writing, as nothing recovers from it.
  An allocation and a reconciliation are one step each in the runs: the lock of the store does nothing in the code, so a cache update could
  fall between two reads of one allocation, which is not a step of the model.

  \<^bold>\<open>What is shown.\<close>
  \<^item> Addresses: a range that is accepted lies in its subnet and has the documented defaults, overlap is exact, and
    the count of a range is exact below \<open>2 ^ 63\<close>; above, where Go leaves \<^verbatim>\<open>big.Int.Int64\<close> undefined, the model takes the low 64 bits, which is
    what the implementation does. The total of an accepted IPv4 pool is exact. Allocation always returns, hands out only free addresses of the ranges
    that are not gateways, finds one whenever one is free in the cached pool, and gives an applicant its old address
    back. In every interleaving of allocations, releases and cache updates no address is given out
    twice, and the allocator refines an abstract ledger.
  \<^item> The controllers together: in every reachable state of the cluster, the address of a live load balancer is
    recorded for it in its pool and no two live load balancers share one. This is under conditions that the step relation \<open>cluster_step\<close> states: a load
    balancer is reconciled only when the cache holds its stored version, no reconciliation panics, and users do not write
    the status of an object. The first one is needed: the informer may hand over an older object, and a run of the same handlers shows that from a stale
    cache the same address ends up with two load balancers.
    With caches that are up to date, a pool with an allocator and a free address, and neither a record nor a history entry of the load balancer,
    one reconciliation gives a guest cluster load balancer an address; another run shows a removal that
    can never finish.
    The results hold for any manager of services that leaves pools and load balancers
    alone, and the program's own does. With it, a virtual machine load balancer that has an address of the pool it asks for and is reported ready
    has its service, with its address and listeners, if the cache of services was up to date when the reconciliation began; and a run shows a service that keeps an address its load balancer gave back while another load balancer has it.
  \<^item> Admission: accepted pools are disjoint, keep what is allocated, and the pool that is selected in strict mode does not depend on the order of the list when
    of every two pools one was checked against the other; which load balancers are accepted; the mutators are idempotent and
    what they produce is accepted unless the listeners are at fault.
  \<^item> The load balancer controller: a reconciliation changes only the records of its own load
    balancer, recovers from a lost status update, settles, and releases on removal.
  \<^item> The pool controller keeps the allocators in order and the numbers of the status exact.
  \<^item> The service load balancer: the endpoints are those of the backends, a worker runs for each of them,
    one goroutine per worker in every reachable state, a report reaches its endpoint, the dummy endpoint is present exactly when no other is
    ready, and \<^verbatim>\<open>EnsureBackendServers\<close> does not panic.
  \<^item> The goroutines of the prober: an operation that stops workers can always finish, a stopped worker is
    silent, and the reports taken from a worker are those that its own probes call for, in order. A worker whose period is not
    positive panics when it starts; the seconds of an accepted health check give a positive period up to 9223372036.
  \<^item> The conversions: a v1alpha1 load balancer with a status and no nil listener is converted or refused without a panic, and
    the converted object has its listeners and names the pool that records its address; when the conversion of a stored object
    panics is stated exactly: when the status is missing, or a listener is nil and the address part succeeds; the subnet
    of a kube-vip range is the smallest one.
  \<^item> Memory: a deep copy always returns, reads as the original and shares no cell with it, and the writes
    of the store to a copy are the updates of the record, the cached object staying as it was.
  \<^item> Helpers: a generated status handler comes to rest after one run; \<^verbatim>\<open>GetSubdirectories\<close> and \<^verbatim>\<open>ParseFromFile\<close>
    return what the tree and the documents hold, or the first error.

  \<^bold>\<open>Loops.\<close> \<^verbatim>\<open>RangeIter.Next\<close>, the search of \<^verbatim>\<open>IPAllocator.Get\<close> and the loop of \<^verbatim>\<open>ParseFromFile\<close> are \<open>partial_function (option)\<close>: that
  they return is part of the theorems. All other loops are structural. The loop
  of a probe worker, which runs until it is stopped, is a step function. The example runs of \<open>ClusterProps\<close>, \<open>ClusterProgress\<close> and \<open>ClusterServices\<close> compute
  the two loops of the allocator with fuel 9, more than the addresses of their pool, and a lemma says that a result with fuel is the result.

  \<^bold>\<open>Parameters.\<close> The listers, clients and work queues, the result of a TCP probe, SHA-256, the JSON decoder of the kube-vip
  services, the reader and the decoder of YAML documents, the handler and the \<^verbatim>\<open>Apply\<close> given to a generated handler,
  the validation of label requirements and the clock. A Go map is a list in some order;
  theorems whose conclusion could depend on the order of iteration have hypotheses that exclude it.
  A theorem about the addresses of a range assumes that its subnet is one \<open>served_net\<close> describes: any IPv4
  subnet, or an IPv6 subnet of more than one address outside the lowest \<open>2 ^ 48\<close> addresses, which contain the
  IPv4-mapped ones that the code takes for IPv4.

  \<^bold>\<open>Not modelled.\<close> Start-up, flags, leader election and the \<^verbatim>\<open>Register\<close> and \<^verbatim>\<open>Resource\<close> functions
  (\<^verbatim>\<open>main.go\<close>, \<^verbatim>\<open>cmd/webhook\<close>, \<^verbatim>\<open>pkg/config\<close>): wiring without logic. The generated clientsets, typed clients, informer
  factories and scheme registrations, which construct client library objects and forward to them. The generated
  handlers of the kubevirt types, whose status a third party defines. The fake clients, adapters of the tests most of whose methods
  panic. The TCP checker of the prober, a third-party
  package, and the loop it starts. Log lines, except one that panics.
\<close>

end
